(* ===== verification/Prelude.thy ===== *)
theory Prelude
  imports Main "HOL-Library.Word"
begin

text \<open>
  Shared vocabulary of the development: the Go integer types at their width, byte slices,
  the result type of fallible Go functions, big-endian byte strings, and the generic lemmas
  on words, lists and maps that the component theories use.

  Conventions.
  \<^item> \<open>uint8\<close>, \<open>uint16\<close>, \<open>uint32\<close>, \<open>uint64\<close> are machine words of that width, whose arithmetic
    wraps around as in Go. \<open>*big.Int\<close> is \<^typ>\<open>int\<close>. Lengths of slices are \<^typ>\<open>nat\<close>.
  \<^item> \<open>common.Hash\<close> (\<open>[32]byte\<close>) is a 256-bit word and \<open>common.Address\<close> (\<open>[20]byte\<close>, also
    \<open>account.Recipient\<close>) a 160-bit word.
  \<^item> A function that returns an error or panics has a result in \<open>go_error + 'a\<close>: \<open>Inl\<close> carries
    the error. The text of a message is kept, its formatted arguments are not.
\<close>

type_synonym u8 = "8 word"
type_synonym u16 = "16 word"
type_synonym u32 = "32 word"
type_synonym u64 = "64 word"
type_synonym bytes = "8 word list"
type_synonym hash = "256 word"
type_synonym recipient = "160 word"

datatype go_error = GoError string | GoPanic string

type_synonym 'a res = "go_error + 'a"

definition bind_res :: "'e + 'a \<Rightarrow> ('a \<Rightarrow> 'e + 'b) \<Rightarrow> 'e + 'b" where
  "bind_res r f = (case r of Inl e \<Rightarrow> Inl e | Inr x \<Rightarrow> f x)"

text \<open>A Go string is a byte sequence; \<open>str\<close> turns an ASCII literal into one.\<close>

definition str :: "string \<Rightarrow> bytes" where
  "str s = map of_char s"

text \<open>Big-endian byte strings: \<open>be_bytes n v\<close> is what \<open>binary.BigEndian.PutUint\<close> stores
  for an \<open>n\<close>-byte value, \<open>be_value\<close> what \<open>binary.BigEndian.Uint\<close> reads back.\<close>

fun be_bytes :: "nat \<Rightarrow> nat \<Rightarrow> bytes" where
  "be_bytes 0 v = []"
| "be_bytes (Suc n) v = be_bytes n (v div 256) @ [of_nat (v mod 256)]"

definition be_value :: "bytes \<Rightarrow> nat" where
  "be_value bs = foldl (\<lambda>acc b. 256 * acc + unat b) 0 bs"

text \<open>\<open>bits.Len\<close>: the number of bits needed to write a number, 0 for 0.\<close>

fun bit_len :: "nat \<Rightarrow> nat" where
  "bit_len n = (if n = 0 then 0 else Suc (bit_len (n div 2)))"

declare bit_len.simps [simp del]

named_theorems go_unfold \<open>definitional unfoldings of straight-line Go code\<close>
named_theorems word_nat \<open>transfer of word arithmetic to natural numbers\<close>

subsection \<open>Results\<close>

lemma bind_res_simps [simp]:
  "bind_res (Inl e) f = Inl e"
  "bind_res (Inr x) f = f x"
  by (simp_all add: bind_res_def)

lemma bind_res_Inr_iff:
  "bind_res r f = Inr y \<longleftrightarrow> (\<exists>x. r = Inr x \<and> f x = Inr y)"
  by (cases r) auto

lemma bind_res_assoc:
  "bind_res (bind_res r f) g = bind_res r (\<lambda>x. bind_res (f x) g)"
  by (cases r) auto

subsection \<open>Big-endian bytes\<close>

lemma unat_u8_lt: "unat (b :: u8) < 256"
  using unsigned_less [of b] by simp

lemma length_be_bytes [simp]: "length (be_bytes n v) = n"
  by (induction n arbitrary: v) auto

lemma be_value_Nil [simp]: "be_value [] = 0"
  by (simp add: be_value_def)

lemma be_value_snoc [simp]: "be_value (bs @ [b]) = 256 * be_value bs + unat b"
  by (simp add: be_value_def)

lemma be_value_be_bytes: "be_value (be_bytes n v) = v mod 256 ^ n"
proof (induction n arbitrary: v)
  case (Suc n)
  have "unat (of_nat (v mod 256) :: u8) = v mod 256"
    by (simp add: unat_of_nat)
  then have "be_value (be_bytes (Suc n) v) = 256 * (v div 256 mod 256 ^ n) + v mod 256"
    by (simp add: Suc.IH)
  also have "\<dots> = v mod 256 ^ Suc n"
    using mod_mult2_eq [of v 256 "256 ^ n"] by (simp add: algebra_simps)
  finally show ?case .
qed simp

lemma be_value_lt: "be_value bs < 256 ^ length bs"
proof (induction bs rule: rev_induct)
  case (snoc b bs)
  have "256 * be_value bs + unat b < 256 * Suc (be_value bs)"
    using unat_u8_lt [of b] by simp
  also have "\<dots> \<le> 256 * 256 ^ length bs"
    using snoc by (intro mult_left_mono) auto
  finally show ?case by simp
qed simp

lemma be_bytes_be_value: "be_bytes (length bs) (be_value bs) = bs"
proof (induction bs rule: rev_induct)
  case (snoc b bs)
  have b: "unat b < 256" by (rule unat_u8_lt)
  then have "(256 * be_value bs + unat b) div 256 = be_value bs"
    "(256 * be_value bs + unat b) mod 256 = unat b" by simp_all
  with snoc show ?case by simp
qed simp

subsection \<open>Words\<close>

lemma unat_lt_exp: "unat (w :: 'a::len word) < 2 ^ LENGTH('a)"
  by (rule unsigned_less)

lemma unat_add_lt [word_nat]:
  fixes a b :: "'a::len word"
  assumes "unat a + unat b < 2 ^ LENGTH('a)"
  shows "unat (a + b) = unat a + unat b"
  using assms by (simp add: unat_word_ariths)

lemma unat_mult_lt [word_nat]:
  fixes a b :: "'a::len word"
  assumes "unat a * unat b < 2 ^ LENGTH('a)"
  shows "unat (a * b) = unat a * unat b"
  using assms by (simp add: unat_word_ariths)

lemma unat_minus_le [word_nat]:
  fixes a b :: "'a::len word"
  assumes "unat b \<le> unat a"
  shows "unat (a - b) = unat a - unat b"
  using assms by (simp add: unat_sub word_le_nat_alt)

lemma unat_ucast_lt [word_nat]:
  fixes a :: "'a::len word"
  assumes "unat a < 2 ^ LENGTH('b::len)"
  shows "unat (ucast a :: 'b word) = unat a"
  using assms by (simp add: unsigned_ucast_eq take_bit_nat_eq_self)

lemma word_one_le_iff: "1 \<le> (w :: 'a::len word) \<longleftrightarrow> w \<noteq> 0"
  by (metis word_less_1 not_le)

lemmas word_cmp_nat = word_le_nat_alt word_less_nat_alt

subsection \<open>Top bits and low bits\<close>

unbundle bit_operations_syntax

lemma bit_len_0 [simp]: "bit_len 0 = 0"
  by (simp add: bit_len.simps)

lemma bit_len_pos: "n \<noteq> 0 \<Longrightarrow> bit_len n = Suc (bit_len (n div 2))"
  by (simp add: bit_len.simps)

lemma bit_len_eq:
  "2 ^ k \<le> n \<Longrightarrow> n < 2 ^ Suc k \<Longrightarrow> bit_len n = Suc k"
proof (induction k arbitrary: n)
  case 0
  then have "n = 1" by simp
  then show ?case by (simp add: bit_len_pos)
next
  case (Suc k)
  have "bit_len (n div 2) = Suc k"
    by (rule Suc.IH) (use Suc.prems in auto)
  moreover have "n \<noteq> 0" using Suc.prems(1) by (metis power_not_zero zero_neq_numeral le_zero_eq)
  ultimately show ?case by (simp add: bit_len_pos)
qed

text \<open>Every positive number is a power of two plus a smaller rest.\<close>

lemma top_bit_split:
  fixes n :: nat
  assumes "n \<noteq> 0"
  obtains k r where "n = 2 ^ k + r" "r < 2 ^ k"
proof -
  obtain k where "2 ^ k \<le> n" "n < 2 ^ Suc k"
  proof -
    have "\<exists>k. 2 ^ k \<le> n \<and> n < 2 ^ Suc k"
      using assms
    proof (induction n rule: less_induct)
      case (less n)
      show ?case
      proof (cases "n = 1")
        case False
        then have "n div 2 < n" "n div 2 \<noteq> 0" using less.prems by auto
        then obtain k where "2 ^ k \<le> n div 2" "n div 2 < 2 ^ Suc k" using less.IH by blast
        then have "2 ^ Suc k \<le> n" "n < 2 ^ Suc (Suc k)" by auto
        then show ?thesis by blast
      qed (auto intro: exI [of _ 0])
    qed
    with that show ?thesis by blast
  qed
  with that [of k "n - 2 ^ k"] show ?thesis by auto
qed

lemma and_exp_lt_0:
  fixes r :: nat
  assumes "r < 2 ^ k"
  shows "2 ^ k AND r = 0" "r AND 2 ^ k = 0"
proof -
  have "take_bit k r = r" using assms by (simp add: take_bit_nat_eq_self)
  moreover have "2 ^ k AND take_bit k r = 0"
    by (rule bit_eqI) (auto simp: bit_simps)
  ultimately show "2 ^ k AND r = 0" by simp
  then show "r AND 2 ^ k = 0" by (simp add: and.commute)
qed

lemma or_exp_add:
  fixes r :: nat
  assumes "r < 2 ^ k"
  shows "2 ^ k OR r = 2 ^ k + r"
  using disjunctive_add_eq_or [of "2 ^ k" r] and_exp_lt_0 [OF assms] by simp

lemma xor_exp_cancel:
  fixes r :: nat
  assumes "r < 2 ^ k"
  shows "(2 ^ k + r) XOR 2 ^ k = r"
proof -
  have "2 ^ k + r = r XOR 2 ^ k"
    using disjunctive_add_eq_xor [of r "2 ^ k"] and_exp_lt_0 [OF assms] by (simp add: add.commute)
  then show ?thesis by (simp add: xor.assoc)
qed

lemma push_or_add:
  fixes r :: nat
  assumes "r < 2 ^ k"
  shows "(c * 2 ^ k) OR r = c * 2 ^ k + r"
proof -
  have "take_bit k r = r" using assms by (simp add: take_bit_nat_eq_self)
  moreover have "push_bit k c AND take_bit k r = 0"
    by (rule bit_eqI) (auto simp: bit_simps)
  ultimately show ?thesis
    using disjunctive_add_eq_or [of "push_bit k c" r] by (simp add: push_bit_eq_mult)
qed

lemma unat_and_mask [word_nat]:
  fixes w :: "'a::len word"
  shows "unat (w AND mask n) = unat w mod 2 ^ n"
  by (metis take_bit_eq_mask take_bit_eq_mod unsigned_take_bit_eq)

lemma unat_or_xor [word_nat]:
  fixes a b :: "'a::len word"
  shows "unat (a OR b) = unat a OR unat b" "unat (a XOR b) = unat a XOR unat b"
  by (simp_all add: unsigned_or_eq unsigned_xor_eq)

lemma unat_drop_bit_div [word_nat]:
  fixes w :: "'a::len word"
  shows "unat (drop_bit n w) = unat w div 2 ^ n"
  by (metis drop_bit_eq_div unat_drop_bit_eq)

lemma unat_exp_word [word_nat]:
  assumes "k < LENGTH('a::len)"
  shows "unat (2 ^ k :: 'a word) = 2 ^ k"
proof -
  have "unat (of_nat (2 ^ k) :: 'a word) = 2 ^ k"
    by (subst unat_of_nat) (use assms in \<open>simp add: power_strict_increasing\<close>)
  then show ?thesis by simp
qed

end
