(* ===== verification/TokenCodec.thy ===== *)
theory TokenCodec
  imports Prelude
begin

text \<open>
  The token-name codec of \<open>common/token_codec.go\<close>: a name of one to twelve characters from
  \<open>0-9A-Z\<close> is a 64-bit token id in bijective base 36. The loops of \<open>TokenIDEncode\<close> and
  \<open>TokenIdDecode\<close> are modelled on 64-bit words, so that the absence of overflow is proved and
  not assumed; \<open>bij36\<close> is the reference numeration they are compared with.
\<close>

section \<open>The code\<close>

definition TOKENBASE :: u64 where "TOKENBASE = 36"
definition TOKENIDMAX :: u64 where "TOKENIDMAX = 4873763662273663091"

definition TokenCharEncode :: "u8 \<Rightarrow> u64 res" where
  "TokenCharEncode char =
     (if 65 \<le> char \<and> char \<le> 90 then Inr (10 + ucast (char - 65))
      else if 48 \<le> char \<and> char \<le> 57 then Inr (ucast (char - 48))
      else Inl (GoPanic ''unknown character''))"

definition TokenCharDecode :: "u64 \<Rightarrow> u8 res" where
  "TokenCharDecode cid =
     (if \<not> (cid < TOKENBASE \<and> 0 \<le> cid) then Inl (GoError ''incalid char'')
      else if cid < 10 then Inr (ucast (48 + cid))
      else Inr (ucast (65 + cid - 10)))"

text \<open>The \<open>for index := len - 2; index >= 0; index--\<close> loop; the argument \<open>Suc i\<close> stands for
  \<open>index = i\<close> and \<open>0\<close> for the loop's exit.\<close>

fun TokenIDEncode_loop :: "bytes \<Rightarrow> nat \<Rightarrow> u64 \<Rightarrow> u64 \<Rightarrow> u64 res" where
  "TokenIDEncode_loop name 0 tid base = Inr tid"
| "TokenIDEncode_loop name (Suc i) tid base =
     (case TokenCharEncode (name ! i) of
        Inl e \<Rightarrow> Inl e
      | Inr c \<Rightarrow> TokenIDEncode_loop name i (tid + base * (c + 1)) (base * TOKENBASE))"

definition TokenIDEncode :: "bytes \<Rightarrow> u64 res" where
  "TokenIDEncode name =
     (if 13 \<le> length name then Inl (GoPanic ''name too long'')
      else if name = [] then Inl (GoPanic ''index out of range'')
      else case TokenCharEncode (name ! (length name - 1)) of
             Inl e \<Rightarrow> Inl e
           | Inr tid \<Rightarrow> TokenIDEncode_loop name (length name - 1) tid TOKENBASE)"

text \<open>\<open>ReverseString\<close> prepends the runes of its argument one by one. Its only caller hands it
  ASCII bytes (lemmas \<open>TokenIdDecode_value\<close> and \<open>valid_char_ascii\<close> below), for which a rune is one byte.\<close>

definition ReverseString :: "bytes \<Rightarrow> bytes" where
  "ReverseString s = foldl (\<lambda>result v. [v] @ result) [] s"

text \<open>The \<open>for id >= 0\<close> loop of \<open>TokenIdDecode\<close>, with \<open>name\<close> the bytes appended so far.\<close>

function TokenIdDecode_loop :: "u64 \<Rightarrow> bytes \<Rightarrow> bytes res" where
  "TokenIdDecode_loop tid name =
     (case TokenCharDecode (tid mod TOKENBASE) of
        Inl e \<Rightarrow> Inl e
      | Inr t \<Rightarrow>
          if tid div TOKENBASE < 1 then Inr (ReverseString (name @ [t]))
          else TokenIdDecode_loop (tid div TOKENBASE - 1) (name @ [t]))"
  by pat_completeness auto
termination
proof (relation "measure (\<lambda>(tid, name). unat tid)", simp)
  fix tid :: u64 and t :: u8 and name :: bytes
  assume "\<not> tid div TOKENBASE < 1"
  then have "1 \<le> tid div TOKENBASE" by (simp only: not_less)
  then have "1 \<le> unat tid div 36"
    by (simp add: TOKENBASE_def word_le_nat_alt unat_div)
  then have "unat (tid div TOKENBASE - 1) < unat tid"
    by (simp add: TOKENBASE_def unat_sub word_le_nat_alt unat_div)
  then show "((tid div TOKENBASE - 1, name @ [t]), (tid, name)) \<in> measure (\<lambda>(tid, name). unat tid)"
    by simp
qed

declare TokenIdDecode_loop.simps [simp del]

definition TokenIdDecode :: "u64 \<Rightarrow> bytes res" where
  "TokenIdDecode tid =
     (if tid > TOKENIDMAX then Inl (GoError ''it too big or negative'')
      else case TokenCharDecode (tid mod TOKENBASE) of
             Inl e \<Rightarrow> Inl e
           | Inr t \<Rightarrow>
               if tid div TOKENBASE < 1 then Inr [t]
               else TokenIdDecode_loop (tid div TOKENBASE - 1) [t])"

section \<open>Reference numeration\<close>

definition valid_char :: "u8 \<Rightarrow> bool" where
  "valid_char c \<longleftrightarrow> (65 \<le> c \<and> c \<le> 90) \<or> (48 \<le> c \<and> c \<le> 57)"

definition valid_name :: "bytes \<Rightarrow> bool" where
  "valid_name s \<longleftrightarrow> s \<noteq> [] \<and> length s \<le> 12 \<and> list_all valid_char s"

text \<open>The digit of a character, and the value of a digit string in bijective base 36, whose
  digits count from one.\<close>

definition char_digit :: "u8 \<Rightarrow> nat" where
  "char_digit c = (if 65 \<le> c \<and> c \<le> 90 then unat c - 55 else unat c - 48)"

definition bij36 :: "nat list \<Rightarrow> nat" where
  "bij36 ds = foldl (\<lambda>v d. 36 * v + Suc d) 0 ds"

section \<open>Characters\<close>

lemma TokenCharEncode_valid:
  assumes "valid_char c"
  shows "\<exists>d. TokenCharEncode c = Inr d \<and> unat d = char_digit c \<and> unat d < 36"
proof (cases "65 \<le> c \<and> c \<le> 90")
  case True
  then have c: "65 \<le> unat c" "unat c \<le> 90" by (simp_all add: word_le_nat_alt)
  then have m: "unat (c - 65) = unat c - 65" by (simp add: unat_sub word_le_nat_alt)
  have "unat (10 + ucast (c - 65) :: u64) = unat c - 55"
    using c m by (simp add: unat_add_lt unat_ucast_lt)
  with True c show ?thesis
    by (simp add: TokenCharEncode_def char_digit_def)
next
  case False
  with assms have v: "48 \<le> c \<and> c \<le> 57" by (simp add: valid_char_def)
  then have c: "48 \<le> unat c" "unat c \<le> 57" by (simp_all add: word_le_nat_alt)
  then have m: "unat (c - 48) = unat c - 48" by (simp add: unat_sub word_le_nat_alt)
  have "unat (ucast (c - 48) :: u64) = unat c - 48"
    using c m by (simp add: unat_ucast_lt)
  with False v c show ?thesis
    by (auto simp: TokenCharEncode_def char_digit_def)
qed

lemma TokenCharEncode_Inr_iff: "(\<exists>d. TokenCharEncode c = Inr d) \<longleftrightarrow> valid_char c"
  by (auto simp: TokenCharEncode_def valid_char_def)

lemma TokenCharDecode_spec:
  assumes "unat d < 36"
  shows "\<exists>c. TokenCharDecode d = Inr c \<and> valid_char c \<and> char_digit c = unat d"
proof (cases "unat d < 10")
  case True
  have "unat (ucast (48 + d) :: u8) = 48 + unat d"
    using True by (simp add: unsigned_ucast_eq take_bit_nat_eq_self_iff unat_word_ariths)
  then show ?thesis
    using assms True
    by (simp add: TokenCharDecode_def TOKENBASE_def valid_char_def char_digit_def
        word_less_nat_alt word_le_nat_alt)
next
  case False
  have "unat (65 + d - 10) = 55 + unat d"
    using False assms by (simp add: unat_sub word_le_nat_alt unat_word_ariths)
  then have "unat (ucast (65 + d - 10) :: u8) = 55 + unat d"
    using assms by (simp add: unsigned_ucast_eq take_bit_nat_eq_self_iff)
  then show ?thesis
    using assms False
    by (simp add: TokenCharDecode_def TOKENBASE_def valid_char_def char_digit_def
        word_less_nat_alt word_le_nat_alt)
qed

lemma char_digit_lt: "valid_char c \<Longrightarrow> char_digit c < 36"
  using TokenCharEncode_valid [of c] by auto

lemma char_digit_inj:
  assumes "valid_char c" "valid_char d" "char_digit c = char_digit d"
  shows "c = d"
proof -
  have "unat c = unat d"
    using assms by (auto simp: valid_char_def char_digit_def word_le_nat_alt split: if_splits)
  then show ?thesis by (simp add: word_unat_eq_iff)
qed

lemma map_char_digit_inj:
  "\<lbrakk>list_all valid_char s; list_all valid_char t; map char_digit s = map char_digit t\<rbrakk> \<Longrightarrow> s = t"
proof (induction s arbitrary: t)
  case (Cons c s)
  then obtain d t' where "t = d # t'" "char_digit c = char_digit d" "map char_digit s = map char_digit t'"
    by (cases t) auto
  with Cons show ?case by (auto intro: char_digit_inj)
qed simp

section \<open>Bijective base 36\<close>

lemma bij36_Nil [simp]: "bij36 [] = 0"
  by (simp add: bij36_def)

lemma bij36_snoc [simp]: "bij36 (ds @ [d]) = 36 * bij36 ds + Suc d"
  by (simp add: bij36_def)

lemma bij36_inj:
  "\<lbrakk>list_all (\<lambda>d. d < 36) ds; list_all (\<lambda>d. d < 36) es; bij36 ds = bij36 es\<rbrakk> \<Longrightarrow> ds = es"
proof (induction ds arbitrary: es rule: rev_induct)
  case Nil
  then show ?case by (cases es rule: rev_cases) auto
next
  case (snoc d ds)
  then obtain e es' where es: "es = es' @ [e]"
    by (cases es rule: rev_cases) auto
  have lt: "d < 36" "e < 36" and eq: "36 * bij36 ds + d = 36 * bij36 es' + e"
    using snoc.prems es by auto
  from lt have "d = (36 * bij36 ds + d) mod 36" by simp
  also have "\<dots> = e" using lt by (simp add: eq)
  finally have "d = e" .
  with eq have "bij36 ds = bij36 es'" by simp
  with snoc es \<open>d = e\<close> show ?case by auto
qed

text \<open>A string of \<open>n\<close> digits has a value below the sum of the powers of 36 up to \<open>n\<close>; twelve
  digits reach exactly the constant \<open>TOKENIDMAX\<close> of the source.\<close>

lemma bij36_le:
  "list_all (\<lambda>d. d < 36) ds \<Longrightarrow> 35 * bij36 ds + 36 \<le> 36 * 36 ^ length ds"
proof (induction ds rule: rev_induct)
  case (snoc d ds)
  then have "d \<le> 35" "35 * bij36 ds + 36 \<le> 36 * 36 ^ length ds" by auto
  then show ?case by simp
qed simp

lemma bij36_name_le:
  assumes "list_all (\<lambda>d. d < 36) ds" "length ds \<le> 12"
  shows "bij36 ds \<le> Suc (unat TOKENIDMAX)"
proof -
  have "(36::nat) ^ length ds \<le> 36 ^ 12" using assms(2) by (intro power_increasing) auto
  with bij36_le [OF assms(1)] show ?thesis by (simp add: TOKENIDMAX_def)
qed

lemma bij36_length_le:
  assumes "bij36 ds \<le> Suc (unat TOKENIDMAX)"
  shows "length ds \<le> 12"
proof (rule ccontr)
  assume "\<not> length ds \<le> 12"
  have ge: "36 ^ length ds \<le> 35 * bij36 ds + (1::nat)" for ds
    by (induction ds rule: rev_induct) auto
  have "(36::nat) ^ 13 \<le> 36 ^ length ds"
    using \<open>\<not> length ds \<le> 12\<close> by (intro power_increasing) auto
  with ge [of ds] assms show False by (simp add: TOKENIDMAX_def)
qed

section \<open>Encoding\<close>

text \<open>The accumulator form of the encoding loop: what is left of the name contributes its
  bijective value times the current base, as long as that stays below \<open>2^64\<close>.\<close>

lemma TokenIDEncode_loop_value:
  assumes "list_all valid_char (take i name)" "i \<le> length name"
    and "unat tid + unat base * bij36 (map char_digit (take i name)) < 2 ^ 64"
    and "unat base * 36 ^ i < 2 ^ 64" "0 < unat base"
  shows "\<exists>r. TokenIDEncode_loop name i tid base = Inr r
    \<and> unat r = unat tid + unat base * bij36 (map char_digit (take i name))"
  using assms
proof (induction i arbitrary: tid base)
  case (Suc i)
  let ?v = "bij36 (map char_digit (take i name))"
  have tk: "take (Suc i) name = take i name @ [name ! i]"
    using Suc.prems(2) by (simp add: take_Suc_conv_app_nth)
  have ok: "valid_char (name ! i)" "list_all valid_char (take i name)"
    using Suc.prems(1) tk by auto
  obtain c where c: "TokenCharEncode (name ! i) = Inr c" "unat c = char_digit (name ! i)" "unat c < 36"
    using TokenCharEncode_valid [OF ok(1)] by auto
  have sum: "unat tid + unat base * Suc (unat c) + unat base * 36 * ?v < 2 ^ 64"
    using Suc.prems(3) c(2) tk by (simp add: algebra_simps)
  have c1: "unat (c + 1) = Suc (unat c)"
    using c(3) by (simp add: unat_add_lt)
  have m: "unat (base * (c + 1)) = unat base * Suc (unat c)"
    using sum c1 by (simp add: unat_mult_lt)
  have t: "unat (tid + base * (c + 1)) = unat tid + unat base * Suc (unat c)"
    using sum m by (simp add: unat_add_lt)
  have "unat base * 36 * 36 ^ i < 2 ^ 64" using Suc.prems(4) by (simp add: mult.assoc)
  then have "unat base * 36 * 1 < 2 ^ 64"
    by (rule le_less_trans [rotated]) (intro mult_left_mono, auto)
  then have b: "unat (base * TOKENBASE) = unat base * 36"
    by (subst unat_mult_lt) (simp_all add: TOKENBASE_def)
  have "\<exists>r. TokenIDEncode_loop name i (tid + base * (c + 1)) (base * TOKENBASE) = Inr r
      \<and> unat r = unat (tid + base * (c + 1)) + unat (base * TOKENBASE) * ?v"
    by (rule Suc.IH) (use Suc.prems sum ok t b in \<open>simp_all add: mult.assoc\<close>)
  with c tk t b show ?case by (auto simp: algebra_simps)
qed simp

lemma TokenIDEncode_value:
  assumes "valid_name s"
  shows "\<exists>r. TokenIDEncode s = Inr r \<and> Suc (unat r) = bij36 (map char_digit s)"
proof -
  from assms have s: "s \<noteq> []" "length s \<le> 12" "list_all valid_char s"
    by (simp_all add: valid_name_def)
  define t where "t = butlast s"
  define c where "c = last s"
  have sc: "s = t @ [c]" using s(1) by (simp add: t_def c_def)
  have ok: "list_all valid_char t" "valid_char c" using s(3) sc by auto
  obtain d where d: "TokenCharEncode c = Inr d" "unat d = char_digit c" "unat d < 36"
    using TokenCharEncode_valid [OF ok(2)] by auto
  have dig: "list_all (\<lambda>d. d < 36) (map char_digit s)"
    using s(3) by (auto simp: list_all_iff char_digit_lt)
  have le: "Suc (36 * bij36 (map char_digit t) + unat d) \<le> Suc (unat TOKENIDMAX)"
    using bij36_name_le [OF dig] s(2) sc d(2) by simp
  have p: "(36::nat) * 36 ^ length t \<le> 36 ^ 12"
    using s(2) sc power_increasing [of "Suc (length t)" 12 "36::nat"] by simp
  have "\<exists>r. TokenIDEncode_loop s (length t) d TOKENBASE = Inr r
      \<and> unat r = unat d + unat TOKENBASE * bij36 (map char_digit (take (length t) s))"
    by (rule TokenIDEncode_loop_value)
      (use ok le p sc in \<open>simp_all add: TOKENBASE_def TOKENIDMAX_def\<close>)
  with s sc d show ?thesis
    by (auto simp: TokenIDEncode_def TOKENBASE_def)
qed

section \<open>Decoding\<close>

lemma ReverseString_eq: "ReverseString s = rev s"
proof -
  have "foldl (\<lambda>result v. [v] @ result) acc s = rev s @ acc" for acc
    by (induction s arbitrary: acc) auto
  then show ?thesis by (simp add: ReverseString_def)
qed

lemma TokenIdDecode_loop_value:
  "list_all valid_char name \<Longrightarrow>
   \<exists>ds. TokenIdDecode_loop tid name = Inr (ds @ rev name)
      \<and> list_all valid_char ds \<and> bij36 (map char_digit ds) = Suc (unat tid)"
proof (induction tid name rule: TokenIdDecode_loop.induct)
  case (1 tid name)
  have md: "unat (tid mod TOKENBASE) = unat tid mod 36" "unat (tid div TOKENBASE) = unat tid div 36"
    by (simp_all add: TOKENBASE_def unat_mod unat_div)
  obtain t where t: "TokenCharDecode (tid mod TOKENBASE) = Inr t" "valid_char t"
    "char_digit t = unat tid mod 36"
    using TokenCharDecode_spec [of "tid mod TOKENBASE"] md by auto
  show ?case
  proof (cases "tid div TOKENBASE < 1")
    case True
    then have "unat tid div 36 < 1" using md by (simp add: word_less_nat_alt)
    then have "unat tid < 36" by (simp add: div_eq_0_iff)
    with True t show ?thesis
      by (intro exI [of _ "[t]"])
        (simp add: TokenIdDecode_loop.simps [of tid name] ReverseString_eq bij36_def)
  next
    case False
    then have "1 \<le> tid div TOKENBASE" by (simp only: not_less)
    then have ge: "1 \<le> unat tid div 36" using md by (simp add: word_le_nat_alt)
    then have u: "unat (tid div TOKENBASE - 1) = unat tid div 36 - 1"
      using md by (simp add: unat_minus_le)
    obtain ds where ds: "TokenIdDecode_loop (tid div TOKENBASE - 1) (name @ [t]) = Inr (ds @ rev (name @ [t]))"
      "list_all valid_char ds" "bij36 (map char_digit ds) = Suc (unat (tid div TOKENBASE - 1))"
      using "1.IH" [OF t(1) False] "1.prems" t(2) by auto
    have "36 * (unat tid div 36) + unat tid mod 36 = unat tid" by simp
    with ds u ge t have "bij36 (map char_digit (ds @ [t])) = Suc (unat tid)" by simp
    with ds t False show ?thesis
      by (intro exI [of _ "ds @ [t]"]) (simp add: TokenIdDecode_loop.simps [of tid name])
  qed
qed

text \<open>Both branches of the decoder are one run of its loop from the empty name.\<close>

lemma TokenIdDecode_as_loop:
  "tid \<le> TOKENIDMAX \<Longrightarrow> TokenIdDecode tid = TokenIdDecode_loop tid []"
  by (auto simp: TokenIdDecode_def TokenIdDecode_loop.simps [of tid "[]"] ReverseString_eq
      split: sum.splits)

lemma TokenIdDecode_value:
  assumes "tid \<le> TOKENIDMAX"
  shows "\<exists>s. TokenIdDecode tid = Inr s \<and> valid_name s \<and> bij36 (map char_digit s) = Suc (unat tid)"
proof -
  obtain s where s: "TokenIdDecode tid = Inr s" "list_all valid_char s"
    "bij36 (map char_digit s) = Suc (unat tid)"
    using TokenIdDecode_loop_value [of "[]" tid] TokenIdDecode_as_loop [OF assms] by auto
  have "length (map char_digit s) \<le> 12"
    by (rule bij36_length_le) (use s assms in \<open>simp add: word_le_nat_alt\<close>)
  moreover have "s \<noteq> []" using s(3) by auto
  ultimately show ?thesis using s by (auto simp: valid_name_def)
qed

text \<open>Every byte the decoder hands to \<open>ReverseString\<close> or returns is an ASCII character.\<close>

lemma valid_char_ascii: "valid_char c \<Longrightarrow> c < 128"
  by (auto simp: valid_char_def word_cmp_nat)

section \<open>The codec is a bijection\<close>

lemma token_names_agree:
  assumes "valid_name s" "valid_name t"
    and "bij36 (map char_digit s) = bij36 (map char_digit t)"
  shows "s = t"
proof (rule map_char_digit_inj)
  have dig: "list_all (\<lambda>d. d < 36) (map char_digit u)" if "valid_name u" for u
    using that by (auto simp: valid_name_def list_all_iff char_digit_lt)
  show "map char_digit s = map char_digit t"
    by (rule bij36_inj) (use assms dig in auto)
qed (use assms in \<open>auto simp: valid_name_def\<close>)

text \<open>C20: a valid token name is encoded without error to an id in range, and decoding that id
  gives the name back.\<close>

theorem token_name_roundtrip:
  assumes "valid_name s"
  shows "\<exists>tid. TokenIDEncode s = Inr tid \<and> tid \<le> TOKENIDMAX \<and> TokenIdDecode tid = Inr s"
proof -
  obtain r where r: "TokenIDEncode s = Inr r" "Suc (unat r) = bij36 (map char_digit s)"
    using TokenIDEncode_value [OF assms] by auto
  have "bij36 (map char_digit s) \<le> Suc (unat TOKENIDMAX)"
    by (rule bij36_name_le)
      (use assms in \<open>auto simp: valid_name_def list_all_iff char_digit_lt\<close>)
  with r have le: "r \<le> TOKENIDMAX" by (simp add: word_le_nat_alt)
  obtain t where "TokenIdDecode r = Inr t" "valid_name t" "bij36 (map char_digit t) = Suc (unat r)"
    using TokenIdDecode_value [OF le] by auto
  with r le assms token_names_agree [of s t] show ?thesis by auto
qed

theorem token_name_roundtrip_witness:
  "valid_name (str ''QKC'') \<and>
   (\<exists>tid. TokenIDEncode (str ''QKC'') = Inr tid \<and> tid \<le> TOKENIDMAX
      \<and> TokenIdDecode tid = Inr (str ''QKC''))"
proof -
  have h: "valid_name (str ''QKC'')" by code_simp
  with token_name_roundtrip [OF h] show ?thesis by simp
qed

text \<open>C23: every id up to \<open>TOKENIDMAX\<close> is decoded to a valid name, and encoding that name
  gives the id back; an id above \<open>TOKENIDMAX\<close> is refused.\<close>

theorem token_id_roundtrip:
  "if tid \<le> TOKENIDMAX
   then \<exists>s. TokenIdDecode tid = Inr s \<and> valid_name s \<and> TokenIDEncode s = Inr tid
   else TokenIdDecode tid = Inl (GoError ''it too big or negative'')"
proof (cases "tid \<le> TOKENIDMAX")
  case True
  obtain s where s: "TokenIdDecode tid = Inr s" "valid_name s" "bij36 (map char_digit s) = Suc (unat tid)"
    using TokenIdDecode_value [OF True] by auto
  obtain r where "TokenIDEncode s = Inr r" "Suc (unat r) = bij36 (map char_digit s)"
    using TokenIDEncode_value [OF s(2)] by auto
  with s True show ?thesis by (auto simp: word_unat_eq_iff)
next
  case False
  then show ?thesis by (simp add: TokenIdDecode_def not_le)
qed

end
