(* ===== verification/Sharding.thy ===== *)
theory Sharding
  imports Prelude
begin

text \<open>
  How a 32-bit full shard key selects a shard: \<open>common/utils.go\<close> (powers of two, masks),
  \<open>account/branch.go\<close>, \<open>account/address.go\<close>, \<open>account/neighbor.go\<close> and the default key of
  \<open>account/identity.go\<close>. A full shard id is \<open>chain << 16 | shardSize | shardId\<close> with a power
  of two \<open>shardSize\<close>; the lemmas show that the bit manipulation of the code computes this
  decomposition and that the branches of a chain partition the key space.

  Parameter: \<open>bta\<close> is go-ethereum's \<open>common.BytesToAddress\<close>.
\<close>

unbundle bit_operations_syntax

section \<open>Integer helpers of common/utils.go\<close>

definition LeadingZeros32 :: "u32 \<Rightarrow> nat" where
  "LeadingZeros32 v = 32 - bit_len (unat v)"

definition IntLeftMostBit :: "u32 \<Rightarrow> u32" where
  "IntLeftMostBit v = of_nat (32 - LeadingZeros32 v)"

definition IsP2 :: "u32 \<Rightarrow> bool" where
  "IsP2 shardSize = ((shardSize AND (shardSize - 1)) = 0)"

definition MasksHaveOverlap :: "u32 \<Rightarrow> u32 \<Rightarrow> bool" where
  "MasksHaveOverlap m1 m2 =
     (let i1 = IntLeftMostBit m1; i2 = IntLeftMostBit m2;
          i1 = (if i1 > i2 then i2 else i1);
          bitMask = push_bit (unat (i1 - 1)) 1 - 1
      in (m1 AND bitMask) = (m2 AND bitMask))"

text \<open>The inner loop of \<open>RemoveDuplicate\<close> over \<open>newData\<close> (\<open>range\<close> fixes its length): it stops
  at the first equal element and appends after the last one.\<close>

fun RemoveDuplicate_inner :: "u64 list \<Rightarrow> u64 \<Rightarrow> u64 list \<Rightarrow> u64 list" where
  "RemoveDuplicate_inner newData iData [] = newData"
| "RemoveDuplicate_inner newData iData (v # vs) =
     (if v = iData then newData
      else if vs = [] then newData @ [iData]
      else RemoveDuplicate_inner newData iData vs)"

fun RemoveDuplicate_loop :: "u64 list \<Rightarrow> u64 list \<Rightarrow> u64 list" where
  "RemoveDuplicate_loop newData [] = newData"
| "RemoveDuplicate_loop newData (iData # data) =
     RemoveDuplicate_loop
       (if newData = [] then newData @ [iData] else RemoveDuplicate_inner newData iData newData)
       data"

definition RemoveDuplicate :: "u64 list \<Rightarrow> u64 list" where
  "RemoveDuplicate data = RemoveDuplicate_loop [] data"

text \<open>\<open>BigIntMulBigRat\<close> on a rational given by numerator and (positive) denominator;
  \<open>big.Int.Div\<close> is Euclidean division, which is \<^term>\<open>(div)\<close> for a positive divisor.\<close>

definition BigIntMulBigRat :: "int \<Rightarrow> int \<times> nat \<Rightarrow> int" where
  "BigIntMulBigRat i r = (i * fst r) div int (snd r)"

section \<open>Branches\<close>

record Branch =
  br_Value :: u32

definition NewBranch :: "u32 \<Rightarrow> Branch" where
  "NewBranch v = \<lparr>br_Value = v\<rparr>"

definition GetChainID :: "Branch \<Rightarrow> u32" where
  "GetChainID b = drop_bit 16 (br_Value b)"

definition GetShardSize :: "Branch \<Rightarrow> u32" where
  "GetShardSize b =
     (let branchValue = br_Value b AND (push_bit 16 1 - 1)
      in push_bit (unat (IntLeftMostBit branchValue - 1)) 1)"

definition GetFullShardID :: "Branch \<Rightarrow> u32" where
  "GetFullShardID b = br_Value b"

definition GetShardID :: "Branch \<Rightarrow> u32" where
  "GetShardID b =
     (let branchValue = br_Value b AND (push_bit 16 1 - 1)
      in branchValue XOR GetShardSize b)"

definition IsInBranch :: "Branch \<Rightarrow> u32 \<Rightarrow> bool" where
  "IsInBranch b fullShardKey =
     (if drop_bit 16 fullShardKey = GetChainID b
      then (fullShardKey AND (GetShardSize b - 1)) = GetShardID b
      else False)"

definition CreatBranch :: "u32 \<Rightarrow> u32 \<Rightarrow> u32 \<Rightarrow> Branch res" where
  "CreatBranch chainID shardSize shardID =
     (if \<not> IsP2 shardSize then Inl (GoError ''shardSize is not correct'')
      else Inr (NewBranch (push_bit 16 chainID OR shardSize OR shardID)))"

section \<open>Addresses\<close>

record Address =
  ad_Recipient :: recipient
  ad_FullShardKey :: u32

definition Uint32ToBytes :: "u32 \<Rightarrow> bytes" where
  "Uint32ToBytes n = be_bytes 4 (unat n)"

text \<open>\<open>Recipient.Bytes()\<close> is the slice of the 20-byte array.\<close>

definition recipient_bytes :: "recipient \<Rightarrow> bytes" where
  "recipient_bytes r = be_bytes 20 (unat r)"

definition Address_ToBytes :: "Address \<Rightarrow> bytes" where
  "Address_ToBytes a = recipient_bytes (ad_Recipient a) @ Uint32ToBytes (ad_FullShardKey a)"

definition Address_GetFullShardID :: "Address \<Rightarrow> u32 \<Rightarrow> u32 res" where
  "Address_GetFullShardID a shardSize =
     (if \<not> IsP2 shardSize then Inl (GoError ''shardSize is not right shardSize'')
      else let chainID = drop_bit 16 (ad_FullShardKey a);
               shardID = ad_FullShardKey a AND (shardSize - 1)
           in Inr (push_bit 16 chainID OR shardSize OR shardID))"

definition Address_GetChainID :: "Address \<Rightarrow> u32" where
  "Address_GetChainID a = drop_bit 16 (ad_FullShardKey a)"

definition AddressInShard :: "Address \<Rightarrow> u32 \<Rightarrow> Address" where
  "AddressInShard a fullShardKey = \<lparr>ad_Recipient = ad_Recipient a, ad_FullShardKey = fullShardKey\<rparr>"

definition AddressInBranch :: "Address \<Rightarrow> Branch \<Rightarrow> Address" where
  "AddressInBranch a branch =
     (let shardKey = ad_FullShardKey a AND (push_bit 16 1 - 1);
          newShardKey = (shardKey AND NOT (GetShardSize branch - 1)) + GetShardID branch;
          newFullShardKey = push_bit 16 (GetChainID branch) OR newShardKey
      in \<lparr>ad_Recipient = ad_Recipient a, ad_FullShardKey = newFullShardKey\<rparr>)"

definition CreatEmptyAddress :: "(bytes \<Rightarrow> recipient) \<Rightarrow> u32 \<Rightarrow> Address" where
  "CreatEmptyAddress bta fullShardKey =
     \<lparr>ad_Recipient = bta (replicate 20 0), ad_FullShardKey = fullShardKey\<rparr>"

definition CreatAddressFromBytes :: "(bytes \<Rightarrow> recipient) \<Rightarrow> bytes \<Rightarrow> Address res" where
  "CreatAddressFromBytes bta bs =
     (if length bs \<noteq> 20 + 4 then Inl (GoError ''bs length excepted'')
      else let x = of_nat (be_value (drop 20 bs)); r = bta (take 20 bs)
           in Inr \<lparr>ad_Recipient = r, ad_FullShardKey = x\<rparr>)"

definition Address_IsEmpty :: "Address \<Rightarrow> bool" where
  "Address_IsEmpty a = (replicate 20 0 = recipient_bytes (ad_Recipient a))"

text \<open>\<open>Identity.GetDefaultFullShardKey\<close>: bytes 0 and 10 of the recipient are the low half of the
  key.\<close>

definition GetDefaultFullShardKey :: "recipient \<Rightarrow> u32" where
  "GetDefaultFullShardKey r =
     of_nat (be_value ([0, 0] @ [recipient_bytes r ! 0] @ [recipient_bytes r ! 10]))"

section \<open>Neighbours\<close>

definition absUint32 :: "u32 \<Rightarrow> u32 \<Rightarrow> u32" where
  "absUint32 a b = (if a > b then a - b else b - a)"

definition IsNeighbor :: "Branch \<Rightarrow> Branch \<Rightarrow> u32 \<Rightarrow> bool" where
  "IsNeighbor b1 b2 shardSize =
     (if shardSize \<le> 32 then True
      else if GetChainID b1 = GetChainID b2 then IsP2 (absUint32 (GetShardID b1) (GetShardID b2))
      else if GetShardID b1 = GetShardID b2 then IsP2 (absUint32 (GetChainID b1) (GetChainID b2))
      else False)"

section \<open>Powers of two and top bits\<close>

lemma bit_top_nat: "r < 2 ^ k \<Longrightarrow> bit (2 ^ k + r :: nat) k"
  by (simp add: bit_iff_odd div_add_self1)

text \<open>\<open>IsP2\<close> accepts the powers of two, and also 0.\<close>

lemma IsP2_iff: "IsP2 n \<longleftrightarrow> n = 0 \<or> (\<exists>k<32. n = 2 ^ k)"
proof (cases "n = 0")
  case True
  then show ?thesis by (simp add: IsP2_def)
next
  case False
  then have "unat n \<noteq> 0" by (simp add: unat_eq_0)
  then obtain k r where n: "unat n = 2 ^ k + r" "r < 2 ^ k" by (rule top_bit_split)
  have "(2::nat) ^ k < 2 ^ 32" using n(1) unat_lt_exp [of n] by simp
  then have k: "k < 32" by (simp only: power_strict_increasing_iff)
  show ?thesis
  proof (cases "r = 0")
    case True
    then have nk: "n = 2 ^ k" using n k by (simp add: word_unat_eq_iff unat_exp_word)
    have "n AND (n - 1) = take_bit k (2 ^ k)"
      unfolding nk by (simp add: take_bit_eq_mask mask_eq_exp_minus_1)
    moreover have "take_bit k (2 ^ k) = (0 :: u32)" by (rule bit_eqI) (auto simp: bit_simps)
    ultimately have "IsP2 n" by (simp add: IsP2_def)
    with nk k show ?thesis by auto
  next
    case r: False
    have "unat (n - 1) = 2 ^ k + (r - 1)"
      using n r by (subst unat_minus_le) simp_all
    then have "bit (unat n) k" "bit (unat (n - 1)) k"
      using n bit_top_nat [of r k] bit_top_nat [of "r - 1" k] by (auto simp only: less_imp_diff_less)
    then have "bit (n AND (n - 1)) k" by (simp add: bit_simps)
    then have "\<not> IsP2 n" by (auto simp: IsP2_def)
    moreover have "n \<noteq> 2 ^ j" if "j < 32" for j
    proof
      assume "n = 2 ^ j"
      then have e: "2 ^ j = 2 ^ k + r" using n that by (simp add: unat_exp_word)
      have "(2::nat) ^ k < 2 ^ j" using e r by simp
      then have "k < j" by (simp only: power_strict_increasing_iff)
      then have "(2::nat) ^ Suc k \<le> 2 ^ j" by (intro power_increasing) auto
      then show False using e n(2) by simp
    qed
    ultimately show ?thesis using False by blast
  qed
qed

lemma IsP2_exp: "k \<le> 15 \<Longrightarrow> IsP2 (2 ^ k)"
  unfolding IsP2_iff by (intro disjI2 exI [of _ k]) simp

lemma IntLeftMostBit_top:
  assumes "unat v = 2 ^ k + r" "r < 2 ^ k" "k < 32"
  shows "unat (IntLeftMostBit v - 1) = k"
proof -
  have "bit_len (unat v) = Suc k"
    by (rule bit_len_eq) (use assms in simp_all)
  then have "IntLeftMostBit v = of_nat (Suc k)"
    using assms(3) by (simp add: IntLeftMostBit_def LeadingZeros32_def)
  then have "IntLeftMostBit v - 1 = of_nat k" by simp
  then show ?thesis using assms(3) by (simp add: unat_of_nat)
qed

lemma mask16: "push_bit 16 1 - 1 = (mask 16 :: u32)"
  by (simp add: mask_eq_exp_minus_1)

lemma unat_low16: "unat (w AND (push_bit 16 1 - 1) :: u32) = unat w mod 65536"
  unfolding mask16 unat_and_mask by simp

lemma exp_minus_1_mask: "2 ^ k - 1 = (mask k :: u32)"
  by (simp add: mask_eq_exp_minus_1)

section \<open>The parts of a full shard id\<close>

text \<open>\<open>branch_parts b c k s\<close>: the value of the branch is chain \<open>c\<close>, shard size \<open>2^k\<close>, shard \<open>s\<close>.\<close>

definition branch_parts :: "Branch \<Rightarrow> nat \<Rightarrow> nat \<Rightarrow> nat \<Rightarrow> bool" where
  "branch_parts b c k s \<longleftrightarrow> unat (br_Value b) = c * 65536 + (2 ^ k + s) \<and> s < 2 ^ k \<and> k \<le> 15"

lemma parts_low:
  assumes "s < 2 ^ k" "k \<le> 15"
  shows "2 ^ k + s < (65536 :: nat)"
proof -
  have "2 ^ k + s < (2 ^ Suc k :: nat)" using assms(1) by simp
  also have "\<dots> \<le> 2 ^ 16" using assms(2) by (intro power_increasing) auto
  finally show ?thesis by simp
qed

lemma branch_parts_get:
  assumes "branch_parts b c k s"
  shows "unat (GetChainID b) = c" "GetShardSize b = 2 ^ k" "unat (GetShardID b) = s"
proof -
  from assms have v: "unat (br_Value b) = c * 65536 + (2 ^ k + s)" and s: "s < 2 ^ k" and k: "k \<le> 15"
    by (simp_all add: branch_parts_def)
  note low = parts_low [OF s k]
  show "unat (GetChainID b) = c"
    using v low by (simp add: GetChainID_def unat_drop_bit_div del: drop_bit_eq_div)
  let ?l = "br_Value b AND (push_bit 16 1 - 1)"
  have l: "unat ?l = 2 ^ k + s"
    using v low unfolding unat_low16 by simp
  then show sz: "GetShardSize b = 2 ^ k"
    using IntLeftMostBit_top [of ?l k s] s k by (simp add: GetShardSize_def Let_def)
  show "unat (GetShardID b) = s"
    using l s k by (simp add: GetShardID_def Let_def sz unat_or_xor unat_exp_word xor_exp_cancel)
qed

lemma branch_parts_exist:
  assumes "unat (br_Value b) mod 65536 \<noteq> 0"
  shows "\<exists>c k s. branch_parts b c k s"
proof -
  obtain k s where ks: "unat (br_Value b) mod 65536 = 2 ^ k + s" "s < 2 ^ k"
    using top_bit_split [OF assms] by blast
  have "unat (br_Value b) mod 65536 < 65536" by simp
  then have "(2::nat) ^ k < 2 ^ 16" using ks(1) by simp
  then have "k < 16" by (simp only: power_strict_increasing_iff)
  then have "k \<le> 15" by simp
  moreover have "unat (br_Value b) = unat (br_Value b) div 65536 * 65536 + (2 ^ k + s)"
    using ks(1) by (metis div_mult_mod_eq)
  ultimately show ?thesis using ks(2) unfolding branch_parts_def by blast
qed

lemma full_id_value:
  assumes "unat c < 65536" "unat s < 2 ^ k" "k \<le> 15"
  shows "unat (push_bit 16 c OR 2 ^ k OR s :: u32) = unat c * 65536 + (2 ^ k + unat s)"
proof -
  have c: "unat (push_bit 16 c) = unat c * 2 ^ 16"
    using assms(1) by (simp add: push_bit_eq_mult unat_mult_lt)
  have "unat (2 ^ k OR s) = 2 ^ k + unat s"
    using assms by (simp add: unat_or_xor unat_exp_word or_exp_add)
  moreover have "2 ^ k + unat s < 2 ^ 16" using parts_low [OF assms(2,3)] by simp
  ultimately show ?thesis
    using c push_or_add [of "2 ^ k + unat s" 16 "unat c"] by (simp add: unat_or_xor or.assoc)
qed

lemma CreatBranch_parts:
  assumes "unat c < 65536" "unat s < 2 ^ k" "k \<le> 15"
  shows "\<exists>b. CreatBranch c (2 ^ k) s = Inr b \<and> branch_parts b (unat c) k (unat s)"
proof -
  show ?thesis
    using full_id_value [OF assms] assms
    by (simp add: IsP2_exp CreatBranch_def NewBranch_def branch_parts_def)
qed

lemma IsInBranch_parts:
  assumes "branch_parts b c k s"
  shows "IsInBranch b key \<longleftrightarrow> unat key div 65536 = c \<and> unat key mod 2 ^ k = s"
proof -
  have "unat (drop_bit 16 key) = unat key div 65536" by (simp add: unat_drop_bit_div del: drop_bit_eq_div)
  moreover have "unat (key AND (GetShardSize b - 1)) = unat key mod 2 ^ k"
    unfolding branch_parts_get(2) [OF assms] exp_minus_1_mask by (rule unat_and_mask)
  ultimately show ?thesis
    using branch_parts_get(1,3) [OF assms] unfolding IsInBranch_def word_unat_eq_iff [where 'a = 32]
    by simp
qed

section \<open>Moving an address into a branch\<close>

lemma unat_and_not_mask:
  fixes w :: "'a::len word"
  shows "unat (w AND NOT (mask k)) = unat w - unat w mod 2 ^ k"
proof -
  have "w AND NOT (mask k) = push_bit k (drop_bit k w)"
    by (rule bit_eqI) (auto simp: bit_simps)
  then have "unat (w AND NOT (mask k)) = take_bit LENGTH('a) (unat w div 2 ^ k * 2 ^ k)"
    by (simp only: unsigned_push_bit_eq unat_drop_bit_div) (simp add: push_bit_eq_mult)
  also have "\<dots> = unat w div 2 ^ k * 2 ^ k"
    by (rule take_bit_nat_eq_self) (metis div_times_less_eq_dividend le_less_trans unat_lt_exp)
  finally show ?thesis by (simp add: minus_mod_eq_div_mult)
qed

lemma AddressInBranch_key:
  fixes a :: Address
  assumes "branch_parts b c k s"
  defines "q \<equiv> unat (ad_FullShardKey a) mod 65536"
  shows "unat (ad_FullShardKey (AddressInBranch a b)) = c * 65536 + (q - q mod 2 ^ k + s)"
    and "q - q mod 2 ^ k + s < 65536"
proof -
  note g = branch_parts_get [OF assms(1)]
  from assms have s: "s < 2 ^ k" and k: "k \<le> 15"
    and v: "unat (br_Value b) = c * 65536 + (2 ^ k + s)" by (simp_all add: branch_parts_def)
  have q: "q < 65536" by (simp add: q_def)
  have "q - q mod 2 ^ k = q div 2 ^ k * 2 ^ k" by (simp add: minus_mod_eq_div_mult)
  moreover have "q div 2 ^ k < 2 ^ (16 - k)"
    using q k by (simp add: less_mult_imp_div_less flip: power_add)
  then have "Suc (q div 2 ^ k) * 2 ^ k \<le> 2 ^ (16 - k) * 2 ^ k" by (intro mult_right_mono) auto
  moreover have "2 ^ (16 - k) * 2 ^ k = (65536::nat)" using k by (simp flip: power_add)
  ultimately show lt: "q - q mod 2 ^ k + s < 65536" using s by simp
  let ?key = "ad_FullShardKey a AND (push_bit 16 1 - 1)"
  have "unat (?key AND NOT (GetShardSize b - 1)) = q - q mod 2 ^ k"
    unfolding g(2) exp_minus_1_mask unat_and_not_mask unat_low16 q_def ..
  with lt g(3) have "unat ((?key AND NOT (GetShardSize b - 1)) + GetShardID b) = q - q mod 2 ^ k + s"
    by (subst unat_add_lt) simp_all
  moreover have "unat (push_bit 16 (GetChainID b)) = c * 2 ^ 16"
    using v unat_lt_exp [of "br_Value b"] g(1)
    by (simp add: push_bit_eq_mult unat_mult_lt)
  ultimately show "unat (ad_FullShardKey (AddressInBranch a b)) = c * 65536 + (q - q mod 2 ^ k + s)"
    using push_or_add [of "q - q mod 2 ^ k + s" 16 c] lt
    by (simp add: AddressInBranch_def Let_def unat_or_xor)
qed

section \<open>Addresses as bytes\<close>

lemma unat_be_recipient: "of_nat (be_value (recipient_bytes r)) = r"
proof -
  have "unat r < 256 ^ 20" using unat_lt_exp [of r] by simp
  then show ?thesis by (simp add: recipient_bytes_def be_value_be_bytes)
qed

lemma unat_be_u32: "of_nat (be_value (Uint32ToBytes n)) = n"
proof -
  have "unat n < 256 ^ 4" using unat_lt_exp [of n] by simp
  then show ?thesis by (simp add: Uint32ToBytes_def be_value_be_bytes)
qed

lemma be_bytes_of_nat:
  assumes "256 ^ length bs \<le> (2::nat) ^ LENGTH('a::len)"
  shows "be_bytes (length bs) (unat (of_nat (be_value bs) :: 'a word)) = bs"
proof -
  have "be_value bs < 2 ^ LENGTH('a)" using be_value_lt [of bs] assms by linarith
  then have "unat (of_nat (be_value bs) :: 'a word) = be_value bs" by (simp add: unat_of_nat)
  then show ?thesis by (simp add: be_bytes_be_value)
qed

lemma length_recipient_bytes [simp]: "length (recipient_bytes r) = 20"
  by (simp add: recipient_bytes_def)

lemma length_Uint32ToBytes [simp]: "length (Uint32ToBytes n) = 4"
  by (simp add: Uint32ToBytes_def)

section \<open>Removing duplicates\<close>

lemma RemoveDuplicate_inner_eq:
  "vs \<noteq> [] \<Longrightarrow> RemoveDuplicate_inner nd d vs = (if d \<in> set vs then nd else nd @ [d])"
  by (induction vs) auto

lemma RemoveDuplicate_loop_eq:
  "RemoveDuplicate_loop nd data = rev (fold List.insert data (rev nd))"
  by (induction data arbitrary: nd) (auto simp: RemoveDuplicate_inner_eq List.insert_def)

lemma distinct_fold_insert: "distinct acc \<Longrightarrow> distinct (fold List.insert data acc)"
  by (induction data arbitrary: acc) auto

lemma set_fold_insert: "set (fold List.insert data acc) = set acc \<union> set data"
  by (induction data arbitrary: acc) auto

section \<open>Neighbours and masks\<close>

lemma absUint32_commute: "absUint32 a b = absUint32 b a"
  by (auto simp: absUint32_def)

lemma IsNeighbor_commute: "IsNeighbor b1 b2 n = IsNeighbor b2 b1 n"
  by (auto simp: IsNeighbor_def absUint32_commute)

text \<open>A mask \<open>2^k + r\<close> stands for the keys congruent to \<open>r\<close> modulo \<open>2^k\<close>.\<close>

definition mask_contains :: "u32 \<Rightarrow> u32 \<Rightarrow> bool" where
  "mask_contains m x \<longleftrightarrow>
     (let k = bit_len (unat m) - 1 in unat x mod 2 ^ k = unat m mod 2 ^ k)"

lemma MasksHaveOverlap_parts:
  assumes "unat m1 = 2 ^ k1 + r1" "r1 < 2 ^ k1" "unat m2 = 2 ^ k2 + r2" "r2 < 2 ^ k2"
  shows "MasksHaveOverlap m1 m2 \<longleftrightarrow> unat m1 mod 2 ^ min k1 k2 = unat m2 mod 2 ^ min k1 k2"
proof -
  have k: "k1 < 32" "k2 < 32"
  proof -
    have "(2::nat) ^ k1 < 2 ^ 32" "(2::nat) ^ k2 < 2 ^ 32"
      using assms unat_lt_exp [of m1] unat_lt_exp [of m2] by simp_all
    then show "k1 < 32" "k2 < 32" by (simp_all only: power_strict_increasing_iff)
  qed
  have b: "IntLeftMostBit m1 = of_nat (Suc k1)" "IntLeftMostBit m2 = of_nat (Suc k2)"
    using bit_len_eq [of k1 "unat m1"] bit_len_eq [of k2 "unat m2"] assms k
    by (simp_all add: IntLeftMostBit_def LeadingZeros32_def)
  let ?i = "if IntLeftMostBit m1 > IntLeftMostBit m2 then IntLeftMostBit m2 else IntLeftMostBit m1"
  have "?i = of_nat (Suc (min k1 k2))"
    using k by (simp add: b word_less_nat_alt unat_of_nat min_def del: of_nat_Suc)
  then have "?i - 1 = of_nat (min k1 k2)" by simp
  then have i: "unat (?i - 1) = min k1 k2" using k by (simp add: unat_of_nat min_def)
  have bm: "push_bit (unat (?i - 1)) 1 - 1 = (mask (min k1 k2) :: u32)"
    unfolding i by (simp add: mask_eq_exp_minus_1)
  show ?thesis
    unfolding MasksHaveOverlap_def Let_def bm by (simp only: word_unat_eq_iff unat_and_mask)
qed

lemma MasksHaveOverlap_iff:
  assumes "m1 \<noteq> 0" "m2 \<noteq> 0"
  shows "MasksHaveOverlap m1 m2 \<longleftrightarrow> (\<exists>x. mask_contains m1 x \<and> mask_contains m2 x)"
proof -
  from assms have "unat m1 \<noteq> 0" "unat m2 \<noteq> 0" by (simp_all add: unat_eq_0)
  then obtain k1 r1 k2 r2 where m: "unat m1 = 2 ^ k1 + r1" "r1 < 2 ^ k1" "unat m2 = 2 ^ k2 + r2" "r2 < 2 ^ k2"
    using top_bit_split by metis
  have c: "mask_contains m1 x \<longleftrightarrow> unat x mod 2 ^ k1 = unat m1 mod 2 ^ k1"
    "mask_contains m2 x \<longleftrightarrow> unat x mod 2 ^ k2 = unat m2 mod 2 ^ k2" for x
    using bit_len_eq [of k1 "unat m1"] bit_len_eq [of k2 "unat m2"] m
    by (simp_all add: mask_contains_def)
  have dv: "(2::nat) ^ min k1 k2 dvd 2 ^ k1" "(2::nat) ^ min k1 k2 dvd 2 ^ k2"
    by (simp_all add: le_imp_power_dvd)
  show ?thesis
  proof
    assume "\<exists>x. mask_contains m1 x \<and> mask_contains m2 x"
    then obtain x :: u32 where "unat x mod 2 ^ k1 = unat m1 mod 2 ^ k1" "unat x mod 2 ^ k2 = unat m2 mod 2 ^ k2"
      using c by auto
    then have "unat m1 mod 2 ^ min k1 k2 = unat m2 mod 2 ^ min k1 k2"
      using mod_mod_cancel [OF dv(1), of "unat x"] mod_mod_cancel [OF dv(1), of "unat m1"]
        mod_mod_cancel [OF dv(2), of "unat x"] mod_mod_cancel [OF dv(2), of "unat m2"] by simp
    with m show "MasksHaveOverlap m1 m2" by (simp add: MasksHaveOverlap_parts)
  next
    assume "MasksHaveOverlap m1 m2"
    with m have e: "unat m1 mod 2 ^ min k1 k2 = unat m2 mod 2 ^ min k1 k2"
      by (simp add: MasksHaveOverlap_parts)
    show "\<exists>x. mask_contains m1 x \<and> mask_contains m2 x"
    proof (cases "k1 \<le> k2")
      case True
      with e c show ?thesis by (intro exI [of _ m2]) (simp add: min_def)
    next
      case False
      with e c show ?thesis by (intro exI [of _ m1]) (simp add: min_def)
    qed
  qed
qed

lemma push_bit_beyond: "32 \<le> n \<Longrightarrow> push_bit n 1 = (0 :: u32)"
  by (rule bit_eqI) (auto simp: bit_simps)

lemma GetShardSize_low16:
  assumes "GetShardSize b = 2 ^ k" "k \<le> 15"
  shows "\<exists>c s. branch_parts b c k s"
proof -
  have "unat (br_Value b) mod 65536 \<noteq> 0"
  proof
    assume z: "unat (br_Value b) mod 65536 = 0"
    have "unat (br_Value b AND (push_bit 16 1 - 1)) = 0" unfolding unat_low16 by (rule z)
    then have "br_Value b AND (push_bit 16 1 - 1) = 0" by (simp only: unat_eq_0)
    then have "GetShardSize b = push_bit (unat (- 1 :: u32)) 1"
      by (simp only: GetShardSize_def Let_def IntLeftMostBit_def LeadingZeros32_def unat_0 bit_len_0) simp
    also have "\<dots> = 0"
      by (rule push_bit_beyond) (simp add: unsigned_minus_1_eq_mask mask_eq_exp_minus_1)
    finally have "(2::u32) ^ k = 0" using assms(1) by simp
    then show False using assms(2) unat_exp_word [of k, where 'a = 32] by simp
  qed
  then obtain c j s where p: "branch_parts b c j s" using branch_parts_exist by blast
  then have "(2::u32) ^ j = 2 ^ k" using branch_parts_get(2) [OF p] assms(1) by simp
  then have "unat ((2::u32) ^ j) = unat ((2::u32) ^ k)" by simp
  then have "(2::nat) ^ j = 2 ^ k" using p assms(2) by (simp add: unat_exp_word branch_parts_def)
  then have "j = k" by simp
  with p show ?thesis by blast
qed

section \<open>Properties\<close>

text \<open>C25: a branch created from a chain id below \<open>2^16\<close>, a power of two shard size up to
  \<open>2^15\<close> and a shard id below that size gives the three components back.\<close>

theorem creat_branch_roundtrip:
  assumes "unat chainID < 65536" "k \<le> 15" "unat shardID < 2 ^ k"
  shows "\<exists>b. CreatBranch chainID (2 ^ k) shardID = Inr b \<and> GetChainID b = chainID
    \<and> GetShardSize b = 2 ^ k \<and> GetShardID b = shardID"
  using CreatBranch_parts [OF assms(1,3,2)] branch_parts_get
  by (fastforce simp: word_unat_eq_iff [where 'a = 32])

theorem creat_branch_roundtrip_witness:
  "unat (5 :: u32) < 65536 \<and> (3 :: nat) \<le> 15 \<and> unat (6 :: u32) < 2 ^ 3 \<and>
   (\<exists>b. CreatBranch 5 (2 ^ 3) 6 = Inr b \<and> GetChainID b = 5 \<and> GetShardSize b = 2 ^ 3 \<and> GetShardID b = 6)"
  using creat_branch_roundtrip [of 5 3 6] by simp

text \<open>C13: the branches of one shard size partition the key space. For every address and every shard
  size that is a power of two of at most \<open>2^15\<close>, \<open>GetFullShardID\<close> succeeds and the branch of the id it
  returns is the one and only branch of that size that \<open>IsInBranch\<close> accepts for the address's key. For the
  larger powers of two, which \<open>IsP2\<close> and \<open>GetFullShardID\<close> accept as well, the bit of the size falls into the
  chain id and this does not hold.\<close>

theorem shard_partition:
  assumes "k \<le> 15"
  shows "\<exists>v. Address_GetFullShardID a (2 ^ k) = Inr v \<and>
    (\<forall>b. IsInBranch b (ad_FullShardKey a) \<and> GetShardSize b = 2 ^ k \<longleftrightarrow> b = NewBranch v)"
proof -
  let ?key = "ad_FullShardKey a"
  let ?v = "push_bit 16 (drop_bit 16 ?key) OR 2 ^ k OR (?key AND (2 ^ k - 1))"
  have s: "unat (?key AND (2 ^ k - 1)) = unat ?key mod 2 ^ k"
    unfolding exp_minus_1_mask by (rule unat_and_mask)
  have c: "unat (drop_bit 16 ?key) = unat ?key div 65536"
    unfolding unat_drop_bit_div by simp
  have "unat ?key div 65536 < 65536" using unat_lt_exp [of ?key] by (simp add: less_mult_imp_div_less)
  then have v: "unat ?v = unat ?key div 65536 * 65536 + (2 ^ k + unat ?key mod 2 ^ k)"
    using full_id_value [of "drop_bit 16 ?key" "?key AND (2 ^ k - 1)" k] assms
    unfolding s c by simp
  have ok: "Address_GetFullShardID a (2 ^ k) = Inr ?v"
    using assms by (simp add: Address_GetFullShardID_def Let_def IsP2_exp)
  have "IsInBranch b ?key \<and> GetShardSize b = 2 ^ k \<longleftrightarrow> b = NewBranch ?v" for b
  proof
    assume b: "IsInBranch b ?key \<and> GetShardSize b = 2 ^ k"
    then obtain c s where p: "branch_parts b c k s" using GetShardSize_low16 assms by blast
    with b have "unat ?key div 65536 = c" "unat ?key mod 2 ^ k = s" using IsInBranch_parts [OF p] by auto
    with p v have "br_Value b = ?v" by (simp only: branch_parts_def word_unat_eq_iff)
    then show "b = NewBranch ?v" by (simp only: NewBranch_def Branch.equality) simp
  next
    assume b: "b = NewBranch ?v"
    have "branch_parts b (unat ?key div 65536) k (unat ?key mod 2 ^ k)"
      unfolding b branch_parts_def NewBranch_def using v assms by simp
    then show "IsInBranch b ?key \<and> GetShardSize b = 2 ^ k"
      using IsInBranch_parts branch_parts_get(2) by blast
  qed
  with ok show ?thesis by blast
qed

theorem shard_partition_witness:
  "(2::nat) \<le> 15 \<and> (\<exists>v. Address_GetFullShardID \<lparr>ad_Recipient = 0, ad_FullShardKey = 196615\<rparr> (2 ^ 2) = Inr v \<and>
    (\<forall>b. IsInBranch b 196615 \<and> GetShardSize b = 2 ^ 2 \<longleftrightarrow> b = NewBranch v))"
  using shard_partition [of 2 "\<lparr>ad_Recipient = 0, ad_FullShardKey = 196615\<rparr>"] by simp

text \<open>C27: \<open>AddressInBranch\<close> moves an address into a branch with a non-zero size part: the
  result keeps the recipient and lies in the branch, and an address that already lies there is
  returned unchanged.\<close>

theorem address_in_branch_member:
  assumes "unat (br_Value b) mod 65536 \<noteq> 0"
  shows "IsInBranch b (ad_FullShardKey (AddressInBranch a b))
    \<and> ad_Recipient (AddressInBranch a b) = ad_Recipient a
    \<and> (IsInBranch b (ad_FullShardKey a) \<longrightarrow> AddressInBranch a b = a)"
proof (intro conjI impI)
  obtain c k s where p: "branch_parts b c k s" using branch_parts_exist [OF assms] by blast
  then have s: "s < 2 ^ k" by (simp add: branch_parts_def)
  let ?q = "unat (ad_FullShardKey a) mod 65536"
  note n = AddressInBranch_key [OF p, of a]
  have "k \<le> 16" using p by (simp add: branch_parts_def)
  then have dv: "(2::nat) ^ k dvd 65536" using le_imp_power_dvd [of k 16 "2::nat"] by simp
  then obtain m where m: "(65536::nat) = 2 ^ k * m" by (rule dvdE)
  have "(c * 65536 + (?q - ?q mod 2 ^ k + s)) mod 2 ^ k = s"
    using s unfolding minus_mod_eq_div_mult m
    by (simp add: mod_add_eq [symmetric] mult.assoc mult.left_commute [of c])
  then show "IsInBranch b (ad_FullShardKey (AddressInBranch a b))"
    using n by (simp add: IsInBranch_parts [OF p])
  show r: "ad_Recipient (AddressInBranch a b) = ad_Recipient a"
    by (simp add: AddressInBranch_def Let_def)
  assume "IsInBranch b (ad_FullShardKey a)"
  then have i: "unat (ad_FullShardKey a) div 65536 = c" "unat (ad_FullShardKey a) mod 2 ^ k = s"
    using IsInBranch_parts [OF p] by auto
  have "?q mod 2 ^ k = s" using i(2) dv by (simp add: mod_mod_cancel)
  then have "?q - ?q mod 2 ^ k + s = ?q" by (metis le_add_diff_inverse2 mod_less_eq_dividend)
  then have "unat (ad_FullShardKey (AddressInBranch a b)) = unat (ad_FullShardKey a)"
    using n(1) i(1) by (metis div_mult_mod_eq)
  then show "AddressInBranch a b = a"
    using r by (simp add: word_unat_eq_iff)
qed

theorem address_in_branch_member_witness:
  "unat (br_Value (NewBranch 65541)) mod 65536 \<noteq> 0 \<and>
   IsInBranch (NewBranch 65541)
     (ad_FullShardKey (AddressInBranch \<lparr>ad_Recipient = 7, ad_FullShardKey = 42\<rparr> (NewBranch 65541)))"
  using address_in_branch_member [of "NewBranch 65541"] by (simp add: NewBranch_def)

text \<open>C28: an address survives the trip through its 24 bytes, and every 24-byte string is the
  encoding of the address read from it; every other length is refused. The hypothesis is
  go-ethereum's documented behaviour of \<open>BytesToAddress\<close> on a 20-byte slice.\<close>

theorem address_bytes_roundtrip:
  assumes "\<And>b. length b = 20 \<Longrightarrow> recipient_bytes (bta b) = b"
  shows "CreatAddressFromBytes bta (Address_ToBytes a) = Inr a
    \<and> (CreatAddressFromBytes bta bs = Inr a' \<longrightarrow> Address_ToBytes a' = bs)
    \<and> ((\<exists>a'. CreatAddressFromBytes bta bs = Inr a') \<longleftrightarrow> length bs = 24)"
proof (intro conjI impI)
  have "bta (recipient_bytes r) = r" for r
    using assms [of "recipient_bytes r"] unat_be_recipient by (metis length_recipient_bytes)
  then show "CreatAddressFromBytes bta (Address_ToBytes a) = Inr a"
    by (simp add: CreatAddressFromBytes_def Address_ToBytes_def unat_be_u32)
  show "(\<exists>a'. CreatAddressFromBytes bta bs = Inr a') \<longleftrightarrow> length bs = 24"
    by (simp add: CreatAddressFromBytes_def Let_def)
  assume c: "CreatAddressFromBytes bta bs = Inr a'"
  then have l: "length bs = 24" and a': "a' = \<lparr>ad_Recipient = bta (take 20 bs), ad_FullShardKey = of_nat (be_value (drop 20 bs))\<rparr>"
    by (auto simp: CreatAddressFromBytes_def Let_def split: if_splits)
  have "Uint32ToBytes (of_nat (be_value (drop 20 bs))) = drop 20 bs"
    using be_bytes_of_nat [of "drop 20 bs", where 'a = 32] l by (simp add: Uint32ToBytes_def)
  with a' assms [of "take 20 bs"] l show "Address_ToBytes a' = bs"
    by (simp add: Address_ToBytes_def)
qed

theorem address_bytes_roundtrip_witness:
  "CreatAddressFromBytes (\<lambda>b. of_nat (be_value b))
     (Address_ToBytes \<lparr>ad_Recipient = 77, ad_FullShardKey = 65537\<rparr>)
     = Inr \<lparr>ad_Recipient = 77, ad_FullShardKey = 65537\<rparr>"
proof -
  have h: "recipient_bytes (of_nat (be_value b)) = b" if "length b = 20" for b
    using be_bytes_of_nat [of b, where 'a = 160] that by (simp add: recipient_bytes_def)
  then show ?thesis using address_bytes_roundtrip [OF h] by blast
qed

text \<open>C33: \<open>CreatBranch\<close> accepts exactly the shard sizes that are a power of two, and also 0,
  which \<open>IsP2\<close> takes for a power of two although its comment says \<open>2^x\<close>.\<close>

theorem creat_branch_accepts:
  "(\<exists>b. CreatBranch chainID shardSize shardID = Inr b) \<longleftrightarrow>
     shardSize = 0 \<or> (\<exists>k<32. shardSize = 2 ^ k)"
  by (simp add: CreatBranch_def IsP2_iff)

end
