(* ===== verification/ClusterConfig.thy ===== *)
theory ClusterConfig
  imports Complex_Main Sharding TokenCodec "HOL-Library.AList"
begin

text \<open>
  The cluster configuration (\<open>cluster/config\<close>): the configuration records and their defaults,
  the construction of the shard table from the chains, its validation by \<open>initAndValidate\<close>,
  the routing of full shard keys, the assignment of shards to slaves, and the PoSW difficulty
  divider.

  A Go map is an association list with distinct keys. The order of the list stands for the order
  in which \<open>range\<close> visits the map, which Go leaves open; the theorems hold for every order.
  Pointers that may be nil are options. A Go string is its byte sequence. \<open>common.DeepCopy\<close>
  (encode and decode with \<open>gob\<close>) is the identity on the values of the model, which have no
  sharing. JSON decoding is not modelled: the \<open>UnmarshalJSON\<close> methods start from the decoded
  structure. The functions of go-ethereum's \<open>common\<close> package are the parameter \<open>eth_common\<close>.
\<close>

record eth_common =
  BytesToAddress :: "bytes \<Rightarrow> recipient"
  FromHex :: "bytes \<Rightarrow> bytes"
  HexToHash :: "bytes \<Rightarrow> hash"

section \<open>Configuration records\<close>

definition PoWNone :: bytes where "PoWNone = str ''NONE''"
definition PoWSimulate :: bytes where "PoWSimulate = str ''POW_SIMULATE''"
definition DefaultToken :: bytes where "DefaultToken = str ''QKC''"
definition DefaultHost :: bytes where "DefaultHost = str ''localhost''"
definition DefaultGrpcPort :: u16 where "DefaultGrpcPort = 38191"
definition DefaultWSPort :: u16 where "DefaultWSPort = 38590"
definition slavePort :: u16 where "slavePort = 38000"
definition DefaultNumSlaves :: nat where "DefaultNumSlaves = 4"
definition QuarkashToJiaozi :: int where "QuarkashToJiaozi = 1000000000000000000"
definition DefaultP2PCmddSizeLimit :: u32 where "DefaultP2PCmddSizeLimit = 128 * 1024 * 1024"

record POWConfig =
  pow_TargetBlockTime :: u32
  pow_RemoteMine :: bool

definition NewPOWConfig :: POWConfig where
  "NewPOWConfig = \<lparr>pow_TargetBlockTime = 10, pow_RemoteMine = False\<rparr>"

record POSWConfig =
  posw_Enabled :: bool
  posw_EnableTimestamp :: u64
  posw_DiffDivider :: u64
  posw_WindowSize :: u64
  posw_TotalStakePerBlock :: int
  posw_BoostTimestamp :: u64
  posw_BoostMultiplierPerStep :: u64
  posw_BoostSteps :: u64
  posw_BoostStepInterval :: u64

definition NewPOSWConfig :: POSWConfig where
  "NewPOSWConfig = \<lparr>posw_Enabled = False, posw_EnableTimestamp = 0, posw_DiffDivider = 20,
     posw_WindowSize = 256, posw_TotalStakePerBlock = 1000000000 * QuarkashToJiaozi,
     posw_BoostTimestamp = 0, posw_BoostMultiplierPerStep = 2, posw_BoostSteps = 10,
     posw_BoostStepInterval = 43200\<rparr>"

definition NewRootPOSWConfig :: POSWConfig where
  "NewRootPOSWConfig = \<lparr>posw_Enabled = False, posw_EnableTimestamp = 0, posw_DiffDivider = 1000,
     posw_WindowSize = 4320, posw_TotalStakePerBlock = 240000 * QuarkashToJiaozi,
     posw_BoostTimestamp = 0, posw_BoostMultiplierPerStep = 2, posw_BoostSteps = 10,
     posw_BoostStepInterval = 86400 * 2\<rparr>"

text \<open>The loop of \<open>pow\<close> multiplies \<open>n\<close> times, at 64 bits.\<close>

primrec pow_loop :: "u64 \<Rightarrow> nat \<Rightarrow> u64 \<Rightarrow> u64" where
  "pow_loop value 0 r = r"
| "pow_loop value (Suc i) r = pow_loop value i (r * value)"

definition pow :: "u64 \<Rightarrow> u64 \<Rightarrow> u64" where
  "pow value n = pow_loop value (unat n) 1"

text \<open>An integer division by zero panics in Go.\<close>

definition GetDiffDivider :: "POSWConfig \<Rightarrow> u64 \<Rightarrow> u64 res" where
  "GetDiffDivider c blocktime =
     (if posw_BoostTimestamp c > 0 \<and> blocktime \<ge> posw_BoostTimestamp c then
        if posw_BoostStepInterval c = 0 then Inl (GoPanic ''integer divide by zero'')
        else let steps = (blocktime - posw_BoostTimestamp c) div posw_BoostStepInterval c + 1;
                 steps = (if steps > posw_BoostSteps c then posw_BoostSteps c else steps)
             in Inr (posw_DiffDivider c * pow (posw_BoostMultiplierPerStep c) steps)
      else Inr (posw_DiffDivider c))"

record RootGenesis =
  rg_Version :: u32
  rg_Height :: u32
  rg_HashPrevBlock :: bytes
  rg_HashMerkleRoot :: bytes
  rg_Timestamp :: u64
  rg_Difficulty :: u64
  rg_Nonce :: u32

definition NewRootGenesis :: RootGenesis where
  "NewRootGenesis = \<lparr>rg_Version = 0, rg_Height = 0, rg_HashPrevBlock = [], rg_HashMerkleRoot = [],
     rg_Timestamp = 1519147489, rg_Difficulty = 1000000, rg_Nonce = 0\<rparr>"

record RootConfig =
  rc_MaxStaleRootBlockHeightDiff :: u64
  rc_ConsensusType :: bytes
  rc_ConsensusConfig :: "POWConfig option"
  rc_Genesis :: RootGenesis
  rc_CoinbaseAddress :: Address
  rc_CoinbaseAmount :: int
  rc_EpochInterval :: u64
  rc_DifficultyAdjustmentCutoffTime :: u32
  rc_DifficultyAdjustmentFactor :: u32
  rc_GRPCHost :: bytes
  rc_GRPCPort :: u16
  rc_PoSWConfig :: POSWConfig

definition NewRootConfig :: "eth_common \<Rightarrow> RootConfig" where
  "NewRootConfig E = \<lparr>rc_MaxStaleRootBlockHeightDiff = 22500, rc_ConsensusType = PoWNone,
     rc_ConsensusConfig = None, rc_Genesis = NewRootGenesis,
     rc_CoinbaseAddress = CreatEmptyAddress (BytesToAddress E) 0,
     rc_CoinbaseAmount = 120 * QuarkashToJiaozi, rc_EpochInterval = 210000 * 10,
     rc_DifficultyAdjustmentCutoffTime = 40, rc_DifficultyAdjustmentFactor = 1024,
     rc_GRPCHost = str ''127.0.0.1'', rc_GRPCPort = DefaultGrpcPort,
     rc_PoSWConfig = NewRootPOSWConfig\<rparr>"

definition MaxRootBlocksInMemory :: "RootConfig \<Rightarrow> u64" where
  "MaxRootBlocksInMemory r = rc_MaxStaleRootBlockHeightDiff r * 2"

record Allocation =
  al_Balances :: "(bytes \<times> int) list"
  al_Code :: bytes
  al_Storage :: "(hash \<times> hash) list"

record ShardGenesis =
  sg_RootHeight :: u32
  sg_Version :: u32
  sg_Height :: u64
  sg_HashPrevMinorBlock :: bytes
  sg_HashMerkleRoot :: bytes
  sg_ExtraData :: bytes
  sg_Timestamp :: u64
  sg_Difficulty :: u64
  sg_GasLimit :: u64
  sg_Nonce :: u32
  sg_Alloc :: "(Address \<times> Allocation) list"

definition NewShardGenesis :: "eth_common \<Rightarrow> ShardGenesis" where
  "NewShardGenesis E = \<lparr>sg_RootHeight = 0, sg_Version = 0, sg_Height = 0,
     sg_HashPrevMinorBlock = [], sg_HashMerkleRoot = [],
     sg_ExtraData = FromHex E (str (''497420776173207468652062657374206f662074696d65732c206974''
       @ ''207761732074686520776f727374206f662074696d65732c202e2e2e''
       @ ''202d20436861726c6573204469636b656e73'')),
     sg_Timestamp = rg_Timestamp NewRootGenesis, sg_Difficulty = 10000,
     sg_GasLimit = 30000 * 400, sg_Nonce = 0, sg_Alloc = []\<rparr>"

record ChainConfig =
  cc_ChainID :: u32
  cc_ShardSize :: u32
  cc_DefaultChainToken :: bytes
  cc_ConsensusType :: bytes
  cc_ConsensusConfig :: "POWConfig option"
  cc_Genesis :: "ShardGenesis option"
  cc_CoinbaseAddress :: Address
  cc_CoinbaseAmount :: int
  cc_EpochInterval :: u64
  cc_DifficultyAdjustmentCutoffTime :: u32
  cc_DifficultyAdjustmentFactor :: u32
  cc_ExtraShardBlocksInRootBlock :: u32
  cc_PoswConfig :: POSWConfig

text \<open>A field the composite literal leaves out is the zero value.\<close>

definition NewChainConfig :: "eth_common \<Rightarrow> ChainConfig" where
  "NewChainConfig E = \<lparr>cc_ChainID = 0, cc_ShardSize = 2, cc_DefaultChainToken = DefaultToken,
     cc_ConsensusType = PoWNone, cc_ConsensusConfig = None, cc_Genesis = Some (NewShardGenesis E),
     cc_CoinbaseAddress = \<lparr>ad_Recipient = 0, ad_FullShardKey = 0\<rparr>,
     cc_CoinbaseAmount = 5 * QuarkashToJiaozi, cc_EpochInterval = 210000 * 60,
     cc_DifficultyAdjustmentCutoffTime = 7, cc_DifficultyAdjustmentFactor = 512,
     cc_ExtraShardBlocksInRootBlock = 3, cc_PoswConfig = NewPOSWConfig\<rparr>"

record ShardConfig =
  sc_ShardID :: u32
  sc_rootConfig :: "RootConfig option"
  sc_ChainConfig :: ChainConfig

definition NewShardConfig :: "ChainConfig \<Rightarrow> ShardConfig" where
  "NewShardConfig chainCfg = \<lparr>sc_ShardID = 0, sc_rootConfig = None, sc_ChainConfig = chainCfg\<rparr>"

definition SetRootConfig :: "RootConfig option \<Rightarrow> ShardConfig \<Rightarrow> ShardConfig" where
  "SetRootConfig v s = s\<lparr>sc_rootConfig := v\<rparr>"

definition ShardConfig_GetFullShardId :: "ShardConfig \<Rightarrow> u32" where
  "ShardConfig_GetFullShardId s =
     push_bit 16 (cc_ChainID (sc_ChainConfig s)) OR cc_ShardSize (sc_ChainConfig s) OR sc_ShardID s"

text \<open>The block times of the root chain and of the shard; a nil configuration on the way is a nil
  dereference.\<close>

definition root_block_time :: "ShardConfig \<Rightarrow> u32 res" where
  "root_block_time s =
     (case sc_rootConfig s of None \<Rightarrow> Inl (GoPanic ''nil pointer'')
      | Some r \<Rightarrow> (case rc_ConsensusConfig r of None \<Rightarrow> Inl (GoPanic ''nil pointer'')
                  | Some p \<Rightarrow> Inr (pow_TargetBlockTime p)))"

definition shard_block_time :: "ShardConfig \<Rightarrow> u32 res" where
  "shard_block_time s =
     (case cc_ConsensusConfig (sc_ChainConfig s) of None \<Rightarrow> Inl (GoPanic ''nil pointer'')
      | Some p \<Rightarrow> Inr (pow_TargetBlockTime p))"

definition MaxBlocksPerShardInOneRootBlock :: "ShardConfig \<Rightarrow> u32 res" where
  "MaxBlocksPerShardInOneRootBlock s =
     bind_res (root_block_time s) (\<lambda>rt. bind_res (shard_block_time s) (\<lambda>st.
       if st = 0 then Inl (GoPanic ''integer divide by zero'')
       else Inr (rt div st + cc_ExtraShardBlocksInRootBlock (sc_ChainConfig s))))"

definition MaxStaleMinorBlockHeightDiff :: "ShardConfig \<Rightarrow> u64 res" where
  "MaxStaleMinorBlockHeightDiff s =
     bind_res (root_block_time s) (\<lambda>rt. bind_res (shard_block_time s) (\<lambda>st.
       case sc_rootConfig s of None \<Rightarrow> Inl (GoPanic ''nil pointer'')
       | Some r \<Rightarrow>
           if st = 0 then Inl (GoPanic ''integer divide by zero'')
           else Inr (rc_MaxStaleRootBlockHeightDiff r * ucast rt div ucast st)))"

definition MaxMinorBlocksInMemory :: "ShardConfig \<Rightarrow> u64 res" where
  "MaxMinorBlocksInMemory s = bind_res (MaxStaleMinorBlockHeightDiff s) (\<lambda>d. Inr (d * 2))"

section \<open>The QuarkChain configuration\<close>

record QuarkChainConfig =
  qc_ChainSize :: u32
  qc_MaxNeighbors :: u32
  qc_NetworkID :: u32
  qc_TransactionQueueSizeLimitPerShard :: u64
  qc_BlockExtraDataSizeLimit :: u32
  qc_GuardianPublicKey :: bytes
  qc_RootSignerPrivateKey :: bytes
  qc_P2PProtocolVersion :: u32
  qc_P2PCommandSizeLimit :: u32
  qc_SkipRootDifficultyCheck :: bool
  qc_SkipRootCoinbaseCheck :: bool
  qc_SkipMinorDifficultyCheck :: bool
  qc_GenesisToken :: bytes
  qc_Root :: "RootConfig option"
  qc_shards :: "(u32 \<times> ShardConfig) list"
  qc_Chains :: "(u32 \<times> ChainConfig) list"
  qc_RewardTaxRate :: rat
  qc_LocalFeeRate :: rat
  qc_RewardCalculateRate :: rat
  qc_BlockRewardDecayFactor :: rat
  qc_chainIdToShardSize :: "(u32 \<times> u32) list"
  qc_chainIdToShardIds :: "(u32 \<times> u32 list) list"
  qc_defaultChainTokenID :: u64
  qc_EnableEvmTimeStamp :: u64
  qc_EnableQkcHashXHeight :: u64
  qc_EnableNonReservedNativeTokenTimestamp :: u64
  qc_EnableGeneralNativeTokenTimestamp :: u64
  qc_EnablePoswStakingDecayTimestamp :: u64
  qc_EnableEIP155SignerTimestamp :: u64
  qc_BaseEthChainID :: u32
  qc_DisablePowCheck :: bool
  qc_XShardGasDDOSFixRootHeight :: u64
  qc_MinTXPoolGasPrice :: "int option"
  qc_MinMiningGasPrice :: "int option"
  qc_GRPCHost :: bytes
  qc_GRPCPort :: u16
  qc_RootChainPoSWContractBytecodeHash :: hash

subsection \<open>Validation\<close>

text \<open>The first loop of \<open>initAndValidate\<close>: every key of the shard table is the full shard id of
  its entry; the sizes and the shard ids of each chain are collected. A missing map entry reads
  as nil, to which \<open>append\<close> appends.\<close>

primrec init_loop :: "(u32 \<times> ShardConfig) list \<Rightarrow> (u32 \<times> u32) list \<Rightarrow> (u32 \<times> u32 list) list
    \<Rightarrow> ((u32 \<times> u32) list \<times> (u32 \<times> u32 list) list) res" where
  "init_loop [] sizes ids = Inr (sizes, ids)"
| "init_loop (p # ps) sizes ids =
     (let chainID = cc_ChainID (sc_ChainConfig (snd p));
          shardSize = cc_ShardSize (sc_ChainConfig (snd p));
          shardID = sc_ShardID (snd p);
          realID = push_bit 16 chainID OR shardSize OR shardID
      in if fst p \<noteq> realID then Inl (GoPanic ''full_shard_id is not right'')
         else init_loop ps (AList.update chainID shardSize sizes)
                (AList.update chainID
                   ((case map_of ids chainID of None \<Rightarrow> [] | Some l \<Rightarrow> l) @ [shardID]) ids))"

definition lookup_shard_size :: "(u32 \<times> u32) list \<Rightarrow> u32 \<Rightarrow> u32 res" where
  "lookup_shard_size sizes ID =
     (case map_of sizes ID of None \<Rightarrow> Inl (GoError ''no such chainID'') | Some data \<Rightarrow> Inr data)"

text \<open>The second loop: each chain has as many shard ids as its size, and they are
  \<open>0, \<dots>, size - 1\<close>. The chain ids met are recorded in \<open>chainIDMap\<close>.\<close>

primrec check_ids_loop :: "(u32 \<times> u32) list \<Rightarrow> (u32 \<times> u32 list) list \<Rightarrow> (u32 \<times> u32) list
    \<Rightarrow> ((u32 \<times> u32) list) res" where
  "check_ids_loop sizes [] chainIDMap = Inr chainIDMap"
| "check_ids_loop sizes (p # ps) chainIDMap =
     bind_res (lookup_shard_size sizes (fst p)) (\<lambda>shardSize.
       if length (snd p) \<noteq> unat shardSize then Inl (GoPanic ''shard_size length is not right'')
       else if \<not> list_all (\<lambda>i. list_ex (\<lambda>shardID. of_nat i = shardID) (snd p)) [0..<unat shardSize]
       then Inl (GoPanic ''shard ids is not right'')
       else check_ids_loop sizes ps (AList.update (fst p) (fst p) chainIDMap))"

text \<open>The third loop: \<open>chainIDMap[i]\<close> reads 0 where \<open>i\<close> has no entry.\<close>

definition chain_ids_ok :: "u32 \<Rightarrow> (u32 \<times> u32) list \<Rightarrow> bool" where
  "chain_ids_ok chainSize chainIDMap =
     list_all (\<lambda>i. of_nat i = (case map_of chainIDMap (of_nat i) of None \<Rightarrow> 0 | Some v \<Rightarrow> v))
       [0..<unat chainSize]"

definition init_defaults :: "QuarkChainConfig \<Rightarrow> QuarkChainConfig" where
  "init_defaults q =
     (let q = (if qc_MinMiningGasPrice q = None then q\<lparr>qc_MinMiningGasPrice := Some 1000000000\<rparr> else q);
          q = (if qc_MinTXPoolGasPrice q = None then q\<lparr>qc_MinTXPoolGasPrice := Some 1000000000\<rparr> else q)
      in if qc_XShardGasDDOSFixRootHeight q = 0
         then q\<lparr>qc_XShardGasDDOSFixRootHeight := 90000\<rparr> else q)"

definition initAndValidate :: "QuarkChainConfig \<Rightarrow> QuarkChainConfig res" where
  "initAndValidate q0 =
     (let q = init_defaults q0 in
      if length (qc_GuardianPublicKey q) \<noteq> 65 \<and> length (qc_GuardianPublicKey q) \<noteq> 0
      then Inl (GoPanic ''GuardianPublicKey should 0 or 65'')
      else bind_res (init_loop (qc_shards q) [] []) (\<lambda>(sizes, ids).
        bind_res (check_ids_loop sizes ids []) (\<lambda>chainIDMap.
          if chain_ids_ok (qc_ChainSize q) chainIDMap
          then Inr (q\<lparr>qc_chainIdToShardSize := sizes, qc_chainIdToShardIds := ids\<rparr>)
          else Inl (GoPanic ''chain id is not right''))))"

definition SetShardsAndValidate ::
    "QuarkChainConfig \<Rightarrow> (u32 \<times> ShardConfig) list \<Rightarrow> QuarkChainConfig res" where
  "SetShardsAndValidate q shards = initAndValidate (q\<lparr>qc_shards := shards\<rparr>)"

subsection \<open>Routing\<close>

definition GetShardSizeByChainId :: "QuarkChainConfig \<Rightarrow> u32 \<Rightarrow> u32 res" where
  "GetShardSizeByChainId q ID = lookup_shard_size (qc_chainIdToShardSize q) ID"

definition GetFullShardIdByFullShardKey :: "QuarkChainConfig \<Rightarrow> u32 \<Rightarrow> u32 res" where
  "GetFullShardIdByFullShardKey q fullShardKey =
     (let chainID = drop_bit 16 fullShardKey in
      bind_res (GetShardSizeByChainId q chainID) (\<lambda>shardSize.
        let shardID = fullShardKey AND (shardSize - 1)
        in Inr (push_bit 16 chainID OR shardSize OR shardID)))"

definition IsSameFullShard :: "QuarkChainConfig \<Rightarrow> u32 \<Rightarrow> u32 \<Rightarrow> bool" where
  "IsSameFullShard q key1 key2 =
     (case GetFullShardIdByFullShardKey q key1 of Inl e \<Rightarrow> False
      | Inr id1 \<Rightarrow> (case GetFullShardIdByFullShardKey q key2 of Inl e \<Rightarrow> False
                    | Inr id2 \<Rightarrow> id1 = id2))"

definition GetShardConfigByFullShardID :: "QuarkChainConfig \<Rightarrow> u32 \<Rightarrow> ShardConfig option" where
  "GetShardConfigByFullShardID q fullShardID = map_of (qc_shards q) fullShardID"

definition GetGenesisRootHeight :: "QuarkChainConfig \<Rightarrow> u32 \<Rightarrow> u32 res" where
  "GetGenesisRootHeight q fullShardId =
     (case map_of (qc_shards q) fullShardId of None \<Rightarrow> Inl (GoPanic ''nil pointer'')
      | Some s \<Rightarrow> (case cc_Genesis (sc_ChainConfig s) of None \<Rightarrow> Inl (GoPanic ''nil pointer'')
                  | Some g \<Rightarrow> Inr (sg_RootHeight g)))"

definition GetGenesisShardIds :: "QuarkChainConfig \<Rightarrow> u32 list" where
  "GetGenesisShardIds q = map fst (qc_shards q)"

definition GetInitializedShardIdsBeforeRootHeight :: "QuarkChainConfig \<Rightarrow> u32 \<Rightarrow> u32 list" where
  "GetInitializedShardIdsBeforeRootHeight q rootHeight =
     map fst (filter (\<lambda>p. case cc_Genesis (sc_ChainConfig (snd p)) of None \<Rightarrow> False
                          | Some g \<Rightarrow> sg_RootHeight g < rootHeight) (qc_shards q))"

definition GetDefaultChainTokenID :: "QuarkChainConfig \<Rightarrow> (u64 \<times> QuarkChainConfig) res" where
  "GetDefaultChainTokenID q =
     (if qc_defaultChainTokenID q = 0 then
        bind_res (TokenIDEncode (qc_GenesisToken q)) (\<lambda>i.
          Inr (i, q\<lparr>qc_defaultChainTokenID := i\<rparr>))
      else Inr (qc_defaultChainTokenID q, q))"

definition QuarkChainConfig_GasLimit :: "QuarkChainConfig \<Rightarrow> u32 \<Rightarrow> int res" where
  "QuarkChainConfig_GasLimit q fullShardID =
     (case map_of (qc_shards q) fullShardID of None \<Rightarrow> Inl (GoError ''no such fullShardID'')
      | Some s \<Rightarrow> (case cc_Genesis (sc_ChainConfig s) of None \<Rightarrow> Inl (GoPanic ''nil pointer'')
                  | Some g \<Rightarrow> Inr (uint (sg_GasLimit g))))"

subsection \<open>Building the shard table\<close>

text \<open>The inner loops of \<open>NewQuarkChainConfig\<close>, \<open>Update\<close> and \<open>UnmarshalJSON\<close> add one shard entry
  for each shard id below the size of the chain; they differ in the coinbase address (\<open>coin\<close>).\<close>

definition add_shard :: "RootConfig option \<Rightarrow> (ShardConfig \<Rightarrow> Address) \<Rightarrow> ChainConfig \<Rightarrow> nat
    \<Rightarrow> (u32 \<times> ShardConfig) list \<Rightarrow> (u32 \<times> ShardConfig) list" where
  "add_shard rcfg coin cfg i shards =
     (let shardCfg = (SetRootConfig rcfg (NewShardConfig cfg))\<lparr>sc_ShardID := of_nat i\<rparr>;
          shardCfg = shardCfg\<lparr>sc_ChainConfig := (sc_ChainConfig shardCfg)\<lparr>cc_CoinbaseAddress := coin shardCfg\<rparr>\<rparr>
      in AList.update (ShardConfig_GetFullShardId shardCfg) shardCfg shards)"

definition add_chain :: "RootConfig option \<Rightarrow> (ShardConfig \<Rightarrow> Address) \<Rightarrow> ChainConfig
    \<Rightarrow> (u32 \<times> ChainConfig) list \<times> (u32 \<times> ShardConfig) list
    \<Rightarrow> (u32 \<times> ChainConfig) list \<times> (u32 \<times> ShardConfig) list" where
  "add_chain rcfg coin cfg tabs =
     (AList.update (cc_ChainID cfg) cfg (fst tabs),
      fold (add_shard rcfg coin cfg) [0..<unat (cc_ShardSize cfg)] (snd tabs))"

definition keep_coinbase :: "ShardConfig \<Rightarrow> Address" where
  "keep_coinbase s = cc_CoinbaseAddress (sc_ChainConfig s)"

text \<open>\<open>Update\<close>. Neither it nor \<open>NewQuarkChainConfig\<close> is given a nil \<open>ConsensusConfig\<close> to
  dereference: both create one first.\<close>

definition update_root :: "eth_common \<Rightarrow> QuarkChainConfig \<Rightarrow> u32 \<Rightarrow> RootConfig" where
  "update_root E q rootBlockTime =
     (let r = (case qc_Root q of None \<Rightarrow> NewRootConfig E | Some r \<Rightarrow> r);
          p = (case rc_ConsensusConfig r of None \<Rightarrow> NewPOWConfig | Some p \<Rightarrow> p)
      in r\<lparr>rc_ConsensusType := PoWSimulate,
           rc_ConsensusConfig := Some (p\<lparr>pow_TargetBlockTime := rootBlockTime\<rparr>)\<rparr>)"

definition update_chain :: "eth_common \<Rightarrow> u32 \<Rightarrow> u32 \<Rightarrow> nat \<Rightarrow> ChainConfig" where
  "update_chain E shardSizePerChain minorBlockTime i =
     (NewChainConfig E)\<lparr>cc_ChainID := of_nat i, cc_ShardSize := shardSizePerChain,
        cc_ConsensusType := PoWSimulate,
        cc_ConsensusConfig := Some (NewPOWConfig\<lparr>pow_TargetBlockTime := minorBlockTime\<rparr>),
        cc_DefaultChainToken := DefaultToken\<rparr>"

definition Update :: "eth_common \<Rightarrow> QuarkChainConfig \<Rightarrow> u32 \<Rightarrow> u32 \<Rightarrow> u32 \<Rightarrow> u32
    \<Rightarrow> QuarkChainConfig res" where
  "Update E q chainSize shardSizePerChain rootBlockTime minorBlockTime =
     (let rcfg = Some (update_root E q rootBlockTime);
          tabs = fold (\<lambda>i. add_chain rcfg keep_coinbase (update_chain E shardSizePerChain minorBlockTime i))
                   [0..<unat chainSize] ([], [])
      in initAndValidate (q\<lparr>qc_ChainSize := chainSize, qc_Root := rcfg,
           qc_Chains := fst tabs, qc_shards := snd tabs\<rparr>))"

definition default_root :: "eth_common \<Rightarrow> RootConfig" where
  "default_root E = (NewRootConfig E)\<lparr>rc_ConsensusType := PoWSimulate,
     rc_ConsensusConfig := Some (NewPOWConfig\<lparr>pow_TargetBlockTime := 10\<rparr>)\<rparr>"

definition default_chain :: "eth_common \<Rightarrow> nat \<Rightarrow> ChainConfig" where
  "default_chain E i = (NewChainConfig E)\<lparr>cc_ChainID := of_nat i, cc_ConsensusType := PoWSimulate,
     cc_ConsensusConfig := Some (NewPOWConfig\<lparr>pow_TargetBlockTime := 3\<rparr>)\<rparr>"

definition guardian_hex :: bytes where
  "guardian_hex = str (''04ab856abd0983a82972021e454fcf66ed5940ed595b0898bcd75cbe2d0a51a00f''
     @ ''5358b566df22395a2a8bf6c022c1d51a2c3defe654e91a8d244947783029694d'')"

definition NewQuarkChainConfig :: "eth_common \<Rightarrow> bytes \<Rightarrow> QuarkChainConfig res" where
  "NewQuarkChainConfig E grpchost =
     (let rcfg = Some (default_root E);
          tabs = fold (\<lambda>i. add_chain rcfg (\<lambda>s. CreatEmptyAddress (BytesToAddress E) (ShardConfig_GetFullShardId s))
                              (default_chain E i)) [0..<3] ([], [])
      in initAndValidate
       \<lparr>qc_ChainSize = 3, qc_MaxNeighbors = 32, qc_NetworkID = 3,
        qc_TransactionQueueSizeLimitPerShard = 10000, qc_BlockExtraDataSizeLimit = 1024,
        qc_GuardianPublicKey = FromHex E guardian_hex, qc_RootSignerPrivateKey = [],
        qc_P2PProtocolVersion = 0, qc_P2PCommandSizeLimit = DefaultP2PCmddSizeLimit,
        qc_SkipRootDifficultyCheck = False, qc_SkipRootCoinbaseCheck = False,
        qc_SkipMinorDifficultyCheck = False, qc_GenesisToken = DefaultToken, qc_Root = rcfg,
        qc_shards = snd tabs, qc_Chains = fst tabs, qc_RewardTaxRate = 1 / 2,
        qc_LocalFeeRate = 1 - 1 / 2, qc_RewardCalculateRate = (1 / 2) / (1 - 1 / 2),
        qc_BlockRewardDecayFactor = 1 / 2, qc_chainIdToShardSize = [], qc_chainIdToShardIds = [],
        qc_defaultChainTokenID = 0, qc_EnableEvmTimeStamp = 1569567600,
        qc_EnableQkcHashXHeight = 0, qc_EnableNonReservedNativeTokenTimestamp = - 1,
        qc_EnableGeneralNativeTokenTimestamp = - 1, qc_EnablePoswStakingDecayTimestamp = 0,
        qc_EnableEIP155SignerTimestamp = 0, qc_BaseEthChainID = 0, qc_DisablePowCheck = False,
        qc_XShardGasDDOSFixRootHeight = 90000, qc_MinTXPoolGasPrice = Some 1000000000,
        qc_MinMiningGasPrice = Some 1000000000, qc_GRPCHost = grpchost, qc_GRPCPort = 0,
        qc_RootChainPoSWContractBytecodeHash = HexToHash E (str (replicate 64 (CHR ''0'')))\<rparr>)"

text \<open>\<open>QuarkChainConfig.UnmarshalJSON\<close> from the decoded structure: \<open>alias\<close> is the embedded
  alias, \<open>tax\<close> and \<open>decay\<close> are the two floats times 1000, cut to integers. \<open>sort.Slice\<close> orders the
  chains by id.\<close>

definition QuarkChainConfig_UnmarshalJSON :: "eth_common \<Rightarrow> bytes \<Rightarrow> QuarkChainConfig
    \<Rightarrow> ChainConfig list \<Rightarrow> int \<Rightarrow> int \<Rightarrow> bytes \<Rightarrow> bytes \<Rightarrow> bytes \<Rightarrow> QuarkChainConfig res" where
  "QuarkChainConfig_UnmarshalJSON E grpchost alias chainCfgs tax decay guardianKey signerKey codeHash =
     (let chainCfgs = sort_key (\<lambda>c. cc_ChainID c) chainCfgs;
          tabs = fold (add_chain (qc_Root alias) keep_coinbase) chainCfgs ([], []);
          taxRate = of_int tax / 1000;
          feeRate = 1 - taxRate
      in if feeRate = 0 then Inl (GoPanic ''division by zero'')
         else let gk = FromHex E guardianKey;
                  gk = (if length gk = 64 then 4 # gk else gk)
              in initAndValidate (alias\<lparr>qc_Chains := fst tabs, qc_shards := snd tabs,
                   qc_GRPCHost := grpchost, qc_GRPCPort := DefaultGrpcPort,
                   qc_RewardTaxRate := taxRate, qc_LocalFeeRate := feeRate,
                   qc_RewardCalculateRate := taxRate / feeRate,
                   qc_BlockRewardDecayFactor := of_int decay / 1000,
                   qc_RootChainPoSWContractBytecodeHash := HexToHash E codeHash,
                   qc_GuardianPublicKey := gk, qc_RootSignerPrivateKey := FromHex E signerKey\<rparr>))"

section \<open>Slaves\<close>

record SlaveConfig =
  sl_IP :: bytes
  sl_Port :: u16
  sl_ID :: bytes
  sl_WSPortList :: "u16 list"
  sl_FullShardList :: "u32 list"
  sl_ChainMaskListForBackward :: "u32 list"

definition NewDefaultSlaveConfig :: SlaveConfig where
  "NewDefaultSlaveConfig = \<lparr>sl_IP = DefaultHost, sl_Port = slavePort, sl_ID = [],
     sl_WSPortList = [], sl_FullShardList = [], sl_ChainMaskListForBackward = []\<rparr>"

text \<open>\<open>SlaveConfig.UnmarshalJSON\<close> from the decoded alias and the two optional lists.\<close>

definition SlaveConfig_UnmarshalJSON :: "SlaveConfig \<Rightarrow> u32 list option \<Rightarrow> u64 list option
    \<Rightarrow> SlaveConfig res" where
  "SlaveConfig_UnmarshalJSON alias masks shards =
     (let s = (if sl_WSPortList alias = []
               then alias\<lparr>sl_WSPortList :=
                      map (\<lambda>shard. DefaultWSPort + ucast (drop_bit 16 shard)) (sl_FullShardList alias)\<rparr>
               else alias)
      in case (masks, shards) of
           (Some ms, Some fs) \<Rightarrow> Inl (GoError ''Can only have either FULL_SHARD_ID_LIST or CHAIN_MASK_LIST'')
         | (None, Some fs) \<Rightarrow> Inr (s\<lparr>sl_FullShardList := map ucast fs\<rparr>)
         | (Some ms, None) \<Rightarrow> Inr (s\<lparr>sl_FullShardList := [], sl_ChainMaskListForBackward := ms\<rparr>)
         | (None, None) \<Rightarrow> Inl (GoError ''Missing FULL_SHARD_ID_LIST (or CHAIN_MASK_LIST as legacy config)''))"

primrec slave_index_loop :: "u32 list \<Rightarrow> nat \<Rightarrow> nat \<Rightarrow> nat \<Rightarrow> u32 list \<Rightarrow> u32 list" where
  "slave_index_loop [] index slaveNumber slaveIndex ans = ans"
| "slave_index_loop (v # list) index slaveNumber slaveIndex ans =
     slave_index_loop list (Suc index) slaveNumber slaveIndex
       (if index mod slaveNumber = slaveIndex then ans @ [v] else ans)"

definition getFullShardIdListFromSlaveIndex :: "u32 list \<Rightarrow> nat \<Rightarrow> nat \<Rightarrow> u32 list" where
  "getFullShardIdListFromSlaveIndex list slaveNumber slaveIndex =
     slave_index_loop list 0 slaveNumber slaveIndex []"

text \<open>The slaves of \<open>NewClusterConfig\<close>; \<open>i < 10\<close> prints as one digit.\<close>

definition default_slaves :: "QuarkChainConfig \<Rightarrow> SlaveConfig list" where
  "default_slaves q =
     map (\<lambda>i. NewDefaultSlaveConfig\<lparr>sl_Port := slavePort + of_nat i, sl_ID := str ''S'' @ [48 + of_nat i],
               sl_FullShardList := getFullShardIdListFromSlaveIndex (GetGenesisShardIds q) DefaultNumSlaves i\<rparr>)
       [0..<DefaultNumSlaves]"

primrec GetSlaveConfig_loop :: "SlaveConfig option list \<Rightarrow> bytes \<Rightarrow> SlaveConfig res" where
  "GetSlaveConfig_loop [] ident = Inl (GoError ''slave is not in cluster config'')"
| "GetSlaveConfig_loop (slave # slaves) ident =
     (case slave of
        Some s \<Rightarrow> if sl_ID s = ident then Inr s else GetSlaveConfig_loop slaves ident
      | None \<Rightarrow> GetSlaveConfig_loop slaves ident)"

definition GetSlaveConfig :: "SlaveConfig option list option \<Rightarrow> bytes \<Rightarrow> SlaveConfig res" where
  "GetSlaveConfig slaveList ident =
     (case slaveList of None \<Rightarrow> Inl (GoError ''slave config is empty'')
      | Some slaves \<Rightarrow> GetSlaveConfig_loop slaves ident)"

text \<open>\<open>BackWardChainMaskList\<close>: the loop over the masks of a slave starts a new list for each mask.
  The shift count \<open>IntLeftMostBit(m) - 1\<close> wraps for a zero mask; a shift by 32 or more gives 0,
  so that the mask is all ones.\<close>

definition chain_bit_mask :: "u32 \<Rightarrow> u32" where
  "chain_bit_mask m = push_bit (unat (IntLeftMostBit m - 1)) 1 - 1"

definition mask_shards :: "ChainConfig list \<Rightarrow> u32 \<Rightarrow> u32 list" where
  "mask_shards chainCfgs m =
     map (\<lambda>c. push_bit 16 (cc_ChainID c) + 1)
       (filter (\<lambda>c. (cc_ChainID c AND chain_bit_mask m) = (m AND chain_bit_mask m)) chainCfgs)"

primrec mask_loop :: "ChainConfig list \<Rightarrow> u32 list \<Rightarrow> u32 list \<Rightarrow> u32 list" where
  "mask_loop chainCfgs [] l = l"
| "mask_loop chainCfgs (m # ms) l = mask_loop chainCfgs ms (mask_shards chainCfgs m)"

definition BackWardChainMaskList :: "(u32 \<times> ChainConfig) list \<Rightarrow> SlaveConfig list
    \<Rightarrow> SlaveConfig list res" where
  "BackWardChainMaskList chainCfgs slaves =
     (if list_ex (\<lambda>s. list_ex (\<lambda>vv. vv \<noteq> 0) (sl_FullShardList s)) slaves then Inr slaves
      else if list_ex (\<lambda>p. cc_ShardSize (snd p) \<noteq> 1) chainCfgs
      then Inl (GoError ''CHAIN_MASK_LIST:only works if every chain has 1 shard only'')
      else Inr (map (\<lambda>v. v\<lparr>sl_FullShardList :=
             sort (mask_loop (map snd chainCfgs) (sl_ChainMaskListForBackward v) (sl_FullShardList v))\<rparr>) slaves))"

section \<open>The difficulty divider\<close>

lemma pow_loop_eq: "pow_loop v n r = r * v ^ n"
  by (induction n arbitrary: r) (simp_all add: algebra_simps)

lemma pow_eq: "pow v n = v ^ unat n"
  by (simp add: pow_def pow_loop_eq)

section \<open>Validation\<close>

abbreviation chain_of :: "u32 \<times> ShardConfig \<Rightarrow> u32" where
  "chain_of p \<equiv> cc_ChainID (sc_ChainConfig (snd p))"

abbreviation size_of :: "u32 \<times> ShardConfig \<Rightarrow> u32" where
  "size_of p \<equiv> cc_ShardSize (sc_ChainConfig (snd p))"

abbreviation shard_of :: "u32 \<times> ShardConfig \<Rightarrow> u32" where
  "shard_of p \<equiv> sc_ShardID (snd p)"

text \<open>What the first loop computes: it succeeds when every key is the full shard id of its entry,
  the size of a chain is that of its last entry, and its shard ids are those of its entries.\<close>

definition keys_ok :: "(u32 \<times> ShardConfig) list \<Rightarrow> bool" where
  "keys_ok ps = list_all (\<lambda>p. fst p = ShardConfig_GetFullShardId (snd p)) ps"

definition sizes_after :: "(u32 \<times> ShardConfig) list \<Rightarrow> (u32 \<times> u32) list \<Rightarrow> (u32 \<times> u32) list" where
  "sizes_after ps sizes = fold (\<lambda>p. AList.update (chain_of p) (size_of p)) ps sizes"

definition ids_after :: "(u32 \<times> ShardConfig) list \<Rightarrow> (u32 \<times> u32 list) list \<Rightarrow> (u32 \<times> u32 list) list" where
  "ids_after ps ids = fold (\<lambda>p ids. AList.update (chain_of p)
     ((case map_of ids (chain_of p) of None \<Rightarrow> [] | Some l \<Rightarrow> l) @ [shard_of p]) ids) ps ids"

lemma init_loop_eq:
  "init_loop ps sizes ids =
     (if keys_ok ps then Inr (sizes_after ps sizes, ids_after ps ids)
      else Inl (GoPanic ''full_shard_id is not right''))"
  by (induction ps arbitrary: sizes ids)
    (simp_all add: keys_ok_def sizes_after_def ids_after_def ShardConfig_GetFullShardId_def Let_def)

lemma sizes_after_lookup:
  "map_of (sizes_after ps sizes) c =
     (case filter (\<lambda>p. chain_of p = c) ps of [] \<Rightarrow> map_of sizes c | l \<Rightarrow> Some (size_of (last l)))"
proof (induction ps arbitrary: sizes)
  case (Cons p ps)
  then show ?case
    by (cases "filter (\<lambda>p. chain_of p = c) ps") (auto simp: sizes_after_def update_conv')
qed (simp add: sizes_after_def)

lemma ids_after_lookup:
  "map_of (ids_after ps ids) c =
     (case filter (\<lambda>p. chain_of p = c) ps of [] \<Rightarrow> map_of ids c
      | l \<Rightarrow> Some ((case map_of ids c of None \<Rightarrow> [] | Some l \<Rightarrow> l) @ map shard_of l))"
proof (induction ps arbitrary: ids)
  case (Cons p ps)
  then show ?case
    by (cases "filter (\<lambda>p. chain_of p = c) ps") (auto simp: ids_after_def update_conv')
qed (simp add: ids_after_def)

lemma ids_after_distinct: "distinct (map fst ids) \<Longrightarrow> distinct (map fst (ids_after ps ids))"
  by (induction ps arbitrary: ids) (simp_all add: ids_after_def distinct_update)

text \<open>The second loop succeeds when the ids of every chain are a permutation of \<open>0, \<dots>, size - 1\<close>.\<close>

definition ids_ok :: "(u32 \<times> u32) list \<Rightarrow> u32 \<times> u32 list \<Rightarrow> bool" where
  "ids_ok sizes p \<longleftrightarrow> (\<exists>n. map_of sizes (fst p) = Some n \<and> length (snd p) = unat n
     \<and> (\<forall>i<unat n. of_nat i \<in> set (snd p)))"

lemma check_ids_loop_ok:
  "check_ids_loop sizes ps cm = Inr cm' \<Longrightarrow> p \<in> set ps \<Longrightarrow> ids_ok sizes p"
proof (induction ps arbitrary: cm)
  case (Cons a ps)
  from Cons.prems(1) obtain n where n: "map_of sizes (fst a) = Some n" "length (snd a) = unat n"
    "list_all (\<lambda>i. list_ex (\<lambda>s. of_nat i = s) (snd a)) [0..<unat n]"
    "check_ids_loop sizes ps (AList.update (fst a) (fst a) cm) = Inr cm'"
    by (auto simp: lookup_shard_size_def bind_res_Inr_iff split: option.splits if_splits)
  from n(1-3) have "ids_ok sizes a" by (auto simp: ids_ok_def list_all_iff list_ex_iff)
  with Cons.IH [OF n(4)] Cons.prems(2) show ?case by auto
qed simp

lemma check_ids_loop_succeeds:
  "(\<And>p. p \<in> set ps \<Longrightarrow> ids_ok sizes p) \<Longrightarrow>
   check_ids_loop sizes ps cm = Inr (fold (\<lambda>p. AList.update (fst p) (fst p)) ps cm)"
proof (induction ps arbitrary: cm)
  case (Cons a ps)
  have "ids_ok sizes a" using Cons.prems by simp
  moreover have "check_ids_loop sizes ps (AList.update (fst a) (fst a) cm) =
      Inr (fold (\<lambda>p. AList.update (fst p) (fst p)) ps (AList.update (fst a) (fst a) cm))"
    using Cons by simp
  ultimately show ?case
    by (auto simp: ids_ok_def lookup_shard_size_def list_all_iff list_ex_iff)
qed simp

lemma init_defaults_simps [simp]:
  "qc_shards (init_defaults q) = qc_shards q" "qc_ChainSize (init_defaults q) = qc_ChainSize q"
  "qc_GuardianPublicKey (init_defaults q) = qc_GuardianPublicKey q"
  by (simp_all add: init_defaults_def Let_def)

lemma initAndValidate_Inr:
  assumes "initAndValidate q = Inr q'"
  shows "qc_shards q' = qc_shards q" "keys_ok (qc_shards q)"
    "qc_chainIdToShardSize q' = sizes_after (qc_shards q) []"
    "\<And>p. p \<in> set (ids_after (qc_shards q) []) \<Longrightarrow> ids_ok (sizes_after (qc_shards q) []) p"
proof -
  from assms show k: "keys_ok (qc_shards q)"
    by (auto simp: initAndValidate_def init_loop_eq Let_def split: if_splits)
  from assms k obtain cm where
    cm: "check_ids_loop (sizes_after (qc_shards q) []) (ids_after (qc_shards q) []) [] = Inr cm"
    and q': "q' = (init_defaults q)\<lparr>qc_chainIdToShardSize := sizes_after (qc_shards q) [],
      qc_chainIdToShardIds := ids_after (qc_shards q) []\<rparr>"
    by (auto simp: initAndValidate_def init_loop_eq Let_def bind_res_Inr_iff split: if_splits)
  from q' show "qc_shards q' = qc_shards q"
    "qc_chainIdToShardSize q' = sizes_after (qc_shards q) []" by simp_all
  show "ids_ok (sizes_after (qc_shards q) []) p" if "p \<in> set (ids_after (qc_shards q) [])" for p
    by (rule check_ids_loop_ok [OF cm that])
qed

text \<open>Shard tables in which the entries of a chain agree on its size, and chain ids and sizes fit
  in 16 bits; this is what the configuration files provide.\<close>

definition uniform_shards :: "(u32 \<times> ShardConfig) list \<Rightarrow> bool" where
  "uniform_shards ps \<longleftrightarrow> (\<forall>p\<in>set ps. unat (chain_of p) < 65536 \<and> unat (size_of p) < 65536
     \<and> (\<forall>p'\<in>set ps. chain_of p' = chain_of p \<longrightarrow> size_of p' = size_of p))"

lemma perm_ids:
  fixes l :: "u32 list"
  assumes "length l = n" "\<And>i. i < n \<Longrightarrow> of_nat i \<in> set l" "n \<le> 2 ^ 32" "x \<in> set l"
  shows "unat x < n"
proof -
  let ?A = "(of_nat :: nat \<Rightarrow> u32) ` {0..<n}"
  have inj: "inj_on (of_nat :: nat \<Rightarrow> u32) {0..<n}"
  proof (rule inj_onI)
    fix i j assume h: "i \<in> {0..<n}" "j \<in> {0..<n}" "(of_nat i :: u32) = of_nat j"
    from h(3) have "unat (of_nat i :: u32) = unat (of_nat j :: u32)" by simp
    with h(1,2) assms(3) show "i = j" by (simp add: unat_of_nat)
  qed
  have "?A \<subseteq> set l" using assms(2) by auto
  moreover have "card (set l) \<le> card ?A"
    using card_length [of l] assms(1) card_image [OF inj] by simp
  ultimately have "?A = set l" by (intro card_subset_eq) (auto intro: antisym card_mono)
  with assms(4) have "x \<in> ?A" by blast
  then obtain i where "i < n" "x = of_nat i" by (rule imageE) simp
  then show ?thesis using assms(3) by (simp add: unat_of_nat)
qed

lemma or_absorb_and: "n OR (n AND m) = (n :: u32)"
  by (rule bit_eqI) (auto simp: bit_simps)

lemma or_inj_IsP2:
  assumes "n \<noteq> 0" and inj: "\<And>i j. i < n \<Longrightarrow> j < n \<Longrightarrow> n OR i = n OR j \<Longrightarrow> i = (j :: u32)"
  shows "IsP2 n"
proof -
  have "n AND (n - 1) \<le> n - 1" by (simp add: word_and_le1)
  also have "n - 1 < n" using assms(1) by (simp add: word_less_nat_alt measure_unat)
  finally have "n AND (n - 1) < n" .
  moreover have "0 < n" using assms(1) by (simp add: word_gt_0)
  ultimately have "n AND (n - 1) = 0" by (rule inj) (simp add: or_absorb_and)
  then show ?thesis by (simp add: IsP2_def)
qed

locale valid_shards =
  fixes ps :: "(u32 \<times> ShardConfig) list"
  assumes keys: "keys_ok ps"
    and distinct_keys: "distinct (map fst ps)"
    and uniform: "uniform_shards ps"
    and ids: "\<And>p. p \<in> set (ids_after ps []) \<Longrightarrow> ids_ok (sizes_after ps []) p"
begin

lemma key_of: "p \<in> set ps \<Longrightarrow> fst p = push_bit 16 (chain_of p) OR size_of p OR shard_of p"
  using keys by (auto simp: keys_ok_def list_all_iff ShardConfig_GetFullShardId_def)

lemma bounds: "p \<in> set ps \<Longrightarrow> unat (chain_of p) < 65536 \<and> unat (size_of p) < 65536"
  using uniform unfolding uniform_shards_def by blast

lemma uniform_size: "p \<in> set ps \<Longrightarrow> p' \<in> set ps \<Longrightarrow> chain_of p = chain_of p' \<Longrightarrow> size_of p = size_of p'"
  using uniform unfolding uniform_shards_def by blast

lemma last_of_chain:
  assumes "filter (\<lambda>p. chain_of p = c) ps \<noteq> []"
  shows "last (filter (\<lambda>p. chain_of p = c) ps) \<in> set ps"
    "chain_of (last (filter (\<lambda>p. chain_of p = c) ps)) = c"
  using last_in_set [OF assms] by auto

lemma size_lookup: "p \<in> set ps \<Longrightarrow> map_of (sizes_after ps []) (chain_of p) = Some (size_of p)"
proof -
  assume p: "p \<in> set ps"
  then have ne: "filter (\<lambda>p'. chain_of p' = chain_of p) ps \<noteq> []" by (auto simp: filter_empty_conv)
  have "size_of (last (filter (\<lambda>p'. chain_of p' = chain_of p) ps)) = size_of p"
    by (rule uniform_size) (use last_of_chain [OF ne] p in auto)
  with ne show ?thesis
    by (cases "filter (\<lambda>p'. chain_of p' = chain_of p) ps") (simp_all add: sizes_after_lookup)
qed

lemma size_lookup_Some: "map_of (sizes_after ps []) c = Some n \<Longrightarrow> \<exists>p\<in>set ps. chain_of p = c \<and> size_of p = n"
  using last_of_chain [of c] by (auto simp: sizes_after_lookup split: list.splits)

lemma ids_lookup:
  assumes "p \<in> set ps"
  shows "length (filter (\<lambda>p'. chain_of p' = chain_of p) ps) = unat (size_of p)"
    "i < unat (size_of p) \<Longrightarrow> \<exists>p'\<in>set ps. chain_of p' = chain_of p \<and> shard_of p' = of_nat i"
    "unat (shard_of p) < unat (size_of p)"
proof -
  let ?l = "filter (\<lambda>p'. chain_of p' = chain_of p) ps"
  have "?l \<noteq> []" using assms by (auto simp: filter_empty_conv)
  then have "map_of (ids_after ps []) (chain_of p) = Some (map shard_of ?l)"
    by (simp add: ids_after_lookup split: list.split)
  then have "(chain_of p, map shard_of ?l) \<in> set (ids_after ps [])" by (rule map_of_SomeD)
  from ids [OF this] size_lookup [OF assms]
  have k: "length (map shard_of ?l) = unat (size_of p)"
    "\<And>i. i < unat (size_of p) \<Longrightarrow> of_nat i \<in> set (map shard_of ?l)"
    by (auto simp: ids_ok_def)
  from k(1) show "length ?l = unat (size_of p)" by simp
  show "i < unat (size_of p) \<Longrightarrow> \<exists>p'\<in>set ps. chain_of p' = chain_of p \<and> shard_of p' = of_nat i"
    using k(2) [of i] by auto
  have "unat (size_of p) \<le> 2 ^ 32" using unat_lt_exp [of "size_of p"] by simp
  moreover have "shard_of p \<in> set (map shard_of ?l)" using assms by auto
  ultimately show "unat (shard_of p) < unat (size_of p)" using perm_ids k by blast
qed

lemma key_inj: "p \<in> set ps \<Longrightarrow> p' \<in> set ps \<Longrightarrow> fst p = fst p' \<Longrightarrow> p = p'"
  using distinct_keys by (metis eq_key_imp_eq_value prod.collapse)

lemma shard_entry:
  assumes "p \<in> set ps" "i < size_of p"
  obtains p' where "p' \<in> set ps" "chain_of p' = chain_of p" "size_of p' = size_of p" "shard_of p' = i"
proof -
  from assms(2) have "unat i < unat (size_of p)" by (simp add: word_less_nat_alt)
  from ids_lookup(2) [OF assms(1) this] obtain p' where
    p': "p' \<in> set ps" "chain_of p' = chain_of p" "shard_of p' = i" by auto
  with uniform_size [OF p'(1) assms(1)] that show thesis by simp
qed

lemma size_power:
  assumes "p \<in> set ps"
  obtains k where "size_of p = 2 ^ k" "k \<le> 15"
proof -
  have "length (filter (\<lambda>p'. chain_of p' = chain_of p) ps) \<noteq> 0"
    using assms by (auto simp: filter_empty_conv)
  then have nz: "size_of p \<noteq> 0" using ids_lookup(1) [OF assms] by auto
  have "IsP2 (size_of p)"
  proof (rule or_inj_IsP2 [OF nz])
    fix i j assume h: "i < size_of p" "j < size_of p" "size_of p OR i = size_of p OR j"
    from shard_entry [OF assms h(1)] obtain a where
      a: "a \<in> set ps" "chain_of a = chain_of p" "size_of a = size_of p" "shard_of a = i" .
    from shard_entry [OF assms h(2)] obtain b where
      b: "b \<in> set ps" "chain_of b = chain_of p" "size_of b = size_of p" "shard_of b = j" .
    have "fst a = fst b" using a b h(3) by (simp add: key_of or.assoc)
    then show "i = j" using key_inj [OF a(1) b(1)] a(4) b(4) by simp
  qed
  with nz obtain k where k: "k < 32" "size_of p = 2 ^ k" by (auto simp: IsP2_iff)
  have "unat (size_of p) < 65536" using bounds [OF assms] by blast
  then have "(2::nat) ^ k < 2 ^ 16" using k by (simp add: unat_exp_word)
  then have "k \<le> 15" using power_less_imp_less_exp [of "2::nat" k 16] by simp
  with k(2) that show thesis by blast
qed

lemma entry_parts:
  assumes "p \<in> set ps"
  obtains k where "size_of p = 2 ^ k" "k \<le> 15" "unat (shard_of p) < 2 ^ k"
    "branch_parts (NewBranch (fst p)) (unat (chain_of p)) k (unat (shard_of p))"
proof -
  from size_power [OF assms] obtain k where k: "size_of p = 2 ^ k" "k \<le> 15" .
  have s: "unat (shard_of p) < 2 ^ k" using ids_lookup(3) [OF assms] k by (simp add: unat_exp_word)
  have c: "unat (chain_of p) < 65536" using bounds [OF assms] by blast
  from full_id_value [OF c s k(2)] have
    "branch_parts (NewBranch (fst p)) (unat (chain_of p)) k (unat (shard_of p))"
    using s k by (simp add: branch_parts_def NewBranch_def key_of [OF assms])
  with k s that show thesis by blast
qed

text \<open>A key of a chain of the table has exactly one entry whose branch contains it.\<close>

lemma route:
  assumes "map_of (sizes_after ps []) (drop_bit 16 key) = Some n"
  shows "\<exists>p\<in>set ps. fst p = push_bit 16 (drop_bit 16 key) OR n OR (key AND (n - 1))
    \<and> chain_of p = drop_bit 16 key \<and> size_of p = n \<and> shard_of p = key AND (n - 1)
    \<and> (\<forall>p'\<in>set ps. IsInBranch (NewBranch (fst p')) key \<longleftrightarrow> p' = p)"
proof -
  from size_lookup_Some [OF assms] obtain p0 where
    p0: "p0 \<in> set ps" "chain_of p0 = drop_bit 16 key" "size_of p0 = n" by blast
  from size_power [OF p0(1)] p0(3) obtain k where k: "n = 2 ^ k" "k \<le> 15" by metis
  have s: "unat (key AND (n - 1)) = unat key mod 2 ^ k"
    by (simp add: k(1) exp_minus_1_mask unat_and_mask)
  then have "key AND (n - 1) < size_of p0"
    using k p0(3) by (simp add: word_less_nat_alt unat_exp_word)
  from shard_entry [OF p0(1) this] obtain p where
    p: "p \<in> set ps" "chain_of p = chain_of p0" "size_of p = size_of p0" "shard_of p = key AND (n - 1)" .
  have kd: "unat key div 65536 = unat (drop_bit 16 key)" by (simp only: unat_drop_bit_div) simp
  have "IsInBranch (NewBranch (fst p')) key \<longleftrightarrow> p' = p" if p': "p' \<in> set ps" for p'
  proof -
    from entry_parts [OF p'] obtain k' where k': "size_of p' = 2 ^ k'" "k' \<le> 15"
      "branch_parts (NewBranch (fst p')) (unat (chain_of p')) k' (unat (shard_of p'))" by metis
    have in': "IsInBranch (NewBranch (fst p')) key \<longleftrightarrow>
        unat (drop_bit 16 key) = unat (chain_of p') \<and> unat key mod 2 ^ k' = unat (shard_of p')"
      using IsInBranch_parts [OF k'(3)] kd by simp
    show ?thesis
    proof
      assume "IsInBranch (NewBranch (fst p')) key"
      with in' have c: "chain_of p' = drop_bit 16 key" "unat key mod 2 ^ k' = unat (shard_of p')"
        by (simp_all add: word_unat_eq_iff)
      have z: "size_of p' = size_of p" using uniform_size [OF p' p(1)] c p(2) p0(2) by simp
      then have "(2::u32) ^ k' = 2 ^ k" using k' k p(3) p0(3) by simp
      then have "unat ((2::u32) ^ k') = unat ((2::u32) ^ k)" by simp
      then have "k' = k" using k(2) k'(2) by (simp add: unat_exp_word)
      with c s have "shard_of p' = shard_of p" by (simp add: word_unat_eq_iff p(4))
      with c z p p0 have "fst p' = fst p" by (simp add: key_of p')
      then show "p' = p" by (rule key_inj [OF p' p(1)])
    next
      assume e: "p' = p"
      with k' p p0 k have "(2::u32) ^ k' = 2 ^ k" by simp
      then have "unat ((2::u32) ^ k') = unat ((2::u32) ^ k)" by simp
      then have "k' = k" using k(2) k'(2) by (simp add: unat_exp_word)
      with in' e s p p0 show "IsInBranch (NewBranch (fst p')) key" by simp
    qed
  qed
  moreover have "fst p = push_bit 16 (drop_bit 16 key) OR n OR (key AND (n - 1))"
    using key_of [OF p(1)] p p0 by simp
  ultimately show ?thesis using p p0 by auto
qed

end

lemma valid_shards_validated:
  assumes "initAndValidate q = Inr q'" "distinct (map fst (qc_shards q))" "uniform_shards (qc_shards q)"
  shows "valid_shards (qc_shards q)"
  using assms initAndValidate_Inr [OF assms(1)] by unfold_locales auto

text \<open>What \<open>initAndValidate\<close> checks: the guardian key, the keys of the table, the shard ids of each chain
  that has entries, and that every chain id below the chain size but 0 has entries.\<close>

definition chain_ok :: "(u32 \<times> ShardConfig) list \<Rightarrow> u32 \<Rightarrow> bool" where
  "chain_ok ps c \<longleftrightarrow> (let l = filter (\<lambda>p. chain_of p = c) ps; n = unat (size_of (last l)) in
     length l = n \<and> (\<forall>i<n. of_nat i \<in> shard_of ` set l))"

lemma ids_after_set:
  "(c, l) \<in> set (ids_after ps []) \<longleftrightarrow> c \<in> chain_of ` set ps \<and> l = map shard_of (filter (\<lambda>p. chain_of p = c) ps)"
proof -
  have "(c, l) \<in> set (ids_after ps []) \<longleftrightarrow> map_of (ids_after ps []) c = Some l"
    using ids_after_distinct [of "[]" ps] by simp
  also have "\<dots> \<longleftrightarrow> c \<in> chain_of ` set ps \<and> l = map shard_of (filter (\<lambda>p. chain_of p = c) ps)"
    by (cases "filter (\<lambda>p. chain_of p = c) ps") (auto simp: ids_after_lookup filter_empty_conv filter_eq_Cons_iff)
  finally show ?thesis .
qed

lemma ids_ok_chain:
  assumes "c \<in> chain_of ` set ps"
  shows "ids_ok (sizes_after ps []) (c, map shard_of (filter (\<lambda>p. chain_of p = c) ps)) \<longleftrightarrow> chain_ok ps c"
proof -
  have "filter (\<lambda>p. chain_of p = c) ps \<noteq> []" using assms by (auto simp: filter_empty_conv)
  then have "map_of (sizes_after ps []) c = Some (size_of (last (filter (\<lambda>p. chain_of p = c) ps)))"
    by (simp add: sizes_after_lookup split: list.split)
  then show ?thesis by (simp add: ids_ok_def chain_ok_def Let_def)
qed

lemma chain_id_map:
  "map_of (fold (\<lambda>p. AList.update (fst p) (fst p)) ps cm) c = (if c \<in> fst ` set ps then Some c else map_of cm c)"
  by (induction ps arbitrary: cm) (auto simp: update_conv')

lemma chain_ids_ok_iff:
  "chain_ids_ok n (fold (\<lambda>p. AList.update (fst p) (fst p)) (ids_after ps []) []) \<longleftrightarrow>
     (\<forall>i<unat n. i = 0 \<or> of_nat i \<in> chain_of ` set ps)"
proof -
  have "c \<in> fst ` set (ids_after ps []) \<longleftrightarrow> (\<exists>l. (c, l) \<in> set (ids_after ps []))" for c by force
  then have f: "fst ` set (ids_after ps []) = chain_of ` set ps" by (auto simp: ids_after_set)
  have "(of_nat i = (0 :: u32)) \<longleftrightarrow> i = 0" if "i < unat n" for i
    using that unat_lt_exp [of n] by (auto simp: word_unat_eq_iff unat_of_nat)
  then show ?thesis by (auto simp: chain_ids_ok_def list_all_iff chain_id_map f split: if_splits)
qed

lemma initAndValidate_cases:
  "initAndValidate q =
     (if length (qc_GuardianPublicKey q) \<notin> {0, 65} then Inl (GoPanic ''GuardianPublicKey should 0 or 65'')
      else if \<not> keys_ok (qc_shards q) then Inl (GoPanic ''full_shard_id is not right'')
      else bind_res (check_ids_loop (sizes_after (qc_shards q) []) (ids_after (qc_shards q) []) []) (\<lambda>cm.
        if chain_ids_ok (qc_ChainSize q) cm
        then Inr ((init_defaults q)\<lparr>qc_chainIdToShardSize := sizes_after (qc_shards q) [], qc_chainIdToShardIds := ids_after (qc_shards q) []\<rparr>)
        else Inl (GoPanic ''chain id is not right'')))"
  by (simp add: initAndValidate_def Let_def init_loop_eq)

lemma initAndValidate_checked:
  assumes "length (qc_GuardianPublicKey q) \<in> {0, 65}" "keys_ok (qc_shards q)" "\<And>c. c \<in> chain_of ` set (qc_shards q) \<Longrightarrow> chain_ok (qc_shards q) c"
  shows "if \<forall>i<unat (qc_ChainSize q). i = 0 \<or> of_nat i \<in> chain_of ` set (qc_shards q)
    then \<exists>q'. initAndValidate q = Inr q' else initAndValidate q = Inl (GoPanic ''chain id is not right'')"
proof -
  have "check_ids_loop (sizes_after (qc_shards q) []) (ids_after (qc_shards q) []) [] =
      Inr (fold (\<lambda>p. AList.update (fst p) (fst p)) (ids_after (qc_shards q) []) [])"
    by (rule check_ids_loop_succeeds) (use assms(3) ids_ok_chain in \<open>auto simp: ids_after_set\<close>)
  then show ?thesis using assms(1,2) by (simp add: initAndValidate_cases chain_ids_ok_iff)
qed

lemma initAndValidate_iff:
  "(\<exists>q'. initAndValidate q = Inr q') \<longleftrightarrow> length (qc_GuardianPublicKey q) \<in> {0, 65} \<and> keys_ok (qc_shards q) \<and>
     (\<forall>c \<in> chain_of ` set (qc_shards q). chain_ok (qc_shards q) c) \<and>
     (\<forall>i<unat (qc_ChainSize q). i = 0 \<or> of_nat i \<in> chain_of ` set (qc_shards q))"
    (is "?a \<longleftrightarrow> ?g \<and> ?k \<and> ?c \<and> ?i")
proof
  assume ?a
  then obtain q' where q': "initAndValidate q = Inr q'" ..
  then have gk: ?g ?k by (auto simp: initAndValidate_cases split: if_splits)
  have c: ?c
  proof
    fix c assume c: "c \<in> chain_of ` set (qc_shards q)"
    then have "(c, map shard_of (filter (\<lambda>p. chain_of p = c) (qc_shards q))) \<in> set (ids_after (qc_shards q) [])"
      by (simp add: ids_after_set)
    from initAndValidate_Inr(4) [OF q' this] show "chain_ok (qc_shards q) c" using ids_ok_chain [OF c] by simp
  qed
  from initAndValidate_checked [OF gk] c q' have ?i by (auto split: if_splits)
  with gk c show "?g \<and> ?k \<and> ?c \<and> ?i" by blast
next
  assume "?g \<and> ?k \<and> ?c \<and> ?i"
  then have g: ?g and k: ?k and c: "\<And>c. c \<in> chain_of ` set (qc_shards q) \<Longrightarrow> chain_ok (qc_shards q) c" and i: ?i by blast+
  from initAndValidate_checked [OF g k c] i show ?a by simp
qed

section \<open>Tables built from chains\<close>

text \<open>Every table the constructors build has distinct keys and holds only entries of the chains it
  was built from.\<close>

definition shard_entry_of :: "RootConfig option \<Rightarrow> (ShardConfig \<Rightarrow> Address) \<Rightarrow> ChainConfig \<Rightarrow> nat \<Rightarrow> ShardConfig" where
  "shard_entry_of rcfg coin cfg i =
     (let s = \<lparr>sc_ShardID = of_nat i, sc_rootConfig = rcfg, sc_ChainConfig = cfg\<rparr>
      in s\<lparr>sc_ChainConfig := cfg\<lparr>cc_CoinbaseAddress := coin s\<rparr>\<rparr>)"

lemma shard_entry_of_simps [simp]:
  "sc_ShardID (shard_entry_of rcfg coin cfg i) = of_nat i"
  "cc_ChainID (sc_ChainConfig (shard_entry_of rcfg coin cfg i)) = cc_ChainID cfg"
  "cc_ShardSize (sc_ChainConfig (shard_entry_of rcfg coin cfg i)) = cc_ShardSize cfg"
  by (simp_all add: shard_entry_of_def Let_def)

lemma add_shard_eq: "add_shard rcfg coin cfg i =
    AList.update (ShardConfig_GetFullShardId (shard_entry_of rcfg coin cfg i)) (shard_entry_of rcfg coin cfg i)"
  by (rule ext) (simp add: add_shard_def shard_entry_of_def Let_def SetRootConfig_def NewShardConfig_def)

definition table_inv :: "u32 \<Rightarrow> (u32 \<Rightarrow> bool) \<Rightarrow> (u32 \<times> ShardConfig) list \<Rightarrow> bool" where
  "table_inv n C tab \<longleftrightarrow> distinct (map fst tab) \<and> (\<forall>p\<in>set tab. size_of p = n \<and> C (chain_of p))"

lemma set_update_subset: "set (AList.update k v al) \<subseteq> insert (k, v) (set al)"
  by (induction al) auto

lemma add_shard_inv:
  assumes "table_inv n C tab" "cc_ShardSize cfg = n" "C (cc_ChainID cfg)"
  shows "table_inv n C (add_shard rcfg coin cfg i tab)"
proof -
  let ?e = "shard_entry_of rcfg coin cfg i"
  have "distinct (map fst (add_shard rcfg coin cfg i tab))"
    using assms(1) by (simp add: add_shard_eq table_inv_def distinct_update)
  moreover have "size_of p = n \<and> C (chain_of p)" if "p \<in> set (add_shard rcfg coin cfg i tab)" for p
    using that assms set_update_subset [of "ShardConfig_GetFullShardId ?e" ?e tab]
    by (auto simp: add_shard_eq table_inv_def)
  ultimately show ?thesis by (simp add: table_inv_def)
qed

lemma add_shards_inv:
  "table_inv n C tab \<Longrightarrow> cc_ShardSize cfg = n \<Longrightarrow> C (cc_ChainID cfg) \<Longrightarrow>
   table_inv n C (fold (add_shard rcfg coin cfg) is tab)"
  by (induction "is" arbitrary: tab) (simp_all add: add_shard_inv)

lemma add_chains_inv:
  assumes "table_inv n C (snd tabs)" "\<And>i. i \<in> set is \<Longrightarrow> cc_ShardSize (ch i) = n \<and> C (cc_ChainID (ch i))"
  shows "table_inv n C (snd (fold (\<lambda>i. add_chain rcfg coin (ch i)) is tabs))"
  using assms
proof (induction "is" arbitrary: tabs)
  case (Cons a l)
  have "table_inv n C (snd (add_chain rcfg coin (ch a) tabs))"
    using Cons.prems by (simp add: add_chain_def add_shards_inv)
  then show ?case using Cons.IH Cons.prems(2) by simp
qed simp

lemma add_shards_ne: "tab \<noteq> [] \<or> is \<noteq> [] \<Longrightarrow> fold (add_shard rcfg coin cfg) is tab \<noteq> []"
proof (induction "is" arbitrary: tab)
  case (Cons i l)
  have "add_shard rcfg coin cfg i tab \<noteq> []" by (cases tab) (auto simp: add_shard_eq)
  then show ?case using Cons.IH by simp
qed simp

lemma add_chains_ne:
  assumes "snd tabs \<noteq> [] \<or> is \<noteq> []" "\<And>i. i \<in> set is \<Longrightarrow> 0 < unat (cc_ShardSize (ch i))"
  shows "snd (fold (\<lambda>i. add_chain rcfg coin (ch i)) is tabs) \<noteq> []"
  using assms
proof (induction "is" arbitrary: tabs)
  case (Cons i l)
  have "snd (add_chain rcfg coin (ch i) tabs) \<noteq> []"
    using Cons.prems(2) [of i] by (simp add: add_chain_def add_shards_ne)
  then show ?case using Cons.IH Cons.prems(2) by simp
qed simp

text \<open>With a power of two the keys are new, and the table lists the entries in order.\<close>

lemma update_new: "k \<notin> fst ` set al \<Longrightarrow> AList.update k v al = al @ [(k, v)]"
  by (induction al) auto

definition entries :: "RootConfig option \<Rightarrow> (ShardConfig \<Rightarrow> Address) \<Rightarrow> ChainConfig \<Rightarrow> nat list \<Rightarrow> (u32 \<times> ShardConfig) list" where
  "entries rcfg coin cfg is = map (\<lambda>i. (ShardConfig_GetFullShardId (shard_entry_of rcfg coin cfg i), shard_entry_of rcfg coin cfg i)) is"

lemma add_shards_new:
  "distinct (map fst (tab @ entries rcfg coin cfg is)) \<Longrightarrow>
   fold (add_shard rcfg coin cfg) is tab = tab @ entries rcfg coin cfg is"
proof (induction "is" arbitrary: tab)
  case (Cons i l)
  then have "add_shard rcfg coin cfg i tab = tab @ entries rcfg coin cfg [i]"
    by (auto simp: add_shard_eq entries_def update_new)
  with Cons show ?case by (simp add: entries_def)
qed (simp add: entries_def)

lemma add_chains_new:
  assumes "distinct (map fst (snd tabs @ concat (map (\<lambda>i. entries rcfg coin (ch i) [0..<unat (cc_ShardSize (ch i))]) is)))"
  shows "snd (fold (\<lambda>i. add_chain rcfg coin (ch i)) is tabs) =
    snd tabs @ concat (map (\<lambda>i. entries rcfg coin (ch i) [0..<unat (cc_ShardSize (ch i))]) is)"
  using assms
proof (induction "is" arbitrary: tabs)
  case (Cons a l)
  have "distinct (map fst (snd tabs @ entries rcfg coin (ch a) [0..<unat (cc_ShardSize (ch a))]))"
    using Cons.prems by auto
  then have *: "snd (add_chain rcfg coin (ch a) tabs) =
      snd tabs @ entries rcfg coin (ch a) [0..<unat (cc_ShardSize (ch a))]"
    unfolding add_chain_def snd_conv by (rule add_shards_new)
  have "snd (fold (\<lambda>i. add_chain rcfg coin (ch i)) l (add_chain rcfg coin (ch a) tabs)) =
    snd (add_chain rcfg coin (ch a) tabs) @
    concat (map (\<lambda>i. entries rcfg coin (ch i) [0..<unat (cc_ShardSize (ch i))]) l)"
    by (rule Cons.IH) (use Cons.prems in \<open>simp add: *\<close>)
  with * show ?case by simp
qed simp

text \<open>The table of \<open>C\<close> chains with \<open>2^k\<close> shards each, as a product.\<close>

abbreviation grid :: "nat \<Rightarrow> nat \<Rightarrow> (nat \<times> nat) list" where
  "grid C n \<equiv> List.product [0..<C] [0..<n]"

definition grid_entry :: "RootConfig option \<Rightarrow> (ShardConfig \<Rightarrow> Address) \<Rightarrow> (nat \<Rightarrow> ChainConfig) \<Rightarrow> nat \<times> nat \<Rightarrow> u32 \<times> ShardConfig" where
  "grid_entry rcfg coin ch p =
     (let e = shard_entry_of rcfg coin (ch (fst p)) (snd p) in (ShardConfig_GetFullShardId e, e))"

lemma grid_entry_simps [simp]:
  "sc_ShardID (snd (grid_entry rcfg coin ch p)) = of_nat (snd p)"
  "cc_ChainID (sc_ChainConfig (snd (grid_entry rcfg coin ch p))) = cc_ChainID (ch (fst p))"
  "cc_ShardSize (sc_ChainConfig (snd (grid_entry rcfg coin ch p))) = cc_ShardSize (ch (fst p))"
  "fst (grid_entry rcfg coin ch p) = push_bit 16 (cc_ChainID (ch (fst p))) OR cc_ShardSize (ch (fst p)) OR of_nat (snd p)"
  by (simp_all add: grid_entry_def Let_def ShardConfig_GetFullShardId_def)

lemma filter_product:
  "distinct xs \<Longrightarrow> a \<in> set xs \<Longrightarrow> filter (\<lambda>p. fst p = a) (List.product xs ys) = map (Pair a) ys"
  by (induction xs) (auto simp: filter_map comp_def filter_empty_conv)

locale chain_grid =
  fixes rcfg :: "RootConfig option" and coin :: "ShardConfig \<Rightarrow> Address" and ch :: "nat \<Rightarrow> ChainConfig" and C k :: nat
  assumes ids: "\<And>i. i < C \<Longrightarrow> cc_ChainID (ch i) = of_nat i"
    and sizes: "\<And>i. i < C \<Longrightarrow> cc_ShardSize (ch i) = 2 ^ k"
    and C: "C \<le> 65536" and k: "k \<le> 15"
begin

abbreviation tab :: "(u32 \<times> ShardConfig) list" where
  "tab \<equiv> map (grid_entry rcfg coin ch) (grid C (2 ^ k))"

lemma grid_id: "i < C \<Longrightarrow> unat (cc_ChainID (ch i)) = i"
  using C by (simp add: ids unat_of_nat)

lemma shard_id: "i < 2 ^ k \<Longrightarrow> unat (of_nat i :: u32) = i"
  using k power_increasing [of k 15 "2::nat"] by (simp add: unat_of_nat)

lemma grid_key:
  assumes "p \<in> set (grid C (2 ^ k))"
  shows "unat (fst (grid_entry rcfg coin ch p)) = fst p * 65536 + (2 ^ k + snd p)"
proof -
  obtain a b where ab: "p = (a, b)" "a < C" "b < 2 ^ k" using assms by auto
  show ?thesis
    using full_id_value [of "cc_ChainID (ch a)" "of_nat b" k] ab C k grid_id shard_id by (simp add: sizes)
qed

lemma distinct_tab: "distinct (map fst tab)"
proof -
  have "inj_on (fst \<circ> grid_entry rcfg coin ch) (set (grid C (2 ^ k)))"
  proof (rule inj_onI)
    fix p p' assume h: "p \<in> set (grid C (2 ^ k))" "p' \<in> set (grid C (2 ^ k))"
      "(fst \<circ> grid_entry rcfg coin ch) p = (fst \<circ> grid_entry rcfg coin ch) p'"
    from h(3) have "unat (fst (grid_entry rcfg coin ch p)) = unat (fst (grid_entry rcfg coin ch p'))"
      by (simp only: comp_def)
    then have e: "fst p * 65536 + (2 ^ k + snd p) = fst p' * 65536 + (2 ^ k + snd p')"
      using grid_key h by metis
    have "2 ^ k + snd p < 65536" "2 ^ k + snd p' < 65536"
      using parts_low [of "snd p" k] parts_low [of "snd p'" k] h k by auto
    then have "fst p = (fst p * 65536 + (2 ^ k + snd p)) div 65536"
      "fst p' = (fst p' * 65536 + (2 ^ k + snd p')) div 65536"
      by (simp_all only: div_mult_self3 div_less)
    with e have "fst p = fst p'" by metis
    with e show "p = p'" by (simp add: prod_eq_iff)
  qed
  then show ?thesis by (simp add: distinct_map distinct_product)
qed

lemma tab_uniform: "uniform_shards tab"
proof -
  have "unat (2 ^ k :: u32) < 65536"
    using k power_increasing [of k 15 "2::nat"] by (simp add: unat_exp_word)
  then show ?thesis using C grid_id by (auto simp: uniform_shards_def sizes)
qed

lemma tab_filter:
  assumes "c < C"
  shows "filter (\<lambda>p. chain_of p = of_nat c) tab = map (grid_entry rcfg coin ch \<circ> Pair c) [0..<2 ^ k]"
proof -
  have "chain_of (grid_entry rcfg coin ch p) = of_nat c \<longleftrightarrow> fst p = c" if "p \<in> set (grid C (2 ^ k))" for p
  proof -
    have f: "fst p < C" using that by auto
    then have "chain_of (grid_entry rcfg coin ch p) = of_nat c \<longleftrightarrow> unat (of_nat (fst p) :: u32) = unat (of_nat c :: u32)"
      by (simp add: ids word_unat_eq_iff)
    then show ?thesis using f assms C by (simp add: unat_of_nat)
  qed
  then have "filter (\<lambda>p. chain_of (grid_entry rcfg coin ch p) = of_nat c) (grid C (2 ^ k)) =
      filter (\<lambda>p. fst p = c) (grid C (2 ^ k))" by (intro filter_cong) auto
  also have "\<dots> = map (Pair c) [0..<2 ^ k]" using assms by (intro filter_product) auto
  finally show ?thesis by (simp add: filter_map comp_def)
qed

lemma tab_sizes:
  assumes "c < C"
  shows "map_of (sizes_after tab []) (of_nat c) = Some (2 ^ k)"
    "map_of (ids_after tab []) (of_nat c) = Some (map of_nat [0..<2 ^ k])"
proof -
  let ?l = "map (grid_entry rcfg coin ch \<circ> Pair c) [0..<2 ^ k]"
  have ne: "[0..<2 ^ k :: nat] \<noteq> []" by simp
  have "size_of (last ?l) = 2 ^ k" using ne assms by (simp add: last_map sizes)
  moreover have "map shard_of ?l = map of_nat [0..<2 ^ k]" by simp
  moreover have "?l \<noteq> []" by simp
  ultimately show "map_of (sizes_after tab []) (of_nat c) = Some (2 ^ k)"
    "map_of (ids_after tab []) (of_nat c) = Some (map of_nat [0..<2 ^ k])"
    unfolding sizes_after_lookup ids_after_lookup tab_filter [OF assms]
    by (cases ?l; simp)+
qed

lemma tab_ids_dom: "p \<in> set (ids_after tab []) \<Longrightarrow> \<exists>c<C. fst p = of_nat c"
proof -
  assume "p \<in> set (ids_after tab [])"
  then have "map_of (ids_after tab []) (fst p) = Some (snd p)"
    using ids_after_distinct [of "[]" tab] by simp
  then have "filter (\<lambda>x. chain_of x = fst p) tab \<noteq> []"
    by (auto simp: ids_after_lookup split: list.splits)
  then show ?thesis by (auto simp: filter_empty_conv ids)
qed

lemma tab_ids_ok: "p \<in> set (ids_after tab []) \<Longrightarrow> ids_ok (sizes_after tab []) p"
proof -
  assume p: "p \<in> set (ids_after tab [])"
  from tab_ids_dom [OF p] obtain c where c: "c < C" "fst p = of_nat c" by blast
  have "map_of (ids_after tab []) (fst p) = Some (snd p)"
    using ids_after_distinct [of "[]" tab] p by simp
  with tab_sizes(2) [OF c(1)] c(2) have "snd p = map of_nat [0..<2 ^ k]" by simp
  then show ?thesis using tab_sizes(1) [OF c(1)] c(2) k by (auto simp: ids_ok_def unat_exp_word)
qed

lemma tab_valid: "valid_shards tab"
  using distinct_tab tab_uniform tab_ids_ok
  by unfold_locales (auto simp: keys_ok_def list_all_iff ShardConfig_GetFullShardId_def)

lemma tab_chain_ids: "chain_ids_ok (of_nat C) (fold (\<lambda>p. AList.update (fst p) (fst p)) (ids_after tab []) [])"
proof -
  have "(of_nat i :: u32) \<in> fst ` set (ids_after tab [])" if "i < C" for i
    using map_of_SomeD [OF tab_sizes(2) [OF that]] by force
  then show ?thesis using C by (auto simp: chain_ids_ok_def list_all_iff chain_id_map unat_of_nat)
qed

lemma tab_built:
  "snd (fold (\<lambda>i. add_chain rcfg coin (ch i)) [0..<C] ([], [])) = tab"
proof -
  have "concat (map (\<lambda>i. entries rcfg coin (ch i) [0..<unat (cc_ShardSize (ch i))]) [0..<C]) = tab"
  proof -
    have "entries rcfg coin (ch i) [0..<unat (cc_ShardSize (ch i))] =
        map (grid_entry rcfg coin ch) (map (Pair i) [0..<2 ^ k])" if "i \<in> set [0..<C]" for i
      using k that by (simp add: entries_def grid_entry_def Let_def sizes unat_exp_word)
    then have "map (\<lambda>i. entries rcfg coin (ch i) [0..<unat (cc_ShardSize (ch i))]) [0..<C] =
        map (\<lambda>i. map (grid_entry rcfg coin ch) (map (Pair i) [0..<2 ^ k])) [0..<C]"
      by (rule map_cong [OF refl])
    then show ?thesis by (simp only: product_concat_map map_concat map_map comp_def)
  qed
  then show ?thesis using add_chains_new [of "([], [])" rcfg coin ch "[0..<C]"] distinct_tab by simp
qed

end

text \<open>The default configuration (three chains of two shards) is a grid.\<close>

interpretation dflt: chain_grid "Some (default_root E)"
    "\<lambda>s. CreatEmptyAddress (BytesToAddress E) (ShardConfig_GetFullShardId s)" "default_chain E" 3 1 for E
  by unfold_locales (simp_all add: default_chain_def NewChainConfig_def)

interpretation dflt_shards: valid_shards "map (grid_entry (Some (default_root E))
    (\<lambda>s. CreatEmptyAddress (BytesToAddress E) (ShardConfig_GetFullShardId s)) (default_chain E)) (grid 3 (2 ^ 1))" for E
  by (rule dflt.tab_valid)

lemma initAndValidate_grid:
  assumes "chain_grid ch (unat (qc_ChainSize q)) k"
    "qc_shards q = chain_grid.tab rcfg coin ch (unat (qc_ChainSize q)) k"
    "length (qc_GuardianPublicKey q) \<in> {0, 65}"
  shows "\<exists>q'. initAndValidate q = Inr q'"
proof -
  let ?t = "qc_shards q"
  have v: "valid_shards ?t" using chain_grid.tab_valid [OF assms(1)] assms(2) by simp
  have "check_ids_loop (sizes_after ?t []) (ids_after ?t []) [] =
      Inr (fold (\<lambda>p. AList.update (fst p) (fst p)) (ids_after ?t []) [])"
    by (rule check_ids_loop_succeeds) (rule valid_shards.ids [OF v])
  moreover have "chain_ids_ok (qc_ChainSize q) (fold (\<lambda>p. AList.update (fst p) (fst p)) (ids_after ?t []) [])"
    using chain_grid.tab_chain_ids [OF assms(1), of rcfg coin] assms(2) by simp
  ultimately show ?thesis using assms(3) valid_shards.keys [OF v]
    by (auto simp: initAndValidate_def Let_def init_loop_eq)
qed

lemma default_config:
  assumes "length (FromHex E guardian_hex) \<in> {0, 65}"
  shows "\<exists>q q'. NewQuarkChainConfig E h = initAndValidate q \<and> initAndValidate q = Inr q'
    \<and> valid_shards (qc_shards q) \<and> map_of (sizes_after (qc_shards q) []) 1 = Some 2"
proof -
  have "\<exists>q. NewQuarkChainConfig E h = initAndValidate q \<and> qc_ChainSize q = 3
      \<and> qc_shards q = dflt.tab E \<and> qc_GuardianPublicKey q = FromHex E guardian_hex"
    unfolding NewQuarkChainConfig_def Let_def
    by (intro exI conjI, rule refl) (simp_all add: dflt.tab_built [simplified])
  then obtain q where q: "NewQuarkChainConfig E h = initAndValidate q" "qc_ChainSize q = 3"
    "qc_shards q = dflt.tab E" "qc_GuardianPublicKey q = FromHex E guardian_hex" by blast
  have "\<exists>q'. initAndValidate q = Inr q'"
    by (rule initAndValidate_grid) (use dflt.chain_grid_axioms [of E] q assms in auto)
  moreover have "map_of (sizes_after (qc_shards q) []) 1 = Some 2"
    using dflt.tab_sizes(1) [of 1 E] q(3) by simp
  ultimately show ?thesis using q(1,3) dflt.tab_valid by auto
qed

text \<open>A concrete instance of the library parameter.\<close>

definition zero_eth :: eth_common where
  "zero_eth = \<lparr>BytesToAddress = (\<lambda>b. 0), FromHex = (\<lambda>b. []), HexToHash = (\<lambda>b. 0)\<rparr>"

section \<open>Full shard ids that collide\<close>

text \<open>Full shard ids at 32 bits.\<close>

abbreviation full_id :: "u32 \<Rightarrow> nat \<Rightarrow> nat \<Rightarrow> u32" where
  "full_id n c s \<equiv> push_bit 16 (of_nat c) OR n OR of_nat s"

lemma push16_value: "unat (push_bit 16 (of_nat d) :: u32) = d mod 65536 * 65536"
proof -
  have "(push_bit 16 (of_nat d) :: u32) = of_nat (d * 65536)" by (simp add: push_bit_eq_mult)
  then have "unat (push_bit 16 (of_nat d) :: u32) = (d * 65536) mod 4294967296" by (simp add: unat_of_nat del: of_nat_mult)
  also have "\<dots> = d mod 65536 * 65536" using mod_mult_mult2 [of d 65536 65536] by simp
  finally show ?thesis .
qed

lemma push16_or:
  assumes "s < 65536"
  shows "unat (push_bit 16 (of_nat d) OR of_nat s :: u32) = d mod 65536 * 65536 + s"
  using push_or_add [of s 16 "d mod 65536"] assms by (simp add: unat_or_xor push16_value unat_of_nat)

lemma exp_or:
  assumes "s < 2 ^ k" "k < 32"
  shows "unat (2 ^ k OR of_nat s :: u32) = 2 ^ k + s"
proof -
  have "(2 :: nat) ^ k \<le> 2 ^ 31" using assms(2) by (intro power_increasing) simp_all
  then have "unat (of_nat s :: u32) = s" using assms(1) by (simp add: unat_of_nat)
  then show ?thesis using assms by (simp add: unat_or_xor unat_exp_word or_exp_add)
qed

lemma full_id_low:
  assumes "s < 2 ^ k" "k \<le> 15"
  shows "unat (full_id (2 ^ k) c s) = c mod 65536 * 65536 + (2 ^ k + s)"
  using exp_or [of s k] parts_low [OF assms] push_or_add [of "2 ^ k + s" 16 "c mod 65536"] assms
  by (simp add: or.assoc unat_or_xor push16_value)

lemma full_id_0:
  assumes "s < 2 ^ k" "k < 32"
  shows "unat (full_id (2 ^ k) 0 s) = 2 ^ k + s"
  using exp_or [OF assms] by simp

lemma full_id_16: "s < 65536 \<Longrightarrow> unat (full_id (2 ^ 16) 1 s) = 65536 + s" "s < 65536 \<Longrightarrow> unat (full_id (2 ^ 16) 2 s) = 196608 + s"
proof -
  have "(131072 :: u32) OR 65536 = 196608" by simp
  then show "s < 65536 \<Longrightarrow> unat (full_id (2 ^ 16) 1 s) = 65536 + s" "s < 65536 \<Longrightarrow> unat (full_id (2 ^ 16) 2 s) = 196608 + s"
    using push16_or [of s 1] push16_or [of s 3] by (simp_all add: or.assoc [symmetric])
qed

text \<open>Sizes and chain counts for which the ids of the chains from 1 and of the last one are distinct.\<close>

definition ids_distinct :: "u32 \<Rightarrow> nat set \<Rightarrow> bool" where
  "ids_distinct n Q \<longleftrightarrow> inj_on (\<lambda>(c, s). full_id n c s) (Q \<times> {..<unat n})"

lemma ids_distinctD:
  "ids_distinct n Q \<Longrightarrow> c \<in> Q \<Longrightarrow> d \<in> Q \<Longrightarrow> s < unat n \<Longrightarrow> t < unat n \<Longrightarrow> full_id n c s = full_id n d t \<Longrightarrow> c = d \<and> s = t"
  unfolding ids_distinct_def inj_on_def by fastforce

lemma size_is_power:
  assumes "ids_distinct n Q" "c \<in> Q" "n \<noteq> 0"
  shows "\<exists>k<32. n = 2 ^ k"
proof -
  have n0: "0 < unat n" using assms(3) by (simp add: unat_gt_0)
  obtain k where k: "2 ^ k \<le> unat n" "unat n < 2 * 2 ^ k"
    using ex_power_ivl1 [of 2 "unat n"] n0 by auto
  have "k < 32" using k(1) unat_lt_exp [of n] power_less_imp_less_exp [of "2 :: nat" k 32] by simp
  have "unat n div 2 ^ k = 1" using k by (intro div_nat_eqI) simp_all
  then have b: "bit n k" using bit_unsigned_iff [where ?'a = nat and w = n and n = k] by (simp add: bit_iff_odd)
  show ?thesis
  proof (cases "unat n = 2 ^ k")
    case True
    then have "n = 2 ^ k" using \<open>k < 32\<close> by (simp add: word_unat_eq_iff unat_exp_word)
    then show ?thesis using \<open>k < 32\<close> by blast
  next
    case False
    then have "2 ^ k < unat n" using k(1) by simp
    moreover have "full_id n c (2 ^ k) = full_id n c 0"
      using b by (intro bit_eqI) (auto simp: bit_simps)
    ultimately show ?thesis using ids_distinctD [OF assms(1,2,2), of "2 ^ k" 0] n0 by simp
  qed
qed


text \<open>The numbers of chains that give no collision among the chains from 1 and the last one.\<close>

definition chain_bound :: "nat \<Rightarrow> nat \<Rightarrow> bool" where
  "chain_bound k C \<longleftrightarrow> (if k \<le> 15 then C \<le> 65537 else if k = 16 then C \<le> 3 else C = 1)"

lemma chain_bound_needed:
  assumes "ids_distinct (2 ^ k) (insert (C - 1) {1..<C})" "k < 32" "0 < C"
  shows "chain_bound k C"
proof (rule ccontr)
  assume n: "\<not> chain_bound k C"
  have u: "unat (2 ^ k :: u32) = 2 ^ k" using assms(2) by (simp add: unat_exp_word)
  note d = ids_distinctD [OF assms(1), unfolded u]
  consider "k \<le> 15" "65537 < C" | "k = 16" "3 < C" | "17 \<le> k" "1 < C" using n assms(3) by (auto simp: chain_bound_def split: if_splits)
  then show False
  proof cases
    case 1
    have "unat (full_id (2 ^ k) 1 0) = unat (full_id (2 ^ k) 65537 0)" using 1(1) full_id_low [of 0 k 1] full_id_low [of 0 k 65537] by simp
    then have "full_id (2 ^ k) 1 0 = full_id (2 ^ k) 65537 0" by (simp only: word_unat_eq_iff)
    from d [OF _ _ _ _ this] 1(2) show False by simp
  next
    case 2
    have "full_id (2 ^ k) 2 0 = full_id (2 ^ k) 3 0" using 2(1) by simp
    from d [OF _ _ _ _ this] 2(2) show False by simp
  next
    case 3
    have "(2 :: nat) ^ 17 \<le> 2 ^ k" using 3(1) by (intro power_increasing) simp_all
    moreover have "full_id (2 ^ k) 1 0 = full_id (2 ^ k) 1 65536" by (simp add: or.commute [of "2 ^ k" 65536])
    ultimately show False using d [of 1 1 0 65536] 3(2) by simp
  qed
qed

lemma ids_distinct_low: "k \<le> 15 \<Longrightarrow> inj_on (\<lambda>c. c mod 65536) Q \<Longrightarrow> ids_distinct (2 ^ k) Q"
  unfolding ids_distinct_def
proof (rule inj_onI, clarsimp)
  fix c s d t assume h: "k \<le> 15" "inj_on (\<lambda>c. c mod 65536) Q" "c \<in> Q" "d \<in> Q" "s < unat (2 ^ k :: u32)" "t < unat (2 ^ k :: u32)"
    "full_id (2 ^ k) c s = full_id (2 ^ k) d t"
  have b: "s < 2 ^ k" "t < 2 ^ k" using h(1,5,6) by (simp_all add: unat_exp_word)
  from h(7) have "unat (full_id (2 ^ k) c s) = unat (full_id (2 ^ k) d t)" by simp
  then have e: "c mod 65536 * 65536 + (2 ^ k + s) = d mod 65536 * 65536 + (2 ^ k + t)" using full_id_low b h(1) by metis
  then have "(c mod 65536 * 65536 + (2 ^ k + s)) div 65536 = (d mod 65536 * 65536 + (2 ^ k + t)) div 65536" by simp
  then have m: "c mod 65536 = d mod 65536" using parts_low [OF b(1) h(1)] parts_low [OF b(2) h(1)] by simp
  then have "c = d" using h(2-4) by (simp add: inj_on_def)
  with e show "c = d \<and> s = t" by simp
qed

lemma ids_distinct_0: "k < 32 \<Longrightarrow> ids_distinct (2 ^ k) {0}"
  unfolding ids_distinct_def
proof (rule inj_onI, clarsimp simp del: full_id_0)
  fix s t assume h: "k < 32" "s < unat (2 ^ k :: u32)" "t < unat (2 ^ k :: u32)" "2 ^ k OR of_nat s = (2 ^ k OR of_nat t :: u32)"
  have b: "s < 2 ^ k" "t < 2 ^ k" using h(1-3) by (simp_all add: unat_exp_word)
  from h(4) have "unat (2 ^ k OR of_nat s :: u32) = unat (2 ^ k OR of_nat t :: u32)" by simp
  then show "s = t" using exp_or [OF b(1) h(1)] exp_or [OF b(2) h(1)] by simp
qed

lemma ids_distinct_16: "ids_distinct (2 ^ 16) {1, 2}"
  unfolding ids_distinct_def
proof (rule inj_onI, clarify)
  fix c s d t :: nat
  assume h: "c \<in> {1, 2}" "d \<in> {1, 2}" "s < unat (2 ^ 16 :: u32)" "t < unat (2 ^ 16 :: u32)" "full_id (2 ^ 16) c s = full_id (2 ^ 16) d t"
  have b: "s < 65536" "t < 65536" using h(3,4) by simp_all
  from h(5) have "unat (full_id (2 ^ 16) c s) = unat (full_id (2 ^ 16) d t)" by (simp only:)
  moreover have "unat (full_id (2 ^ 16) c s) = (if c = 1 then 65536 + s else 196608 + s)"
    "unat (full_id (2 ^ 16) d t) = (if d = 1 then 65536 + t else 196608 + t)"
    using h(1,2) full_id_16 b by auto
  ultimately show "c = d \<and> s = t" using h(1,2) b by (auto split: if_splits)
qed

text \<open>Under the bound all ids are distinct, or chain 0 shares its ids with another chain.\<close>

definition keeps_chain_0 :: "nat \<Rightarrow> nat \<Rightarrow> bool" where
  "keeps_chain_0 k C \<longleftrightarrow> C = 1 \<or> k \<le> 15 \<and> C \<le> 65536"

lemma chain_bound_cases:
  assumes "chain_bound k C" "k < 32" "0 < C"
  shows "if keeps_chain_0 k C then ids_distinct (2 ^ k) {0..<C}
    else ids_distinct (2 ^ k) {1..<C} \<and> (\<exists>c\<in>{1..<C}. \<forall>s. full_id (2 ^ k) 0 s = full_id (2 ^ k) c s)"
proof (cases "keeps_chain_0 k C")
  case True
  consider "C = 1" | "k \<le> 15" "C \<le> 65536" using True by (auto simp: keeps_chain_0_def)
  then have "ids_distinct (2 ^ k) {0..<C}"
  proof cases
    case 1
    then show ?thesis using ids_distinct_0 [OF assms(2)] by simp
  next
    case 2
    then show ?thesis by (intro ids_distinct_low) (auto simp: inj_on_def)
  qed
  with True show ?thesis by simp
next
  case False
  then consider "k \<le> 15" "C = 65537" | "k = 16" "C = 2 \<or> C = 3"
    using assms by (fastforce simp: keeps_chain_0_def chain_bound_def split: if_splits)
  then have "ids_distinct (2 ^ k) {1..<C} \<and> (\<exists>c\<in>{1..<C}. \<forall>s. full_id (2 ^ k) 0 s = full_id (2 ^ k) c s)"
  proof cases
    case 1
    have "inj_on (\<lambda>c. c mod 65536) {1..<65537 :: nat}"
    proof (rule inj_onI)
      fix x y :: nat assume "x \<in> {1..<65537}" "y \<in> {1..<65537}" "x mod 65536 = y mod 65536"
      then show "x = y" by (cases "x = 65536"; cases "y = 65536") (auto simp: less_Suc_eq)
    qed
    moreover have "full_id (2 ^ k) 0 s = full_id (2 ^ k) 65536 s" for s
    proof -
      have "unat (push_bit 16 (of_nat 65536) :: u32) = 0" unfolding push16_value by simp
      then have "(push_bit 16 (of_nat 65536) :: u32) = 0" by (simp only: unat_eq_0)
      then show ?thesis by (simp only:) simp
    qed
    ultimately show ?thesis using 1 ids_distinct_low [of k "{1..<65537}"] by (auto intro!: bexI [of _ 65536])
  next
    case 2
    then have "{1..<C} \<subseteq> {1, 2}" by auto
    then have "ids_distinct (2 ^ 16) {1..<C}" unfolding ids_distinct_def
      by (intro inj_on_subset [OF ids_distinct_16 [unfolded ids_distinct_def]] Sigma_mono subset_refl)
    moreover have "full_id (2 ^ 16) 0 s = full_id (2 ^ 16) 1 s" for s by simp
    ultimately show ?thesis using 2 by (auto intro!: bexI [of _ 1])
  qed
  with False show ?thesis by simp
qed


section \<open>The table of \<open>Update\<close>\<close>

text \<open>An entry that is written later replaces one with the same id.\<close>

lemma map_of_add_shards:
  "map_of (fold (add_shard rcfg coin cfg) is tab) = map_of (rev (entries rcfg coin cfg is) @ tab)"
  by (induction "is" arbitrary: tab) (simp_all add: entries_def add_shard_eq update_conv' map_add_upd_left map_of_append)

lemma map_of_add_chains:
  "map_of (snd (fold (\<lambda>i. add_chain rcfg coin (ch i)) is tabs)) =
     map_of (rev (concat (map (\<lambda>i. entries rcfg coin (ch i) [0..<unat (cc_ShardSize (ch i))]) is)) @ snd tabs)"
proof (induction "is" arbitrary: tabs)
  case (Cons i l)
  show ?case unfolding fold.simps comp_def Cons.IH
    by (simp add: add_chain_def map_of_add_shards map_of_append)
qed simp

locale update_table =
  fixes E :: eth_common and rcfg :: "RootConfig option" and mt n chains :: u32
begin

abbreviation entry :: "nat \<times> nat \<Rightarrow> u32 \<times> ShardConfig" where
  "entry \<equiv> grid_entry rcfg keep_coinbase (update_chain E n mt)"

abbreviation tab :: "(u32 \<times> ShardConfig) list" where
  "tab \<equiv> snd (fold (\<lambda>i. add_chain rcfg keep_coinbase (update_chain E n mt i)) [0..<unat chains] ([], []))"

lemma entry_simps:
  "chain_of (entry p) = of_nat (fst p)" "size_of (entry p) = n" "shard_of (entry p) = of_nat (snd p)"
  "fst (entry p) = full_id n (fst p) (snd p)"
  by (simp_all add: update_chain_def)

lemma entry_chain: "entry (c, s) \<in> set tab \<Longrightarrow> of_nat c \<in> chain_of ` set tab"
  using entry_simps(1) [of "(c, s)"] by (metis fst_conv image_eqI)

lemma tab_lookup: "map_of tab = map_of (rev (map entry (grid (unat chains) (unat n))))"
proof -
  have "entries rcfg keep_coinbase (update_chain E n mt i) [0..<unat n] = map entry (map (Pair i) [0..<unat n])" for i
    by (simp add: entries_def grid_entry_def Let_def)
  then have "concat (map (\<lambda>i. entries rcfg keep_coinbase (update_chain E n mt i) [0..<unat n]) [0..<unat chains]) = map entry (grid (unat chains) (unat n))"
    by (simp only: product_concat_map map_concat map_map comp_def)
  then show ?thesis using map_of_add_chains [of rcfg keep_coinbase "update_chain E n mt" "[0..<unat chains]" "([], [])"]
    by (simp add: update_chain_def)
qed

lemma tab_inv: "table_inv n (\<lambda>c. unat c < unat chains) tab"
proof (rule add_chains_inv)
  fix i assume "i \<in> set [0..<unat chains]"
  then have "unat (of_nat i :: u32) < unat chains" using unat_lt_exp [of chains] by (simp add: unat_of_nat)
  then show "cc_ShardSize (update_chain E n mt i) = n \<and> unat (cc_ChainID (update_chain E n mt i)) < unat chains"
    by (simp add: update_chain_def)
qed (simp add: table_inv_def)

lemma tab_distinct: "distinct (map fst tab)"
  using tab_inv by (simp add: table_inv_def)

lemma tab_set: "p \<in> set tab \<longleftrightarrow> map_of (rev (map entry (grid (unat chains) (unat n)))) (fst p) = Some (snd p)"
  unfolding tab_lookup [symmetric] using tab_distinct by (cases p) (simp del: map_of_eq_Some_iff add: map_of_eq_Some_iff)

lemma tab_from: "p \<in> set tab \<Longrightarrow> \<exists>c s. c < unat chains \<and> s < unat n \<and> p = entry (c, s)"
proof -
  assume p: "p \<in> set tab"
  then have "map_of (rev (map entry (grid (unat chains) (unat n)))) (fst p) = Some (snd p)" using tab_set by blast
  from map_of_SomeD [OF this] obtain q where "q \<in> set (grid (unat chains) (unat n))" "p = entry q" by auto
  then show ?thesis by (intro exI [of _ "fst q"] exI [of _ "snd q"]) auto
qed

lemma tab_keys: "keys_ok tab"
  using tab_from by (fastforce simp: keys_ok_def list_all_iff ShardConfig_GetFullShardId_def)

lemma last_chain_present:
  assumes "0 < unat chains" "0 < unat n"
  shows "entry (unat chains - 1, unat n - 1) \<in> set tab"
proof -
  obtain c m where cm: "unat chains = Suc c" "unat n = Suc m" using assms by (metis Suc_pred)
  have "grid (Suc c) (Suc m) = (List.product [0..<c] [0..<Suc m] @ map (Pair c) [0..<m]) @ [(c, m)]"
    by (simp add: product_concat_map)
  then have "map entry (grid (unat chains) (unat n)) = map entry (List.product [0..<c] [0..<Suc m] @ map (Pair c) [0..<m]) @ [entry (c, m)]"
    unfolding cm by (simp only: map_append list.map)
  then have "map_of (rev (map entry (grid (unat chains) (unat n)))) (fst (entry (c, m))) = Some (snd (entry (c, m)))"
    by (simp only: rev_append rev.simps append_Nil append_Cons) (simp only: map_of.simps fun_upd_same)
  then have "entry (c, m) \<in> set tab" using tab_set by blast
  then show ?thesis using cm by simp
qed

text \<open>A table that is accepted has distinct ids for all chains in it.\<close>

lemma accepted_distinct:
  assumes "\<And>c. c \<in> chain_of ` set tab \<Longrightarrow> chain_ok tab c" "\<And>c. c \<in> Q \<Longrightarrow> c < unat chains \<and> of_nat c \<in> chain_of ` set tab"
  shows "ids_distinct n Q"
  unfolding ids_distinct_def
proof (rule inj_onI, clarify)
  have e: "\<exists>p \<in> set tab. p = entry (c, s)" if c: "c \<in> Q" and s: "s < unat n" for c s
  proof -
    let ?l = "filter (\<lambda>p. chain_of p = of_nat c) tab"
    have "?l \<noteq> []" using assms(2) [OF c] by (force simp: filter_empty_conv)
    then have "last ?l \<in> set tab" using last_in_set by fastforce
    then have "size_of (last ?l) = n" using tab_inv unfolding table_inv_def by blast
    with assms(1) assms(2) [OF c] s have "of_nat s \<in> shard_of ` set ?l" by (simp add: chain_ok_def Let_def)
    then obtain p where p: "p \<in> set tab" "chain_of p = of_nat c" "shard_of p = of_nat s" by auto
    from tab_from [OF p(1)] obtain d t where d: "d < unat chains" "t < unat n" "p = entry (d, t)" by blast
    have "unat (of_nat d :: u32) = unat (of_nat c :: u32)" "unat (of_nat t :: u32) = unat (of_nat s :: u32)"
      using p(2,3) d(3) entry_simps(1,3) [of "(d, t)"] by simp_all
    then have "d = c" "t = s" using d(1,2) assms(2) [OF c] s unat_lt_exp [of chains] unat_lt_exp [of n] by (simp_all add: unat_of_nat)
    with p(1) d(3) show ?thesis by blast
  qed
  fix c s d t assume h: "c \<in> Q" "d \<in> Q" "s < unat n" "t < unat n" "full_id n c s = full_id n d t"
  from e [OF h(1,3)] e [OF h(2,4)] have m: "entry (c, s) \<in> set tab" "entry (d, t) \<in> set tab" by auto
  have "fst (entry (c, s)) = fst (entry (d, t))" using h(5) unfolding entry_simps by simp
  then have "entry (c, s) = entry (d, t)" using m tab_distinct by (meson distinct_map inj_onD)
  then have "chain_of (entry (c, s)) = chain_of (entry (d, t))" "shard_of (entry (c, s)) = shard_of (entry (d, t))" by simp_all
  then have "unat (of_nat c :: u32) = unat (of_nat d :: u32)" "unat (of_nat s :: u32) = unat (of_nat t :: u32)"
    unfolding entry_simps by simp_all
  then show "c = d \<and> s = t" using h(3,4) assms(2) [OF h(1)] assms(2) [OF h(2)] unat_lt_exp [of chains] unat_lt_exp [of n]
    by (simp add: unat_of_nat)
qed

text \<open>A table whose entries are those of distinct chains passes the check of each chain.\<close>

lemma tab_chain_ok:
  assumes "set tab = entry ` (Q \<times> {..<unat n})" "Q \<subseteq> {..<unat chains}" "0 < unat n" "c \<in> chain_of ` set tab"
  shows "chain_ok tab c"
proof -
  let ?l = "filter (\<lambda>p. chain_of p = c) tab"
  from assms(1,4) obtain d where d: "d \<in> Q" "c = of_nat d" by (auto simp: entry_simps simp del: grid_entry_simps)
  have i: "of_nat x = (of_nat y :: u32) \<longleftrightarrow> x = y" if "x < 2 ^ 32" "y < 2 ^ 32" for x y
    using that by (simp add: word_unat_eq_iff unat_of_nat)
  have b: "x < 2 ^ 32" if "x \<in> Q" for x using that assms(2) unat_lt_exp [of chains] by fastforce
  have bn: "x < 2 ^ 32" if "x < unat n" for x using that unat_lt_exp [of n] by simp
  have s: "set ?l = entry ` ({d} \<times> {..<unat n})"
    using i [OF b b] d by (auto simp: assms(1) entry_simps simp del: grid_entry_simps)
  have "inj_on entry ({d} \<times> {..<unat n})"
  proof (rule inj_onI)
    fix p q assume h: "p \<in> {d} \<times> {..<unat n}" "q \<in> {d} \<times> {..<unat n}" "entry p = entry q"
    then have "shard_of (entry p) = shard_of (entry q)" by simp
    then have "of_nat (snd p) = (of_nat (snd q) :: u32)" unfolding entry_simps .
    then show "p = q" using h(1,2) i [OF bn bn, of "snd p" "snd q"] by (auto simp: prod_eq_iff)
  qed
  then have "card (set ?l) = unat n" unfolding s by (simp add: card_image card_cartesian_product)
  moreover have "distinct ?l" using tab_distinct by (simp add: distinct_map)
  ultimately have l: "length ?l = unat n" using distinct_card by metis
  then have "?l \<noteq> []" using assms(3) by auto
  then have "last ?l \<in> set tab" using last_in_set by fastforce
  then have "size_of (last ?l) = n" using tab_inv unfolding table_inv_def by blast
  moreover have "of_nat x \<in> shard_of ` set ?l" if "x < unat n" for x
    unfolding s using that entry_simps(3) [of "(d, x)"] by (intro image_eqI [of _ _ "entry (d, x)"]) auto
  ultimately show ?thesis using l by (simp add: chain_ok_def Let_def)
qed

lemma tab_entries:
  assumes "n = 2 ^ k" "k < 32" "0 < unat chains" "chain_bound k (unat chains)"
  shows "set tab = entry ` ((if keeps_chain_0 k (unat chains) then {0..<unat chains} else {1..<unat chains}) \<times> {..<unat n})"
proof -
  let ?C = "unat chains" let ?g = "\<lambda>Q. List.product Q [0..<unat n]"
  have dist: "distinct (map fst (rev (map entry (?g Q))))" if "ids_distinct n (set Q)" "distinct Q" for Q
  proof -
    have "inj_on (fst \<circ> entry) (set (?g Q))" using that(1) unfolding ids_distinct_def
      by (simp add: comp_def entry_simps case_prod_unfold atLeast0LessThan del: grid_entry_simps)
    then show ?thesis using that(2) by (simp add: rev_map distinct_map distinct_product del: grid_entry_simps)
  qed
  have *: "p \<in> set (map entry (?g Q)) \<longleftrightarrow> map_of (rev (map entry (?g Q))) (fst p) = Some (snd p)"
    if "ids_distinct n (set Q)" "distinct Q" for Q p
    using map_of_eq_Some_iff [OF dist [OF that], of "fst p" "snd p"] by simp
  show ?thesis
  proof (cases "keeps_chain_0 k ?C")
    case True
    then have "ids_distinct n (set [0..<?C])" using chain_bound_cases [OF assms(4,2,3)] assms(1) by simp
    from * [OF this distinct_upt] tab_set have "set tab = set (map entry (?g [0..<?C]))" by blast
    then show ?thesis using True by (simp add: atLeast0LessThan)
  next
    case False
    with chain_bound_cases [OF assms(4,2,3)] assms(1) obtain d where d: "ids_distinct n (set [1..<?C])" "d \<in> {1..<?C}"
      "\<And>s. full_id n 0 s = full_id n d s" by auto
    have g: "map entry (?g [0..<?C]) = map entry (map (Pair 0) [0..<unat n]) @ map entry (?g [1..<?C])"
      using assms(3) by (simp add: upt_conv_Cons)
    have "map_of (rev (map entry (?g [0..<?C]))) = map_of (rev (map entry (?g [1..<?C])))"
    proof
      fix i
      show "map_of (rev (map entry (?g [0..<?C]))) i = map_of (rev (map entry (?g [1..<?C]))) i"
      proof (cases "map_of (rev (map entry (?g [1..<?C]))) i")
        case None
        then have "i \<noteq> fst (entry (d, s))" if "s < unat n" for s
          using that d(2) by (force simp: map_of_eq_None_iff)
        then have "i \<noteq> fst (entry (0, s))" if "s < unat n" for s
          using that d(3) entry_simps(4) [of "(0, s)"] entry_simps(4) [of "(d, s)"] by fastforce
        then have "map_of (rev (map entry (map (Pair 0) [0..<unat n]))) i = None" by (force simp: map_of_eq_None_iff)
        then show ?thesis using None unfolding g by (simp only: rev_append map_of_append map_add_None)
      next
        case (Some e)
        then show ?thesis unfolding g by (simp only: rev_append map_of_append map_add_Some_iff) simp
      qed
    qed
    with * [OF d(1) distinct_upt] tab_set have "set tab = set (map entry (?g [1..<?C]))" by (metis (no_types) subsetI subset_antisym)
    then show ?thesis using False by (simp add: atLeast0LessThan)
  qed
qed

end

interpretation upd: update_table E rcfg mt n chains for E rcfg mt n chains .

lemma no_chains: "unat (cc_ShardSize (ch 0)) = 0 \<and> (\<forall>i. cc_ShardSize (ch i) = cc_ShardSize (ch 0)) \<or> is = [] \<Longrightarrow>
    snd (fold (\<lambda>i. add_chain rcfg coin (ch i)) is ([], [])) = []"
proof -
  have *: "snd (fold (\<lambda>i. add_chain rcfg coin (ch i)) is tabs) = snd tabs" if "\<And>i. cc_ShardSize (ch i) = 0" for tabs
    using that by (induction "is" arbitrary: tabs) (simp_all add: add_chain_def)
  assume "unat (cc_ShardSize (ch 0)) = 0 \<and> (\<forall>i. cc_ShardSize (ch i) = cc_ShardSize (ch 0)) \<or> is = []"
  then show ?thesis using * [of "([], [])"] by (auto simp: unat_eq_0)
qed

lemma update_iff:
  "(\<exists>q'. Update E q chainSize shardSize rt mt = Inr q') \<longleftrightarrow> length (qc_GuardianPublicKey q) \<in> {0, 65} \<and>
    (chainSize = 0 \<or> chainSize = 1 \<and> shardSize = 0 \<or> (\<exists>k<32. shardSize = 2 ^ k \<and> chain_bound k (unat chainSize)))"
proof -
  let ?r = "Some (update_root E q rt)"
  let ?f = "fold (\<lambda>i. add_chain ?r keep_coinbase (update_chain E shardSize mt i)) [0..<unat chainSize] ([], [])"
  let ?q = "q\<lparr>qc_ChainSize := chainSize, qc_Root := ?r, qc_Chains := fst ?f, qc_shards := snd ?f\<rparr>"
  have U: "Update E q chainSize shardSize rt mt = initAndValidate ?q" by (simp add: Update_def Let_def)
  show ?thesis
  proof (cases "chainSize = 0 \<or> shardSize = 0")
    case True
    have e: "snd ?f = []" by (rule no_chains) (use True in \<open>auto simp: update_chain_def\<close>)
    have p: "(0 :: u32) \<noteq> 2 ^ k" if "k < 32" for k
      using unat_exp_word [of k, where ?'a = 32] that by auto
    have c: "(\<forall>i<unat chainSize. i = 0) \<longleftrightarrow> chainSize = 0 \<or> chainSize = 1"
    proof -
      have "(\<forall>i<unat chainSize. i = 0) \<longleftrightarrow> unat chainSize = unat (0 :: u32) \<or> unat chainSize = unat (1 :: u32)"
        by (auto simp: less_Suc_eq) (metis Suc_lessI gr0I not_less_eq One_nat_def n_not_Suc_n)
      then show ?thesis by (simp only: word_unat_eq_iff)
    qed
    have "(\<exists>q'. initAndValidate ?q = Inr q') \<longleftrightarrow> length (qc_GuardianPublicKey q) \<in> {0, 65} \<and> (chainSize = 0 \<or> chainSize = 1)"
      unfolding initAndValidate_iff using e c by (simp add: keys_ok_def)
    then show ?thesis unfolding U using True p by auto
  next
    case False
    let ?C = "unat chainSize" let ?t = "upd.tab E ?r mt shardSize chainSize"
    have pos: "0 < ?C" "0 < unat shardSize" using False by (simp_all add: unat_gt_0)
    have i: "(\<exists>q'. Update E q chainSize shardSize rt mt = Inr q') \<longleftrightarrow> length (qc_GuardianPublicKey q) \<in> {0, 65} \<and>
        (\<forall>c \<in> chain_of ` set ?t. chain_ok ?t c) \<and> (\<forall>i<?C. i = 0 \<or> of_nat i \<in> chain_of ` set ?t)"
      unfolding U initAndValidate_iff using upd.tab_keys by simp
    have "\<exists>k<32. shardSize = 2 ^ k \<and> chain_bound k ?C"
      if h: "\<forall>c \<in> chain_of ` set ?t. chain_ok ?t c" "\<forall>i<?C. i = 0 \<or> of_nat i \<in> chain_of ` set ?t"
    proof -
      have l: "of_nat (?C - 1) \<in> chain_of ` set ?t"
        by (rule upd.entry_chain [OF upd.last_chain_present [OF pos]])
      have "c < ?C \<and> of_nat c \<in> chain_of ` set ?t" if "c \<in> insert (?C - 1) {1..<?C}" for c
      proof (cases "c = ?C - 1")
        case True
        then show ?thesis using l pos(1) by simp
      next
        case False
        then have "c < ?C" "c \<noteq> 0" using that by auto
        then show ?thesis using h(2) by blast
      qed
      with h(1) have d: "ids_distinct shardSize (insert (?C - 1) {1..<?C})" by (intro upd.accepted_distinct) blast+
      from size_is_power [OF d] False obtain k where k: "k < 32" "shardSize = 2 ^ k" by blast
      with chain_bound_needed [of k ?C] d pos(1) show ?thesis by auto
    qed
    moreover have "(\<forall>c \<in> chain_of ` set ?t. chain_ok ?t c) \<and> (\<forall>i<?C. i = 0 \<or> of_nat i \<in> chain_of ` set ?t)"
      if k: "k < 32" "shardSize = 2 ^ k" "chain_bound k ?C" for k
    proof -
      note t = upd.tab_entries [OF k(2,1) pos(1) k(3), where E = E and rcfg = ?r and mt = mt]
      have "chain_ok ?t c" if "c \<in> chain_of ` set ?t" for c
        by (rule upd.tab_chain_ok [OF t _ pos(2) that]) auto
      moreover have "of_nat i \<in> chain_of ` set ?t" if "i < ?C" "i \<noteq> 0" for i
      proof -
        have "upd.entry E ?r mt shardSize (i, 0) \<in> set ?t" unfolding t using that pos(2) by auto
        then show ?thesis by (rule upd.entry_chain)
      qed
      ultimately show ?thesis by blast
    qed
    ultimately show ?thesis unfolding i using False by blast
  qed
qed

text \<open>The chains of an accepted table.\<close>

lemma size_known: "(\<exists>m. lookup_shard_size (sizes_after ps []) c = Inr m) \<longleftrightarrow> c \<in> chain_of ` set ps"
proof (cases "filter (\<lambda>p. chain_of p = c) ps")
  case Nil
  then show ?thesis by (auto simp: lookup_shard_size_def sizes_after_lookup filter_empty_conv)
next
  case (Cons p l)
  then have "p \<in> set (filter (\<lambda>p. chain_of p = c) ps)" by simp
  then have "p \<in> set ps" "chain_of p = c" by simp_all
  then have "c \<in> chain_of ` set ps" by blast
  with Cons show ?thesis by (simp add: lookup_shard_size_def sizes_after_lookup)
qed

lemma update_chain_zero:
  assumes "Update E q chainSize shardSize rt mt = Inr q'" "k < 32" "shardSize = 2 ^ k" "chain_bound k (unat chainSize)" "0 < chainSize"
  shows "(\<exists>m. GetShardSizeByChainId q' 0 = Inr m) \<longleftrightarrow> keeps_chain_0 k (unat chainSize)"
proof -
  let ?r = "Some (update_root E q rt)" and ?C = "unat chainSize"
  let ?t = "upd.tab E ?r mt shardSize chainSize"
  have pos: "0 < ?C" "0 < unat shardSize" using assms(2,3,5) by (simp_all add: unat_exp_word word_less_nat_alt)
  have "qc_chainIdToShardSize q' = sizes_after ?t []"
    using initAndValidate_Inr(1) [OF assms(1) [unfolded Update_def Let_def]] initAndValidate_Inr(3) [OF assms(1) [unfolded Update_def Let_def]]
    by simp
  then have "(\<exists>m. GetShardSizeByChainId q' 0 = Inr m) \<longleftrightarrow> 0 \<in> chain_of ` set ?t"
    by (simp add: GetShardSizeByChainId_def size_known)
  also have "\<dots> \<longleftrightarrow> keeps_chain_0 k ?C"
  proof -
    note t = upd.tab_entries [OF assms(3,2) pos(1) assms(4), where E = E and rcfg = ?r and mt = mt]
    have z: "of_nat c = (0 :: u32) \<longleftrightarrow> c = 0" if "c < ?C" for c using that unat_lt_exp [of chainSize] by (auto simp: word_unat_eq_iff unat_of_nat)
    have "0 \<in> chain_of ` set ?t \<longleftrightarrow> (\<exists>c \<in> (if keeps_chain_0 k ?C then {0..<?C} else {1..<?C}). of_nat c = (0 :: u32))"
      unfolding t using pos(2) by (force simp: upd.entry_simps simp del: grid_entry_simps)
    then show ?thesis using z pos(1) by (auto split: if_splits)
  qed
  finally show ?thesis .
qed

section \<open>Slaves\<close>

lemma slave_index_loop_eq:
  "slave_index_loop l index n j ans = ans @ map fst (filter (\<lambda>p. snd p mod n = j) (zip l [index..<index + length l]))"
proof (induction l arbitrary: index ans)
  case (Cons a l)
  have "[index..<index + length (a # l)] = index # [Suc index..<Suc index + length l]"
    by (simp add: upt_conv_Cons del: upt_Suc)
  then show ?case by (simp add: Cons.IH del: upt_Suc)
qed simp

lemma mask_loop_eq: "mask_loop cs ms l = (if ms = [] then l else mask_shards cs (last ms))"
  by (induction ms arbitrary: l) auto

section \<open>Properties\<close>

lemma route_keys:
  assumes "p \<in> set ps" "\<And>p'. p' \<in> set ps \<Longrightarrow> P (fst p') \<longleftrightarrow> p' = p" "ks = map fst ps"
  shows "j \<in> set ks \<and> P j \<longleftrightarrow> j = fst p"
proof
  assume "j \<in> set ks \<and> P j"
  then obtain p' where "p' \<in> set ps" "j = fst p'" "P (fst p')" using assms(3) by auto
  then show "j = fst p" using assms(2) by blast
next
  assume "j = fst p"
  then show "j \<in> set ks \<and> P j" using assms(1,3) assms(2) [OF assms(1)] by simp
qed

text \<open>C7: when a configuration passes \<open>initAndValidate\<close>, with entries of a chain that agree on the
  shard size and with chain ids and sizes of 16 bits, its shard sizes are powers of two, and
  \<open>GetFullShardIdByFullShardKey\<close> sends every key of a configured chain to a configured shard: the
  only one whose branch contains the key. Nothing in \<open>initAndValidate\<close> looks at the size itself;
  a size that is not a power of two makes two full shard ids collide. The agreement of the sizes of a chain
  and the bounds of 16 bits are assumed (\<open>uniform_shards\<close>): \<open>initAndValidate\<close> does not check them.\<close>

theorem validated_routing:
  assumes "initAndValidate q = Inr q'" "distinct (map fst (qc_shards q))" "uniform_shards (qc_shards q)"
    and "GetShardSizeByChainId q' (drop_bit 16 key) = Inr n"
  shows "\<exists>i cfg. GetFullShardIdByFullShardKey q' key = Inr i
    \<and> GetShardConfigByFullShardID q' i = Some cfg
    \<and> cc_ChainID (sc_ChainConfig cfg) = drop_bit 16 key \<and> unat (sc_ShardID cfg) = unat key mod unat n
    \<and> (\<exists>k\<le>15. n = 2 ^ k)
    \<and> (\<forall>j. j \<in> set (GetGenesisShardIds q') \<and> IsInBranch (NewBranch j) key \<longleftrightarrow> j = i)"
proof -
  have v: "valid_shards (qc_shards q)" by (rule valid_shards_validated [OF assms(1-3)])
  note q' = initAndValidate_Inr(1,3) [OF assms(1)]
  from assms(4) have n: "map_of (sizes_after (qc_shards q) []) (drop_bit 16 key) = Some n"
    by (simp add: GetShardSizeByChainId_def lookup_shard_size_def q' split: option.splits)
  from valid_shards.route [OF v n] obtain p where p: "p \<in> set (qc_shards q)"
    "fst p = push_bit 16 (drop_bit 16 key) OR n OR (key AND (n - 1))"
    "chain_of p = drop_bit 16 key" "size_of p = n" "shard_of p = key AND (n - 1)"
    "\<And>p'. p' \<in> set (qc_shards q) \<Longrightarrow> IsInBranch (NewBranch (fst p')) key \<longleftrightarrow> p' = p" by blast
  have "GetFullShardIdByFullShardKey q' key = Inr (fst p)"
    using assms(4) by (simp add: GetFullShardIdByFullShardKey_def Let_def p(2))
  moreover have "GetShardConfigByFullShardID q' (fst p) = Some (snd p)"
    using p(1) assms(2) by (simp add: GetShardConfigByFullShardID_def q')
  moreover from valid_shards.size_power [OF v p(1)] obtain k where k: "n = 2 ^ k" "k \<le> 15"
    using p(4) by metis
  moreover have "unat (shard_of p) = unat key mod unat n"
    using k by (simp add: p(5) exp_minus_1_mask unat_and_mask unat_exp_word)
  moreover have "j \<in> set (GetGenesisShardIds q') \<and> IsInBranch (NewBranch j) key \<longleftrightarrow> j = fst p" for j
    by (rule route_keys) (use p in \<open>simp_all add: GetGenesisShardIds_def q'\<close>)
  ultimately show ?thesis using p(3) by blast
qed

theorem validated_routing_witness:
  "\<exists>q' i cfg. NewQuarkChainConfig zero_eth [] = Inr q'
    \<and> GetFullShardIdByFullShardKey q' 65541 = Inr i \<and> GetShardConfigByFullShardID q' i = Some cfg
    \<and> unat (sc_ShardID cfg) = 1
    \<and> (\<forall>j. j \<in> set (GetGenesisShardIds q') \<and> IsInBranch (NewBranch j) 65541 \<longleftrightarrow> j = i)"
proof -
  from default_config [of zero_eth "[]"] obtain q q' where
    q: "NewQuarkChainConfig zero_eth [] = initAndValidate q" "initAndValidate q = Inr q'"
      "valid_shards (qc_shards q)" "map_of (sizes_after (qc_shards q) []) 1 = Some 2"
    by (auto simp: zero_eth_def)
  have d: "drop_bit 16 (65541 :: u32) = 1" by simp
  have n: "GetShardSizeByChainId q' (drop_bit 16 65541) = Inr 2"
    unfolding d using q(4) initAndValidate_Inr(3) [OF q(2)]
    by (simp add: GetShardSizeByChainId_def lookup_shard_size_def)
  show ?thesis
    using validated_routing [OF q(2) valid_shards.distinct_keys [OF q(3)] valid_shards.uniform [OF q(3)] n] q(1,2)
    by auto
qed

text \<open>C14: \<open>Update\<close> succeeds exactly when the guardian key has length 0 or 65 and there is no chain at all, or one
  chain of size 0, or the shard size is a power of two and the number of chains is at most 65537 for a size
  below \<open>2^16\<close>, at most 3 for the size \<open>2^16\<close> and 1 for a larger size: otherwise the full shard ids of two shards
  collide at 32 bits.\<close>

theorem update_accepts:
  "(\<exists>q'. Update E q chainSize shardSize rt mt = Inr q') \<longleftrightarrow>
    length (qc_GuardianPublicKey q) \<in> {0, 65} \<and>
    (chainSize = 0 \<or> chainSize = 1 \<and> shardSize = 0 \<or>
     (\<exists>k<32. shardSize = 2 ^ k \<and>
        (if k \<le> 15 then unat chainSize \<le> 65537 else if k = 16 then unat chainSize \<le> 3 else unat chainSize = 1)))"
  unfolding update_iff chain_bound_def by (rule refl)

text \<open>C34: \<open>Update\<close> loses chain 0 without an error: when it succeeds with 65537 chains, or with two or three chains of
  the size \<open>2^16\<close>, the shards of another chain have replaced those of chain 0, whose size is then unknown; in all
  other cases with a chain and a shard, chain 0 is configured.\<close>

theorem update_loses_chain_zero:
  assumes "Update E q chainSize shardSize rt mt = Inr q'" "0 < chainSize" "0 < shardSize"
  shows "(\<exists>e. GetShardSizeByChainId q' 0 = Inl e) \<longleftrightarrow>
    unat chainSize = 65537 \<or> shardSize = 2 ^ 16 \<and> unat chainSize \<in> {2, 3}"
proof -
  from assms obtain k where k: "k < 32" "shardSize = 2 ^ k" "chain_bound k (unat chainSize)"
    using update_iff [of E q chainSize shardSize rt mt] by auto
  have "shardSize = 2 ^ 16 \<longleftrightarrow> k = 16"
  proof
    assume "shardSize = 2 ^ 16"
    then have "unat (2 ^ k :: u32) = unat (2 ^ 16 :: u32)" using k(2) by simp
    then have "(2 :: nat) ^ k = 2 ^ 16" using k(1) unat_exp_word [of k, where ?'a = 32] unat_exp_word [of 16, where ?'a = 32] by simp
    then show "k = 16" by (simp only: power_inject_exp one_less_numeral_iff semiring_norm)
  qed (simp add: k(2))
  moreover have "(\<exists>e. GetShardSizeByChainId q' 0 = Inl e) \<longleftrightarrow> \<not> keeps_chain_0 k (unat chainSize)"
    using update_chain_zero [OF assms(1) k assms(2)] by (cases "GetShardSizeByChainId q' 0") auto
  moreover have "0 < unat chainSize" using assms(2) by (simp add: word_less_nat_alt)
  ultimately show ?thesis using k(3) by (auto simp: keeps_chain_0_def chain_bound_def split: if_splits)
qed

theorem update_loses_chain_zero_witness:
  "\<exists>q q' e. NewQuarkChainConfig zero_eth [] = Inr q \<and> Update zero_eth q 2 (2 ^ 16) 60 10 = Inr q' \<and> GetShardSizeByChainId q' 0 = Inl e"
proof -
  from default_config [of zero_eth "[]"] obtain q where q: "NewQuarkChainConfig zero_eth [] = Inr q" by (auto simp: zero_eth_def)
  then have "qc_GuardianPublicKey q = []"
    by (auto simp: NewQuarkChainConfig_def initAndValidate_def zero_eth_def Let_def
        bind_res_Inr_iff split: if_splits)
  then obtain q' where u: "Update zero_eth q 2 (2 ^ 16) 60 10 = Inr q'"
    using update_iff [of zero_eth q 2 "2 ^ 16" 60 10] by (auto simp: chain_bound_def intro!: exI [of _ 16])
  from update_loses_chain_zero [OF u] have "\<exists>e. GetShardSizeByChainId q' 0 = Inl e" by simp
  with q u show ?thesis by blast
qed

lemma filter_other_chain:
  "c \<noteq> d \<Longrightarrow> filter (\<lambda>p. chain_of p = c) (filter (\<lambda>p. chain_of p \<noteq> d) ps) = filter (\<lambda>p. chain_of p = c) ps"
  by (auto intro: filter_cong)

text \<open>Dropping a chain leaves the checks of the table and of the other chains alone; only the last loop can
  notice it.\<close>

lemma drop_chain:
  assumes "initAndValidate (q\<lparr>qc_shards := ps\<rparr>) = Inr q1"
  shows "if 0 < c \<and> c < qc_ChainSize q
    then initAndValidate (q\<lparr>qc_shards := filter (\<lambda>p. chain_of p \<noteq> c) ps\<rparr>) = Inl (GoPanic ''chain id is not right'')
    else \<exists>q2. initAndValidate (q\<lparr>qc_shards := filter (\<lambda>p. chain_of p \<noteq> c) ps\<rparr>) = Inr q2"
proof -
  let ?ps = "filter (\<lambda>p. chain_of p \<noteq> c) ps" and ?n = "unat (qc_ChainSize q)"
  from assms have h: "length (qc_GuardianPublicKey q) \<in> {0, 65}" "keys_ok ps" "\<And>d. d \<in> chain_of ` set ps \<Longrightarrow> chain_ok ps d"
    "\<And>i. i < ?n \<Longrightarrow> i = 0 \<or> of_nat i \<in> chain_of ` set ps"
    using initAndValidate_iff [of "q\<lparr>qc_shards := ps\<rparr>"] by auto
  have k: "keys_ok ?ps" using h(2) by (auto simp: keys_ok_def list_all_iff)
  have ok: "chain_ok ?ps d" if d: "d \<in> chain_of ` set ?ps" for d
  proof -
    have "d \<noteq> c" "d \<in> chain_of ` set ps" using d by auto
    then show ?thesis using h(3) [of d] by (simp add: chain_ok_def filter_other_chain del: filter_filter)
  qed
  have i: "(\<forall>i<?n. i = 0 \<or> of_nat i \<in> chain_of ` set ?ps) \<longleftrightarrow> \<not> (0 < c \<and> c < qc_ChainSize q)"
  proof
    assume a: "\<forall>i<?n. i = 0 \<or> of_nat i \<in> chain_of ` set ?ps"
    show "\<not> (0 < c \<and> c < qc_ChainSize q)"
    proof
      assume "0 < c \<and> c < qc_ChainSize q"
      then have "unat c < ?n" "unat c \<noteq> 0" by (simp_all add: word_less_nat_alt)
      with a [rule_format, of "unat c"] show False by auto
    qed
  next
    assume a: "\<not> (0 < c \<and> c < qc_ChainSize q)"
    show "\<forall>i<?n. i = 0 \<or> of_nat i \<in> chain_of ` set ?ps"
    proof (intro allI impI disjCI)
      fix i assume i: "i < ?n" "of_nat i \<notin> chain_of ` set ?ps"
      show "i = 0"
      proof (rule ccontr)
        assume "i \<noteq> 0"
        with h(4) [OF i(1)] i(2) have "of_nat i = c" by auto
        moreover have "unat (of_nat i :: u32) = i" using i(1) unat_lt_exp [of "qc_ChainSize q"] by (simp add: unat_of_nat)
        ultimately have "unat c = i" by simp
        with \<open>i \<noteq> 0\<close> i(1) a show False by (simp add: word_less_nat_alt)
      qed
    qed
  qed
  show ?thesis using initAndValidate_checked [of "q\<lparr>qc_shards := ?ps\<rparr>"] h(1) k ok i by auto
qed

text \<open>C35: \<open>initAndValidate\<close> does not notice that chain 0 is missing: when all shards of chain 0 are taken out
  of any table that it accepts, it accepts the rest as well, whereas it refuses the table without the shards
  of any other chain below the chain size. Reading the absent entry of \<open>chainIDMap\<close> gives 0.\<close>

theorem missing_chain_zero_accepted:
  assumes "SetShardsAndValidate q ps = Inr q1"
  shows "(\<exists>q2. SetShardsAndValidate q (filter (\<lambda>p. cc_ChainID (sc_ChainConfig (snd p)) \<noteq> 0) ps) = Inr q2)
    \<and> (\<forall>c. 0 < c \<and> c < qc_ChainSize q \<longrightarrow>
         SetShardsAndValidate q (filter (\<lambda>p. cc_ChainID (sc_ChainConfig (snd p)) \<noteq> c) ps) = Inl (GoPanic ''chain id is not right''))"
  using drop_chain [OF assms [unfolded SetShardsAndValidate_def]] unfolding SetShardsAndValidate_def
  by (metis word_not_simps(1))

theorem missing_chain_zero_accepted_witness:
  "\<exists>q q2. NewQuarkChainConfig zero_eth [] = Inr q
     \<and> SetShardsAndValidate q (filter (\<lambda>p. cc_ChainID (sc_ChainConfig (snd p)) \<noteq> 0) (qc_shards q)) = Inr q2
     \<and> SetShardsAndValidate q (filter (\<lambda>p. cc_ChainID (sc_ChainConfig (snd p)) \<noteq> 1) (qc_shards q)) = Inl (GoPanic ''chain id is not right'')"
proof -
  obtain q where q: "NewQuarkChainConfig zero_eth [] = Inr q" using default_config [of zero_eth "[]"] by (auto simp: zero_eth_def)
  then obtain q0 where q0: "initAndValidate q0 = Inr q" "qc_ChainSize q0 = 3" by (auto simp: NewQuarkChainConfig_def Let_def)
  have f: "qc_shards q = qc_shards q0" "qc_ChainSize q = 3" "qc_GuardianPublicKey q = qc_GuardianPublicKey q0"
    using q0 by (auto simp: initAndValidate_cases bind_res_Inr_iff split: if_splits)
  then have "\<exists>q1. SetShardsAndValidate q (qc_shards q) = Inr q1"
    using q0 initAndValidate_iff [of q0] initAndValidate_iff [of "q\<lparr>qc_shards := qc_shards q\<rparr>"]
    by (auto simp: SetShardsAndValidate_def)
  then obtain q1 where "SetShardsAndValidate q (qc_shards q) = Inr q1" ..
  from missing_chain_zero_accepted [OF this] q f(2) show ?thesis by auto
qed

text \<open>C29: the round-robin assignment of \<open>getFullShardIdListFromSlaveIndex\<close> gives every shard id of a
  list without repetitions to exactly one of the slaves.\<close>

theorem slaves_partition_shards:
  assumes "0 < slaveNumber" "distinct l" "v \<in> set l"
  shows "\<exists>!i. i < slaveNumber \<and> v \<in> set (getFullShardIdListFromSlaveIndex l slaveNumber i)"
proof -
  from assms(3) obtain j where j: "j < length l" "l ! j = v" by (auto simp: in_set_conv_nth)
  have z: "(v, j') \<in> set (zip l [0..<length l]) \<longleftrightarrow> j' = j" for j'
    using j assms(2) nth_eq_iff_index_eq [OF assms(2)] by (auto simp: in_set_zip)
  have "v \<in> set (getFullShardIdListFromSlaveIndex l slaveNumber i) \<longleftrightarrow> j mod slaveNumber = i" for i
    using z by (force simp: getFullShardIdListFromSlaveIndex_def slave_index_loop_eq)
  then show ?thesis using assms(1) by auto
qed

theorem slaves_partition_shards_witness:
  "(0::nat) < 4 \<and> distinct [2, 3, 65538, 65539, 131074, 131075 :: u32] \<and>
   (\<exists>!i. i < 4 \<and> 131075 \<in> set (getFullShardIdListFromSlaveIndex [2, 3, 65538, 65539, 131074, 131075] 4 i))"
  using slaves_partition_shards [of 4 "[2, 3, 65538, 65539, 131074, 131075]" 131075] by simp

text \<open>C36: \<open>BackWardChainMaskList\<close> keeps, for a slave with several chain masks, only the shards of
  its last mask.\<close>

theorem backward_masks_only_last:
  assumes "\<And>s. s \<in> set slaves \<Longrightarrow> sl_FullShardList s = []" "\<And>c. c \<in> set cs \<Longrightarrow> cc_ShardSize (snd c) = 1"
  shows "\<exists>slaves'. BackWardChainMaskList cs slaves = Inr slaves' \<and> length slaves' = length slaves \<and>
    (\<forall>i<length slaves. sl_FullShardList (slaves' ! i) =
      (if sl_ChainMaskListForBackward (slaves ! i) = [] then []
       else sort (mask_shards (map snd cs) (last (sl_ChainMaskListForBackward (slaves ! i))))))"
  using assms by (auto simp: BackWardChainMaskList_def list_ex_iff mask_loop_eq)

text \<open>C30: the boosted divider is the base divider times the multiplier to the number of steps since
  the boost time, at most \<open>BoostSteps\<close>, at 64 bits; the step count itself cannot wrap around, and
  the only panic is a zero step interval.\<close>

theorem diff_divider_boost:
  assumes "posw_BoostStepInterval c \<noteq> 0"
  shows "GetDiffDivider c t = Inr
    (if 0 < posw_BoostTimestamp c \<and> posw_BoostTimestamp c \<le> t
     then posw_DiffDivider c * posw_BoostMultiplierPerStep c ^
       min (unat (posw_BoostSteps c))
         ((unat t - unat (posw_BoostTimestamp c)) div unat (posw_BoostStepInterval c) + 1)
     else posw_DiffDivider c)"
proof (cases "0 < posw_BoostTimestamp c \<and> posw_BoostTimestamp c \<le> t")
  case True
  let ?d = "(t - posw_BoostTimestamp c) div posw_BoostStepInterval c"
  have d: "unat ?d = (unat t - unat (posw_BoostTimestamp c)) div unat (posw_BoostStepInterval c)"
    using True by (simp add: unat_div unat_sub)
  have "0 < unat (posw_BoostTimestamp c)" using True by (simp add: word_less_nat_alt)
  then have "unat t - unat (posw_BoostTimestamp c) < 2 ^ 64 - 1" using unat_lt_exp [of t] by simp
  then have "unat ?d < 2 ^ 64 - 1" unfolding d by (rule le_less_trans [OF div_le_dividend])
  then have s: "unat (?d + 1) = unat ?d + 1" by (subst unat_add_lt) simp_all
  show ?thesis
    using True assms by (auto simp: GetDiffDivider_def Let_def pow_eq word_less_nat_alt s d min_def)
qed (auto simp: GetDiffDivider_def)

theorem diff_divider_boost_witness:
  "GetDiffDivider (NewPOSWConfig\<lparr>posw_BoostTimestamp := 1000\<rparr>) 87400 = Inr (20 * 2 ^ 3)"
  using diff_divider_boost [of "NewPOSWConfig\<lparr>posw_BoostTimestamp := 1000\<rparr>" 87400]
  by (simp add: NewPOSWConfig_def)

theorem backward_masks_only_last_witness:
  "\<exists>slaves'. BackWardChainMaskList
      [(0, (NewChainConfig zero_eth)\<lparr>cc_ChainID := 0, cc_ShardSize := 1\<rparr>),
       (1, (NewChainConfig zero_eth)\<lparr>cc_ChainID := 1, cc_ShardSize := 1\<rparr>)]
      [NewDefaultSlaveConfig\<lparr>sl_ChainMaskListForBackward := [2, 3]\<rparr>] = Inr slaves'
    \<and> sl_FullShardList (slaves' ! 0) = [65537]"
proof -
  have b: "chain_bit_mask 3 = 1" using IntLeftMostBit_top [of 3 1 1] by (simp add: chain_bit_mask_def)
  have m: "mask_shards [(NewChainConfig zero_eth)\<lparr>cc_ChainID := 0, cc_ShardSize := 1\<rparr>,
      (NewChainConfig zero_eth)\<lparr>cc_ChainID := 1, cc_ShardSize := 1\<rparr>] 3 = [65537]"
    by (simp add: mask_shards_def b)
  let ?cs = "[(0 :: u32, (NewChainConfig zero_eth)\<lparr>cc_ChainID := 0, cc_ShardSize := 1\<rparr>),
    (1, (NewChainConfig zero_eth)\<lparr>cc_ChainID := 1, cc_ShardSize := 1\<rparr>)]"
  let ?sl = "[NewDefaultSlaveConfig\<lparr>sl_ChainMaskListForBackward := [2, 3]\<rparr>]"
  have h: "\<And>s. s \<in> set ?sl \<Longrightarrow> sl_FullShardList s = []" "\<And>c. c \<in> set ?cs \<Longrightarrow> cc_ShardSize (snd c) = 1"
    by (auto simp: NewDefaultSlaveConfig_def)
  from backward_masks_only_last [of ?sl ?cs, OF h] obtain sl' where
    "BackWardChainMaskList ?cs ?sl = Inr sl'"
    "sl_FullShardList (sl' ! 0) = sort (mask_shards (map snd ?cs) 3)" by auto
  then show ?thesis using m by (intro exI [of _ sl']) simp
qed

end
