(* ===== verification/ChainTypes.thy ===== *)
theory ChainTypes
  imports Sharding
begin

text \<open>
  Data types of \<open>core/types\<close>: EVM transactions and their accessors, messages, logs, cross-shard
  deposits, the cross-shard cursor, and the difference of transaction lists.

  A transaction's cached hash, size and sender are not part of the model: the accessors compute
  them. Hashing (\<open>rlpHash\<close>, \<open>Transaction.Hash\<close>) and the recovery of the sender from the signature
  are parameters. The \<open>*Uint32\<close> shard keys of a transaction are set by every constructor and by
  RLP decoding; a nil key would panic in \<open>GetValue\<close>.
\<close>

section \<open>EVM transactions\<close>

record txdata =
  td_AccountNonce :: u64
  td_Price :: int
  td_GasLimit :: u64
  td_Recipient :: "recipient option"
  td_Amount :: int
  td_Payload :: bytes
  td_NetworkId :: u32
  td_FromFullShardKey :: u32
  td_ToFullShardKey :: u32
  td_GasTokenID :: u64
  td_TransferTokenID :: u64
  td_Version :: u32
  td_V :: int
  td_R :: int
  td_S :: int

record EvmTransaction =
  et_data :: txdata
  et_updated :: bool
  et_FromShardsize :: u32
  et_ToShardsize :: u32

definition newEvmTransaction :: "u64 \<Rightarrow> recipient option \<Rightarrow> int option \<Rightarrow> u64 \<Rightarrow> int option \<Rightarrow> u32
    \<Rightarrow> u32 \<Rightarrow> u32 \<Rightarrow> u32 \<Rightarrow> bytes \<Rightarrow> u64 \<Rightarrow> u64 \<Rightarrow> EvmTransaction" where
  "newEvmTransaction nonce dst amount gasLimit gasPrice fromFullShardKey toFullShardKey networkId
      version data gasTokenID transferTokenID =
     \<lparr>et_data = \<lparr>td_AccountNonce = nonce,
        td_Price = (case gasPrice of None \<Rightarrow> 0 | Some p \<Rightarrow> p), td_GasLimit = gasLimit,
        td_Recipient = dst, td_Amount = (case amount of None \<Rightarrow> 0 | Some a \<Rightarrow> a),
        td_Payload = data, td_NetworkId = networkId, td_FromFullShardKey = fromFullShardKey,
        td_ToFullShardKey = toFullShardKey, td_GasTokenID = gasTokenID,
        td_TransferTokenID = transferTokenID, td_Version = version, td_V = 0, td_R = 0, td_S = 0\<rparr>,
      et_updated = False, et_FromShardsize = 0, et_ToShardsize = 0\<rparr>"

definition NewEvmTransaction :: "u64 \<Rightarrow> recipient \<Rightarrow> int option \<Rightarrow> u64 \<Rightarrow> int option \<Rightarrow> u32
    \<Rightarrow> u32 \<Rightarrow> u32 \<Rightarrow> u32 \<Rightarrow> bytes \<Rightarrow> u64 \<Rightarrow> u64 \<Rightarrow> EvmTransaction" where
  "NewEvmTransaction nonce dst = newEvmTransaction nonce (Some dst)"

definition NewEvmContractCreation :: "u64 \<Rightarrow> int option \<Rightarrow> u64 \<Rightarrow> int option \<Rightarrow> u32
    \<Rightarrow> u32 \<Rightarrow> u32 \<Rightarrow> u32 \<Rightarrow> bytes \<Rightarrow> u64 \<Rightarrow> u64 \<Rightarrow> EvmTransaction" where
  "NewEvmContractCreation nonce = newEvmTransaction nonce None"

definition SetGas :: "u64 \<Rightarrow> EvmTransaction \<Rightarrow> EvmTransaction" where
  "SetGas data e = e\<lparr>et_data := (et_data e)\<lparr>td_GasLimit := data\<rparr>, et_updated := True\<rparr>"

definition SetFromFullShardKey :: "u32 \<Rightarrow> EvmTransaction \<Rightarrow> EvmTransaction" where
  "SetFromFullShardKey data e = e\<lparr>et_data := (et_data e)\<lparr>td_FromFullShardKey := data\<rparr>\<rparr>"

definition EvmTransaction_SetNonce :: "u64 \<Rightarrow> EvmTransaction \<Rightarrow> EvmTransaction" where
  "EvmTransaction_SetNonce data e = e\<lparr>et_data := (et_data e)\<lparr>td_AccountNonce := data\<rparr>, et_updated := True\<rparr>"

definition SetVRS :: "int \<Rightarrow> int \<Rightarrow> int \<Rightarrow> EvmTransaction \<Rightarrow> EvmTransaction" where
  "SetVRS v r s e = e\<lparr>et_data := (et_data e)\<lparr>td_V := v, td_R := r, td_S := s\<rparr>, et_updated := True\<rparr>"

definition FromChainID :: "EvmTransaction \<Rightarrow> u32" where
  "FromChainID tx = drop_bit 16 (td_FromFullShardKey (et_data tx))"

definition ToChainID :: "EvmTransaction \<Rightarrow> u32" where
  "ToChainID tx = drop_bit 16 (td_ToFullShardKey (et_data tx))"

definition FromShardID :: "EvmTransaction \<Rightarrow> u32" where
  "FromShardID tx = td_FromFullShardKey (et_data tx) AND (et_FromShardsize tx - 1)"

definition ToShardID :: "EvmTransaction \<Rightarrow> u32" where
  "ToShardID tx = td_ToFullShardKey (et_data tx) AND (et_ToShardsize tx - 1)"

definition FromShardKey :: "EvmTransaction \<Rightarrow> u32" where
  "FromShardKey tx = td_FromFullShardKey (et_data tx) AND 65535"

definition ToShardKey :: "EvmTransaction \<Rightarrow> u32" where
  "ToShardKey tx = td_ToFullShardKey (et_data tx) AND 65535"

definition FromFullShardId :: "EvmTransaction \<Rightarrow> u32" where
  "FromFullShardId tx = push_bit 16 (FromChainID tx) OR et_FromShardsize tx OR FromShardID tx"

definition ToFullShardId :: "EvmTransaction \<Rightarrow> u32" where
  "ToFullShardId tx = push_bit 16 (ToChainID tx) OR et_ToShardsize tx OR ToShardID tx"

definition IsCrossShard :: "EvmTransaction \<Rightarrow> bool" where
  "IsCrossShard tx = (\<not> (FromChainID tx = ToChainID tx \<and> FromShardID tx = ToShardID tx))"

definition SetFromShardSize :: "u32 \<Rightarrow> EvmTransaction \<Rightarrow> EvmTransaction res" where
  "SetFromShardSize shardSize tx =
     (if \<not> IsP2 shardSize \<or> shardSize = 0 then Inl (GoError ''shardSize is not Usable'')
      else Inr (tx\<lparr>et_FromShardsize := shardSize\<rparr>))"

definition SetToShardSize :: "u32 \<Rightarrow> EvmTransaction \<Rightarrow> EvmTransaction res" where
  "SetToShardSize shardSize tx =
     (if \<not> IsP2 shardSize \<or> shardSize = 0 then Inl (GoError ''shardSize is not Usable'')
      else Inr (tx\<lparr>et_ToShardsize := shardSize\<rparr>))"

definition Cost :: "EvmTransaction \<Rightarrow> int" where
  "Cost tx = td_Price (et_data tx) * uint (td_GasLimit (et_data tx)) + td_Amount (et_data tx)"

section \<open>Messages\<close>

record Message =
  ms_to :: "recipient option"
  ms_from :: recipient
  ms_nonce :: u64
  ms_amount :: int
  ms_gasLimit :: u64
  ms_gasPrice :: int
  ms_data :: bytes
  ms_checkNonce :: bool
  ms_fromFullShardKey :: u32
  ms_toFullShardKey :: "u32 option"
  ms_txHash :: hash
  ms_isCrossShard :: bool
  ms_transferTokenID :: u64
  ms_gasTokenID :: u64
  ms_refundRate :: u8

text \<open>\<open>AsMessage\<close>; \<open>sender\<close> is \<open>Sender(s, tx)\<close>, whose error is returned beside the message.\<close>

definition AsMessage :: "(EvmTransaction \<Rightarrow> recipient res) \<Rightarrow> EvmTransaction \<Rightarrow> hash \<Rightarrow> int \<Rightarrow> u64 \<Rightarrow> u8
    \<Rightarrow> Message res" where
  "AsMessage sender tx txHash gasPrice gasTokenID refundRate =
     bind_res (sender tx) (\<lambda>msgFrom. Inr
       \<lparr>ms_to = td_Recipient (et_data tx), ms_from = msgFrom, ms_nonce = td_AccountNonce (et_data tx),
        ms_amount = td_Amount (et_data tx), ms_gasLimit = td_GasLimit (et_data tx),
        ms_gasPrice = gasPrice, ms_data = td_Payload (et_data tx), ms_checkNonce = True,
        ms_fromFullShardKey = td_FromFullShardKey (et_data tx),
        ms_toFullShardKey = Some (td_ToFullShardKey (et_data tx)), ms_txHash = txHash,
        ms_isCrossShard = IsCrossShard tx, ms_transferTokenID = td_TransferTokenID (et_data tx),
        ms_gasTokenID = gasTokenID, ms_refundRate = refundRate\<rparr>)"

definition NewMessage :: "recipient \<Rightarrow> recipient option \<Rightarrow> u64 \<Rightarrow> int \<Rightarrow> u64 \<Rightarrow> int \<Rightarrow> bytes \<Rightarrow> bool
    \<Rightarrow> u32 \<Rightarrow> u32 option \<Rightarrow> u64 \<Rightarrow> u64 \<Rightarrow> u8 \<Rightarrow> Message" where
  "NewMessage src dst nonce amount gasLimit gasPrice data checkNonce fromFullShardKey toFullShardKey
      transferTokenID gasTokenID refundRate =
     \<lparr>ms_to = dst, ms_from = src, ms_nonce = nonce, ms_amount = amount, ms_gasLimit = gasLimit,
      ms_gasPrice = gasPrice, ms_data = data, ms_checkNonce = checkNonce,
      ms_fromFullShardKey = fromFullShardKey, ms_toFullShardKey = toFullShardKey, ms_txHash = 0,
      ms_isCrossShard = False, ms_transferTokenID = transferTokenID, ms_gasTokenID = gasTokenID,
      ms_refundRate = refundRate\<rparr>"

section \<open>Logs, deposits and the cursor\<close>

record Log =
  lg_Recipient :: recipient
  lg_Topics :: "hash list"
  lg_Data :: bytes
  lg_BlockNumber :: u64
  lg_TxHash :: hash
  lg_TxIndex :: u32
  lg_BlockHash :: hash
  lg_Index :: u32
  lg_Removed :: bool

record CrossShardTransactionDeposit =
  cd_TxHash :: hash
  cd_From :: Address
  cd_To :: Address
  cd_Value :: int
  cd_GasPrice :: int
  cd_GasTokenID :: u64
  cd_TransferTokenID :: u64
  cd_IsFromRootChain :: bool
  cd_GasRemained :: int
  cd_MessageData :: bytes
  cd_CreateContract :: bool
  cd_RefundRate :: u8

record XShardTxCursorInfo =
  ci_RootBlockHeight :: u64
  ci_MinorBlockIndex :: u64
  ci_XShardDepositIndex :: u64

section \<open>Transaction lists\<close>

text \<open>\<open>TxDifference\<close> with the transactions' hash as a parameter.\<close>

definition TxDifference :: "('tx \<Rightarrow> hash) \<Rightarrow> 'tx list \<Rightarrow> 'tx list \<Rightarrow> 'tx list" where
  "TxDifference hsh a b =
     (let remove = fold (\<lambda>tx. insert (hsh tx)) b {}
      in filter (\<lambda>tx. hsh tx \<notin> remove) a)"

section \<open>Properties\<close>

lemma set_hashes: "fold (\<lambda>tx. insert (hsh tx)) b acc = acc \<union> hsh ` set b"
  by (induction b arbitrary: acc) auto

lemma mask_shard_id: "unat (w AND (2 ^ k - 1) :: u32) = unat w mod 2 ^ k"
  by (simp add: exp_minus_1_mask unat_and_mask)

lemma full_shard_id_parts:
  assumes "k \<le> 15"
  shows "unat (push_bit 16 (drop_bit 16 key) OR 2 ^ k OR (key AND (2 ^ k - 1)) :: u32) =
    unat (drop_bit 16 key :: u32) * 65536 + (2 ^ k + unat key mod 2 ^ k)"
    "unat (drop_bit 16 key :: u32) < 65536"
proof -
  show *: "unat (drop_bit 16 key :: u32) < 65536"
    unfolding unat_drop_bit_div using unat_lt_exp [of key] by simp
  show "unat (push_bit 16 (drop_bit 16 key) OR 2 ^ k OR (key AND (2 ^ k - 1)) :: u32) =
    unat (drop_bit 16 key :: u32) * 65536 + (2 ^ k + unat key mod 2 ^ k)"
    using full_id_value [OF *, of "key AND (2 ^ k - 1)" k] assms by (simp add: mask_shard_id)
qed

text \<open>C17: a transaction whose shard sizes are powers of two of at most \<open>2^15\<close>, equal when both ends
  are on one chain, is a cross-shard transaction exactly when the full shard ids of its two ends
  differ.\<close>

theorem cross_shard_iff_ids_differ:
  assumes "et_FromShardsize tx = 2 ^ k" "et_ToShardsize tx = 2 ^ m" "k \<le> 15" "m \<le> 15"
    and "FromChainID tx = ToChainID tx \<Longrightarrow> k = m"
  shows "IsCrossShard tx \<longleftrightarrow> FromFullShardId tx \<noteq> ToFullShardId tx"
proof -
  let ?f = "td_FromFullShardKey (et_data tx)" and ?t = "td_ToFullShardKey (et_data tx)"
  have f: "unat (FromFullShardId tx) = unat (FromChainID tx) * 65536 + (2 ^ k + unat ?f mod 2 ^ k)"
    using full_shard_id_parts(1) [OF assms(3), of ?f]
    by (simp add: FromFullShardId_def FromChainID_def FromShardID_def assms(1))
  have t: "unat (ToFullShardId tx) = unat (ToChainID tx) * 65536 + (2 ^ m + unat ?t mod 2 ^ m)"
    using full_shard_id_parts(1) [OF assms(4), of ?t]
    by (simp add: ToFullShardId_def ToChainID_def ToShardID_def assms(2))
  have lf: "2 ^ k + unat ?f mod 2 ^ k < 65536" by (rule parts_low) (use assms(3) in auto)
  have lt: "2 ^ m + unat ?t mod 2 ^ m < 65536" by (rule parts_low) (use assms(4) in auto)
  have s: "unat (FromShardID tx) = unat ?f mod 2 ^ k" "unat (ToShardID tx) = unat ?t mod 2 ^ m"
    by (simp_all add: FromShardID_def ToShardID_def assms(1,2) mask_shard_id)
  have "FromFullShardId tx = ToFullShardId tx \<longleftrightarrow> FromChainID tx = ToChainID tx \<and> FromShardID tx = ToShardID tx"
  proof
    assume "FromFullShardId tx = ToFullShardId tx"
    then have e: "unat (FromChainID tx) * 65536 + (2 ^ k + unat ?f mod 2 ^ k) =
        unat (ToChainID tx) * 65536 + (2 ^ m + unat ?t mod 2 ^ m)" using f t by simp
    have "(unat (FromChainID tx) * 65536 + (2 ^ k + unat ?f mod 2 ^ k)) div 65536 = unat (FromChainID tx)"
      "(unat (ToChainID tx) * 65536 + (2 ^ m + unat ?t mod 2 ^ m)) div 65536 = unat (ToChainID tx)"
      using lf lt by (simp_all only: div_mult_self3 div_less)
    then have c: "FromChainID tx = ToChainID tx" using e by (simp add: word_unat_eq_iff)
    then have "k = m" by (rule assms(5))
    with e c s show "FromChainID tx = ToChainID tx \<and> FromShardID tx = ToShardID tx"
      by (simp add: word_unat_eq_iff)
  next
    assume a: "FromChainID tx = ToChainID tx \<and> FromShardID tx = ToShardID tx"
    then have "k = m" using assms(5) by blast
    with a f t s show "FromFullShardId tx = ToFullShardId tx" by (simp add: word_unat_eq_iff)
  qed
  then show ?thesis by (simp add: IsCrossShard_def)
qed

theorem cross_shard_iff_ids_differ_witness:
  "IsCrossShard ((newEvmTransaction 0 None None 21000 None 65537 65538 1 0 [] 35760 35760)
     \<lparr>et_FromShardsize := 2 ^ 1, et_ToShardsize := 2 ^ 1\<rparr>)"
  using cross_shard_iff_ids_differ [of "(newEvmTransaction 0 None None 21000 None 65537 65538 1 0 [] 35760 35760)
     \<lparr>et_FromShardsize := 2 ^ 1, et_ToShardsize := 2 ^ 1\<rparr>" 1 1]
  by (simp add: newEvmTransaction_def FromFullShardId_def ToFullShardId_def FromChainID_def ToChainID_def
    FromShardID_def ToShardID_def)

text \<open>\<open>TxDifference\<close> keeps, in order and with their multiplicity, the transactions of the first
  list whose hash is the hash of no transaction of the second.\<close>

lemma TxDifference_eq:
  "TxDifference hsh a b = filter (\<lambda>tx. hsh tx \<notin> hsh ` set b) a"
  by (simp add: TxDifference_def set_hashes)

end
