(* ===== verification/Serialize.thy ===== *)
theory Serialize
  imports Prelude
begin

text \<open>
  The wire format (package \<open>serialize\<close>). The reflection-driven serializer of the Go code is
  modelled over a universe: \<open>ty\<close> are the Go types that \<open>makeSerializer\<close> tells apart and \<open>val\<close> their
  values. A type with its own \<open>Serialize\<close> and \<open>Deserialize\<close> methods is \<open>TCustom\<close>; its methods are
  given by an environment, and the locale \<open>serializable\<close> states what they promise. The methods of
  \<open>Uint128\<close> and \<open>Uint256\<close> are defined here.

  The type caches of \<open>typecache.go\<close> only memoize \<open>genTypeInfo\<close> and \<open>structFields\<close>; the model calls
  the memoized functions directly. A Go \<open>int\<close> that counts bytes or elements is a \<open>nat\<close>. The
  prefix \<open>deserializeStruct\<close> adds to an error message is left out, and so is what a failed call leaves in
  its target.

  The serializer carries whether the value is addressable, since the methods of a \<open>TCustom\<close> have a pointer
  receiver: a value that is handed over by itself is not, what a pointer or a slice refers to is, and array
  elements and struct fields are when the whole is. The deserializer reads into a target: pointers that are
  not nil keep their element, the elements of a slice are those it had, and fields that are not read keep
  their value.
\<close>

section \<open>Byte buffers\<close>

record ByteBuffer =
  bb_data :: bytes
  bb_position :: nat
  bb_size :: nat

definition NewByteBuffer :: "bytes \<Rightarrow> ByteBuffer" where
  "NewByteBuffer bs = \<lparr>bb_data = bs, bb_position = 0, bb_size = length bs\<rparr>"

definition GetOffset :: "ByteBuffer \<Rightarrow> nat" where
  "GetOffset bb = bb_position bb"

definition Remaining :: "ByteBuffer \<Rightarrow> nat" where
  "Remaining bb = bb_size bb - bb_position bb"

definition getBytes :: "ByteBuffer \<Rightarrow> nat \<Rightarrow> (bytes \<times> ByteBuffer) res" where
  "getBytes bb sz =
     (if sz > bb_size bb - bb_position bb then Inl (GoError ''deser: buffer is shorter than expected'')
      else Inr (take sz (drop (bb_position bb) (bb_data bb)),
                bb\<lparr>bb_position := bb_position bb + sz\<rparr>))"

definition GetUInt8 :: "ByteBuffer \<Rightarrow> (u8 \<times> ByteBuffer) res" where
  "GetUInt8 bb = bind_res (getBytes bb 1) (\<lambda>(bs, bb). Inr (bs ! 0, bb))"

definition GetUInt16 :: "ByteBuffer \<Rightarrow> (u16 \<times> ByteBuffer) res" where
  "GetUInt16 bb = bind_res (getBytes bb 2) (\<lambda>(bs, bb). Inr (of_nat (be_value bs), bb))"

definition GetUInt32 :: "ByteBuffer \<Rightarrow> (u32 \<times> ByteBuffer) res" where
  "GetUInt32 bb = bind_res (getBytes bb 4) (\<lambda>(bs, bb). Inr (of_nat (be_value bs), bb))"

definition GetUInt64 :: "ByteBuffer \<Rightarrow> (u64 \<times> ByteBuffer) res" where
  "GetUInt64 bb = bind_res (getBytes bb 8) (\<lambda>(bs, bb). Inr (of_nat (be_value bs), bb))"

text \<open>\<open>getLen\<close>: at most four bytes are read, so that the accumulated \<open>int\<close> does not overflow.\<close>

definition getLen :: "ByteBuffer \<Rightarrow> nat \<Rightarrow> (nat \<times> ByteBuffer) res" where
  "getLen bb byteSize =
     (if byteSize < 1 then Inl (GoError ''deser: bytesize in GetVarBytes should larger than 0'')
      else if byteSize > 4 then Inl (GoError ''deser: bytesize exceeds maximum safe value 4'')
      else bind_res (getBytes bb byteSize) (\<lambda>(b, bb).
        let sz = foldl (\<lambda>sz x. sz * 256 + unat x) 0 b
        in if sz > Remaining bb then Inl (GoError ''deser: length exceeds remaining buffer'')
           else Inr (sz, bb)))"

definition GetVarBytes :: "ByteBuffer \<Rightarrow> nat \<Rightarrow> (bytes \<times> ByteBuffer) res" where
  "GetVarBytes bb byteSizeOfSliceLen =
     bind_res (getLen bb byteSizeOfSliceLen) (\<lambda>(sz, bb). getBytes bb sz)"

section \<open>Types and values\<close>

record Tags =
  NilOK :: bool
  Ignored :: bool
  ByteSizeOfSliceLen :: nat

definition default_tags :: Tags where
  "default_tags = \<lparr>NilOK = False, Ignored = False, ByteSizeOfSliceLen = 1\<rparr>"

text \<open>\<open>TUnsupported\<close> stands for the kinds without a serializer (signed integers, maps, channels,
  functions). A struct field has its name, whether it is exported, its tags and its type.\<close>

datatype ty =
    TUint8 | TUint16 | TUint32 | TUint64 | TUint | TUintptr
  | TBool | TBigInt | TString
  | TSlice ty | TArray nat ty
  | TStruct "(string \<times> bool \<times> Tags \<times> ty) list"
  | TPtr ty
  | TCustom nat
  | TUnsupported

datatype val =
    VUint u64 | VBool bool | VBig int | VString bytes | VBytes bytes
  | VList "val list" | VStruct "val list" | VPtr "val option"

text \<open>The methods of the types that implement \<open>Serializable\<close>, with their zero value.\<close>

record customs =
  cu_ser :: "nat \<Rightarrow> val \<Rightarrow> bytes \<Rightarrow> bytes res"
  cu_deser :: "nat \<Rightarrow> val \<Rightarrow> ByteBuffer \<Rightarrow> (val \<times> ByteBuffer) res"
  cu_zero :: "nat \<Rightarrow> val"

definition isByte :: "ty \<Rightarrow> bool" where
  "isByte t = (t = TUint8)"

text \<open>\<open>makeSerializer\<close> and \<open>makeDeserializer\<close> fail for the unsupported kinds only.\<close>

definition serializable_kind :: "ty \<Rightarrow> bool" where
  "serializable_kind t = (t \<noteq> TUnsupported)"

definition kind_error :: go_error where
  "kind_error = GoError ''type is not serializable''"

text \<open>\<open>structFields\<close> keeps the exported fields that are not ignored, and fails when one of them has
  no serializer.\<close>

definition kept :: "string \<times> bool \<times> Tags \<times> ty \<Rightarrow> bool" where
  "kept f = (case f of (n, exported, ts, t) \<Rightarrow> exported \<and> \<not> Ignored ts)"

definition structFields_ok :: "(string \<times> bool \<times> Tags \<times> ty) list \<Rightarrow> bool" where
  "structFields_ok fs = list_all (\<lambda>f. kept f \<longrightarrow> serializable_kind (snd (snd (snd f)))) fs"

text \<open>The zero value of a type (\<open>reflect.Zero\<close>).\<close>

fun zero_val :: "customs \<Rightarrow> ty \<Rightarrow> val"
  and zero_fields :: "customs \<Rightarrow> (string \<times> bool \<times> Tags \<times> ty) list \<Rightarrow> val list" where
  "zero_val E TUint8 = VUint 0"
| "zero_val E TUint16 = VUint 0"
| "zero_val E TUint32 = VUint 0"
| "zero_val E TUint64 = VUint 0"
| "zero_val E TUint = VUint 0"
| "zero_val E TUintptr = VUint 0"
| "zero_val E TBool = VBool False"
| "zero_val E TBigInt = VBig 0"
| "zero_val E TString = VString []"
| "zero_val E (TSlice t) = (if isByte t then VBytes [] else VList [])"
| "zero_val E (TArray n t) =
     (if isByte t then VBytes (replicate n 0) else VList (replicate n (zero_val E t)))"
| "zero_val E (TStruct fs) = VStruct (zero_fields E fs)"
| "zero_val E (TPtr t) = VPtr None"
| "zero_val E (TCustom c) = cu_zero E c"
| "zero_val E TUnsupported = VPtr None"
| "zero_fields E [] = []"
| "zero_fields E ((n, e, ts, t) # fs) = zero_val E t # zero_fields E fs"

section \<open>Serialization\<close>

text \<open>\<open>big.Int.Bytes\<close>: the absolute value, big-endian, without leading zeros.\<close>

definition byte_len :: "nat \<Rightarrow> nat" where
  "byte_len n = (bit_len n + 7) div 8"

definition big_bytes :: "int \<Rightarrow> bytes" where
  "big_bytes i = be_bytes (byte_len (nat \<bar>i\<bar>)) (nat \<bar>i\<bar>)"

definition prefillByteArray :: "nat \<Rightarrow> bytes \<Rightarrow> bytes res" where
  "prefillByteArray sz barray =
     (if length barray > sz then Inl (GoError ''barray len is larger then expected size'')
      else Inr (replicate (sz - length barray) 0 @ barray))"

definition serializeFixSizeBigUint :: "int option \<Rightarrow> nat \<Rightarrow> bytes \<Rightarrow> bytes res" where
  "serializeFixSizeBigUint v sz w =
     (case v of None \<Rightarrow> Inr (w @ replicate sz 0)
      | Some i \<Rightarrow> bind_res (prefillByteArray sz (big_bytes i)) (\<lambda>bs. Inr (w @ bs)))"

text \<open>\<open>uint8(len(bytes))\<close> keeps the low eight bits of the length.\<close>

definition serializeBigInt :: "int \<Rightarrow> bytes \<Rightarrow> bytes res" where
  "serializeBigInt i w =
     (if i < 0 then Inl (GoError ''ser: cannot serialize negative *big.Int'')
      else let bs = (if i > 0 then big_bytes i else [])
           in Inr (w @ [of_nat (length bs)] @ bs))"

definition serializeBool :: "bool \<Rightarrow> bytes \<Rightarrow> bytes" where
  "serializeBool b w = w @ [if b then 1 else 0]"

text \<open>The loop of \<open>writeListLen\<close> fills the size bytes from the last to the first.\<close>

primrec listLen_loop :: "nat \<Rightarrow> nat \<Rightarrow> bytes \<Rightarrow> bytes \<times> nat" where
  "listLen_loop 0 len acc = (acc, len)"
| "listLen_loop (Suc i) len acc =
     (if len = 0 then (replicate (Suc i) 0 @ acc, 0)
      else listLen_loop i (len div 256) (of_nat len # acc))"

definition writeListLen :: "bytes \<Rightarrow> nat \<Rightarrow> nat \<Rightarrow> bytes res" where
  "writeListLen w len byteSizeOfSliceLen =
     (let r = listLen_loop byteSizeOfSliceLen len []
      in if snd r > 0 then Inl (GoError ''barray len is larger then expected size'')
         else Inr (w @ fst r))"

definition serializeByteSlice :: "bytes \<Rightarrow> bytes \<Rightarrow> Tags \<Rightarrow> bytes res" where
  "serializeByteSlice bs w ts =
     bind_res (writeListLen w (length bs) (ByteSizeOfSliceLen ts)) (\<lambda>w. Inr (w @ bs))"

definition serializeString :: "bytes \<Rightarrow> bytes \<Rightarrow> bytes" where
  "serializeString s w = w @ be_bytes 4 (unat (of_nat (length s) :: u32)) @ s"

text \<open>\<open>serializeUint\<close> on the value read as \<open>uint64\<close>.\<close>

definition serializeUint :: "ty \<Rightarrow> u64 \<Rightarrow> bytes \<Rightarrow> bytes res" where
  "serializeUint t v w =
     (case t of
        TUint8 \<Rightarrow> Inr (w @ [ucast v])
      | TUint16 \<Rightarrow> Inr (w @ [ucast (drop_bit 8 v), ucast v])
      | TUint32 \<Rightarrow> Inr (w @ [ucast (drop_bit 24 v), ucast (drop_bit 16 v), ucast (drop_bit 8 v), ucast v])
      | TUint64 \<Rightarrow> Inr (w @ [ucast (drop_bit 56 v), ucast (drop_bit 48 v), ucast (drop_bit 40 v),
                            ucast (drop_bit 32 v), ucast (drop_bit 24 v), ucast (drop_bit 16 v),
                            ucast (drop_bit 8 v), ucast v])
      | TUint \<Rightarrow> serializeBigInt (uint v) w
      | _ \<Rightarrow> Inl (GoError ''ser: invalid Uint type''))"

primrec ser_list :: "(val \<Rightarrow> bytes \<Rightarrow> bytes res) \<Rightarrow> val list \<Rightarrow> bytes \<Rightarrow> bytes res" where
  "ser_list f [] w = Inr w"
| "ser_list f (v # vs) w = bind_res (f v w) (ser_list f vs)"

text \<open>A value of the wrong shape does not occur in Go; it is a panic of the reflection package
  here.\<close>

definition reflect_panic :: "'a res" where
  "reflect_panic = Inl (GoPanic ''reflect: call of wrong kind'')"

definition unaddressable :: go_error where
  "unaddressable = GoError ''ser: unaddressable value, Serialize is pointer method''"

definition is_custom :: "ty \<Rightarrow> bool" where
  "is_custom t = (case t of TCustom c \<Rightarrow> True | _ \<Rightarrow> False)"

fun ser :: "customs \<Rightarrow> bool \<Rightarrow> ty \<Rightarrow> Tags \<Rightarrow> val \<Rightarrow> bytes \<Rightarrow> bytes res"
  and ser_fields :: "customs \<Rightarrow> bool \<Rightarrow> (string \<times> bool \<times> Tags \<times> ty) list \<Rightarrow> val list \<Rightarrow> bytes \<Rightarrow> bytes res" where
  "ser E addr (TPtr t) ts v w =
     (if \<not> serializable_kind t then Inl kind_error
      else case v of
        VPtr None \<Rightarrow> if NilOK ts then Inr (w @ [0])
                     else if is_custom t then ser E True t ts (zero_val E t) w
                     else ser E False t ts (zero_val E t) w
      | VPtr (Some x) \<Rightarrow> ser E True t ts x (if NilOK ts then w @ [1] else w)
      | _ \<Rightarrow> reflect_panic)"
| "ser E addr (TCustom c) ts v w = (if \<not> addr then Inl unaddressable else cu_ser E c v w)"
| "ser E addr TBigInt ts v w = (case v of VBig i \<Rightarrow> serializeBigInt i w | _ \<Rightarrow> reflect_panic)"
| "ser E addr TUint8 ts v w = (case v of VUint u \<Rightarrow> serializeUint TUint8 u w | _ \<Rightarrow> reflect_panic)"
| "ser E addr TUint16 ts v w = (case v of VUint u \<Rightarrow> serializeUint TUint16 u w | _ \<Rightarrow> reflect_panic)"
| "ser E addr TUint32 ts v w = (case v of VUint u \<Rightarrow> serializeUint TUint32 u w | _ \<Rightarrow> reflect_panic)"
| "ser E addr TUint64 ts v w = (case v of VUint u \<Rightarrow> serializeUint TUint64 u w | _ \<Rightarrow> reflect_panic)"
| "ser E addr TUint ts v w = (case v of VUint u \<Rightarrow> serializeUint TUint u w | _ \<Rightarrow> reflect_panic)"
| "ser E addr TUintptr ts v w = (case v of VUint u \<Rightarrow> serializeUint TUintptr u w | _ \<Rightarrow> reflect_panic)"
| "ser E addr TBool ts v w = (case v of VBool b \<Rightarrow> Inr (serializeBool b w) | _ \<Rightarrow> reflect_panic)"
| "ser E addr TString ts v w = (case v of VString s \<Rightarrow> Inr (serializeString s w) | _ \<Rightarrow> reflect_panic)"
| "ser E addr (TSlice t) ts v w =
     (if isByte t then (case v of VBytes bs \<Rightarrow> serializeByteSlice bs w ts | _ \<Rightarrow> reflect_panic)
      else if \<not> serializable_kind t then Inl kind_error
      else case v of
        VList vs \<Rightarrow> bind_res (writeListLen w (length vs) (ByteSizeOfSliceLen ts))
                     (ser_list (\<lambda>x w. ser E True t default_tags x w) vs)
      | _ \<Rightarrow> reflect_panic)"
| "ser E addr (TArray n t) ts v w =
     (if isByte t then (case v of VBytes bs \<Rightarrow> Inr (w @ bs) | _ \<Rightarrow> reflect_panic)
      else if \<not> serializable_kind t then Inl kind_error
      else case v of VList vs \<Rightarrow> ser_list (\<lambda>x w. ser E addr t default_tags x w) vs w | _ \<Rightarrow> reflect_panic)"
| "ser E addr (TStruct fs) ts v w =
     (if \<not> structFields_ok fs then Inl kind_error
      else case v of VStruct vs \<Rightarrow> ser_fields E addr fs vs w | _ \<Rightarrow> reflect_panic)"
| "ser E addr TUnsupported ts v w = Inl kind_error"
| "ser_fields E addr [] vs w = Inr w"
| "ser_fields E addr ((n, e, ts, t) # fs) vs w =
     (case vs of [] \<Rightarrow> reflect_panic
      | v # vs \<Rightarrow> if kept (n, e, ts, t)
                 then bind_res (ser E addr t ts v w) (ser_fields E addr fs vs)
                 else ser_fields E addr fs vs w)"

definition SerializeWithTags :: "customs \<Rightarrow> bytes \<Rightarrow> ty \<Rightarrow> val \<Rightarrow> Tags \<Rightarrow> bytes res" where
  "SerializeWithTags E w t v ts = ser E False t ts v w"

definition Serialize :: "customs \<Rightarrow> bytes \<Rightarrow> ty \<Rightarrow> val \<Rightarrow> bytes res" where
  "Serialize E w t v = SerializeWithTags E w t v default_tags"

definition SerializeToBytes :: "customs \<Rightarrow> ty \<Rightarrow> val \<Rightarrow> bytes res" where
  "SerializeToBytes E t v = Serialize E [] t v"

text \<open>\<open>SerializeStructWithout\<close>, which the header hashes use, leaves out the named fields.\<close>

fun fields_without :: "customs \<Rightarrow> bool \<Rightarrow> (string \<times> bool \<times> Tags \<times> ty) list \<Rightarrow> val list \<Rightarrow> bytes
    \<Rightarrow> string list \<Rightarrow> bytes res" where
  "fields_without E addr [] vs w excludeList = Inr w"
| "fields_without E addr ((n, e, ts, t) # fs) vs w excludeList =
     (case vs of [] \<Rightarrow> reflect_panic
      | v # vs \<Rightarrow> if kept (n, e, ts, t) \<and> n \<notin> set excludeList
                 then bind_res (ser E addr t ts v w) (\<lambda>w. fields_without E addr fs vs w excludeList)
                 else fields_without E addr fs vs w excludeList)"

definition SerializeStructWithout :: "customs \<Rightarrow> bool \<Rightarrow> (string \<times> bool \<times> Tags \<times> ty) list \<Rightarrow> val list \<Rightarrow> bytes
    \<Rightarrow> string list \<Rightarrow> bytes res" where
  "SerializeStructWithout E addr fs vs w excludeList =
     (if \<not> structFields_ok fs then Inl kind_error else fields_without E addr fs vs w excludeList)"

section \<open>Deserialization\<close>

definition deserializeUint :: "ty \<Rightarrow> ByteBuffer \<Rightarrow> (val \<times> ByteBuffer) res" where
  "deserializeUint t bb =
     bind_res (case t of
        TUint8 \<Rightarrow> getBytes bb 1 | TUint16 \<Rightarrow> getBytes bb 2 | TUint32 \<Rightarrow> getBytes bb 4
      | TUint64 \<Rightarrow> getBytes bb 8 | TUintptr \<Rightarrow> getBytes bb 8 | TUint \<Rightarrow> GetVarBytes bb 1
      | _ \<Rightarrow> Inl (GoError ''deser: invalid Uint type''))
      (\<lambda>(bs, bb). Inr (VUint (foldl (\<lambda>ui b. push_bit 8 ui OR ucast b) 0 bs), bb))"

definition deserializeFixSizeBigUint :: "ByteBuffer \<Rightarrow> nat \<Rightarrow> (int \<times> ByteBuffer) res" where
  "deserializeFixSizeBigUint bb sz =
     bind_res (getBytes bb sz) (\<lambda>(bs, bb). Inr (int (be_value bs), bb))"

definition deserializeBigInt :: "ByteBuffer \<Rightarrow> (int \<times> ByteBuffer) res" where
  "deserializeBigInt bb = bind_res (GetVarBytes bb 1) (\<lambda>(bs, bb). Inr (int (be_value bs), bb))"

definition deserializeBool :: "ByteBuffer \<Rightarrow> (val \<times> ByteBuffer) res" where
  "deserializeBool bb =
     bind_res (getBytes bb 1) (\<lambda>(b, bb).
       if b ! 0 = 0 then Inr (VBool False, bb)
       else if b ! 0 = 1 then Inr (VBool True, bb)
       else Inl (GoError ''deser: invalid boolean value''))"

definition deserializeByteArray :: "ByteBuffer \<Rightarrow> nat \<Rightarrow> (val \<times> ByteBuffer) res" where
  "deserializeByteArray bb n = bind_res (getBytes bb n) (\<lambda>(bs, bb). Inr (VBytes bs, bb))"

definition deserializeByteSlice :: "ByteBuffer \<Rightarrow> Tags \<Rightarrow> (val \<times> ByteBuffer) res" where
  "deserializeByteSlice bb ts =
     bind_res (GetVarBytes bb (ByteSizeOfSliceLen ts)) (\<lambda>(bs, bb). Inr (VBytes bs, bb))"

definition deserializeString :: "ByteBuffer \<Rightarrow> (val \<times> ByteBuffer) res" where
  "deserializeString bb = bind_res (GetVarBytes bb 4) (\<lambda>(bs, bb). Inr (VString bs, bb))"

primrec deser_list :: "(val \<Rightarrow> ByteBuffer \<Rightarrow> (val \<times> ByteBuffer) res) \<Rightarrow> val list \<Rightarrow> ByteBuffer
    \<Rightarrow> (val list \<times> ByteBuffer) res" where
  "deser_list f [] bb = Inr ([], bb)"
| "deser_list f (old # olds) bb =
     bind_res (f old bb) (\<lambda>(v, bb). bind_res (deser_list f olds bb) (\<lambda>(vs, bb). Inr (v # vs, bb)))"

text \<open>The values that are read into: the element of a pointer, or a new one for nil; the elements of a slice,
  which is cut or extended to the length that was read; the fields of a struct. A target of another shape does
  not occur in Go and counts as zero.\<close>

definition elem_target :: "customs \<Rightarrow> ty \<Rightarrow> val \<Rightarrow> val" where
  "elem_target E t old = (case old of VPtr (Some x) \<Rightarrow> x | _ \<Rightarrow> zero_val E t)"

definition list_targets :: "customs \<Rightarrow> ty \<Rightarrow> nat \<Rightarrow> val \<Rightarrow> val list" where
  "list_targets E t n old =
     take n ((case old of VList xs \<Rightarrow> xs | _ \<Rightarrow> []) @ replicate n (zero_val E t))"

definition field_targets :: "customs \<Rightarrow> (string \<times> bool \<times> Tags \<times> ty) list \<Rightarrow> val \<Rightarrow> val list" where
  "field_targets E fs old =
     (case old of VStruct vs \<Rightarrow> if length vs = length fs then vs else zero_fields E fs | _ \<Rightarrow> zero_fields E fs)"

fun deser :: "customs \<Rightarrow> ty \<Rightarrow> Tags \<Rightarrow> val \<Rightarrow> ByteBuffer \<Rightarrow> (val \<times> ByteBuffer) res"
  and deser_fields :: "customs \<Rightarrow> (string \<times> bool \<times> Tags \<times> ty) list \<Rightarrow> val list \<Rightarrow> ByteBuffer
    \<Rightarrow> (val list \<times> ByteBuffer) res" where
  "deser E (TPtr t) ts old bb =
     (if \<not> serializable_kind t then Inl kind_error
      else if NilOK ts then
        bind_res (GetUInt8 bb) (\<lambda>(b, bb).
          if b = 0 then Inr (VPtr None, bb)
          else bind_res (deser E t ts (elem_target E t old) bb) (\<lambda>(v, bb). Inr (VPtr (Some v), bb)))
      else bind_res (deser E t ts (elem_target E t old) bb) (\<lambda>(v, bb). Inr (VPtr (Some v), bb)))"
| "deser E (TCustom c) ts old bb = cu_deser E c old bb"
| "deser E TBigInt ts old bb = bind_res (deserializeBigInt bb) (\<lambda>(i, bb). Inr (VBig i, bb))"
| "deser E TUint8 ts old bb = deserializeUint TUint8 bb"
| "deser E TUint16 ts old bb = deserializeUint TUint16 bb"
| "deser E TUint32 ts old bb = deserializeUint TUint32 bb"
| "deser E TUint64 ts old bb = deserializeUint TUint64 bb"
| "deser E TUint ts old bb = deserializeUint TUint bb"
| "deser E TUintptr ts old bb = deserializeUint TUintptr bb"
| "deser E TBool ts old bb = deserializeBool bb"
| "deser E TString ts old bb = deserializeString bb"
| "deser E (TSlice t) ts old bb =
     (if isByte t then deserializeByteSlice bb ts
      else if \<not> serializable_kind t then Inl kind_error
      else bind_res (getLen bb (ByteSizeOfSliceLen ts)) (\<lambda>(vlen, bb).
             bind_res (deser_list (\<lambda>old bb. deser E t default_tags old bb) (list_targets E t vlen old) bb)
               (\<lambda>(vs, bb). Inr (VList vs, bb))))"
| "deser E (TArray n t) ts old bb =
     (if isByte t then deserializeByteArray bb n
      else if \<not> serializable_kind t then Inl kind_error
      else bind_res (deser_list (\<lambda>old bb. deser E t default_tags old bb) (list_targets E t n old) bb)
             (\<lambda>(vs, bb). Inr (VList vs, bb)))"
| "deser E (TStruct fs) ts old bb =
     (if \<not> structFields_ok fs then Inl kind_error
      else bind_res (deser_fields E fs (field_targets E fs old) bb) (\<lambda>(vs, bb). Inr (VStruct vs, bb)))"
| "deser E TUnsupported ts old bb = Inl kind_error"
| "deser_fields E [] olds bb = Inr ([], bb)"
| "deser_fields E ((n, e, ts, t) # fs) olds bb =
     (case olds of [] \<Rightarrow> reflect_panic
      | old # olds \<Rightarrow>
          if kept (n, e, ts, t)
          then bind_res (deser E t ts old bb) (\<lambda>(v, bb).
                 bind_res (deser_fields E fs olds bb) (\<lambda>(vs, bb). Inr (v # vs, bb)))
          else bind_res (deser_fields E fs olds bb) (\<lambda>(vs, bb). Inr (old # vs, bb)))"

definition errNoPointer :: go_error where
  "errNoPointer = GoError ''deser: interface given to Deserialize must be a pointer''"

definition errDeserializeIntoNil :: go_error where
  "errDeserializeIntoNil = GoError ''deser: pointer given to Deserialize must not be nil''"

text \<open>The entry points take a pointer to the target as an interface value, a type with a value or nil, and
  leave what is read in the target; here they return it.\<close>

definition DeserializeWithTags :: "customs \<Rightarrow> ByteBuffer \<Rightarrow> (ty \<times> val) option \<Rightarrow> Tags \<Rightarrow> (val \<times> ByteBuffer) res" where
  "DeserializeWithTags E bb val ts =
     (case val of
        None \<Rightarrow> Inl errDeserializeIntoNil
      | Some (rtyp, rval) \<Rightarrow>
          (case rtyp of
             TPtr t \<Rightarrow> (case rval of
                VPtr None \<Rightarrow> Inl errDeserializeIntoNil
              | VPtr (Some old) \<Rightarrow> deser E t ts old bb
              | _ \<Rightarrow> reflect_panic)
           | _ \<Rightarrow> Inl errNoPointer))"

definition Deserialize :: "customs \<Rightarrow> ByteBuffer \<Rightarrow> (ty \<times> val) option \<Rightarrow> (val \<times> ByteBuffer) res" where
  "Deserialize E bb val = DeserializeWithTags E bb val default_tags"

definition DeserializeFromBytes :: "customs \<Rightarrow> bytes \<Rightarrow> (ty \<times> val) option \<Rightarrow> val res" where
  "DeserializeFromBytes E b val = bind_res (Deserialize E (NewByteBuffer b) val) (\<lambda>(v, bb). Inr v)"

abbreviation into :: "ty \<Rightarrow> val \<Rightarrow> (ty \<times> val) option" where
  "into t old \<equiv> Some (TPtr t, VPtr (Some old))"

section \<open>The methods of \<open>Uint128\<close> and \<open>Uint256\<close>\<close>

text \<open>A \<open>BigUint\<close> is a struct with one pointer to a \<open>big.Int\<close>. \<open>Deserialize\<close> sets the number of the target, or a
  new one for nil.\<close>

definition BigUint_Serialize :: "nat \<Rightarrow> val \<Rightarrow> bytes \<Rightarrow> bytes res" where
  "BigUint_Serialize sz v w =
     (case v of
        VStruct [VPtr None] \<Rightarrow> serializeFixSizeBigUint None sz w
      | VStruct [VPtr (Some (VBig i))] \<Rightarrow> serializeFixSizeBigUint (Some i) sz w
      | _ \<Rightarrow> reflect_panic)"

definition BigUint_Deserialize :: "nat \<Rightarrow> val \<Rightarrow> ByteBuffer \<Rightarrow> (val \<times> ByteBuffer) res" where
  "BigUint_Deserialize sz old bb =
     bind_res (deserializeFixSizeBigUint bb sz) (\<lambda>(i, bb). Inr (VStruct [VPtr (Some (VBig i))], bb))"

definition uint_customs :: customs where
  "uint_customs = \<lparr>cu_ser = (\<lambda>c. BigUint_Serialize (if c = 0 then 16 else 32)),
     cu_deser = (\<lambda>c. BigUint_Deserialize (if c = 0 then 16 else 32)),
     cu_zero = (\<lambda>c. VStruct [VPtr None])\<rparr>"

section \<open>Reading back what was written\<close>

text \<open>\<open>buf pre rest\<close> is a buffer that has been read up to \<open>rest\<close>; \<open>reads g bs x\<close> says that \<open>g\<close> reads the
  bytes \<open>bs\<close> wherever they stand, gives \<open>x\<close>, and stops right behind them.\<close>

definition buf :: "bytes \<Rightarrow> bytes \<Rightarrow> ByteBuffer" where
  "buf pre rest = \<lparr>bb_data = pre @ rest, bb_position = length pre, bb_size = length (pre @ rest)\<rparr>"

definition reads :: "(ByteBuffer \<Rightarrow> ('v \<times> ByteBuffer) res) \<Rightarrow> bytes \<Rightarrow> 'v \<Rightarrow> bool" where
  "reads g bs x \<longleftrightarrow> (\<forall>pre rest. g (buf pre (bs @ rest)) = Inr (x, buf (pre @ bs) rest))"

lemma NewByteBuffer_buf: "NewByteBuffer bs = buf [] bs"
  by (simp add: NewByteBuffer_def buf_def)

lemma getBytes_reads: "length bs = n \<Longrightarrow> reads (\<lambda>bb. getBytes bb n) bs bs"
  by (auto simp: reads_def getBytes_def buf_def)

lemma reads_bind:
  "reads g bs x \<Longrightarrow> reads (h x) bs' y \<Longrightarrow> reads (\<lambda>bb. bind_res (g bb) (\<lambda>(x, bb). h x bb)) (bs @ bs') y"
  by (simp add: reads_def)

lemma reads_map: "reads g bs x \<Longrightarrow> reads (\<lambda>bb. bind_res (g bb) (\<lambda>(x, bb). Inr (f x, bb))) bs (f x)"
  by (simp add: reads_def)

lemma Remaining_buf [simp]: "Remaining (buf pre rest) = length rest"
  by (simp add: Remaining_def buf_def)

subsection \<open>Lengths\<close>

lemma fold_size: "foldl (\<lambda>sz x. sz * 256 + unat x) 0 (b :: bytes) = be_value b"
  by (induction b rule: rev_induct) (simp_all add: be_value_def)

lemma of_nat_mod_256: "(of_nat (n mod 256) :: u8) = of_nat n"
  by (simp add: word_unat_eq_iff unat_of_nat)

lemma be_bytes_0: "be_bytes n 0 = replicate n 0"
  by (induction n) (simp_all add: replicate_append_same)

lemma listLen_loop_eq:
  "listLen_loop n len acc = (be_bytes n len @ acc, len div 256 ^ n)"
proof (induction n arbitrary: len acc)
  case (Suc n)
  show ?case
  proof (cases "len = 0")
    case True
    then show ?thesis by (simp add: be_bytes_0 replicate_append_same flip: replicate_Suc)
  next
    case False
    then show ?thesis using Suc by (simp add: of_nat_mod_256 div_mult2_eq)
  qed
qed simp

lemma writeListLen_Inr:
  "writeListLen w len n = Inr w' \<longleftrightarrow> len < 256 ^ n \<and> w' = w @ be_bytes n len"
  by (auto simp: writeListLen_def Let_def listLen_loop_eq div_greater_zero_iff not_le)

lemma getLen_buf:
  assumes "1 \<le> n" "n \<le> 4" "len < 256 ^ n" "len \<le> length rest"
  shows "getLen (buf pre (be_bytes n len @ rest)) n = Inr (len, buf (pre @ be_bytes n len) rest)"
proof -
  have "getBytes (buf pre (be_bytes n len @ rest)) n = Inr (be_bytes n len, buf (pre @ be_bytes n len) rest)"
    using getBytes_reads [of "be_bytes n len" n] by (simp add: reads_def)
  then show ?thesis using assms by (simp add: getLen_def fold_size be_value_be_bytes)
qed

lemma GetVarBytes_reads:
  assumes "1 \<le> n" "n \<le> 4" "length bs < 256 ^ n"
  shows "reads (\<lambda>bb. GetVarBytes bb n) (be_bytes n (length bs) @ bs) bs"
  using getBytes_reads [of bs] assms by (simp add: reads_def GetVarBytes_def getLen_buf)

subsection \<open>Unsigned integers\<close>

lemma push_or_byte: "push_bit 8 (of_nat v :: u64) OR ucast (b :: u8) = of_nat (256 * v + unat b)"
proof -
  have z: "push_bit 8 (of_nat v :: u64) AND ucast b = 0"
    by (rule bit_eqI) (auto simp: bit_simps dest: bit_imp_le_length)
  have "push_bit 8 (of_nat v :: u64) OR ucast b = push_bit 8 (of_nat v) + ucast b"
    using disjunctive_add_eq_or [OF z] by simp
  also have "\<dots> = of_nat (256 * v + unat b)"
    by (simp add: push_bit_eq_mult of_nat_unat)
  finally show ?thesis .
qed

lemma fold_uint: "foldl (\<lambda>ui b. push_bit 8 ui OR ucast b) (0 :: u64) (bs :: bytes) = of_nat (be_value bs)"
proof (induction bs rule: rev_induct)
  case (snoc b bs)
  then show ?case using push_or_byte [of "be_value bs" b] by simp
qed simp

lemma byte_at: "(ucast (drop_bit k (v :: u64)) :: u8) = of_nat (unat v div 2 ^ k)"
  by (metis of_nat_unat unat_drop_bit_div)

lemma be_bytes_numeral:
  "be_bytes (numeral k) v = be_bytes (pred_numeral k) (v div 256) @ [of_nat v]"
  by (simp only: numeral_eq_Suc [of k] be_bytes.simps of_nat_mod_256)

lemma serializeUint_bytes:
  "serializeUint TUint8 v w = Inr (w @ be_bytes 1 (unat v))"
  "serializeUint TUint16 v w = Inr (w @ be_bytes 2 (unat v))"
  "serializeUint TUint32 v w = Inr (w @ be_bytes 4 (unat v))"
  "serializeUint TUint64 v w = Inr (w @ be_bytes 8 (unat v))"
  by (simp_all add: serializeUint_def byte_at be_bytes_numeral of_nat_mod_256 flip: div_mult2_eq)

lemma uint_reads:
  assumes "unat v < 256 ^ n" "\<And>bb. f bb = bind_res (getBytes bb n)
      (\<lambda>(bs, bb). Inr (VUint (foldl (\<lambda>ui b. push_bit 8 ui OR ucast b) 0 bs), bb))"
  shows "reads f (be_bytes n (unat v)) (VUint v)"
proof -
  have "reads f (be_bytes n (unat v)) (VUint (foldl (\<lambda>ui b. push_bit 8 ui OR ucast b) 0 (be_bytes n (unat v))))"
    unfolding assms(2) by (rule reads_map [OF getBytes_reads]) simp
  then show ?thesis using assms(1) by (simp add: fold_uint be_value_be_bytes)
qed

subsection \<open>Big integers\<close>

lemma bit_len_lt: "n < 2 ^ bit_len n"
proof (induction n rule: bit_len.induct)
  case (1 n)
  show ?case
  proof (cases "n = 0")
    case False
    with 1 have "n div 2 < 2 ^ bit_len (n div 2)" by simp
    then show ?thesis using False by (simp add: bit_len_pos)
  qed simp
qed

lemma bit_len_le: "n < 2 ^ k \<Longrightarrow> bit_len n \<le> k"
proof (induction k arbitrary: n)
  case (Suc k)
  then have "n div 2 < 2 ^ k" by (simp add: less_mult_imp_div_less mult.commute)
  then show ?case using Suc.IH [of "n div 2"] by (cases "n = 0") (simp_all add: bit_len_pos)
qed simp

lemma byte_len_lt: "n < 256 ^ byte_len n"
proof -
  have "bit_len n \<le> 8 * byte_len n" by (simp add: byte_len_def)
  then have "(2::nat) ^ bit_len n \<le> 2 ^ (8 * byte_len n)" by (rule power_increasing) simp
  also have "\<dots> = 256 ^ byte_len n" by (simp add: power_mult)
  finally show ?thesis using bit_len_lt [of n] by simp
qed

lemma byte_len_exp: "byte_len (nat (2 ^ k)) = (k + 8) div 8"
  using bit_len_eq [of k "2 ^ k"] by (simp add: byte_len_def nat_power_eq)

lemma be_value_big_bytes: "int (be_value (big_bytes i)) = \<bar>i\<bar>"
  using byte_len_lt [of "nat \<bar>i\<bar>"] by (simp add: big_bytes_def be_value_be_bytes)

lemma length_big_bytes: "length (big_bytes i) = byte_len (nat \<bar>i\<bar>)"
  by (simp add: big_bytes_def)

lemma be_value_zeros: "be_value (replicate n 0 @ bs) = be_value bs"
proof (induction bs rule: rev_induct)
  case Nil
  have "be_value (replicate n 0) = 0" by (metis be_bytes_0 be_value_be_bytes mod_0)
  then show ?case by simp
next
  case (snoc b bs)
  then show ?case by (simp flip: append_assoc)
qed

lemma serializeBigInt_reads:
  assumes "serializeBigInt i w = Inr w'" "byte_len (nat i) \<le> 255"
  shows "\<exists>bs. w' = w @ bs \<and> bs \<noteq> [] \<and> reads deserializeBigInt bs i"
proof -
  let ?b = "if 0 < i then big_bytes i else []"
  from assms(1) have i: "0 \<le> i" and w': "w' = w @ (of_nat (length ?b) # ?b)"
    by (auto simp: serializeBigInt_def Let_def split: if_splits)
  have l: "length ?b < 256 ^ 1" using assms(2) i by (simp add: length_big_bytes)
  have "int (be_value ?b) = i" using i by (simp add: be_value_big_bytes)
  then have "reads deserializeBigInt (be_bytes 1 (length ?b) @ ?b) i"
    using reads_map [OF GetVarBytes_reads [of 1 ?b], of "\<lambda>b. int (be_value b)"] l
    unfolding deserializeBigInt_def by simp
  moreover have "be_bytes 1 (length ?b) = [of_nat (length ?b)]" by (simp add: of_nat_mod_256)
  ultimately show ?thesis using w' by (intro exI [of _ "of_nat (length ?b) # ?b"]) simp
qed

lemma FixSize_reads:
  assumes "serializeFixSizeBigUint v n w = Inr w'" "\<And>i. v = Some i \<Longrightarrow> 0 \<le> i"
  shows "\<exists>bs. w' = w @ bs \<and> length bs = n \<and>
    reads (\<lambda>bb. deserializeFixSizeBigUint bb n) bs (case v of None \<Rightarrow> 0 | Some i \<Rightarrow> i)"
proof -
  let ?x = "case v of None \<Rightarrow> 0 | Some i \<Rightarrow> i"
  from assms obtain bs where bs: "w' = w @ bs" "length bs = n" "int (be_value bs) = ?x"
    using be_value_zeros [of n "[]"]
    by (cases v) (auto simp: serializeFixSizeBigUint_def prefillByteArray_def bind_res_Inr_iff
        be_value_zeros be_value_big_bytes split: if_splits)
  then have "reads (\<lambda>bb. deserializeFixSizeBigUint bb n) bs ?x"
    using reads_map [OF getBytes_reads [OF bs(2)], of "\<lambda>b. int (be_value b)"]
    by (simp add: deserializeFixSizeBigUint_def)
  with bs show ?thesis by blast
qed

section \<open>The round trip\<close>

text \<open>What a value becomes when it is written and read back into a target: a nil pointer without the \<open>nil\<close> tag is
  written as the zero value and read back as a pointer to it, and fields that are not written are those of the
  target.\<close>

fun norm :: "customs \<Rightarrow> (nat \<Rightarrow> val \<Rightarrow> val \<Rightarrow> val) \<Rightarrow> ty \<Rightarrow> Tags \<Rightarrow> val \<Rightarrow> val \<Rightarrow> val"
  and norm_fields :: "customs \<Rightarrow> (nat \<Rightarrow> val \<Rightarrow> val \<Rightarrow> val) \<Rightarrow> (string \<times> bool \<times> Tags \<times> ty) list \<Rightarrow> val list \<Rightarrow> val list
    \<Rightarrow> val list" where
  "norm E cn (TPtr t) ts old v =
     (case v of
        VPtr None \<Rightarrow> if NilOK ts then VPtr None else VPtr (Some (norm E cn t ts (elem_target E t old) (zero_val E t)))
      | VPtr (Some x) \<Rightarrow> VPtr (Some (norm E cn t ts (elem_target E t old) x))
      | _ \<Rightarrow> v)"
| "norm E cn (TCustom c) ts old v = cn c old v"
| "norm E cn (TSlice t) ts old v =
     (if isByte t then v
      else case v of VList vs \<Rightarrow> VList (map2 (\<lambda>old x. norm E cn t default_tags old x) (list_targets E t (length vs) old) vs) | _ \<Rightarrow> v)"
| "norm E cn (TArray n t) ts old v =
     (if isByte t then v
      else case v of VList vs \<Rightarrow> VList (map2 (\<lambda>old x. norm E cn t default_tags old x) (list_targets E t n old) vs) | _ \<Rightarrow> v)"
| "norm E cn (TStruct fs) ts old v =
     (case v of VStruct vs \<Rightarrow> VStruct (norm_fields E cn fs (field_targets E fs old) vs) | _ \<Rightarrow> v)"
| "norm E cn t ts old v = v"
| "norm_fields E cn [] olds vs = []"
| "norm_fields E cn ((n, e, ts, t) # fs) olds vs =
     (case olds of [] \<Rightarrow> []
      | old # olds \<Rightarrow>
          (case vs of [] \<Rightarrow> []
           | v # vs \<Rightarrow> (if kept (n, e, ts, t) then norm E cn t ts old v else old) # norm_fields E cn fs olds vs))"

text \<open>Values of a type: integers in their range, big integers of at most 255 bytes, strings of less
  than \<open>2^32\<close> bytes.\<close>

fun wt :: "(nat \<Rightarrow> val \<Rightarrow> bool) \<Rightarrow> ty \<Rightarrow> val \<Rightarrow> bool"
  and wt_fields :: "(nat \<Rightarrow> val \<Rightarrow> bool) \<Rightarrow> (string \<times> bool \<times> Tags \<times> ty) list \<Rightarrow> val list \<Rightarrow> bool" where
  "wt cw TUint8 v = (case v of VUint u \<Rightarrow> unat u < 2 ^ 8 | _ \<Rightarrow> False)"
| "wt cw TUint16 v = (case v of VUint u \<Rightarrow> unat u < 2 ^ 16 | _ \<Rightarrow> False)"
| "wt cw TUint32 v = (case v of VUint u \<Rightarrow> unat u < 2 ^ 32 | _ \<Rightarrow> False)"
| "wt cw TUint64 v = (case v of VUint u \<Rightarrow> True | _ \<Rightarrow> False)"
| "wt cw TUint v = (case v of VUint u \<Rightarrow> True | _ \<Rightarrow> False)"
| "wt cw TUintptr v = (case v of VUint u \<Rightarrow> True | _ \<Rightarrow> False)"
| "wt cw TBool v = (case v of VBool b \<Rightarrow> True | _ \<Rightarrow> False)"
| "wt cw TBigInt v = (case v of VBig i \<Rightarrow> byte_len (nat i) \<le> 255 | _ \<Rightarrow> False)"
| "wt cw TString v = (case v of VString s \<Rightarrow> length s < 2 ^ 32 | _ \<Rightarrow> False)"
| "wt cw (TSlice t) v =
     (if isByte t then (case v of VBytes b \<Rightarrow> True | _ \<Rightarrow> False)
      else (case v of VList vs \<Rightarrow> list_all (\<lambda>x. wt cw t x) vs | _ \<Rightarrow> False))"
| "wt cw (TArray n t) v =
     (if isByte t then (case v of VBytes b \<Rightarrow> length b = n | _ \<Rightarrow> False)
      else (case v of VList vs \<Rightarrow> length vs = n \<and> list_all (\<lambda>x. wt cw t x) vs | _ \<Rightarrow> False))"
| "wt cw (TStruct fs) v = (case v of VStruct vs \<Rightarrow> wt_fields cw fs vs | _ \<Rightarrow> False)"
| "wt cw (TPtr t) v = (case v of VPtr None \<Rightarrow> True | VPtr (Some x) \<Rightarrow> wt cw t x | _ \<Rightarrow> False)"
| "wt cw (TCustom c) v = cw c v"
| "wt cw TUnsupported v = True"
| "wt_fields cw [] vs = (vs = [])"
| "wt_fields cw ((n, e, ts, t) # fs) vs =
     (case vs of [] \<Rightarrow> False | v # vs \<Rightarrow> wt cw t v \<and> wt_fields cw fs vs)"

text \<open>Types of which every value takes at least one byte, and the types whose slices have such
  elements and length fields of one to four bytes; \<open>getLen\<close> relies on both.\<close>

fun ne_ty :: "ty \<Rightarrow> bool" and ne_fields :: "(string \<times> bool \<times> Tags \<times> ty) list \<Rightarrow> bool" where
  "ne_ty (TArray n t) = (0 < n \<and> (isByte t \<or> ne_ty t))"
| "ne_ty (TStruct fs) = ne_fields fs"
| "ne_ty (TPtr t) = ne_ty t"
| "ne_ty t = True"
| "ne_fields [] = False"
| "ne_fields ((n, e, ts, t) # fs) = (kept (n, e, ts, t) \<and> ne_ty t \<or> ne_fields fs)"

definition len_ok :: "Tags \<Rightarrow> bool" where
  "len_ok ts \<longleftrightarrow> 1 \<le> ByteSizeOfSliceLen ts \<and> ByteSizeOfSliceLen ts \<le> 4"

fun wf_ty :: "ty \<Rightarrow> bool" and wf_fields :: "(string \<times> bool \<times> Tags \<times> ty) list \<Rightarrow> bool" where
  "wf_ty (TSlice t) = (isByte t \<or> ne_ty t \<and> wf_ty t)"
| "wf_ty (TArray n t) = wf_ty t"
| "wf_ty (TStruct fs) = wf_fields fs"
| "wf_ty (TPtr t) = wf_ty t"
| "wf_ty t = True"
| "wf_fields [] = True"
| "wf_fields ((n, e, ts, t) # fs) = (len_ok ts \<and> wf_ty t \<and> wf_fields fs)"

lemma len_ok_default [simp]: "len_ok default_tags"
  by (simp add: len_ok_def default_tags_def)

definition writes :: "(bytes \<Rightarrow> bytes res) \<Rightarrow> bool \<Rightarrow> (ByteBuffer \<Rightarrow> ('v \<times> ByteBuffer) res) \<Rightarrow> 'v \<Rightarrow> bool" where
  "writes f ne g x \<longleftrightarrow> (\<forall>w w'. f w = Inr w' \<longrightarrow> (\<exists>bs. w' = w @ bs \<and> (ne \<longrightarrow> bs \<noteq> []) \<and> reads g bs x))"

lemma reads_list:
  assumes "\<And>x old. x \<in> set vs \<Longrightarrow> writes (f x) ne (g old) (h old x)" "ser_list f vs w = Inr w'" "length olds = length vs"
  shows "\<exists>bs. w' = w @ bs \<and> (ne \<longrightarrow> length vs \<le> length bs) \<and> reads (deser_list g olds) bs (map2 h olds vs)"
  using assms(3,1,2)
proof (induction olds vs arbitrary: w rule: list_induct2)
  case Nil
  then show ?case by (auto simp: reads_def intro: exI [of _ "[]"])
next
  case (Cons old olds v vs)
  from Cons.prems(2) obtain w1 where w1: "f v w = Inr w1" "ser_list f vs w1 = Inr w'"
    by (auto simp: bind_res_Inr_iff)
  from Cons.prems(1) [of v] w1(1) obtain b1 where
    b1: "w1 = w @ b1" "ne \<longrightarrow> b1 \<noteq> []" "reads (g old) b1 (h old v)" unfolding writes_def by (metis list.set_intros(1))
  from Cons.IH [OF _ w1(2)] Cons.prems(1) obtain b2 where
    b2: "w' = w1 @ b2" "ne \<longrightarrow> length vs \<le> length b2" "reads (deser_list g olds) b2 (map2 h olds vs)"
    by auto
  have "reads (deser_list g (old # olds)) (b1 @ b2) (map2 h (old # olds) (v # vs))"
    using b1(3) b2(3) by (simp add: reads_def)
  moreover have "ne \<longrightarrow> length (v # vs) \<le> length (b1 @ b2)"
    using b1(2) b2(2) by (cases b1) auto
  moreover have "w' = w @ (b1 @ b2)" using b1(1) b2(1) by simp
  ultimately show ?case by blast
qed

lemma length_list_targets [simp]: "length (list_targets E t n old) = n"
  by (simp add: list_targets_def)

lemma be_bytes_ne: "1 \<le> n \<Longrightarrow> be_bytes n len \<noteq> []"
  by (cases n) auto

lemma writes_slice:
  assumes "\<And>x old. x \<in> set vs \<Longrightarrow> writes (f x) True (g old) (h old x)" "len_ok ts"
  shows "writes (\<lambda>w. bind_res (writeListLen w (length vs) (ByteSizeOfSliceLen ts)) (ser_list f vs)) True
    (\<lambda>bb. bind_res (getLen bb (ByteSizeOfSliceLen ts)) (\<lambda>(vlen, bb).
       bind_res (deser_list g (list_targets E t vlen old) bb) (\<lambda>(vs, bb). Inr (VList vs, bb))))
    (VList (map2 h (list_targets E t (length vs) old) vs))"
    (is "writes _ True ?g ?x")
  unfolding writes_def
proof (intro allI impI)
  fix w w'
  let ?n = "ByteSizeOfSliceLen ts" let ?l = "be_bytes ?n (length vs)" let ?o = "list_targets E t (length vs) old"
  assume "bind_res (writeListLen w (length vs) ?n) (ser_list f vs) = Inr w'"
  then have l: "length vs < 256 ^ ?n" and s: "ser_list f vs (w @ ?l) = Inr w'"
    by (auto simp: bind_res_Inr_iff writeListLen_Inr)
  from reads_list [where g = g and h = h and olds = ?o, OF assms(1) s] obtain bs where
    bs: "w' = (w @ ?l) @ bs" "length vs \<le> length bs" "reads (deser_list g ?o) bs (map2 h ?o vs)"
    by auto
  have "reads ?g (?l @ bs) ?x" using bs(2,3) l assms(2) by (simp add: reads_def len_ok_def getLen_buf)
  moreover have "?l @ bs \<noteq> []" using assms(2) be_bytes_ne by (simp add: len_ok_def)
  ultimately show "\<exists>b. w' = w @ b \<and> (True \<longrightarrow> b \<noteq> []) \<and> reads ?g b ?x"
    using bs(1) by (intro exI [of _ "?l @ bs"]) simp
qed

lemma writes_array:
  assumes "\<And>x old. x \<in> set vs \<Longrightarrow> writes (f x) ne (g old) (h old x)" "length olds = length vs"
  shows "writes (ser_list f vs) (ne \<and> 0 < length vs)
    (\<lambda>bb. bind_res (deser_list g olds bb) (\<lambda>(vs, bb). Inr (VList vs, bb))) (VList (map2 h olds vs))"
  unfolding writes_def
proof (intro allI impI)
  fix w w' assume "ser_list f vs w = Inr w'"
  from reads_list [where g = g and h = h, OF assms(1) this assms(2)] obtain bs where
    "w' = w @ bs" "ne \<longrightarrow> length vs \<le> length bs" "reads (deser_list g olds) bs (map2 h olds vs)" by auto
  then show "\<exists>b. w' = w @ b \<and> (ne \<and> 0 < length vs \<longrightarrow> b \<noteq> []) \<and>
      reads (\<lambda>bb. bind_res (deser_list g olds bb) (\<lambda>(vs, bb). Inr (VList vs, bb))) b (VList (map2 h olds vs))"
    by (intro exI [of _ bs]) (auto intro: reads_map)
qed

lemma writes_I:
  "(\<And>w w'. f w = Inr w' \<Longrightarrow> \<exists>bs. w' = w @ bs \<and> (ne \<longrightarrow> bs \<noteq> []) \<and> reads g bs x) \<Longrightarrow> writes f ne g x"
  by (auto simp: writes_def)

lemma writes_const: "bs \<noteq> [] \<or> \<not> ne \<Longrightarrow> reads g bs x \<Longrightarrow> writes (\<lambda>w. Inr (w @ bs)) ne g x"
  by (auto simp: writes_def)

lemma writes_uint:
  "unat u < 2 ^ 8 \<Longrightarrow> writes (serializeUint TUint8 u) ne (deserializeUint TUint8) (VUint u)"
  "unat u < 2 ^ 16 \<Longrightarrow> writes (serializeUint TUint16 u) ne (deserializeUint TUint16) (VUint u)"
  "unat u < 2 ^ 32 \<Longrightarrow> writes (serializeUint TUint32 u) ne (deserializeUint TUint32) (VUint u)"
  "writes (serializeUint TUint64 u) ne (deserializeUint TUint64) (VUint u)"
proof -
  have u: "unat u < 256 ^ 8" using unat_lt_exp [of u] by simp
  show "unat u < 2 ^ 8 \<Longrightarrow> writes (serializeUint TUint8 u) ne (deserializeUint TUint8) (VUint u)"
    unfolding serializeUint_bytes
    by (rule writes_const [OF _ uint_reads]) (simp_all add: be_bytes_ne deserializeUint_def)
  show "unat u < 2 ^ 16 \<Longrightarrow> writes (serializeUint TUint16 u) ne (deserializeUint TUint16) (VUint u)"
    unfolding serializeUint_bytes
    by (rule writes_const [OF _ uint_reads]) (simp_all add: be_bytes_ne deserializeUint_def)
  show "unat u < 2 ^ 32 \<Longrightarrow> writes (serializeUint TUint32 u) ne (deserializeUint TUint32) (VUint u)"
    unfolding serializeUint_bytes
    by (rule writes_const [OF _ uint_reads]) (simp_all add: be_bytes_ne deserializeUint_def)
  show "writes (serializeUint TUint64 u) ne (deserializeUint TUint64) (VUint u)"
    unfolding serializeUint_bytes
    by (rule writes_const [OF _ uint_reads [OF u]]) (simp_all add: be_bytes_ne deserializeUint_def)
qed

lemma byte_len_u64: "byte_len (unat (u :: u64)) \<le> 255"
proof -
  have "bit_len (unat u) \<le> 64" using bit_len_le [of "unat u" 64] unat_lt_exp [of u] by simp
  then show ?thesis by (simp add: byte_len_def)
qed

lemma writes_uint_var: "writes (serializeUint TUint u) ne (deserializeUint TUint) (VUint u)"
proof (rule writes_I)
  fix w w' assume a: "serializeUint TUint u w = Inr w'"
  then have s: "serializeBigInt (uint u) w = Inr w'" by (simp add: serializeUint_def)
  from s have w': "w' = w @ (be_bytes 1 (length (if 0 < uint u then big_bytes (uint u) else [])) @
      (if 0 < uint u then big_bytes (uint u) else []))"
    by (auto simp: serializeBigInt_def Let_def of_nat_mod_256 split: if_splits)
  let ?b = "if 0 < uint u then big_bytes (uint u) else []"
  have l: "length ?b < 256 ^ 1" using byte_len_u64 [of u] by (simp add: length_big_bytes)
  have "int (be_value ?b) = uint u" by (auto simp: be_value_big_bytes not_less intro: antisym)
  then have v: "of_nat (be_value ?b) = u" by (metis of_int_of_nat_eq word_of_int_uint)
  have "reads (deserializeUint TUint) (be_bytes 1 (length ?b) @ ?b)
      (VUint (foldl (\<lambda>ui b. push_bit 8 ui OR ucast b) 0 ?b))"
    unfolding deserializeUint_def ty.case
    by (rule reads_map [OF GetVarBytes_reads]) (use l in simp_all)
  then show "\<exists>bs. w' = w @ bs \<and> (ne \<longrightarrow> bs \<noteq> []) \<and> reads (deserializeUint TUint) bs (VUint u)"
    unfolding fold_uint v using w' be_bytes_ne [of 1] by (intro exI conjI) auto
qed

lemma writes_big: "byte_len (nat i) \<le> 255 \<Longrightarrow>
    writes (serializeBigInt i) ne (\<lambda>bb. bind_res (deserializeBigInt bb) (\<lambda>(i, bb). Inr (VBig i, bb))) (VBig i)"
  by (rule writes_I) (metis reads_map serializeBigInt_reads)

lemma writes_bool: "writes (\<lambda>w. Inr (serializeBool b w)) ne deserializeBool (VBool b)"
proof -
  have "reads deserializeBool [if b then 1 else 0] (VBool b)"
    using getBytes_reads [of "[if b then 1 else 0]" 1] by (simp add: reads_def deserializeBool_def)
  then show ?thesis unfolding serializeBool_def by (intro writes_const) simp_all
qed

lemma writes_string: "length s < 2 ^ 32 \<Longrightarrow> writes (\<lambda>w. Inr (serializeString s w)) ne deserializeString (VString s)"
proof -
  assume l: "length s < 2 ^ 32"
  then have "reads deserializeString (be_bytes 4 (length s) @ s) (VString s)"
    unfolding deserializeString_def by (intro reads_map GetVarBytes_reads) simp_all
  then show ?thesis unfolding serializeString_def using l be_bytes_ne [of 4]
    by (intro writes_const) (auto simp: unat_of_nat)
qed

lemma writes_bytes: "len_ok ts \<Longrightarrow> writes (\<lambda>w. serializeByteSlice bs w ts) ne (\<lambda>bb. deserializeByteSlice bb ts) (VBytes bs)"
proof (rule writes_I)
  fix w w' assume t: "len_ok ts" and "serializeByteSlice bs w ts = Inr w'"
  then have l: "length bs < 256 ^ ByteSizeOfSliceLen ts"
    and w': "w' = w @ (be_bytes (ByteSizeOfSliceLen ts) (length bs) @ bs)"
    by (auto simp: serializeByteSlice_def bind_res_Inr_iff writeListLen_Inr)
  have "reads (\<lambda>bb. deserializeByteSlice bb ts) (be_bytes (ByteSizeOfSliceLen ts) (length bs) @ bs) (VBytes bs)"
    unfolding deserializeByteSlice_def using t l by (intro reads_map GetVarBytes_reads) (simp_all add: len_ok_def)
  then show "\<exists>b. w' = w @ b \<and> (ne \<longrightarrow> b \<noteq> []) \<and> reads (\<lambda>bb. deserializeByteSlice bb ts) b (VBytes bs)"
    using w' t be_bytes_ne by (intro exI conjI) (auto simp: len_ok_def)
qed

lemma writes_byte_array: "length bs = n \<Longrightarrow> writes (\<lambda>w. Inr (w @ bs)) (0 < n) (\<lambda>bb. deserializeByteArray bb n) (VBytes bs)"
  unfolding deserializeByteArray_def by (rule writes_const) (auto intro: reads_map getBytes_reads)

lemma writes_weaken: "writes f ne g x \<Longrightarrow> (ne' \<Longrightarrow> ne) \<Longrightarrow> writes f ne' g x"
  by (fastforce simp: writes_def)

text \<open>The serializers as functions of the output, the deserializers as functions of the buffer.\<close>

lemma ser_fun:
  "ser E addr TUint8 ts (VUint u) = serializeUint TUint8 u"
  "ser E addr TUint16 ts (VUint u) = serializeUint TUint16 u"
  "ser E addr TUint32 ts (VUint u) = serializeUint TUint32 u"
  "ser E addr TUint64 ts (VUint u) = serializeUint TUint64 u"
  "ser E addr TUint ts (VUint u) = serializeUint TUint u"
  "ser E addr TUintptr ts (VUint u) = (\<lambda>w. Inl (GoError ''ser: invalid Uint type''))"
  "ser E addr TBigInt ts (VBig i) = serializeBigInt i"
  "ser E addr TBool ts (VBool b) = (\<lambda>w. Inr (serializeBool b w))"
  "ser E addr TString ts (VString s) = (\<lambda>w. Inr (serializeString s w))"
  "ser E True (TCustom c) ts v = cu_ser E c v"
  "ser E False (TCustom c) ts v = (\<lambda>w. Inl unaddressable)"
  "ser E addr TUnsupported ts v = (\<lambda>w. Inl kind_error)"
  by (auto simp: fun_eq_iff serializeUint_def)

lemma deser_fun:
  "deser E TUint8 ts old = deserializeUint TUint8"
  "deser E TUint16 ts old = deserializeUint TUint16"
  "deser E TUint32 ts old = deserializeUint TUint32"
  "deser E TUint64 ts old = deserializeUint TUint64"
  "deser E TUint ts old = deserializeUint TUint"
  "deser E TBigInt ts old = (\<lambda>bb. bind_res (deserializeBigInt bb) (\<lambda>(i, bb). Inr (VBig i, bb)))"
  "deser E TBool ts old = deserializeBool"
  "deser E TString ts old = deserializeString"
  "deser E (TCustom c) ts old = cu_deser E c old"
  by (auto simp: fun_eq_iff)

lemma writes_Inl: "writes (\<lambda>w. Inl e) ne g x"
  by (simp add: writes_def)

lemmas writes_basic = writes_uint writes_uint_var writes_big writes_bool writes_string writes_Inl

text \<open>Pointers: with the \<open>nil\<close> tag a byte tells whether a value follows.\<close>

lemma writes_ptr_some:
  assumes "writes (ser E True t ts x) ne (deser E t ts (elem_target E t old)) y"
  shows "writes (ser E addr (TPtr t) ts (VPtr (Some x))) ne (deser E (TPtr t) ts old) (VPtr (Some y))"
proof (rule writes_I)
  fix w w' assume a: "ser E addr (TPtr t) ts (VPtr (Some x)) w = Inr w'"
  then have k: "serializable_kind t" by (auto split: if_splits)
  let ?p = "if NilOK ts then [1] else [] :: bytes"
  from a k have "ser E True t ts x (w @ ?p) = Inr w'" by (auto split: if_splits)
  with assms obtain bs where bs: "w' = (w @ ?p) @ bs" "ne \<longrightarrow> bs \<noteq> []" "reads (deser E t ts (elem_target E t old)) bs y"
    unfolding writes_def by blast
  have "reads (deser E (TPtr t) ts old) (?p @ bs) (VPtr (Some y))"
    using bs(3) k getBytes_reads [of "[1]" 1] by (simp add: reads_def GetUInt8_def)
  then show "\<exists>b. w' = w @ b \<and> (ne \<longrightarrow> b \<noteq> []) \<and> reads (deser E (TPtr t) ts old) b (VPtr (Some y))"
    using bs(1,2) by (intro exI [of _ "?p @ bs"]) auto
qed

lemma writes_ptr_nil:
  assumes "\<And>addr. \<not> NilOK ts \<Longrightarrow> writes (ser E addr t ts (zero_val E t)) ne (deser E t ts (elem_target E t old)) y"
  shows "writes (ser E addr (TPtr t) ts (VPtr None)) ne (deser E (TPtr t) ts old)
    (if NilOK ts then VPtr None else VPtr (Some y))"
proof (cases "NilOK ts")
  case True
  show ?thesis
  proof (rule writes_I)
    fix w w' assume "ser E addr (TPtr t) ts (VPtr None) w = Inr w'"
    then have "serializable_kind t" "w' = w @ [0]" using True by (auto split: if_splits)
    then show "\<exists>b. w' = w @ b \<and> (ne \<longrightarrow> b \<noteq> []) \<and>
        reads (deser E (TPtr t) ts old) b (if NilOK ts then VPtr None else VPtr (Some y))"
      using True getBytes_reads [of "[0]" 1] by (intro exI [of _ "[0]"]) (simp add: reads_def GetUInt8_def)
  qed
next
  case False
  show ?thesis
  proof (rule writes_I)
    fix w w' assume "ser E addr (TPtr t) ts (VPtr None) w = Inr w'"
    then obtain a where k: "serializable_kind t" "ser E a t ts (zero_val E t) w = Inr w'"
      using False by (auto split: if_splits)
    with assms [OF False] obtain bs where "w' = w @ bs" "ne \<longrightarrow> bs \<noteq> []" "reads (deser E t ts (elem_target E t old)) bs y"
      unfolding writes_def by blast
    then show "\<exists>b. w' = w @ b \<and> (ne \<longrightarrow> b \<noteq> []) \<and>
        reads (deser E (TPtr t) ts old) b (if NilOK ts then VPtr None else VPtr (Some y))"
      using False k(1) by (intro exI [of _ bs]) (simp add: reads_def)
  qed
qed

lemma writes_fields_Cons:
  assumes "kept (n, e, ts, t) \<Longrightarrow> writes (ser E addr t ts v) (ne_ty t) (deser E t ts old) y"
    and "writes (ser_fields E addr fs vs) (ne_fields fs) (deser_fields E fs olds) ys"
  shows "writes (ser_fields E addr ((n, e, ts, t) # fs) (v # vs)) (ne_fields ((n, e, ts, t) # fs))
    (deser_fields E ((n, e, ts, t) # fs) (old # olds)) ((if kept (n, e, ts, t) then y else old) # ys)"
proof (rule writes_I)
  let ?k = "kept (n, e, ts, t)"
  fix w w' assume a: "ser_fields E addr ((n, e, ts, t) # fs) (v # vs) w = Inr w'"
  obtain b1 where b1: "ser_fields E addr fs vs (w @ b1) = Inr w'" "?k \<and> ne_ty t \<longrightarrow> b1 \<noteq> []"
    "?k \<Longrightarrow> reads (deser E t ts old) b1 y" "\<not> ?k \<Longrightarrow> b1 = []"
  proof (cases ?k)
    case True
    with a obtain w1 where "ser E addr t ts v w = Inr w1" "ser_fields E addr fs vs w1 = Inr w'"
      by (auto simp: bind_res_Inr_iff)
    with assms(1) [OF True] True that show thesis unfolding writes_def by blast
  qed (use a that [of "[]"] in auto)
  from assms(2) b1(1) obtain b2 where b2: "w' = (w @ b1) @ b2" "ne_fields fs \<longrightarrow> b2 \<noteq> []"
    "reads (deser_fields E fs olds) b2 ys" unfolding writes_def by blast
  have "reads (deser_fields E ((n, e, ts, t) # fs) (old # olds)) (b1 @ b2) ((if ?k then y else old) # ys)"
    using b1(3,4) b2(3) by (cases ?k) (simp_all add: reads_def)
  then show "\<exists>b. w' = w @ b \<and> (ne_fields ((n, e, ts, t) # fs) \<longrightarrow> b \<noteq> []) \<and>
      reads (deser_fields E ((n, e, ts, t) # fs) (old # olds)) b ((if ?k then y else old) # ys)"
    using b1(2) b2(1,2) by (intro exI [of _ "b1 @ b2"]) auto
qed

lemma length_zero_fields [simp]: "length (zero_fields E fs) = length fs"
  by (induction fs) auto

lemma length_field_targets [simp]: "length (field_targets E fs old) = length fs"
  by (simp add: field_targets_def split: val.split)

text \<open>The interface of the types with their own methods.\<close>

locale serializable =
  fixes E :: customs and cn :: "nat \<Rightarrow> val \<Rightarrow> val \<Rightarrow> val" and cw :: "nat \<Rightarrow> val \<Rightarrow> bool"
  assumes custom: "cw c v \<Longrightarrow> writes (cu_ser E c v) True (cu_deser E c old) (cn c old v)"
    and zero: "cw c (cu_zero E c)"
begin

lemma wt_zero_aux:
  "E' = E \<Longrightarrow> wt cw t (zero_val E t)" "E' = E \<Longrightarrow> wt_fields cw fs (zero_fields E fs)"
  by (induction E' t and E' fs rule: zero_val_zero_fields.induct)
    (auto simp: zero byte_len_def list_all_iff)

lemmas wt_zero = wt_zero_aux(1) [OF refl]

lemma fields_write:
  assumes "\<And>f addr ts v old. f \<in> set fs \<Longrightarrow> wf_ty (snd (snd (snd f))) \<Longrightarrow> wt cw (snd (snd (snd f))) v \<Longrightarrow> len_ok ts \<Longrightarrow>
      writes (ser E addr (snd (snd (snd f))) ts v) (ne_ty (snd (snd (snd f)))) (deser E (snd (snd (snd f))) ts old)
        (norm E cn (snd (snd (snd f))) ts old v)"
    "wf_fields fs" "wt_fields cw fs vs" "length olds = length fs"
  shows "writes (ser_fields E addr fs vs) (ne_fields fs) (deser_fields E fs olds) (norm_fields E cn fs olds vs)"
  using assms(4,1-3)
proof (induction olds fs arbitrary: vs rule: list_induct2)
  case Nil
  then show ?case by (auto simp: writes_def reads_def intro: exI [of _ "[]"])
next
  case (Cons old olds f fs)
  obtain n e ts t where f: "f = (n, e, ts, t)" by (cases f)
  with Cons.prems(3) obtain x xs where v: "vs = x # xs" "wt cw t x" "wt_fields cw fs xs" by (auto split: list.splits)
  have x: "writes (ser E addr t ts x) (ne_ty t) (deser E t ts old) (norm E cn t ts old x)"
    using Cons.prems(1) [of f x ts addr old] Cons.prems(2) f v by simp
  have "writes (ser_fields E addr fs xs) (ne_fields fs) (deser_fields E fs olds) (norm_fields E cn fs olds xs)"
    by (rule Cons.IH) (use Cons.prems f v in auto)
  from writes_fields_Cons [OF x this] show ?case unfolding v(1) f norm_fields.simps list.case .
qed

lemma ser_writes:
  "wf_ty t \<Longrightarrow> wt cw t v \<Longrightarrow> len_ok ts \<Longrightarrow>
    writes (ser E addr t ts v) (ne_ty t) (deser E t ts old) (norm E cn t ts old v)"
proof (induction t arbitrary: addr ts v old)
  case (TPtr t)
  then have wf: "wf_ty t" by simp
  from TPtr.prems consider "v = VPtr None" | x where "v = VPtr (Some x)" by (auto split: val.splits option.splits)
  then show ?case
  proof cases
    case 1
    have "writes (ser E a t ts (zero_val E t)) (ne_ty t) (deser E t ts (elem_target E t old)) (norm E cn t ts (elem_target E t old) (zero_val E t))" for a
      by (rule TPtr.IH [OF wf wt_zero TPtr.prems(3)])
    from writes_ptr_nil [OF this] show ?thesis unfolding 1 norm.simps val.case option.case ne_ty.simps .
  next
    case (2 x)
    then have "writes (ser E True t ts x) (ne_ty t) (deser E t ts (elem_target E t old)) (norm E cn t ts (elem_target E t old) x)"
      using TPtr wf by simp
    from writes_ptr_some [OF this] show ?thesis unfolding 2 norm.simps val.case option.case ne_ty.simps .
  qed
next
  case (TCustom c)
  then show ?case by (cases addr) (simp_all add: custom ser_fun deser_fun writes_Inl)
next
  case (TSlice t)
  show ?case
  proof (cases "isByte t")
    case True
    with TSlice.prems obtain bs where v: "v = VBytes bs" by (auto split: val.splits)
    have "ser E addr (TSlice t) ts v = (\<lambda>w. serializeByteSlice bs w ts)"
      "deser E (TSlice t) ts old = (\<lambda>bb. deserializeByteSlice bb ts)" using True v by (auto simp: fun_eq_iff)
    then show ?thesis using writes_bytes TSlice.prems True v by simp
  next
    case False
    with TSlice.prems obtain vs where v: "v = VList vs" "list_all (wt cw t) vs" by (auto split: val.splits)
    have w: "wf_ty t" "ne_ty t" using TSlice.prems False by simp_all
    have e: "writes (ser E True t default_tags x) True (deser E t default_tags old) (norm E cn t default_tags old x)"
      if "x \<in> set vs" for x old
      using TSlice.IH [OF w(1) _ len_ok_default, of x True old] w v that by (simp add: list_all_iff)
    note s = writes_slice [OF e TSlice.prems(3), where E = E and t = t and old = old]
    show ?thesis
    proof (cases "serializable_kind t")
      case True
      then have "ser E addr (TSlice t) ts v = (\<lambda>w. bind_res (writeListLen w (length vs) (ByteSizeOfSliceLen ts)) (ser_list (ser E True t default_tags) vs))"
        "deser E (TSlice t) ts old = (\<lambda>bb. bind_res (getLen bb (ByteSizeOfSliceLen ts)) (\<lambda>(vlen, bb).
        bind_res (deser_list (deser E t default_tags) (list_targets E t vlen old) bb) (\<lambda>(vs, bb). Inr (VList vs, bb))))"
        using False v(1) by (auto simp: fun_eq_iff)
      with s show ?thesis using False v(1) by simp
    qed (use False v in \<open>simp add: writes_def\<close>)
  qed
next
  case (TArray n t)
  show ?case
  proof (cases "isByte t")
    case True
    with TArray.prems obtain bs where v: "v = VBytes bs" "length bs = n" by (auto split: val.splits)
    have "ser E addr (TArray n t) ts v = (\<lambda>w. Inr (w @ bs))"
      "deser E (TArray n t) ts old = (\<lambda>bb. deserializeByteArray bb n)" using True v by (auto simp: fun_eq_iff)
    then show ?thesis using writes_byte_array [OF v(2)] True v by simp
  next
    case False
    with TArray.prems obtain vs where v: "v = VList vs" "list_all (wt cw t) vs" "length vs = n" by (auto split: val.splits)
    have w: "wf_ty t" using TArray.prems by simp
    have e: "writes (ser E addr t default_tags x) (ne_ty t) (deser E t default_tags old) (norm E cn t default_tags old x)"
      if "x \<in> set vs" for x old
      using TArray.IH [OF w _ len_ok_default, of x addr old] v that by (simp add: list_all_iff)
    have s: "writes (ser_list (ser E addr t default_tags) vs) (ne_ty t \<and> 0 < length vs)
      (\<lambda>bb. bind_res (deser_list (deser E t default_tags) (list_targets E t n old) bb) (\<lambda>(vs, bb). Inr (VList vs, bb)))
      (VList (map2 (norm E cn t default_tags) (list_targets E t n old) vs))"
      by (rule writes_array [OF e]) (simp_all add: v(3))
    show ?thesis
    proof (cases "serializable_kind t")
      case True
      then have "ser E addr (TArray n t) ts v = ser_list (ser E addr t default_tags) vs"
        "deser E (TArray n t) ts old = (\<lambda>bb. bind_res (deser_list (deser E t default_tags) (list_targets E t n old) bb)
          (\<lambda>(vs, bb). Inr (VList vs, bb)))"
        using False v by (auto simp: fun_eq_iff)
      with s show ?thesis using False v(1,3) by (simp add: conj_commute)
    qed (use False v in \<open>simp add: writes_def\<close>)
  qed
next
  case (TStruct fs)
  then obtain vs where v: "v = VStruct vs" "wt_fields cw fs vs" by (auto split: val.splits)
  have w: "writes (ser_fields E addr fs vs) (ne_fields fs) (deser_fields E fs (field_targets E fs old))
      (norm_fields E cn fs (field_targets E fs old) vs)"
    by (rule fields_write) (use TStruct v in \<open>auto simp: snds.simps\<close>)
  show ?case
  proof (rule writes_I)
    fix w w' assume "ser E addr (TStruct fs) ts v w = Inr w'"
    then have k: "structFields_ok fs" "ser_fields E addr fs vs w = Inr w'" using v(1) by (auto split: if_splits)
    with w obtain bs where "w' = w @ bs" "ne_fields fs \<longrightarrow> bs \<noteq> []"
      "reads (deser_fields E fs (field_targets E fs old)) bs (norm_fields E cn fs (field_targets E fs old) vs)"
      unfolding writes_def by blast
    then show "\<exists>bs. w' = w @ bs \<and> (ne_ty (TStruct fs) \<longrightarrow> bs \<noteq> []) \<and>
        reads (deser E (TStruct fs) ts old) bs (norm E cn (TStruct fs) ts old v)"
      using k(1) v(1) by (intro exI [of _ bs]) (simp add: reads_def)
  qed
qed (auto simp: writes_basic ser_fun deser_fun split: val.splits)

lemma roundtrip:
  assumes "wf_ty t" "wt cw t v" "SerializeToBytes E t v = Inr bs"
  shows "DeserializeFromBytes E (bs @ rest) (into t old) = Inr (norm E cn t default_tags old v)"
proof -
  from assms(3) have "ser E False t default_tags v [] = Inr bs"
    by (simp add: SerializeToBytes_def Serialize_def SerializeWithTags_def)
  with ser_writes [OF assms(1,2) len_ok_default] obtain bs' where
    "bs = [] @ bs'" "reads (deser E t default_tags old) bs' (norm E cn t default_tags old v)"
    unfolding writes_def by blast
  then show ?thesis
    by (simp add: DeserializeFromBytes_def Deserialize_def DeserializeWithTags_def NewByteBuffer_buf reads_def)
qed

end

text \<open>\<open>Uint128\<close> and \<open>Uint256\<close> keep their contract on non-negative values; nil is read as 0.\<close>

definition uint_norm :: "nat \<Rightarrow> val \<Rightarrow> val \<Rightarrow> val" where
  "uint_norm c old v = (case v of VStruct [VPtr None] \<Rightarrow> VStruct [VPtr (Some (VBig 0))] | _ \<Rightarrow> v)"

definition uint_wt :: "nat \<Rightarrow> val \<Rightarrow> bool" where
  "uint_wt c v \<longleftrightarrow> v = VStruct [VPtr None] \<or> (\<exists>i\<ge>0. v = VStruct [VPtr (Some (VBig i))])"

interpretation uints: serializable uint_customs uint_norm uint_wt
proof
  show "uint_wt c (cu_zero uint_customs c)" for c by (simp add: uint_wt_def uint_customs_def)
  fix c v old assume v: "uint_wt c v"
  let ?n = "if c = 0 then 16 else 32 :: nat"
  obtain u where u: "uint_norm c old v = VStruct [VPtr (Some (VBig (case u of None \<Rightarrow> 0 | Some i \<Rightarrow> i)))]"
    "cu_ser uint_customs c v = serializeFixSizeBigUint u ?n" "\<And>i. u = Some i \<Longrightarrow> 0 \<le> i"
  proof (cases "v = VStruct [VPtr None]")
    case True
    then show thesis by (intro that [of None]) (auto simp: uint_norm_def uint_customs_def BigUint_Serialize_def)
  next
    case False
    with v obtain i where "v = VStruct [VPtr (Some (VBig i))]" "0 \<le> i" by (auto simp: uint_wt_def)
    then show thesis by (intro that [of "Some i"]) (auto simp: uint_norm_def uint_customs_def BigUint_Serialize_def)
  qed
  have d: "cu_deser uint_customs c old = (\<lambda>bb. bind_res (deserializeFixSizeBigUint bb ?n)
      (\<lambda>(i, bb). Inr (VStruct [VPtr (Some (VBig i))], bb)))"
    by (auto simp: uint_customs_def BigUint_Deserialize_def fun_eq_iff)
  show "writes (cu_ser uint_customs c v) True (cu_deser uint_customs c old) (uint_norm c old v)"
  proof (rule writes_I)
    fix w w' assume "cu_ser uint_customs c v w = Inr w'"
    then have "serializeFixSizeBigUint u ?n w = Inr w'" using u(2) by simp
    from FixSize_reads [OF this u(3)] obtain bs where bs: "w' = w @ bs" "length bs = ?n"
      "reads (\<lambda>bb. deserializeFixSizeBigUint bb ?n) bs (case u of None \<Rightarrow> 0 | Some i \<Rightarrow> i)" by auto
    have "bs \<noteq> []" using bs(2) by (auto split: if_splits)
    with bs(1) reads_map [OF bs(3), of "\<lambda>i. VStruct [VPtr (Some (VBig i))]"]
    show "\<exists>bs. w' = w @ bs \<and> (True \<longrightarrow> bs \<noteq> []) \<and> reads (cu_deser uint_customs c old) bs (uint_norm c old v)"
      unfolding d u(1) by blast
  qed
qed

section \<open>Staying inside the buffer\<close>

definition bb_ok :: "ByteBuffer \<Rightarrow> bool" where
  "bb_ok bb \<longleftrightarrow> bb_position bb \<le> bb_size bb \<and> bb_size bb = length (bb_data bb)"

definition advances :: "(ByteBuffer \<Rightarrow> ('v \<times> ByteBuffer) res) \<Rightarrow> bool" where
  "advances g \<longleftrightarrow> (\<forall>bb v bb'. bb_ok bb \<longrightarrow> g bb = Inr (v, bb') \<longrightarrow>
     bb_ok bb' \<and> bb_data bb' = bb_data bb \<and> bb_position bb \<le> bb_position bb')"

lemma advances_ret: "advances (\<lambda>bb. Inr (v, bb))"
  by (simp add: advances_def)

lemma advances_Inl: "advances (\<lambda>bb. Inl e)"
  by (simp add: advances_def)

lemma advances_bind:
  assumes "advances g" "\<And>x. advances (h x)"
  shows "advances (\<lambda>bb. bind_res (g bb) (\<lambda>(x, bb). h x bb))"
  unfolding advances_def
proof (intro allI impI)
  fix bb v bb' assume ok: "bb_ok bb" and "bind_res (g bb) (\<lambda>(x, bb). h x bb) = Inr (v, bb')"
  then obtain x b where b: "g bb = Inr (x, b)" "h x b = Inr (v, bb')" by (auto simp: bind_res_Inr_iff)
  from assms(1) ok b(1) have 1: "bb_ok b \<and> bb_data b = bb_data bb \<and> bb_position bb \<le> bb_position b"
    unfolding advances_def by blast
  with assms(2) b(2) have "bb_ok bb' \<and> bb_data bb' = bb_data b \<and> bb_position b \<le> bb_position bb'"
    unfolding advances_def by blast
  with 1 show "bb_ok bb' \<and> bb_data bb' = bb_data bb \<and> bb_position bb \<le> bb_position bb'" by simp
qed

lemma advances_if: "(b \<Longrightarrow> advances g) \<Longrightarrow> (\<not> b \<Longrightarrow> advances h) \<Longrightarrow> advances (\<lambda>bb. if b then g bb else h bb)"
  by (cases b) simp_all

lemma advances_getBytes: "advances (\<lambda>bb. getBytes bb n)"
  by (auto simp: advances_def getBytes_def bb_ok_def split: if_splits)

lemma advances_getLen: "advances (\<lambda>bb. getLen bb n)"
proof -
  have "bb_ok bb' \<and> bb_data bb' = bb_data bb \<and> bb_position bb \<le> bb_position bb'"
    if "bb_ok bb" "getLen bb n = Inr (k, bb')" for bb k bb'
  proof -
    from that(2) obtain b where "getBytes bb n = Inr (b, bb')"
      by (auto simp: getLen_def bind_res_Inr_iff Let_def split: if_splits)
    with advances_getBytes that(1) show ?thesis unfolding advances_def by blast
  qed
  then show ?thesis unfolding advances_def by blast
qed

lemmas advances_prim = advances_ret advances_Inl advances_bind advances_getBytes advances_getLen advances_if

lemma advances_GetVarBytes: "advances (\<lambda>bb. GetVarBytes bb n)"
  unfolding GetVarBytes_def by (intro advances_prim)

lemma advances_deserializeUint: "advances (deserializeUint t)"
  unfolding deserializeUint_def
  by (cases t) (auto intro!: advances_prim advances_GetVarBytes)

lemma advances_basic:
  "advances deserializeBigInt" "advances deserializeBool" "advances deserializeString"
  "advances (\<lambda>bb. deserializeByteSlice bb ts)" "advances (\<lambda>bb. deserializeByteArray bb n)"
  "advances (\<lambda>bb. deserializeFixSizeBigUint bb n)" "advances GetUInt8"
  unfolding deserializeBigInt_def deserializeBool_def deserializeString_def deserializeByteSlice_def
    deserializeByteArray_def deserializeFixSizeBigUint_def GetUInt8_def
  by (intro advances_prim advances_GetVarBytes)+

lemma advances_list: "(\<And>old. advances (g old)) \<Longrightarrow> advances (deser_list g olds)"
proof (induction olds)
  case (Cons old olds)
  show ?case unfolding deser_list.simps by (intro advances_prim Cons.prems Cons.IH)
qed (unfold deser_list.simps, rule advances_ret)

lemma advances_fields:
  assumes "\<And>f ts old. f \<in> set fs \<Longrightarrow> advances (deser E (snd (snd (snd f))) ts old)"
  shows "advances (deser_fields E fs olds)"
  using assms
proof (induction fs arbitrary: olds)
  case (Cons f fs)
  obtain n e ts t where f: "f = (n, e, ts, t)" by (cases f)
  have d: "advances (deser E t ts old)" for old using Cons.prems [of f] f by simp
  have r: "advances (deser_fields E fs olds)" for olds using Cons by simp
  show ?case
  proof (cases olds)
    case Nil
    show ?thesis unfolding f Nil deser_fields.simps list.case reflect_panic_def by (rule advances_Inl)
  next
    case (Cons old olds')
    show ?thesis unfolding f Cons deser_fields.simps list.case by (intro advances_prim d r)
  qed
qed (unfold deser_fields.simps, rule advances_ret)

lemma advances_deser: "advances (deser uint_customs t ts old)"
proof (induction t arbitrary: ts old)
  case (TStruct fs)
  have "advances (deser_fields uint_customs fs olds)" for olds
    by (rule advances_fields) (use TStruct in \<open>auto simp: snds.simps\<close>)
  then show ?case unfolding deser.simps by (intro advances_prim)
next
  case (TCustom c)
  have "advances (BigUint_Deserialize n old)" for n
    unfolding BigUint_Deserialize_def by (intro advances_prim advances_basic)
  then show ?case by (simp add: deser_fun uint_customs_def)
qed (unfold deser.simps, (intro advances_prim advances_basic advances_deserializeUint advances_list | assumption)+)

section \<open>Properties\<close>

text \<open>C9: A value that is serialized without error is read back from its bytes, whatever follows them and whatever
  the target holds, up to the changes of \<open>norm\<close>: a nil pointer without the \<open>nil\<close> tag becomes a pointer to the zero
  value, a nil number of a \<open>Uint128\<close> or \<open>Uint256\<close> becomes 0, and fields that are not serialized are those of the
  target. This holds for the types whose slices have length fields of one to four bytes and elements that take at
  least one byte (\<open>wf_ty\<close>), and for values (\<open>wt\<close>) with big integers of at most 255 bytes, \<open>Uint128\<close> and
  \<open>Uint256\<close> that are not negative, and strings of less than 2 to the 32 bytes.\<close>

theorem serialize_roundtrip:
  assumes "wf_ty t" "wt uint_wt t v" "SerializeToBytes uint_customs t v = Inr bs"
  shows "DeserializeFromBytes uint_customs (bs @ rest) (into t old) = Inr (norm uint_customs uint_norm t default_tags old v)"
  using assms by (rule uints.roundtrip)

theorem serialize_roundtrip_witness:
  "\<exists>bs. SerializeToBytes uint_customs
      (TStruct [(''Height'', True, default_tags, TUint64), (''Extra'', True, default_tags\<lparr>ByteSizeOfSliceLen := 2\<rparr>, TSlice TUint8),
        (''Topics'', True, default_tags, TSlice (TPtr TBigInt)), (''Gas'', True, default_tags, TPtr (TCustom 1)),
        (''cache'', False, default_tags, TBool)])
      (VStruct [VUint 7, VBytes [1, 2], VList [VPtr (Some (VBig 300)), VPtr None], VPtr None, VBool True]) = Inr bs
    \<and> DeserializeFromBytes uint_customs bs (into
      (TStruct [(''Height'', True, default_tags, TUint64), (''Extra'', True, default_tags\<lparr>ByteSizeOfSliceLen := 2\<rparr>, TSlice TUint8),
        (''Topics'', True, default_tags, TSlice (TPtr TBigInt)), (''Gas'', True, default_tags, TPtr (TCustom 1)),
        (''cache'', False, default_tags, TBool)])
      (VStruct [VUint 9, VBytes [], VList [VPtr None], VPtr None, VBool False]))
      = Inr (VStruct [VUint 7, VBytes [1, 2], VList [VPtr (Some (VBig 300)), VPtr (Some (VBig 0))],
          VPtr (Some (VStruct [VPtr (Some (VBig 0))])), VBool False])"
    (is "\<exists>bs. SerializeToBytes _ ?t ?v = Inr bs \<and> DeserializeFromBytes _ _ (into _ ?old) = Inr ?r")
proof -
  have l: "byte_len 300 \<le> 255" using bit_len_le [of 300 9] by (simp add: byte_len_def)
  have "\<exists>bs. SerializeToBytes uint_customs ?t ?v = Inr bs"
    by (simp add: SerializeToBytes_def Serialize_def SerializeWithTags_def structFields_ok_def kept_def is_custom_def
        serializable_kind_def default_tags_def isByte_def serializeUint_bytes serializeByteSlice_def
        writeListLen_def listLen_loop_eq serializeBigInt_def uint_customs_def BigUint_Serialize_def
        serializeFixSizeBigUint_def Let_def)
  then obtain bs where bs: "SerializeToBytes uint_customs ?t ?v = Inr bs" by blast
  have "DeserializeFromBytes uint_customs (bs @ []) (into ?t ?old) = Inr (norm uint_customs uint_norm ?t default_tags ?old ?v)"
    by (rule serialize_roundtrip [OF _ _ bs])
      (use l in \<open>simp_all add: uint_wt_def isByte_def len_ok_def default_tags_def\<close>)
  also have "norm uint_customs uint_norm ?t default_tags ?old ?v = ?r"
    by (simp add: kept_def isByte_def default_tags_def uint_norm_def uint_customs_def field_targets_def list_targets_def numeral_2_eq_2)
  finally show ?thesis using bs by simp
qed

text \<open>C38: \<open>serializeBigInt\<close> writes the length of a number in one byte without checking it: a number of
  256 bytes is written with the length 0 and read back as 0.\<close>

theorem big_int_length_wraps:
  assumes "byte_len (nat i) = 256"
  shows "SerializeToBytes uint_customs TBigInt (VBig i) = Inr (0 # big_bytes i)
    \<and> DeserializeFromBytes uint_customs (0 # big_bytes i) (into TBigInt old) = Inr (VBig 0)"
proof -
  have i: "0 < i" using assms by (cases "0 < i") (auto simp: byte_len_def)
  then have "length (big_bytes i) = 256" using assms by (simp add: length_big_bytes)
  then have "SerializeToBytes uint_customs TBigInt (VBig i) = Inr (0 # big_bytes i)"
    using i by (simp add: SerializeToBytes_def Serialize_def SerializeWithTags_def serializeBigInt_def)
  moreover have "reads deserializeBigInt [0] 0"
    using reads_map [OF GetVarBytes_reads [of 1 "[]"], of "\<lambda>b. int (be_value b)"]
    unfolding deserializeBigInt_def by simp
  then have "DeserializeFromBytes uint_customs (0 # big_bytes i) (into TBigInt old) = Inr (VBig 0)"
    by (simp add: DeserializeFromBytes_def Deserialize_def DeserializeWithTags_def NewByteBuffer_buf reads_def)
  ultimately show ?thesis by blast
qed

theorem big_int_length_wraps_witness:
  "SerializeToBytes uint_customs TBigInt (VBig (2 ^ 2047)) = Inr (0 # big_bytes (2 ^ 2047))
    \<and> DeserializeFromBytes uint_customs (0 # big_bytes (2 ^ 2047)) (into TBigInt (VBig 7)) = Inr (VBig 0)"
  by (rule big_int_length_wraps, rule trans [OF byte_len_exp]) simp

text \<open>C16: deserialization of untrusted bytes stays inside its buffer: it leaves the data alone, only
  moves forward, and never past the end.\<close>

theorem deserialize_in_bounds:
  assumes "bb_ok bb" "deser uint_customs t ts old bb = Inr (v, bb')"
  shows "bb_ok bb' \<and> bb_data bb' = bb_data bb \<and> bb_position bb \<le> bb_position bb'"
  using advances_deser [of t ts old] assms unfolding advances_def by blast

theorem deserialize_in_bounds_witness:
  "\<exists>v bb'. deser uint_customs (TSlice TUint8) default_tags (VBytes []) (NewByteBuffer [2, 7, 8, 9]) = Inr (v, bb')
     \<and> bb_ok bb' \<and> bb_position bb' = 3"
proof -
  have d: "deser uint_customs (TSlice TUint8) default_tags (VBytes []) (NewByteBuffer [2, 7, 8, 9]) =
      Inr (VBytes [7, 8], \<lparr>bb_data = [2, 7, 8, 9], bb_position = 3, bb_size = 4\<rparr>)"
    by (simp add: isByte_def deserializeByteSlice_def GetVarBytes_def getLen_def getBytes_def
        default_tags_def NewByteBuffer_def Remaining_def Let_def)
  have "bb_ok (NewByteBuffer [2, 7, 8, 9])" by (simp add: bb_ok_def NewByteBuffer_def)
  from deserialize_in_bounds [OF this d] d show ?thesis by auto
qed

end
