(* ===== verification/SerializeCanonical.thy ===== *)
theory SerializeCanonical
  imports Serialize
begin

text \<open>
  Canonical encodings: for the types whose values have one encoding only, a value that is read is written again as
  exactly the bytes it was read from. The types left out are those of which the deserializer accepts several
  encodings: big integers and \<open>uint\<close>, which may have leading zeros, pointers with the \<open>nil\<close> tag, whose first byte
  may be any but 0, and \<open>uintptr\<close>, which is never written.
\<close>

section \<open>The bytes that are consumed\<close>

text \<open>\<open>consumes g P\<close>: what \<open>g\<close> reads is related by \<open>P\<close> to the bytes it passes over.\<close>

definition consumes :: "(ByteBuffer \<Rightarrow> ('v \<times> ByteBuffer) res) \<Rightarrow> ('v \<Rightarrow> bytes \<Rightarrow> bool) \<Rightarrow> bool" where
  "consumes g P \<longleftrightarrow> (\<forall>pre rest v bb'. g (buf pre rest) = Inr (v, bb') \<longrightarrow>
     (\<exists>c rest'. rest = c @ rest' \<and> bb' = buf (pre @ c) rest' \<and> P v c))"

lemma consumes_ret: "P v [] \<Longrightarrow> consumes (\<lambda>bb. Inr (v, bb)) P"
  unfolding consumes_def by (metis Pair_inject append_Nil append_Nil2 sum.inject(2))

lemma consumes_Inl: "consumes (\<lambda>bb. Inl e) P"
  by (simp add: consumes_def)

lemma consumes_if: "(b \<Longrightarrow> consumes g P) \<Longrightarrow> (\<not> b \<Longrightarrow> consumes h P) \<Longrightarrow> consumes (\<lambda>bb. if b then g bb else h bb) P"
  by (cases b) simp_all

lemma consumes_bind:
  assumes "consumes g P" "\<And>x c. P x c \<Longrightarrow> consumes (h x) (\<lambda>v d. Q v (c @ d))"
  shows "consumes (\<lambda>bb. bind_res (g bb) (\<lambda>(x, bb). h x bb)) Q"
  unfolding consumes_def
proof (intro allI impI)
  fix pre rest v bb' assume "bind_res (g (buf pre rest)) (\<lambda>(x, bb). h x bb) = Inr (v, bb')"
  then obtain x bb where x: "g (buf pre rest) = Inr (x, bb)" "h x bb = Inr (v, bb')" by (auto simp: bind_res_Inr_iff)
  from assms(1) x(1) obtain c rest1 where c: "rest = c @ rest1" "bb = buf (pre @ c) rest1" "P x c"
    unfolding consumes_def by blast
  from assms(2) [OF c(3)] x(2) c(2) obtain d rest2 where "rest1 = d @ rest2" "bb' = buf ((pre @ c) @ d) rest2" "Q v (c @ d)"
    unfolding consumes_def by blast
  then show "\<exists>c rest'. rest = c @ rest' \<and> bb' = buf (pre @ c) rest' \<and> Q v c"
    using c(1) by (intro exI [of _ "c @ d"] exI [of _ rest2]) simp
qed

lemma consumes_mono: "consumes g P \<Longrightarrow> (\<And>v c. P v c \<Longrightarrow> Q v c) \<Longrightarrow> consumes g Q"
  unfolding consumes_def by blast

lemma consumes_getBytes: "consumes (\<lambda>bb. getBytes bb n) (\<lambda>v c. v = c \<and> length c = n)"
  unfolding consumes_def
proof (intro allI impI)
  fix pre rest v bb' assume "getBytes (buf pre rest) n = Inr (v, bb')"
  then have "n \<le> length rest" "v = take n rest" "bb' = buf (pre @ take n rest) (drop n rest)"
    by (auto simp: getBytes_def buf_def min_def split: if_splits)
  then show "\<exists>c rest'. rest = c @ rest' \<and> bb' = buf (pre @ c) rest' \<and> v = c \<and> length c = n"
    by (intro exI [of _ "take n rest"] exI [of _ "drop n rest"]) simp
qed

section \<open>Lengths and numbers\<close>

lemma consumes_getLen:
  "consumes (\<lambda>bb. getLen bb n) (\<lambda>k c. k < 256 ^ n \<and> c = be_bytes n k)"
  unfolding getLen_def
proof (intro consumes_if consumes_Inl, rule consumes_bind [OF consumes_getBytes], unfold fold_size Let_def)
  fix x c :: bytes assume x: "x = c \<and> length c = n"
  show "consumes (\<lambda>bb. if Remaining bb < be_value x then Inl (GoError ''deser: length exceeds remaining buffer'') else Inr (be_value x, bb))
    (\<lambda>k d. k < 256 ^ n \<and> c @ d = be_bytes n k)"
    using be_value_lt [of c] be_bytes_be_value [of c] x by (auto simp: consumes_def)
qed

lemma consumes_GetVarBytes:
  "consumes (\<lambda>bb. GetVarBytes bb n) (\<lambda>v c. length v < 256 ^ n \<and> c = be_bytes n (length v) @ v)"
  unfolding GetVarBytes_def
  by (rule consumes_bind [OF consumes_getLen], rule consumes_mono [OF consumes_getBytes]) auto

text \<open>\<open>again f\<close>: the value is written by \<open>f\<close> as the bytes it was read from.\<close>

definition again :: "('v \<Rightarrow> bytes \<Rightarrow> bytes res) \<Rightarrow> 'v \<Rightarrow> bytes \<Rightarrow> bool" where
  "again f v c \<longleftrightarrow> (\<forall>w. f v w = Inr (w @ c))"

lemma consumes_fixed_uint:
  assumes "\<And>bb. g bb = bind_res (getBytes bb n) (\<lambda>(bs, bb). Inr (VUint (foldl (\<lambda>ui b. push_bit 8 ui OR ucast b) 0 bs), bb))"
    "n \<le> 8" "\<And>u w. f (VUint u) w = Inr (w @ be_bytes n (unat u))"
  shows "consumes g (again f)"
  unfolding assms(1)
proof (rule consumes_bind [OF consumes_getBytes], rule consumes_ret)
  fix x c :: bytes assume x: "x = c \<and> length c = n"
  have "be_value c < 256 ^ n" using be_value_lt [of c] x by simp
  also have "\<dots> \<le> (256 :: nat) ^ 8" using assms(2) by (intro power_increasing) simp_all
  finally have "unat (of_nat (be_value c) :: u64) = be_value c" by (simp add: unat_of_nat)
  then show "again f (VUint (foldl (\<lambda>ui b. push_bit 8 ui OR ucast b) 0 x)) (c @ [])"
    using be_bytes_be_value [of c] x assms(3) by (simp add: again_def fold_uint)
qed

lemma consumes_uint:
  "consumes (deserializeUint TUint8) (again (ser E addr TUint8 ts))"
  "consumes (deserializeUint TUint16) (again (ser E addr TUint16 ts))"
  "consumes (deserializeUint TUint32) (again (ser E addr TUint32 ts))"
  "consumes (deserializeUint TUint64) (again (ser E addr TUint64 ts))"
  by (rule consumes_fixed_uint, simp only: deserializeUint_def ty.case, simp, simp only: ser_fun serializeUint_bytes)+

lemma big_bytes_fit: "byte_len (be_value bs) \<le> length bs"
proof -
  have "be_value bs < 256 ^ length bs" by (rule be_value_lt)
  also have "(256 :: nat) ^ length bs = 2 ^ (8 * length bs)" by (simp add: power_mult)
  finally have "bit_len (be_value bs) \<le> 8 * length bs" by (rule bit_len_le)
  then show ?thesis by (simp add: byte_len_def)
qed

lemma fixed_big_again: "serializeFixSizeBigUint (Some (int (be_value c))) (length c) w = Inr (w @ c)"
proof -
  let ?b = "big_bytes (int (be_value c))"
  let ?p = "replicate (length c - length ?b) 0 @ ?b"
  have l: "length ?b \<le> length c" using big_bytes_fit [of c] by (simp add: length_big_bytes)
  have "int (be_value ?p) = int (be_value c)" unfolding be_value_zeros be_value_big_bytes by simp
  then have "?p = c" using be_bytes_be_value [of ?p] be_bytes_be_value [of c] l by simp
  then show ?thesis using l by (simp add: serializeFixSizeBigUint_def prefillByteArray_def)
qed

section \<open>Types with one encoding\<close>

fun canon_ty :: "ty \<Rightarrow> Tags \<Rightarrow> bool" and canon_fields :: "(string \<times> bool \<times> Tags \<times> ty) list \<Rightarrow> bool" where
  "canon_ty (TSlice t) ts = (isByte t \<or> canon_ty t default_tags)"
| "canon_ty (TArray n t) ts = (isByte t \<or> canon_ty t default_tags)"
| "canon_ty (TStruct fs) ts = canon_fields fs"
| "canon_ty (TPtr t) ts = (\<not> NilOK ts \<and> canon_ty t ts)"
| "canon_ty TBigInt ts = False"
| "canon_ty TUint ts = False"
| "canon_ty TUintptr ts = False"
| "canon_ty t ts = True"
| "canon_fields [] = True"
| "canon_fields ((n, e, ts, t) # fs) = ((kept (n, e, ts, t) \<longrightarrow> canon_ty t ts) \<and> canon_fields fs)"

lemma consumes_basic:
  "consumes deserializeBool (again (ser E addr TBool ts))"
  "consumes deserializeString (again (ser E addr TString ts))"
  "consumes (\<lambda>bb. deserializeByteSlice bb ts) (again (ser E addr (TSlice TUint8) ts))"
  "consumes (\<lambda>bb. deserializeByteArray bb n) (again (ser E addr (TArray n TUint8) ts))"
proof -
  show "consumes deserializeBool (again (ser E addr TBool ts))"
    unfolding deserializeBool_def
    by (rule consumes_bind [OF consumes_getBytes], intro consumes_if consumes_Inl consumes_ret)
      (auto simp: again_def serializeBool_def length_Suc_conv)
  show "consumes deserializeString (again (ser E addr TString ts))"
    unfolding deserializeString_def
    by (rule consumes_bind [OF consumes_GetVarBytes], rule consumes_ret) (auto simp: again_def serializeString_def unat_of_nat)
  show "consumes (\<lambda>bb. deserializeByteSlice bb ts) (again (ser E addr (TSlice TUint8) ts))"
    unfolding deserializeByteSlice_def
    by (rule consumes_bind [OF consumes_GetVarBytes], rule consumes_ret)
      (auto simp: again_def isByte_def serializeByteSlice_def bind_res_Inr_iff writeListLen_Inr)
  show "consumes (\<lambda>bb. deserializeByteArray bb n) (again (ser E addr (TArray n TUint8) ts))"
    unfolding deserializeByteArray_def
    by (rule consumes_bind [OF consumes_getBytes], rule consumes_ret) (auto simp: again_def isByte_def)
qed

lemma consumes_list:
  assumes "\<And>old. consumes (g old) (again f)"
  shows "consumes (deser_list g olds) (\<lambda>vs c. length vs = length olds \<and> again (ser_list f) vs c)"
proof (induction olds)
  case Nil
  then show ?case unfolding deser_list.simps by (rule consumes_ret) (simp add: again_def)
next
  case (Cons old olds)
  show ?case unfolding deser_list.simps
    by (rule consumes_bind [OF assms], rule consumes_bind [OF Cons.IH], rule consumes_ret) (simp add: again_def)
qed

text \<open>The interface of the types with their own methods.\<close>

locale canonical_customs =
  fixes E :: customs
  assumes custom: "consumes (cu_deser E c old) (again (cu_ser E c))"
begin

lemma canonical_fields:
  assumes "\<And>f ts old. f \<in> set fs \<Longrightarrow> canon_ty (snd (snd (snd f))) ts \<Longrightarrow>
      consumes (deser E (snd (snd (snd f))) ts old) (again (ser E True (snd (snd (snd f))) ts))"
    "canon_fields fs" "length olds = length fs"
  shows "consumes (deser_fields E fs olds) (again (ser_fields E True fs))"
  using assms(3,1,2)
proof (induction olds fs rule: list_induct2)
  case Nil
  then show ?case unfolding deser_fields.simps by (intro consumes_ret) (simp add: again_def)
next
  case (Cons old olds f fs)
  obtain n e ts t where f: "f = (n, e, ts, t)" by (cases f)
  have r: "consumes (deser_fields E fs olds) (again (ser_fields E True fs))"
    by (rule Cons.IH) (use Cons.prems f in auto)
  have d: "consumes (deser E t ts old) (again (ser E True t ts))" if "kept (n, e, ts, t)"
    using Cons.prems f that by force
  show ?case unfolding f deser_fields.simps list.case
    by (intro consumes_if; (rule consumes_bind [OF d], assumption, rule consumes_bind [OF r] | rule consumes_bind [OF r]), rule consumes_ret)
      (simp_all add: again_def)
qed

lemma canonical: "canon_ty t ts \<Longrightarrow> consumes (deser E t ts old) (again (ser E True t ts))"
proof (induction t arbitrary: ts old)
  case (TSlice t)
  show ?case
  proof (cases "isByte t")
    case True
    then have "t = TUint8" "deser E (TSlice t) ts old = (\<lambda>bb. deserializeByteSlice bb ts)" by (auto simp: isByte_def fun_eq_iff)
    then show ?thesis using consumes_basic(3) by (simp del: ser.simps deser.simps)
  next
    case False
    have d: "consumes (deser E t default_tags old) (again (ser E True t default_tags))" for old
      using TSlice False by simp
    show ?thesis unfolding deser.simps
      by (intro consumes_if consumes_Inl, use False in simp, rule consumes_bind [OF consumes_getLen],
          rule consumes_bind [OF consumes_list [OF d]], rule consumes_ret)
        (use False in \<open>auto simp: again_def bind_res_Inr_iff writeListLen_Inr\<close>)
  qed
next
  case (TArray n t)
  show ?case
  proof (cases "isByte t")
    case True
    then have "t = TUint8" "deser E (TArray n t) ts old = (\<lambda>bb. deserializeByteArray bb n)" by (auto simp: isByte_def fun_eq_iff)
    then show ?thesis using consumes_basic(4) by (simp del: ser.simps deser.simps)
  next
    case False
    have d: "consumes (deser E t default_tags old) (again (ser E True t default_tags))" for old
      using TArray False by simp
    show ?thesis unfolding deser.simps
      by (intro consumes_if consumes_Inl, use False in simp, rule consumes_bind [OF consumes_list [OF d]], rule consumes_ret)
        (use False in \<open>auto simp: again_def\<close>)
  qed
next
  case (TPtr t)
  then have d: "consumes (deser E t ts old) (again (ser E True t ts))" for old by simp
  show ?case unfolding deser.simps
    by (intro consumes_if consumes_Inl, use TPtr.prems in simp, rule consumes_bind [OF d], rule consumes_ret)
      (use TPtr.prems in \<open>simp add: again_def\<close>)
next
  case (TStruct fs)
  have d: "consumes (deser_fields E fs (field_targets E fs old)) (again (ser_fields E True fs))"
    by (rule canonical_fields) (use TStruct in \<open>auto simp: snds.simps\<close>)
  show ?case unfolding deser.simps
    by (intro consumes_if consumes_Inl, rule consumes_bind [OF d], rule consumes_ret) (simp add: again_def)
next
  case (TCustom c)
  have "ser E True (TCustom c) ts = cu_ser E c" by (auto simp: fun_eq_iff)
  then show ?case using custom by (simp add: deser_fun del: ser.simps)
next
  case TUnsupported
  then show ?case unfolding deser.simps by (intro consumes_Inl)
qed (simp_all add: deser_fun consumes_uint consumes_basic)

end

interpretation uint_canon: canonical_customs uint_customs
proof
  have "consumes (BigUint_Deserialize n old) (again (BigUint_Serialize n))" for n old
    unfolding BigUint_Deserialize_def deserializeFixSizeBigUint_def
    by (rule consumes_bind [where P = "\<lambda>i c. i = int (be_value c) \<and> length c = n"],
        rule consumes_bind [OF consumes_getBytes], rule consumes_ret, simp, rule consumes_ret)
      (auto simp: again_def BigUint_Serialize_def fixed_big_again)
  then show "consumes (cu_deser uint_customs c old) (again (cu_ser uint_customs c))" for c old
    by (simp add: uint_customs_def)
qed

section \<open>Properties\<close>

text \<open>C15: A value of a type with one encoding (\<open>canon_ty\<close>: without big integers, \<open>uint\<close>, \<open>uintptr\<close> and pointers with
  the \<open>nil\<close> tag) that is read from arbitrary bytes is written again as exactly the bytes that were read: no two byte
  strings stand for the same value, except for what follows them.\<close>

theorem deserialize_canonical:
  assumes "canon_ty t default_tags" "DeserializeFromBytes uint_customs b (into t old) = Inr v"
  shows "\<exists>c rest. b = c @ rest \<and> SerializeToBytes uint_customs (TPtr t) (VPtr (Some v)) = Inr c"
proof -
  from assms(2) obtain bb where d: "deser uint_customs t default_tags old (buf [] b) = Inr (v, bb)"
    by (auto simp: DeserializeFromBytes_def Deserialize_def DeserializeWithTags_def NewByteBuffer_buf bind_res_Inr_iff)
  then have k: "serializable_kind t" by (auto simp: serializable_kind_def)
  from uint_canon.canonical [OF assms(1)] d obtain c rest where "b = c @ rest" "again (ser uint_customs True t default_tags) v c"
    unfolding consumes_def by blast
  then show ?thesis using k
    by (intro exI [of _ c] exI [of _ rest])
      (simp add: SerializeToBytes_def Serialize_def SerializeWithTags_def again_def default_tags_def)
qed

theorem deserialize_canonical_witness:
  "\<exists>c rest. [1, 44, 1, 9] = c @ rest \<and>
    SerializeToBytes uint_customs (TPtr (TStruct [(''Version'', True, default_tags, TUint16), (''Flag'', True, default_tags, TBool)]))
      (VPtr (Some (VStruct [VUint 300, VBool True]))) = Inr c"
proof -
  have d: "DeserializeFromBytes uint_customs [1, 44, 1, 9]
      (into (TStruct [(''Version'', True, default_tags, TUint16), (''Flag'', True, default_tags, TBool)]) (VStruct [VUint 0, VBool False]))
    = Inr (VStruct [VUint 300, VBool True])"
    by (simp add: DeserializeFromBytes_def Deserialize_def DeserializeWithTags_def structFields_ok_def kept_def serializable_kind_def
        getBytes_def default_tags_def NewByteBuffer_def field_targets_def deserializeUint_def deserializeBool_def)
  show ?thesis by (rule deserialize_canonical [OF _ d]) simp
qed

end
