(* ===== verification/EthLib.thy ===== *)
theory EthLib
  imports Prelude
begin

text \<open>
  The parts of go-ethereum that the state code calls, as a parameter of the model: hashing, the
  secure Merkle trie, the trie database and RLP. A trie is a value of the type \<open>'t\<close> and the
  contents of the database a value of \<open>'d\<close>. The predicate \<open>trie_laws\<close> states the documented
  behaviour of the trie as a key/value store and of RLP as a codec for big integers; theorems that
  need it have it as a hypothesis. \<open>map_lib\<close> is a library that has these laws, with a trie that is
  a function and a database without contents.
\<close>

record ('t, 'd) eth_lib =
  lib_Keccak256 :: "bytes \<Rightarrow> hash"
  lib_BytesToHash :: "bytes \<Rightarrow> hash"
  lib_NewSecure :: "hash \<Rightarrow> 'd option \<Rightarrow> 't res"
  lib_TryGet :: "'t \<Rightarrow> bytes \<Rightarrow> bytes res"
  lib_TryUpdate :: "'t \<Rightarrow> bytes \<Rightarrow> bytes \<Rightarrow> 't res"
  lib_TryDelete :: "'t \<Rightarrow> bytes \<Rightarrow> 't res"
  lib_TrieHash :: "'t \<Rightarrow> hash"
  lib_TrieCommit :: "'t \<Rightarrow> 'd \<Rightarrow> (hash \<times> 't \<times> 'd) res"
  lib_OpenTrie :: "'d \<Rightarrow> hash \<Rightarrow> 't res"
  lib_OpenStorageTrie :: "'d \<Rightarrow> hash \<Rightarrow> hash \<Rightarrow> 't res"
  lib_ContractCode :: "'d \<Rightarrow> hash \<Rightarrow> hash \<Rightarrow> bytes res"
  lib_ContractCodeSize :: "'d \<Rightarrow> hash \<Rightarrow> hash \<Rightarrow> nat res"
  lib_InsertBlob :: "'d \<Rightarrow> hash \<Rightarrow> bytes \<Rightarrow> 'd"
  rlp_EncodeBig :: "int \<Rightarrow> bytes"
  rlp_DecodeBig :: "bytes \<Rightarrow> int res"
  rlp_EncodePairs :: "(u64 \<times> int) list \<Rightarrow> bytes res"
  rlp_DecodePairs :: "bytes \<Rightarrow> (u64 \<times> int) list res"
  rlp_EncodeAccount :: "u64 \<Rightarrow> bytes \<Rightarrow> hash \<Rightarrow> hash option \<Rightarrow> u32 option \<Rightarrow> bytes \<Rightarrow> bytes res"
  rlp_DecodeAccount :: "bytes \<Rightarrow> (u64 \<times> bytes \<times> hash \<times> hash \<times> u32 \<times> bytes) res"
  rlp_EncodeMock :: "u64 \<Rightarrow> int \<Rightarrow> hash \<Rightarrow> hash option \<Rightarrow> bytes res"
  rlp_DecodeMock :: "bytes \<Rightarrow> (u64 \<times> nat \<times> hash \<times> hash) res"
  rlp_SplitContent :: "bytes \<Rightarrow> bytes res"
  rlp_EncodeBytes :: "bytes \<Rightarrow> bytes"
  rlp_DecodeBytes :: "bytes \<Rightarrow> bytes res"

text \<open>\<open>SecureTrie.Get\<close>, \<open>Update\<close> and \<open>Delete\<close> log an error and go on: nothing is read or changed.\<close>

definition trie_Get :: "('t, 'd) eth_lib \<Rightarrow> 't \<Rightarrow> bytes \<Rightarrow> bytes" where
  "trie_Get L t k = (case lib_TryGet L t k of Inl e \<Rightarrow> [] | Inr v \<Rightarrow> v)"

definition trie_Update :: "('t, 'd) eth_lib \<Rightarrow> 't \<Rightarrow> bytes \<Rightarrow> bytes \<Rightarrow> 't" where
  "trie_Update L t k v = (case lib_TryUpdate L t k v of Inl e \<Rightarrow> t | Inr t' \<Rightarrow> t')"

definition trie_Delete :: "('t, 'd) eth_lib \<Rightarrow> 't \<Rightarrow> bytes \<Rightarrow> 't" where
  "trie_Delete L t k = (case lib_TryDelete L t k of Inl e \<Rightarrow> t | Inr t' \<Rightarrow> t')"

text \<open>The trie as a key/value store: an absent key reads as the empty value, updates and deletions
  of a trie whose nodes are all there succeed, a commit changes no value, and the trie of the zero
  root is empty. RLP reads back the non-negative integers it writes, in at least one byte.\<close>

definition trie_laws :: "('t, 'd) eth_lib \<Rightarrow> bool" where
  "trie_laws L \<longleftrightarrow>
     (\<forall>t k v. v \<noteq> [] \<longrightarrow> (\<exists>t'. lib_TryUpdate L t k v = Inr t' \<and>
        (\<forall>k'. lib_TryGet L t' k' = (if k' = k then Inr v else lib_TryGet L t k')))) \<and>
     (\<forall>t k. \<exists>t'. lib_TryDelete L t k = Inr t' \<and>
        (\<forall>k'. lib_TryGet L t' k' = (if k' = k then Inr [] else lib_TryGet L t k'))) \<and>
     (\<forall>t d h t' d' k. lib_TrieCommit L t d = Inr (h, t', d') \<longrightarrow> lib_TryGet L t' k = lib_TryGet L t k) \<and>
     (\<forall>d. \<exists>t. lib_NewSecure L 0 (Some d) = Inr t \<and> (\<forall>k. lib_TryGet L t k = Inr [])) \<and>
     (\<forall>n\<ge>0. rlp_EncodeBig L n \<noteq> [] \<and> rlp_DecodeBig L (rlp_EncodeBig L n) = Inr n)"

text \<open>Writing tries: a trie needs a database, committing a trie does not close tries that can be opened,
  and the encodings are never empty.\<close>

definition db_laws :: "('t, 'd) eth_lib \<Rightarrow> bool" where
  "db_laws L \<longleftrightarrow>
     (\<forall>h. \<exists>e. lib_NewSecure L h None = Inl e) \<and>
     (\<forall>t d h t' d' a r tr. lib_TrieCommit L t d = Inr (h, t', d') \<longrightarrow>
        lib_OpenStorageTrie L d a r = Inr tr \<longrightarrow> lib_OpenStorageTrie L d' a r = Inr tr) \<and>
     (\<forall>n b r c k p v. rlp_EncodeAccount L n b r c k p = Inr v \<longrightarrow> v \<noteq> []) \<and>
     (\<forall>b. rlp_EncodeBytes L b \<noteq> [])"

lemma trie_Get_Update:
  assumes "trie_laws L" "v \<noteq> []"
  shows "trie_Get L (trie_Update L t k v) k' = (if k' = k then v else trie_Get L t k')"
proof -
  from assms obtain t' where "lib_TryUpdate L t k v = Inr t'"
    "\<And>k'. lib_TryGet L t' k' = (if k' = k then Inr v else lib_TryGet L t k')"
    unfolding trie_laws_def by blast
  then show ?thesis by (simp add: trie_Get_def trie_Update_def)
qed

lemma trie_Get_Delete:
  assumes "trie_laws L"
  shows "trie_Get L (trie_Delete L t k) k' = (if k' = k then [] else trie_Get L t k')"
proof -
  from assms obtain t' where "lib_TryDelete L t k = Inr t'"
    "\<And>k'. lib_TryGet L t' k' = (if k' = k then Inr [] else lib_TryGet L t k')"
    unfolding trie_laws_def by blast
  then show ?thesis by (simp add: trie_Get_def trie_Delete_def)
qed

lemma trie_Get_Commit:
  assumes "trie_laws L" "lib_TrieCommit L t d = Inr (h, t', d')"
  shows "trie_Get L t' k = trie_Get L t k"
proof -
  have "lib_TryGet L t' k = lib_TryGet L t k" using assms unfolding trie_laws_def by blast
  then show ?thesis by (simp add: trie_Get_def)
qed

lemma trie_Get_new:
  assumes "trie_laws L"
  obtains t where "lib_NewSecure L 0 (Some d) = Inr t" "\<And>k. trie_Get L t k = []"
proof -
  obtain t where "lib_NewSecure L 0 (Some d) = Inr t" "\<And>k. lib_TryGet L t k = Inr []"
    using assms unfolding trie_laws_def by blast
  then show ?thesis using that by (simp add: trie_Get_def)
qed

lemma rlp_big_laws:
  assumes "trie_laws L" "0 \<le> n"
  shows "rlp_EncodeBig L n \<noteq> []" "rlp_DecodeBig L (rlp_EncodeBig L n) = Inr n"
  using assms unfolding trie_laws_def by blast+

section \<open>A library that has the laws\<close>

text \<open>\<open>map_lib\<close> with a given key/value content for the tries it opens. \<open>trie.NewSecure\<close> panics
  without a database.\<close>

definition map_lib :: "(bytes \<Rightarrow> bytes) \<Rightarrow> (bytes \<Rightarrow> bytes, unit) eth_lib" where
  "map_lib content = \<lparr>
     lib_Keccak256 = (\<lambda>b. of_nat (be_value b)),
     lib_BytesToHash = (\<lambda>b. of_nat (be_value b)),
     lib_NewSecure = (\<lambda>h d. case d of None \<Rightarrow> Inl (GoPanic ''trie.NewSecure called without a database'')
                              | Some u \<Rightarrow> Inr (if h = 0 then (\<lambda>k. []) else content)),
     lib_TryGet = (\<lambda>t k. Inr (t k)),
     lib_TryUpdate = (\<lambda>t k v. Inr (t(k := v))),
     lib_TryDelete = (\<lambda>t k. Inr (t(k := []))),
     lib_TrieHash = (\<lambda>t. 1),
     lib_TrieCommit = (\<lambda>t d. Inr (1, t, d)),
     lib_OpenTrie = (\<lambda>d h. Inr content),
     lib_OpenStorageTrie = (\<lambda>d a h. Inr (\<lambda>k. [])),
     lib_ContractCode = (\<lambda>d a h. Inr []),
     lib_ContractCodeSize = (\<lambda>d a h. Inr 0),
     lib_InsertBlob = (\<lambda>d h b. d),
     rlp_EncodeBig = (\<lambda>n. 1 # be_bytes (bit_len (nat n)) (nat n)),
     rlp_DecodeBig = (\<lambda>b. Inr (int (be_value (tl b)))),
     rlp_EncodePairs = (\<lambda>l. Inr []),
     rlp_DecodePairs = (\<lambda>b. Inr []),
     rlp_EncodeAccount = (\<lambda>n b r c k p. Inr [1]),
     rlp_DecodeAccount = (\<lambda>b. Inr (0, b, 0, 0, 0, [])),
     rlp_EncodeMock = (\<lambda>n b r c. Inr [1]),
     rlp_DecodeMock = (\<lambda>b. Inr (0, 0, 0, 0)),
     rlp_SplitContent = (\<lambda>b. Inr (tl b)),
     rlp_EncodeBytes = (\<lambda>b. 1 # b),
     rlp_DecodeBytes = (\<lambda>b. Inr (tl b))\<rparr>"

lemma bit_len_bytes: "n < 256 ^ bit_len n"
proof (induction n rule: bit_len.induct)
  case (1 n)
  show ?case
  proof (cases "n = 0")
    case False
    with 1 have "n div 2 < 256 ^ bit_len (n div 2)" by simp
    then have "n < 2 * (256 ^ bit_len (n div 2)) + 2" by simp
    also have "\<dots> \<le> 256 ^ Suc (bit_len (n div 2))" by simp
    finally show ?thesis using False by (simp add: bit_len_pos)
  qed simp
qed

lemma map_lib_laws: "trie_laws (map_lib content)"
proof -
  have "be_value (be_bytes (bit_len n) n) = n" for n
    using bit_len_bytes [of n] by (simp add: be_value_be_bytes)
  then show ?thesis by (auto simp: trie_laws_def map_lib_def)
qed

lemma map_lib_db_laws: "db_laws (map_lib content)"
  by (simp add: db_laws_def map_lib_def)

end
