(* ===== verification/TokenBalances.thy ===== *)
theory TokenBalances
  imports EthLib Serialize "HOL-Library.AList"
begin

text \<open>
  Multi-token balances of an account (\<open>core/types/token.go\<close>): a cache of balances by token id over
  an optional token trie. Up to \<open>TokenTrieThreshold\<close> non-zero balances the account is serialized as
  a list; beyond that \<open>Commit\<close> moves the balances into a trie.

  The cache is an association list with distinct keys whose order stands for the order of \<open>range\<close>.
  \<open>tb_db\<close> tells whether the database pointer is set; the contents of the database are passed to the
  operations that use them. The JSON methods are not modelled.
\<close>

section \<open>Operations\<close>

definition TokenTrieThreshold :: nat where
  "TokenTrieThreshold = 16"

record 't TokenBalances =
  tb_db :: bool
  tb_tokenTrie :: "'t option"
  tb_balances :: "(u64 \<times> int) list"

text \<open>\<open>EncodeToByte32\<close> of \<open>common/utils.go\<close>.\<close>

definition EncodeToByte32 :: "u64 \<Rightarrow> bytes" where
  "EncodeToByte32 data = replicate 24 0 @ be_bytes 8 (unat data)"

definition NewEmptyTokenBalances :: "'t TokenBalances" where
  "NewEmptyTokenBalances = \<lparr>tb_db = False, tb_tokenTrie = None, tb_balances = []\<rparr>"

definition NewTokenBalancesWithMap :: "(u64 \<times> int) list \<Rightarrow> 't TokenBalances" where
  "NewTokenBalancesWithMap data = \<lparr>tb_db = False, tb_tokenTrie = None, tb_balances = data\<rparr>"

definition NewTokenBalances :: "('t, 'd) eth_lib \<Rightarrow> bytes \<Rightarrow> 'd option \<Rightarrow> 't TokenBalances res" where
  "NewTokenBalances L data db =
     (let tokenBalances = NewEmptyTokenBalances\<lparr>tb_db := (db \<noteq> None)\<rparr> in
      case data of
        [] \<Rightarrow> Inr tokenBalances
      | tag # rest \<Rightarrow>
          if tag = 0 then
            bind_res (rlp_DecodePairs L rest) (\<lambda>balanceList.
              Inr (tokenBalances\<lparr>tb_balances := fold (\<lambda>v. AList.update (fst v) (snd v)) balanceList []\<rparr>))
          else if tag = 1 then
            bind_res (lib_NewSecure L (lib_BytesToHash L rest) db) (\<lambda>tr.
              Inr (tokenBalances\<lparr>tb_tokenTrie := Some tr\<rparr>))
          else Inl (GoError ''Unknown enum byte in token_balances''))"

definition nonZeroEntriesInBalancesCache :: "'t TokenBalances \<Rightarrow> nat" where
  "nonZeroEntriesInBalancesCache t = length (filter (\<lambda>p. snd p > 0) (tb_balances t))"

definition IsBlank :: "'t TokenBalances \<Rightarrow> bool" where
  "IsBlank t = (tb_tokenTrie t = None \<and> nonZeroEntriesInBalancesCache t = 0)"

definition notUsingTrie :: "'t TokenBalances \<Rightarrow> bool" where
  "notUsingTrie t = (tb_tokenTrie t = None \<and> nonZeroEntriesInBalancesCache t \<le> TokenTrieThreshold)"

definition commit_entry :: "('t, 'd) eth_lib \<Rightarrow> u64 \<times> int \<Rightarrow> 't \<Rightarrow> 't" where
  "commit_entry L p tr =
     (let k = EncodeToByte32 (fst p) in
      if snd p > 0 then trie_Update L tr k (rlp_EncodeBig L (snd p)) else trie_Delete L tr k)"

text \<open>\<open>Commit\<close>, with the database before and after.\<close>

definition TokenBalances_Commit :: "('t, 'd) eth_lib \<Rightarrow> 'd \<Rightarrow> 't TokenBalances
    \<Rightarrow> ('t TokenBalances \<times> 'd) res" where
  "TokenBalances_Commit L d t =
     (if notUsingTrie t then Inr (t, d)
      else bind_res
        (case tb_tokenTrie t of
           Some tr \<Rightarrow> Inr tr
         | None \<Rightarrow> (case lib_NewSecure L 0 (if tb_db t then Some d else None) of
                     Inl e \<Rightarrow> Inl (GoPanic ''trie'') | Inr tr \<Rightarrow> Inr tr))
        (\<lambda>tr. case lib_TrieCommit L (fold (commit_entry L) (tb_balances t) tr) d of
           Inl e \<Rightarrow> Inl (GoPanic ''trie'')
         | Inr (root, tr, d) \<Rightarrow> Inr (t\<lparr>tb_tokenTrie := Some tr, tb_balances := []\<rparr>, d)))"

definition TokenBalances_Add :: "(u64 \<times> int) list \<Rightarrow> 't TokenBalances \<Rightarrow> 't TokenBalances" where
  "TokenBalances_Add other t = t\<lparr>tb_balances :=
     fold (\<lambda>p m. AList.update (fst p)
       (case map_of m (fst p) of Some data \<Rightarrow> snd p + data | None \<Rightarrow> snd p) m) other (tb_balances t)\<rparr>"

definition SetValue :: "int \<Rightarrow> u64 \<Rightarrow> 't TokenBalances \<Rightarrow> 't TokenBalances res" where
  "SetValue amount tokenID t =
     (if amount < 0 then Inl (GoPanic ''serious bug !!!!!!!!!!!!!'')
      else Inr (t\<lparr>tb_balances := AList.update tokenID amount (tb_balances t)\<rparr>))"

text \<open>\<open>GetTokenBalance\<close> caches what it reads from the trie.\<close>

definition GetTokenBalance :: "('t, 'd) eth_lib \<Rightarrow> u64 \<Rightarrow> 't TokenBalances \<Rightarrow> (int \<times> 't TokenBalances) res" where
  "GetTokenBalance L tokenID t =
     (case map_of (tb_balances t) tokenID of
        Some data \<Rightarrow> Inr (data, t)
      | None \<Rightarrow>
          (case tb_tokenTrie t of
             Some tr \<Rightarrow>
               (let v = trie_Get L tr (EncodeToByte32 tokenID) in
                if v \<noteq> [] then
                  (case rlp_DecodeBig L v of
                     Inl e \<Rightarrow> Inl (GoPanic ''rlp'')
                   | Inr r \<Rightarrow> Inr (r, t\<lparr>tb_balances := AList.update tokenID r (tb_balances t)\<rparr>))
                else Inr (0, t))
           | None \<Rightarrow> Inr (0, t)))"

definition TokenBalances_Copy :: "'t TokenBalances \<Rightarrow> 't TokenBalances" where
  "TokenBalances_Copy t = \<lparr>tb_db = False, tb_tokenTrie = None, tb_balances = tb_balances t\<rparr>"

definition GetBalanceMap :: "'t TokenBalances \<Rightarrow> (u64 \<times> int) list" where
  "GetBalanceMap t = tb_balances (TokenBalances_Copy t)"

definition CopyWithDB :: "'t TokenBalances \<Rightarrow> 't TokenBalances" where
  "CopyWithDB t = (TokenBalances_Copy t)\<lparr>tb_db := tb_db t, tb_tokenTrie := tb_tokenTrie t\<rparr>"

definition TokenBalances_Len :: "'t TokenBalances \<Rightarrow> nat" where
  "TokenBalances_Len t = length (tb_balances t)"

text \<open>\<open>SerializeToBytes\<close>: the bytes an account stores; nil is the empty string.\<close>

definition readyBeforeSer :: "'t TokenBalances \<Rightarrow> bool" where
  "readyBeforeSer t = (if notUsingTrie t then True else tb_tokenTrie t \<noteq> None \<and> tb_balances t = [])"

definition TokenBalances_SerializeToBytes :: "('t, 'd) eth_lib \<Rightarrow> 't TokenBalances \<Rightarrow> bytes res" where
  "TokenBalances_SerializeToBytes L t =
     (if \<not> readyBeforeSer t then Inl (GoError ''bug here'')
      else case tb_tokenTrie t of
        Some tr \<Rightarrow> Inr (1 # be_bytes 32 (unat (lib_TrieHash L tr)))
      | None \<Rightarrow>
          if TokenBalances_Len t = 0 then Inr []
          else bind_res (rlp_EncodePairs L (sort_key fst (filter (\<lambda>p. snd p \<noteq> 0) (tb_balances t))))
                 (\<lambda>b. Inr (0 # b)))"

text \<open>RLP of an account: the bytes above as one string. \<open>DecodeRLP\<close> needs the database.\<close>

definition TokenBalances_EncodeRLP :: "('t, 'd) eth_lib \<Rightarrow> 't TokenBalances \<Rightarrow> bytes res" where
  "TokenBalances_EncodeRLP L t =
     bind_res (TokenBalances_SerializeToBytes L t) (\<lambda>dataSer. Inr (rlp_EncodeBytes L dataSer))"

definition TokenBalances_DecodeRLP :: "('t, 'd) eth_lib \<Rightarrow> 'd \<Rightarrow> bytes \<Rightarrow> 't TokenBalances
    \<Rightarrow> 't TokenBalances res" where
  "TokenBalances_DecodeRLP L d dataRawBytes t =
     (case rlp_DecodeBytes L dataRawBytes of
        Inl e \<Rightarrow> Inl (GoPanic ''rlp'')
      | Inr dataRlp \<Rightarrow>
          if \<not> tb_db t then Inl (GoPanic ''bug here'')
          else bind_res (NewTokenBalances L dataRlp (Some d)) (\<lambda>b.
            Inr (t\<lparr>tb_balances := tb_balances b, tb_tokenTrie := tb_tokenTrie b\<rparr>)))"

text \<open>The wire format: the number of entries, then key and value of each, by increasing key.\<close>

primrec tb_ser_loop :: "u64 list \<Rightarrow> (u64 \<times> int) list \<Rightarrow> bytes \<Rightarrow> bytes res" where
  "tb_ser_loop [] m w = Inr w"
| "tb_ser_loop (key # keys) m w =
     bind_res (serializeBigInt (uint key) w) (\<lambda>w.
       bind_res (serializeBigInt (the (map_of m key)) w) (tb_ser_loop keys m))"

definition TokenBalances_Serialize :: "'t TokenBalances \<Rightarrow> bytes \<Rightarrow> bytes res" where
  "TokenBalances_Serialize t w =
     (let keys = sort (map fst (tb_balances t)); num = of_nat (length (tb_balances t)) :: u32 in
      bind_res (serializeUint TUint32 (ucast num) w) (tb_ser_loop keys (tb_balances t)))"

primrec tb_deser_loop :: "nat \<Rightarrow> (u64 \<times> int) list \<Rightarrow> ByteBuffer \<Rightarrow> ((u64 \<times> int) list \<times> ByteBuffer) res" where
  "tb_deser_loop 0 m bb = Inr (m, bb)"
| "tb_deser_loop (Suc n) m bb =
     bind_res (deserializeBigInt bb) (\<lambda>(k, bb).
       bind_res (deserializeBigInt bb) (\<lambda>(v, bb).
         tb_deser_loop n (if v = 0 then m else AList.update (word_of_int k) v m) bb))"

definition TokenBalances_Deserialize :: "'t TokenBalances \<Rightarrow> ByteBuffer \<Rightarrow> ('t TokenBalances \<times> ByteBuffer) res" where
  "TokenBalances_Deserialize t bb =
     bind_res (GetUInt32 bb) (\<lambda>(num, bb).
       bind_res (tb_deser_loop (unat num) [] bb) (\<lambda>(m, bb). Inr (t\<lparr>tb_balances := m\<rparr>, bb)))"

section \<open>The balance of a token\<close>

text \<open>The balance an account has of a token: the cached one, else the one in the trie, else 0.\<close>

definition trie_value :: "('t, 'd) eth_lib \<Rightarrow> 't option \<Rightarrow> u64 \<Rightarrow> int" where
  "trie_value L tr i =
     (case tr of None \<Rightarrow> 0
      | Some tr \<Rightarrow>
          (let v = trie_Get L tr (EncodeToByte32 i)
           in if v = [] then 0 else case rlp_DecodeBig L v of Inl e \<Rightarrow> 0 | Inr n \<Rightarrow> n))"

definition token_value :: "('t, 'd) eth_lib \<Rightarrow> 't TokenBalances \<Rightarrow> u64 \<Rightarrow> int" where
  "token_value L t i = (case map_of (tb_balances t) i of Some b \<Rightarrow> b | None \<Rightarrow> trie_value L (tb_tokenTrie t) i)"

text \<open>Well-formed balances: distinct keys, no negative balance, and a trie whose entries decode.\<close>

definition tb_wf :: "('t, 'd) eth_lib \<Rightarrow> 't TokenBalances \<Rightarrow> bool" where
  "tb_wf L t \<longleftrightarrow> distinct (map fst (tb_balances t)) \<and> (\<forall>p\<in>set (tb_balances t). 0 \<le> snd p) \<and>
     (\<forall>tr i. tb_tokenTrie t = Some tr \<longrightarrow> trie_Get L tr (EncodeToByte32 i) \<noteq> [] \<longrightarrow>
        (\<exists>n\<ge>0. rlp_DecodeBig L (trie_Get L tr (EncodeToByte32 i)) = Inr n))"

lemma EncodeToByte32_inj: "EncodeToByte32 a = EncodeToByte32 b \<longleftrightarrow> a = b"
proof
  assume "EncodeToByte32 a = EncodeToByte32 b"
  then have "be_value (be_bytes 8 (unat a)) = be_value (be_bytes 8 (unat b))"
    by (simp add: EncodeToByte32_def)
  moreover have "unat a < 256 ^ 8" "unat b < 256 ^ 8" using unat_lt_exp [of a] unat_lt_exp [of b] by simp_all
  ultimately show "a = b" by (simp add: be_value_be_bytes word_unat_eq_iff)
qed simp

lemma trie_value_Some:
  "trie_value L (Some tr) i =
     (if trie_Get L tr (EncodeToByte32 i) = [] then 0
      else case rlp_DecodeBig L (trie_Get L tr (EncodeToByte32 i)) of Inl e \<Rightarrow> 0 | Inr n \<Rightarrow> n)"
  by (simp add: trie_value_def Let_def)

lemma set_alist_update: "set (AList.update k v al) \<subseteq> insert (k, v) (set al)"
  by (induction al) auto

lemma GetTokenBalance_value:
  assumes "tb_wf L t"
  shows "\<exists>t'. GetTokenBalance L i t = Inr (token_value L t i, t') \<and> tb_wf L t'
    \<and> tb_tokenTrie t' = tb_tokenTrie t \<and> tb_db t' = tb_db t \<and> (\<forall>j. token_value L t' j = token_value L t j)"
proof (cases "map_of (tb_balances t) i")
  case (Some b)
  then show ?thesis using assms by (simp add: GetTokenBalance_def token_value_def)
next
  case None
  show ?thesis
  proof (cases "tb_tokenTrie t")
    case t: None
    with None show ?thesis using assms by (simp add: GetTokenBalance_def token_value_def trie_value_def)
  next
    case (Some tr)
    let ?v = "trie_Get L tr (EncodeToByte32 i)"
    show ?thesis
    proof (cases "?v = []")
      case True
      then show ?thesis using assms None Some
        by (simp add: GetTokenBalance_def token_value_def trie_value_def)
    next
      case False
      with assms Some obtain n where n: "0 \<le> n" "rlp_DecodeBig L ?v = Inr n" unfolding tb_wf_def by blast
      let ?t = "t\<lparr>tb_balances := AList.update i n (tb_balances t)\<rparr>"
      have "GetTokenBalance L i t = Inr (n, ?t)" using None Some False n by (simp add: GetTokenBalance_def)
      moreover have "token_value L t i = n" using None Some False n by (simp add: token_value_def trie_value_Some)
      moreover have "tb_wf L ?t"
        using assms n(1) set_alist_update [of i n "tb_balances t"] unfolding tb_wf_def
        by (auto simp: distinct_update)
      moreover have "token_value L ?t j = token_value L t j" for j
        using None Some False n by (auto simp: token_value_def update_conv' trie_value_Some split: option.split)
      ultimately show ?thesis by auto
    qed
  qed
qed

lemma SetValue_value:
  assumes "tb_wf L t" "0 \<le> amount"
  shows "\<exists>t'. SetValue amount i t = Inr t' \<and> tb_wf L t' \<and> tb_tokenTrie t' = tb_tokenTrie t
    \<and> tb_db t' = tb_db t \<and> (\<forall>j. token_value L t' j = (if j = i then amount else token_value L t j))"
  using assms set_alist_update [of i amount "tb_balances t"] unfolding tb_wf_def
  by (auto simp: SetValue_def token_value_def distinct_update update_conv' split: option.split)

text \<open>C21: Writing a non-negative amount of one token and reading any token afterwards gives that amount
  for the token written and, for every other token, the balance it had before, whether the balances
  are cached or in the token trie; and the read leaves all balances as they are.\<close>

theorem set_then_get:
  assumes "tb_wf L t" "0 \<le> amount"
  shows "\<exists>t1 t2. SetValue amount i t = Inr t1
    \<and> GetTokenBalance L j t1 = Inr (if j = i then amount else token_value L t j, t2)
    \<and> (\<forall>k. token_value L t2 k = (if k = i then amount else token_value L t k)) \<and> tb_wf L t2"
proof -
  from SetValue_value [OF assms, of i] obtain t1 where 1: "SetValue amount i t = Inr t1" "tb_wf L t1"
    "\<forall>j. token_value L t1 j = (if j = i then amount else token_value L t j)" by blast
  from GetTokenBalance_value [OF 1(2), of j] obtain t2 where 2: "GetTokenBalance L j t1 = Inr (token_value L t1 j, t2)"
    "tb_wf L t2" "\<forall>k. token_value L t2 k = token_value L t1 k" by blast
  show ?thesis by (rule exI [of _ t1], rule exI [of _ t2]) (use 1 2 in simp)
qed

definition sample_balances :: "(bytes \<Rightarrow> bytes) TokenBalances" where
  "sample_balances = \<lparr>tb_db = True, tb_tokenTrie = None, tb_balances = map (\<lambda>i. (of_nat i, int i)) [1..<18]\<rparr>"

lemma sample_balances_list: "tb_balances sample_balances = map (\<lambda>i. (of_nat i, int i)) [1..<18]"
  "tb_tokenTrie sample_balances = None" "tb_db sample_balances"
  by (simp_all add: sample_balances_def)

lemma sample_balances_wf: "tb_wf L sample_balances"
proof -
  have "distinct (map fst (tb_balances sample_balances))"
    by (simp add: sample_balances_list upt_rec)
  then show ?thesis by (auto simp: tb_wf_def sample_balances_list)
qed

theorem set_then_get_witness:
  "\<exists>t1 t2. SetValue 5 3 sample_balances = Inr t1
    \<and> GetTokenBalance (map_lib (\<lambda>k. [])) 4 t1 = Inr (token_value (map_lib (\<lambda>k. [])) sample_balances 4, t2)"
  using set_then_get [of "map_lib (\<lambda>k. [])" sample_balances 5 3 4] sample_balances_wf by auto

section \<open>Commit\<close>

lemma commit_fold_value:
  assumes "trie_laws L" "distinct (map fst m)" "\<forall>p\<in>set m. 0 \<le> snd p"
  shows "trie_Get L (fold (commit_entry L) m tr) (EncodeToByte32 i) =
    (case map_of m i of
       None \<Rightarrow> trie_Get L tr (EncodeToByte32 i)
     | Some b \<Rightarrow> if 0 < b then rlp_EncodeBig L b else [])"
  using assms(2,3)
proof (induction m arbitrary: tr)
  case (Cons p m)
  have e: "trie_Get L (commit_entry L p tr) (EncodeToByte32 i) =
      (if i = fst p then (if 0 < snd p then rlp_EncodeBig L (snd p) else [])
       else trie_Get L tr (EncodeToByte32 i))"
    using assms(1) rlp_big_laws(1) [OF assms(1), of "snd p"]
    by (auto simp: commit_entry_def Let_def trie_Get_Update trie_Get_Delete EncodeToByte32_inj)
  have "map_of m i = None" if "i = fst p" using Cons.prems(1) that by (simp add: map_of_eq_None_iff)
  with e show ?case using Cons by (auto split: option.split)
qed simp

lemma committed_value:
  assumes "trie_laws L" "tb_wf L t" "\<And>k. trie_Get L tr k = trie_Get L (fold (commit_entry L) (tb_balances t) tr0) k"
    "tb_tokenTrie t = Some tr0 \<or> tb_tokenTrie t = None \<and> (\<forall>k. trie_Get L tr0 k = [])"
  shows "token_value L (t\<lparr>tb_tokenTrie := Some tr, tb_balances := []\<rparr>) i = token_value L t i"
    "tb_wf L (t\<lparr>tb_tokenTrie := Some tr, tb_balances := []\<rparr>)"
proof -
  have wf: "distinct (map fst (tb_balances t))" "\<forall>p\<in>set (tb_balances t). 0 \<le> snd p"
    using assms(2) by (auto simp: tb_wf_def)
  have g: "trie_Get L tr (EncodeToByte32 i) =
    (case map_of (tb_balances t) i of
       None \<Rightarrow> trie_Get L tr0 (EncodeToByte32 i)
     | Some b \<Rightarrow> if 0 < b then rlp_EncodeBig L b else [])" for i
    using commit_fold_value [OF assms(1) wf] by (simp add: assms(3))
  have nn: "0 \<le> b" if "map_of (tb_balances t) i = Some b" for i b
    using wf(2) map_of_SomeD [OF that] by auto
  have t0: "trie_value L (tb_tokenTrie t) i = trie_value L (Some tr0) i" for i
    using assms(4) by (auto simp: trie_value_def)
  show "token_value L (t\<lparr>tb_tokenTrie := Some tr, tb_balances := []\<rparr>) i = token_value L t i"
  proof (cases "map_of (tb_balances t) i")
    case None
    then show ?thesis using t0 [of i] by (simp add: token_value_def trie_value_Some g)
  next
    case (Some b)
    then show ?thesis using nn [OF Some] rlp_big_laws [OF assms(1), of b]
      by (simp add: token_value_def trie_value_Some g)
  qed
  have "\<exists>n\<ge>0. rlp_DecodeBig L (trie_Get L tr (EncodeToByte32 i)) = Inr n"
    if "trie_Get L tr (EncodeToByte32 i) \<noteq> []" for i
  proof (cases "map_of (tb_balances t) i")
    case None
    then have "trie_Get L tr0 (EncodeToByte32 i) \<noteq> []" using that g [of i] by simp
    then show ?thesis using None g [of i] assms(2,4) by (auto simp: tb_wf_def)
  next
    case (Some b)
    then have "0 < b" using that g [of i] by (auto split: if_splits)
    then show ?thesis using Some g [of i] rlp_big_laws(2) [OF assms(1), of b] by auto
  qed
  then show "tb_wf L (t\<lparr>tb_tokenTrie := Some tr, tb_balances := []\<rparr>)" by (simp add: tb_wf_def)
qed

text \<open>C11: \<open>TokenBalances.Commit\<close> succeeds whenever the balances know their database or already have a
  token trie; it changes the balance of no token, below and above the threshold of 16 non-zero
  balances at which the balances move into a trie, and leaves the balances ready to be serialized.\<close>

theorem commit_keeps_balances:
  assumes "trie_laws L" "tb_wf L t" "tb_db t \<or> tb_tokenTrie t \<noteq> None"
    "\<And>tr. \<exists>r. lib_TrieCommit L tr d = Inr r"
  shows "\<exists>t' d'. TokenBalances_Commit L d t = Inr (t', d') \<and> (\<forall>i. token_value L t' i = token_value L t i)
    \<and> tb_wf L t' \<and> readyBeforeSer t'"
proof (cases "notUsingTrie t")
  case True
  then show ?thesis using assms(2) by (simp add: TokenBalances_Commit_def readyBeforeSer_def)
next
  case False
  obtain tn where tn: "lib_NewSecure L 0 (Some d) = Inr tn" "\<And>k. trie_Get L tn k = []"
    by (rule trie_Get_new [OF assms(1), of d]) blast
  define tr0 where "tr0 = (case tb_tokenTrie t of None \<Rightarrow> tn | Some tr \<Rightarrow> tr)"
  have tr0: "tb_tokenTrie t = Some tr0 \<or> tb_tokenTrie t = None \<and> (\<forall>k. trie_Get L tr0 k = [])"
    using tn(2) by (auto simp: tr0_def split: option.split)
  obtain h tr d' where c: "lib_TrieCommit L (fold (commit_entry L) (tb_balances t) tr0) d = Inr (h, tr, d')"
    using assms(4) by (metis prod_cases3)
  have g: "trie_Get L tr k = trie_Get L (fold (commit_entry L) (tb_balances t) tr0) k" for k
    by (rule trie_Get_Commit [OF assms(1) c])
  have "TokenBalances_Commit L d t = Inr (t\<lparr>tb_tokenTrie := Some tr, tb_balances := []\<rparr>, d')"
    using False assms(3) c tn by (cases "tb_tokenTrie t") (simp_all add: TokenBalances_Commit_def tr0_def)
  then show ?thesis using committed_value [OF assms(1,2) g tr0]
    by (auto simp: readyBeforeSer_def)
qed

theorem commit_keeps_balances_witness:
  "\<not> notUsingTrie sample_balances \<and> (\<exists>t' d'. TokenBalances_Commit (map_lib (\<lambda>k. [])) () sample_balances = Inr (t', d')
    \<and> token_value (map_lib (\<lambda>k. [])) t' 17 = 17 \<and> readyBeforeSer t')"
proof
  show "\<not> notUsingTrie sample_balances"
    by (simp add: notUsingTrie_def nonZeroEntriesInBalancesCache_def TokenTrieThreshold_def
        sample_balances_list upt_rec)
  have "token_value (map_lib (\<lambda>k. [])) sample_balances 17 = 17"
    by (simp add: token_value_def sample_balances_list upt_rec)
  moreover have "\<exists>r. lib_TrieCommit (map_lib (\<lambda>k. [])) tr () = Inr r" for tr by (simp add: map_lib_def)
  ultimately show "\<exists>t' d'. TokenBalances_Commit (map_lib (\<lambda>k. [])) () sample_balances = Inr (t', d')
    \<and> token_value (map_lib (\<lambda>k. [])) t' 17 = 17 \<and> readyBeforeSer t'"
    using commit_keeps_balances [OF map_lib_laws sample_balances_wf, of "\<lambda>k. []" "()"]
    by (metis sample_balances_list(3))
qed

text \<open>C39: Balances without a database, which \<open>NewTokenBalancesWithMap\<close> and \<open>Copy\<close> make, panic in
  \<open>Commit\<close> as soon as more than 16 of them are non-zero, since a trie cannot be opened.\<close>

theorem commit_without_db_panics:
  assumes "length (filter (\<lambda>p. snd p > 0) m) > TokenTrieThreshold" "lib_NewSecure L 0 None = Inl e"
  shows "TokenBalances_Commit L d (NewTokenBalancesWithMap m) = Inl (GoPanic ''trie'')"
  using assms by (simp add: TokenBalances_Commit_def NewTokenBalancesWithMap_def notUsingTrie_def
      nonZeroEntriesInBalancesCache_def)

theorem commit_without_db_panics_witness:
  "TokenBalances_Commit (map_lib (\<lambda>k. [])) () (NewTokenBalancesWithMap (map (\<lambda>i. (of_nat i, int i)) [1..<18]))
     = Inl (GoPanic ''trie'')"
  by (rule commit_without_db_panics [where e = "GoPanic ''trie.NewSecure called without a database''"])
     (simp_all add: TokenTrieThreshold_def upt_rec map_lib_def)

section \<open>The wire format\<close>

definition tb_read :: "(u64 \<times> int) list \<Rightarrow> u64 \<Rightarrow> (u64 \<times> int) list \<Rightarrow> (u64 \<times> int) list" where
  "tb_read m k acc = (if the (map_of m k) = 0 then acc else AList.update k (the (map_of m k)) acc)"

lemma map_of_fold_tb_read:
  "map_of (fold (tb_read m) keys acc) k =
     (if k \<in> set keys \<and> the (map_of m k) \<noteq> 0 then Some (the (map_of m k)) else map_of acc k)"
  by (induction keys arbitrary: acc) (auto simp: tb_read_def update_conv')

lemma tb_ser_loop_reads:
  assumes "\<forall>k\<in>set keys. 0 \<le> the (map_of m k) \<and> byte_len (nat (the (map_of m k))) \<le> 255"
  shows "\<exists>bs. tb_ser_loop keys m w = Inr (w @ bs) \<and>
    (\<forall>acc. reads (tb_deser_loop (length keys) acc) bs (fold (tb_read m) keys acc))"
  using assms
proof (induction keys arbitrary: w)
  case Nil
  then show ?case by (simp add: reads_def)
next
  case (Cons k keys)
  let ?v = "the (map_of m k)"
  have k: "byte_len (nat (uint k)) \<le> 255" using byte_len_u64 [of k] by simp
  obtain w1 where w1: "serializeBigInt (uint k) w = Inr w1" by (simp add: serializeBigInt_def Let_def)
  from serializeBigInt_reads [OF w1 k] obtain b1 where b1: "w1 = w @ b1" "reads deserializeBigInt b1 (uint k)" by blast
  obtain w2 where w2: "serializeBigInt ?v w1 = Inr w2" using Cons.prems by (simp add: serializeBigInt_def Let_def)
  from serializeBigInt_reads [OF w2] Cons.prems obtain b2 where b2: "w2 = w1 @ b2" "reads deserializeBigInt b2 ?v" by auto
  from Cons.IH [of w2] Cons.prems obtain bs where bs: "tb_ser_loop keys m w2 = Inr (w2 @ bs)"
    "\<And>acc. reads (tb_deser_loop (length keys) acc) bs (fold (tb_read m) keys acc)" by auto
  have "reads (tb_deser_loop (length (k # keys)) acc) (b1 @ b2 @ bs) (fold (tb_read m) (k # keys) acc)" for acc
    using b1(2) b2(2) bs(2) by (simp add: reads_def tb_read_def)
  then show ?case using w1 w2 bs(1) b1(1) b2(1) by (intro exI [of _ "b1 @ b2 @ bs"]) (simp del: tb_deser_loop.simps)
qed

lemma GetUInt32_reads: "reads GetUInt32 (be_bytes 4 (unat n)) n"
proof -
  have "unat n < 256 ^ 4" using unat_lt_exp [of n] by simp
  then have "reads (\<lambda>bb. bind_res (getBytes bb 4) (\<lambda>(b, bb). Inr (of_nat (be_value b), bb))) (be_bytes 4 (unat n)) n"
    using reads_map [OF getBytes_reads [of "be_bytes 4 (unat n)" 4], of "\<lambda>b. of_nat (be_value b) :: u32"]
    by (simp add: be_value_be_bytes)
  then show ?thesis by (simp add: reads_def GetUInt32_def)
qed

text \<open>C24: The wire format of token balances is read back: for balances with distinct token ids whose
  values are non-negative and fit 255 bytes, \<open>Serialize\<close> succeeds, and \<open>Deserialize\<close> reads all of what
  it wrote and gives the same balances, without the zero ones, and keeps no cached balance of the
  object it fills.\<close>

theorem balances_wire_roundtrip:
  assumes "length (tb_balances t) < 2 ^ 32"
    "\<forall>p\<in>set (tb_balances t). 0 \<le> snd p \<and> byte_len (nat (snd p)) \<le> 255"
  shows "\<exists>w t' bb. TokenBalances_Serialize t [] = Inr w
    \<and> TokenBalances_Deserialize t0 (NewByteBuffer w) = Inr (t', bb) \<and> Remaining bb = 0
    \<and> (\<forall>k. map_of (tb_balances t') k =
         (if map_of (tb_balances t) k = Some 0 then None else map_of (tb_balances t) k))"
proof -
  let ?m = "tb_balances t" and ?keys = "sort (map fst (tb_balances t))"
  let ?n = "of_nat (length ?m) :: u32"
  have n: "unat ?n = length ?m" using assms(1) by (simp add: unat_of_nat)
  have c: "unat (ucast ?n :: u64) = length ?m" using assms(1) n unat_ucast_lt [of ?n, where 'b = 64] by simp
  have "\<forall>k\<in>set ?keys. 0 \<le> the (map_of ?m k) \<and> byte_len (nat (the (map_of ?m k))) \<le> 255"
  proof
    fix k assume "k \<in> set ?keys"
    then have "map_of ?m k \<noteq> None" by (auto simp: map_of_eq_None_iff)
    then obtain v where "map_of ?m k = Some v" by blast
    with assms(2) map_of_SomeD [OF this] show "0 \<le> the (map_of ?m k) \<and> byte_len (nat (the (map_of ?m k))) \<le> 255" by auto
  qed
  from tb_ser_loop_reads [OF this, of "be_bytes 4 (length ?m)"] obtain bs where
    bs: "tb_ser_loop ?keys ?m (be_bytes 4 (length ?m)) = Inr (be_bytes 4 (length ?m) @ bs)"
    "reads (tb_deser_loop (length ?m) []) bs (fold (tb_read ?m) ?keys [])" by auto
  have g: "GetUInt32 (buf [] (be_bytes 4 (length ?m) @ bs)) = Inr (?n, buf (be_bytes 4 (length ?m)) bs)"
    using GetUInt32_reads [of ?n] n by (simp add: reads_def)
  have "tb_deser_loop (length ?m) [] (buf (be_bytes 4 (length ?m)) bs) =
      Inr (fold (tb_read ?m) ?keys [], buf (be_bytes 4 (length ?m) @ bs) [])"
    using bs(2) by (simp add: reads_def) (metis append_Nil2)
  then have d: "TokenBalances_Deserialize t0 (NewByteBuffer (be_bytes 4 (length ?m) @ bs)) =
      Inr (t0\<lparr>tb_balances := fold (tb_read ?m) ?keys []\<rparr>, buf (be_bytes 4 (length ?m) @ bs) [])"
    using g n by (simp add: TokenBalances_Deserialize_def NewByteBuffer_buf)
  have s: "TokenBalances_Serialize t [] = Inr (be_bytes 4 (length ?m) @ bs)"
    using bs(1) c by (simp add: TokenBalances_Serialize_def serializeUint_bytes Let_def)
  have "map_of (fold (tb_read ?m) ?keys []) k = (if map_of ?m k = Some 0 then None else map_of ?m k)" for k
    using map_of_eq_None_iff [of ?m k] by (cases "map_of ?m k") (auto simp: map_of_fold_tb_read)
  then show ?thesis using s d by (intro exI conjI) (auto simp: Remaining_buf)
qed

theorem balances_wire_roundtrip_witness:
  "\<exists>w t' bb. TokenBalances_Serialize (NewTokenBalancesWithMap [(35760, 1000), (2, 0)] :: unit TokenBalances) [] = Inr w
    \<and> TokenBalances_Deserialize (NewEmptyTokenBalances :: unit TokenBalances) (NewByteBuffer w) = Inr (t', bb)
    \<and> map_of (tb_balances t') 35760 = Some 1000 \<and> map_of (tb_balances t') 2 = None"
proof -
  have "byte_len 1000 \<le> 255" "byte_len 0 \<le> 255"
    using bit_len_le [of 1000 10] bit_len_le [of 0 1] by (simp_all add: byte_len_def)
  then show ?thesis
    using balances_wire_roundtrip [of "NewTokenBalancesWithMap [(35760, 1000), (2, 0)] :: unit TokenBalances" NewEmptyTokenBalances]
    by (fastforce simp: NewTokenBalancesWithMap_def)
qed

end
