(* ===== verification/StateObject.thy ===== *)
theory StateObject
  imports TokenBalances ChainTypes TokenCodec
begin

text \<open>
  An account under modification (\<open>core/state/state_object.go\<close>): the account data, the storage trie
  with its two caches, the code and the flags. The methods that write a journal entry are with the
  state database in the theory \<open>StateDB\<close>; the others are here. A method takes the contents \<open>d\<close> of the
  database and returns the object as the method leaves it; an outer \<open>Inl\<close> is a panic.

  \<open>CodeHash\<close> is a 32-byte hash, or \<open>None\<close> for nil; code that is nil is \<open>None\<close>. The token balances of
  an account are never nil: \<open>NewAccount\<close> sets them.
\<close>

record 't Account =
  acc_Nonce :: u64
  acc_TokenBalances :: "'t TokenBalances"
  acc_Root :: hash
  acc_CodeHash :: "hash option"
  acc_FullShardKey :: "u32 option"
  acc_Optial :: bytes

record 't stateObject =
  so_address :: recipient
  so_addrHash :: hash
  so_data :: "'t Account"
  so_dbErr :: "go_error option"
  so_trie :: "'t option"
  so_code :: "bytes option"
  so_originStorage :: "(hash \<times> hash) list"
  so_dirtyStorage :: "(hash \<times> hash) list"
  so_dirtyCode :: bool
  so_suicided :: bool
  so_deleted :: bool

definition addr_bytes :: "recipient \<Rightarrow> bytes" where
  "addr_bytes a = be_bytes 20 (unat a)"

definition hash_bytes :: "hash \<Rightarrow> bytes" where
  "hash_bytes h = be_bytes 32 (unat h)"

definition emptyCodeHash :: "('t, 'd) eth_lib \<Rightarrow> hash" where
  "emptyCodeHash L = lib_Keccak256 L []"

definition empty :: "('t, 'd) eth_lib \<Rightarrow> 't stateObject \<Rightarrow> bool" where
  "empty L s = (acc_Nonce (so_data s) = 0 \<and> IsBlank (acc_TokenBalances (so_data s))
     \<and> acc_CodeHash (so_data s) = Some (emptyCodeHash L))"

definition NewAccount :: "'t Account" where
  "NewAccount = \<lparr>acc_Nonce = 0, acc_TokenBalances = NewEmptyTokenBalances\<lparr>tb_db := True\<rparr>, acc_Root = 0,
     acc_CodeHash = None, acc_FullShardKey = None, acc_Optial = []\<rparr>"

record MockAccount =
  mock_Nonce :: u64
  mock_Balance :: int
  mock_Root :: hash
  mock_CodeHash :: "hash option"

text \<open>The id of the genesis token, \<open>TokenIDEncode("QKC")\<close>.\<close>

definition qkc_id :: u64 where
  "qkc_id = 35760"

lemma qkc_id_encode: "TokenIDEncode (str ''QKC'') = Inr qkc_id"
  by (simp add: qkc_id_def) code_simp

definition AccountToMock :: "('t, 'd) eth_lib \<Rightarrow> 't Account \<Rightarrow> (MockAccount \<times> 't Account) res" where
  "AccountToMock L acc =
     (if length (GetBalanceMap (acc_TokenBalances acc)) > 1 then Inl (GoPanic ''len should <=1'')
      else bind_res (GetTokenBalance L qkc_id (acc_TokenBalances acc)) (\<lambda>(b, tb).
        Inr (\<lparr>mock_Nonce = acc_Nonce acc, mock_Balance = b, mock_Root = acc_Root acc,
              mock_CodeHash = acc_CodeHash acc\<rparr>, acc\<lparr>acc_TokenBalances := tb\<rparr>)))"

text \<open>\<open>newObject\<close> does not keep \<open>Optial\<close>.\<close>

definition newObject :: "('t, 'd) eth_lib \<Rightarrow> recipient \<Rightarrow> 't Account \<Rightarrow> 't stateObject" where
  "newObject L address data =
     \<lparr>so_address = address, so_addrHash = lib_Keccak256 L (addr_bytes address),
      so_data = \<lparr>acc_Nonce = acc_Nonce data, acc_TokenBalances = CopyWithDB (acc_TokenBalances data),
                 acc_Root = acc_Root data,
                 acc_CodeHash = (case acc_CodeHash data of None \<Rightarrow> Some (emptyCodeHash L) | Some h \<Rightarrow> Some h),
                 acc_FullShardKey = acc_FullShardKey data, acc_Optial = []\<rparr>,
      so_dbErr = None, so_trie = None, so_code = None, so_originStorage = [], so_dirtyStorage = [],
      so_dirtyCode = False, so_suicided = False, so_deleted = False\<rparr>"

definition so_setError :: "go_error option \<Rightarrow> 't stateObject \<Rightarrow> 't stateObject" where
  "so_setError err self = (if so_dbErr self = None then self\<lparr>so_dbErr := err\<rparr> else self)"

definition markSuicided :: "'t stateObject \<Rightarrow> 't stateObject" where
  "markSuicided self = self\<lparr>so_suicided := True\<rparr>"

text \<open>A nil trie, left by a second failure to open one, panics where it is used.\<close>

definition getTrie :: "('t, 'd) eth_lib \<Rightarrow> 'd \<Rightarrow> 't stateObject \<Rightarrow> ('t \<times> 't stateObject) res" where
  "getTrie L d c =
     (case so_trie c of
        Some tr \<Rightarrow> Inr (tr, c)
      | None \<Rightarrow>
          (case lib_OpenStorageTrie L d (so_addrHash c) (acc_Root (so_data c)) of
             Inr tr \<Rightarrow> Inr (tr, c\<lparr>so_trie := Some tr\<rparr>)
           | Inl err \<Rightarrow>
               (case lib_OpenStorageTrie L d (so_addrHash c) 0 of
                  Inr tr \<Rightarrow> Inr (tr, so_setError (Some (GoError ''can't create storage trie'')) (c\<lparr>so_trie := Some tr\<rparr>))
                | Inl e \<Rightarrow> Inl (GoPanic ''nil trie''))))"

definition so_GetCommittedState :: "('t, 'd) eth_lib \<Rightarrow> 'd \<Rightarrow> hash \<Rightarrow> 't stateObject
    \<Rightarrow> (hash \<times> 't stateObject) res" where
  "so_GetCommittedState L d key self =
     (case map_of (so_originStorage self) key of
        Some value \<Rightarrow> Inr (value, self)
      | None \<Rightarrow>
          bind_res (getTrie L d self) (\<lambda>(tr, self).
            case lib_TryGet L tr (hash_bytes key) of
              Inl err \<Rightarrow> Inr (0, so_setError (Some err) self)
            | Inr enc \<Rightarrow>
                let (value, self) =
                  (if enc \<noteq> [] then
                     case rlp_SplitContent L enc of
                       Inl err \<Rightarrow> (0, so_setError (Some err) self)
                     | Inr content \<Rightarrow> (lib_BytesToHash L content, self)
                   else (0, self))
                in Inr (value, self\<lparr>so_originStorage := AList.update key value (so_originStorage self)\<rparr>)))"

definition so_GetState :: "('t, 'd) eth_lib \<Rightarrow> 'd \<Rightarrow> hash \<Rightarrow> 't stateObject
    \<Rightarrow> (hash \<times> 't stateObject) res" where
  "so_GetState L d key self =
     (case map_of (so_dirtyStorage self) key of
        Some value \<Rightarrow> Inr (value, self)
      | None \<Rightarrow> so_GetCommittedState L d key self)"

definition setState :: "hash \<Rightarrow> hash \<Rightarrow> 't stateObject \<Rightarrow> 't stateObject" where
  "setState key value self = self\<lparr>so_dirtyStorage := AList.update key value (so_dirtyStorage self)\<rparr>"

definition trim_zeros :: "bytes \<Rightarrow> bytes" where
  "trim_zeros b = dropWhile (\<lambda>x. x = 0) b"

definition err_of :: "go_error + 'a \<Rightarrow> go_error option" where
  "err_of r = (case r of Inl e \<Rightarrow> Some e | Inr x \<Rightarrow> None)"

text \<open>One round of the loop of \<open>updateTrie\<close> over the dirty storage.\<close>

definition updateTrie_entry :: "('t, 'd) eth_lib \<Rightarrow> hash \<times> hash \<Rightarrow> 't \<times> 't stateObject \<Rightarrow> 't \<times> 't stateObject" where
  "updateTrie_entry L = (\<lambda>(key, value) (tr, self).
     let self = self\<lparr>so_dirtyStorage := AList.delete key (so_dirtyStorage self)\<rparr> in
     if value = (case map_of (so_originStorage self) key of None \<Rightarrow> 0 | Some v \<Rightarrow> v) then (tr, self)
     else
       let self = self\<lparr>so_originStorage := AList.update key value (so_originStorage self)\<rparr> in
       if value = 0 then
         (let r = lib_TryDelete L tr (hash_bytes key)
          in (case r of Inl e \<Rightarrow> tr | Inr tr \<Rightarrow> tr, so_setError (err_of r) self))
       else
         (let r = lib_TryUpdate L tr (hash_bytes key) (rlp_EncodeBytes L (trim_zeros (hash_bytes value)))
          in (case r of Inl e \<Rightarrow> tr | Inr tr \<Rightarrow> tr, so_setError (err_of r) self)))"

definition updateTrie :: "('t, 'd) eth_lib \<Rightarrow> 'd \<Rightarrow> 't stateObject \<Rightarrow> ('t \<times> 't stateObject \<times> 'd) res" where
  "updateTrie L d self =
     bind_res (getTrie L d self) (\<lambda>(tr, self).
       let (tr, self) = fold (updateTrie_entry L) (so_dirtyStorage self) (tr, self) in
       bind_res (TokenBalances_Commit L d (acc_TokenBalances (so_data self))) (\<lambda>(tb, d).
         Inr (tr, self\<lparr>so_trie := Some tr, so_data := (so_data self)\<lparr>acc_TokenBalances := tb\<rparr>\<rparr>, d)))"

definition updateRoot :: "('t, 'd) eth_lib \<Rightarrow> 'd \<Rightarrow> 't stateObject \<Rightarrow> ('t stateObject \<times> 'd) res" where
  "updateRoot L d self =
     bind_res (updateTrie L d self) (\<lambda>(tr, self, d).
       Inr (self\<lparr>so_data := (so_data self)\<lparr>acc_Root := lib_TrieHash L tr\<rparr>\<rparr>, d))"

definition CommitTrie :: "('t, 'd) eth_lib \<Rightarrow> 'd \<Rightarrow> 't stateObject \<Rightarrow> (go_error option \<times> 't stateObject \<times> 'd) res" where
  "CommitTrie L d self =
     bind_res (updateTrie L d self) (\<lambda>(tr, self, d).
       if so_dbErr self \<noteq> None then Inr (so_dbErr self, self, d)
       else case lib_TrieCommit L tr d of
         Inl err \<Rightarrow> Inr (Some err, self, d)
       | Inr (root, tr, d) \<Rightarrow>
           Inr (None, self\<lparr>so_trie := Some tr, so_data := (so_data self)\<lparr>acc_Root := root\<rparr>\<rparr>, d))"

definition setTokenBalance :: "int \<Rightarrow> u64 \<Rightarrow> 't stateObject \<Rightarrow> 't stateObject res" where
  "setTokenBalance amount tokenID self =
     bind_res (SetValue amount tokenID (acc_TokenBalances (so_data self))) (\<lambda>tb.
       Inr (self\<lparr>so_data := (so_data self)\<lparr>acc_TokenBalances := tb\<rparr>\<rparr>))"

definition setBalances :: "(u64 \<times> int) list \<Rightarrow> 't stateObject \<Rightarrow> 't stateObject" where
  "setBalances balances self =
     self\<lparr>so_data := (so_data self)\<lparr>acc_TokenBalances := NewTokenBalancesWithMap balances\<rparr>\<rparr>"

definition deepCopy :: "('t, 'd) eth_lib \<Rightarrow> 't stateObject \<Rightarrow> 't stateObject" where
  "deepCopy L self =
     (newObject L (so_address self) (so_data self))\<lparr>so_trie := so_trie self, so_code := so_code self,
       so_dirtyStorage := so_dirtyStorage self, so_originStorage := so_originStorage self,
       so_suicided := so_suicided self, so_dirtyCode := so_dirtyCode self, so_deleted := so_deleted self\<rparr>"

definition Code :: "('t, 'd) eth_lib \<Rightarrow> 'd \<Rightarrow> 't stateObject \<Rightarrow> bytes option \<times> 't stateObject" where
  "Code L d self =
     (if so_code self \<noteq> None then (so_code self, self)
      else if acc_CodeHash (so_data self) = Some (emptyCodeHash L) then (None, self)
      else case lib_ContractCode L d (so_addrHash self)
                  (case acc_CodeHash (so_data self) of None \<Rightarrow> 0 | Some h \<Rightarrow> h) of
             Inl err \<Rightarrow> (None, (so_setError (Some (GoError ''can't load code hash'')) self)\<lparr>so_code := None\<rparr>)
           | Inr code \<Rightarrow> (Some code, self\<lparr>so_code := Some code\<rparr>))"

definition setCode :: "hash \<Rightarrow> bytes option \<Rightarrow> 't stateObject \<Rightarrow> 't stateObject" where
  "setCode codeHash code self =
     self\<lparr>so_code := code, so_data := (so_data self)\<lparr>acc_CodeHash := Some codeHash\<rparr>, so_dirtyCode := True\<rparr>"

definition setNonce :: "u64 \<Rightarrow> 't stateObject \<Rightarrow> 't stateObject" where
  "setNonce nonce self = self\<lparr>so_data := (so_data self)\<lparr>acc_Nonce := nonce\<rparr>\<rparr>"

definition so_Balance :: "('t, 'd) eth_lib \<Rightarrow> u64 \<Rightarrow> 't stateObject \<Rightarrow> (int \<times> 't stateObject) res" where
  "so_Balance L tokenID self =
     bind_res (GetTokenBalance L tokenID (acc_TokenBalances (so_data self))) (\<lambda>(b, tb).
       Inr (b, self\<lparr>so_data := (so_data self)\<lparr>acc_TokenBalances := tb\<rparr>\<rparr>))"

definition so_FullShardKey :: "'t stateObject \<Rightarrow> u32 res" where
  "so_FullShardKey self =
     (case acc_FullShardKey (so_data self) of None \<Rightarrow> Inl (GoPanic ''nil pointer'') | Some k \<Rightarrow> Inr k)"

definition so_SetFullShardKey :: "u32 \<Rightarrow> 't stateObject \<Rightarrow> 't stateObject" where
  "so_SetFullShardKey fullShardKey self =
     self\<lparr>so_data := (so_data self)\<lparr>acc_FullShardKey := Some fullShardKey\<rparr>\<rparr>"

end
