(* ===== verification/GoLib.thy ===== *)
theory GoLib
  imports Prelude
begin

text \<open>
  Algorithms of the Go standard library that the code calls and whose steps matter to it.

  \<open>sort.Search\<close>: binary search for the smallest index at which a predicate holds.
\<close>

function Search_loop :: "(nat \<Rightarrow> bool) \<Rightarrow> nat \<Rightarrow> nat \<Rightarrow> nat" where
  "Search_loop f i j =
     (if i < j then
        let h = (i + j) div 2 in if \<not> f h then Search_loop f (h + 1) j else Search_loop f i h
      else i)"
  by pat_completeness auto
termination by (relation "measure (\<lambda>(f, i, j). j - i)") auto

declare Search_loop.simps [simp del]

definition sort_Search :: "nat \<Rightarrow> (nat \<Rightarrow> bool) \<Rightarrow> nat" where
  "sort_Search n f = Search_loop f 0 n"

lemma Search_loop_least:
  assumes "i \<le> j" "\<And>a b. a \<le> b \<Longrightarrow> b < n \<Longrightarrow> f a \<Longrightarrow> f b" "j \<le> n" "\<And>a. a < i \<Longrightarrow> \<not> f a"
    "\<And>a. j \<le> a \<Longrightarrow> a < n \<Longrightarrow> f a"
  shows "let r = Search_loop f i j in r \<le> n \<and> (\<forall>a<r. \<not> f a) \<and> (\<forall>a. r \<le> a \<longrightarrow> a < n \<longrightarrow> f a)"
  using assms
proof (induction f i j rule: Search_loop.induct)
  case (1 f i j)
  show ?case
  proof (cases "i < j")
    case True
    let ?h = "(i + j) div 2"
    have h: "i \<le> ?h" "?h < j" using True by auto
    show ?thesis
    proof (cases "f ?h")
      case f: True
      have "Search_loop f i j = Search_loop f i ?h" using True f by (simp add: Search_loop.simps [of f i j] Let_def)
      moreover have "let r = Search_loop f i ?h in r \<le> n \<and> (\<forall>a<r. \<not> f a) \<and> (\<forall>a. r \<le> a \<longrightarrow> a < n \<longrightarrow> f a)"
        by (rule "1.IH"(2)) (use True f h 1(3-7) in auto)
      ultimately show ?thesis by simp
    next
      case f: False
      have "Search_loop f i j = Search_loop f (?h + 1) j" using True f by (simp add: Search_loop.simps [of f i j] Let_def)
      moreover have "\<not> f a" if "a < ?h + 1" for a
        using f 1(4) [of a ?h] that h 1(5) by auto
      then have "let r = Search_loop f (?h + 1) j in r \<le> n \<and> (\<forall>a<r. \<not> f a) \<and> (\<forall>a. r \<le> a \<longrightarrow> a < n \<longrightarrow> f a)"
        by (intro "1.IH"(1)) (use True f h 1(3-7) in auto)
      ultimately show ?thesis by simp
    qed
  next
    case False
    with 1(3) have "i = j" by simp
    then show ?thesis using 1(5-7) by (simp add: Search_loop.simps [of f j j])
  qed
qed

lemma Search_loop_le: "i \<le> j \<Longrightarrow> Search_loop f i j \<le> j"
proof (induction f i j rule: Search_loop.induct)
  case (1 f i j)
  let ?h = "(i + j) div 2"
  show ?case
  proof (cases "i < j")
    case True
    have "Search_loop f i ?h \<le> ?h" if "f ?h" using 1(2) [OF True refl] that True by simp
    moreover have "Search_loop f (?h + 1) j \<le> j" if "\<not> f ?h" using 1(1) [OF True refl] that True by simp
    moreover have "?h \<le> j" using True by simp
    ultimately show ?thesis using True by (subst Search_loop.simps) (auto simp: Let_def intro: le_trans)
  next
    case False
    then show ?thesis using 1(3) by (subst Search_loop.simps) simp
  qed
qed

text \<open>On a monotone predicate the search finds the least index, or \<open>n\<close> if there is none.\<close>

lemma sort_Search_least:
  assumes "\<forall>a b. a \<le> b \<longrightarrow> b < n \<longrightarrow> f a \<longrightarrow> f b"
  shows "sort_Search n f \<le> n" "a < sort_Search n f \<Longrightarrow> \<not> f a" "sort_Search n f \<le> a \<Longrightarrow> a < n \<Longrightarrow> f a"
  using Search_loop_least [of 0 n n f] assms by (auto simp: sort_Search_def Let_def)

lemma sort_Search_at:
  assumes "\<forall>a b. a \<le> b \<longrightarrow> b < n \<longrightarrow> f a \<longrightarrow> f b" "k < n" "f k" "\<And>a. a < k \<Longrightarrow> \<not> f a"
  shows "sort_Search n f = k"
proof (rule antisym)
  have s: "sort_Search n f \<le> n" "\<And>a. a < sort_Search n f \<Longrightarrow> \<not> f a" "\<And>a. sort_Search n f \<le> a \<Longrightarrow> a < n \<Longrightarrow> f a"
    using sort_Search_least [OF assms(1)] by blast+
  show "sort_Search n f \<le> k"
  proof (rule ccontr)
    assume "\<not> sort_Search n f \<le> k"
    then show False using s(2) [of k] assms(3) by simp
  qed
  show "k \<le> sort_Search n f"
  proof (rule ccontr)
    assume "\<not> k \<le> sort_Search n f"
    then show False using s(3) [of "sort_Search n f"] assms(2) assms(4) [of "sort_Search n f"] by simp
  qed
qed

end
