(* ===== verification/StateDB.thy ===== *)
theory StateDB
  imports StateObject ClusterConfig GoLib
begin

text \<open>
  The state database (\<open>core/state/statedb.go\<close>) and its journal (\<open>core/state/journal.go\<close>): live
  accounts over the account trie, logs, preimages, the refund counter, snapshots and their undoing,
  and the writing of the state into the trie.

  \<open>sdb_db\<close> is the contents of the database behind the \<open>Database\<close> pointer. Go maps are association
  lists whose order stands for the order of \<open>range\<close>. A pointer to a live object stands for the entry
  of its address in \<open>stateObjects\<close>: a method of the object that changes it writes the entry
  (\<open>setStateObject\<close>). Methods that can panic return a result in which \<open>Inl\<close> is the panic. Merkle
  proofs, storage iteration and the reference counts of the trie database are not modelled.
\<close>

section \<open>Journal\<close>

datatype 't journalEntry =
    createObjectChange recipient
  | resetObjectChange "'t stateObject"
  | suicideChange recipient bool "(u64 \<times> int) list"
  | balanceChange recipient "(u64 \<times> int) list"
  | nonceChange recipient u64
  | storageChange recipient hash hash
  | codeChange recipient "bytes option" "hash option"
  | refundChange u64
  | addLogChange hash
  | addPreimageChange hash
  | touchChange recipient

record 't journal =
  j_entries :: "'t journalEntry list"
  j_dirties :: "(recipient \<times> int) list"

fun dirtied :: "'t journalEntry \<Rightarrow> recipient option" where
  "dirtied (createObjectChange a) = Some a"
| "dirtied (resetObjectChange prev) = None"
| "dirtied (suicideChange a prev bal) = Some a"
| "dirtied (balanceChange a prev) = Some a"
| "dirtied (nonceChange a prev) = Some a"
| "dirtied (storageChange a key prev) = Some a"
| "dirtied (codeChange a prevcode prevhash) = Some a"
| "dirtied (refundChange prev) = None"
| "dirtied (addLogChange txhash) = None"
| "dirtied (addPreimageChange h) = None"
| "dirtied (touchChange a) = Some a"

definition newJournal :: "'t journal" where
  "newJournal = \<lparr>j_entries = [], j_dirties = []\<rparr>"

definition dirty_count :: "(recipient \<times> int) list \<Rightarrow> recipient \<Rightarrow> int" where
  "dirty_count m a = (case map_of m a of None \<Rightarrow> 0 | Some n \<Rightarrow> n)"

definition journal_dirty :: "recipient \<Rightarrow> 't journal \<Rightarrow> 't journal" where
  "journal_dirty addr j = j\<lparr>j_dirties := AList.update addr (dirty_count (j_dirties j) addr + 1) (j_dirties j)\<rparr>"

definition journal_append :: "'t journalEntry \<Rightarrow> 't journal \<Rightarrow> 't journal" where
  "journal_append entry j =
     (let j = j\<lparr>j_entries := j_entries j @ [entry]\<rparr> in
      case dirtied entry of None \<Rightarrow> j | Some addr \<Rightarrow> journal_dirty addr j)"

text \<open>Dropping the dirty mark of an undone entry, in the loop of \<open>revert\<close>.\<close>

definition undirty :: "'t journalEntry \<Rightarrow> 't journal \<Rightarrow> 't journal" where
  "undirty entry j =
     (case dirtied entry of None \<Rightarrow> j
      | Some addr \<Rightarrow>
          (let n = dirty_count (j_dirties j) addr - 1
           in j\<lparr>j_dirties := (if n = 0 then AList.delete addr (j_dirties j)
                             else AList.update addr n (j_dirties j))\<rparr>))"

section \<open>State\<close>

record revision =
  rev_id :: nat
  rev_journalIndex :: nat

record ('t, 'd) StateDB =
  sdb_db :: 'd
  sdb_trie :: 't
  sdb_stateObjects :: "(recipient \<times> 't stateObject) list"
  sdb_stateObjectsDirty :: "recipient list"
  sdb_dbErr :: "go_error option"
  sdb_refund :: u64
  sdb_thash :: hash
  sdb_bhash :: hash
  sdb_txIndex :: int
  sdb_logs :: "(hash \<times> Log list) list"
  sdb_logSize :: u64
  sdb_preimages :: "(hash \<times> bytes) list"
  sdb_journal :: "'t journal"
  sdb_validRevisions :: "revision list"
  sdb_nextRevisionId :: nat
  sdb_xShardReceiveGasUsed :: "int option"
  sdb_blockFee :: "(u64 \<times> int) list option"
  sdb_xShardList :: "CrossShardTransactionDeposit list option"
  sdb_fullShardKey :: u32
  sdb_quarkChainConfig :: "QuarkChainConfig option"
  sdb_gasUsed :: "int option"
  sdb_gasLimit :: "int option"
  sdb_shardConfig :: "ShardConfig option"
  sdb_senderDisallowMap :: "(recipient \<times> int) list"
  sdb_blockCoinbase :: recipient
  sdb_timeStamp :: u64
  sdb_blockNumber :: u64
  sdb_xShardTxCursorInfo :: "XShardTxCursorInfo option"
  sdb_useMock :: bool

definition DefaultStateDBGasLimit :: int where
  "DefaultStateDBGasLimit = 3141592"

definition New :: "('t, 'd) eth_lib \<Rightarrow> hash \<Rightarrow> 'd \<Rightarrow> ('t, 'd) StateDB res" where
  "New L hroot db =
     bind_res (lib_OpenTrie L db hroot) (\<lambda>tr. Inr
       \<lparr>sdb_db = db, sdb_trie = tr, sdb_stateObjects = [], sdb_stateObjectsDirty = [], sdb_dbErr = None,
        sdb_refund = 0, sdb_thash = 0, sdb_bhash = 0, sdb_txIndex = 0, sdb_logs = [], sdb_logSize = 0,
        sdb_preimages = [], sdb_journal = newJournal, sdb_validRevisions = [], sdb_nextRevisionId = 0,
        sdb_xShardReceiveGasUsed = None, sdb_blockFee = None, sdb_xShardList = None, sdb_fullShardKey = 0,
        sdb_quarkChainConfig = None, sdb_gasUsed = None, sdb_gasLimit = Some DefaultStateDBGasLimit,
        sdb_shardConfig = None, sdb_senderDisallowMap = [], sdb_blockCoinbase = 0, sdb_timeStamp = 0,
        sdb_blockNumber = 0, sdb_xShardTxCursorInfo = None, sdb_useMock = False\<rparr>)"

definition setError :: "go_error option \<Rightarrow> ('t, 'd) StateDB \<Rightarrow> ('t, 'd) StateDB" where
  "setError err s = (if sdb_dbErr s = None then s\<lparr>sdb_dbErr := err\<rparr> else s)"

definition append_entry :: "'t journalEntry \<Rightarrow> ('t, 'd) StateDB \<Rightarrow> ('t, 'd) StateDB" where
  "append_entry e s = s\<lparr>sdb_journal := journal_append e (sdb_journal s)\<rparr>"

definition clearJournalAndRefund :: "('t, 'd) StateDB \<Rightarrow> ('t, 'd) StateDB" where
  "clearJournalAndRefund s = s\<lparr>sdb_journal := newJournal, sdb_validRevisions := [], sdb_refund := 0\<rparr>"

definition Reset :: "('t, 'd) eth_lib \<Rightarrow> hash \<Rightarrow> ('t, 'd) StateDB \<Rightarrow> ('t, 'd) StateDB res" where
  "Reset L hroot s =
     bind_res (lib_OpenTrie L (sdb_db s) hroot) (\<lambda>tr. Inr (clearJournalAndRefund
       (s\<lparr>sdb_trie := tr, sdb_stateObjects := [], sdb_stateObjectsDirty := [], sdb_thash := 0,
          sdb_bhash := 0, sdb_txIndex := 0, sdb_logs := [], sdb_logSize := 0, sdb_preimages := []\<rparr>)))"

section \<open>Logs, preimages and refunds\<close>

definition GetLogs :: "hash \<Rightarrow> ('t, 'd) StateDB \<Rightarrow> Log list" where
  "GetLogs h s = (case map_of (sdb_logs s) h of None \<Rightarrow> [] | Some l \<Rightarrow> l)"

definition Logs :: "('t, 'd) StateDB \<Rightarrow> Log list" where
  "Logs s = concat (map snd (sdb_logs s))"

definition AddLog :: "Log \<Rightarrow> ('t, 'd) StateDB \<Rightarrow> ('t, 'd) StateDB" where
  "AddLog lg s =
     (let s = append_entry (addLogChange (sdb_thash s)) s;
          lg = lg\<lparr>lg_TxHash := sdb_thash s, lg_BlockHash := sdb_bhash s,
                    lg_TxIndex := word_of_int (sdb_txIndex s), lg_Index := ucast (sdb_logSize s)\<rparr>
      in s\<lparr>sdb_logs := AList.update (sdb_thash s) (GetLogs (sdb_thash s) s @ [lg]) (sdb_logs s),
           sdb_logSize := sdb_logSize s + 1\<rparr>)"

definition AddPreimage :: "hash \<Rightarrow> bytes \<Rightarrow> ('t, 'd) StateDB \<Rightarrow> ('t, 'd) StateDB" where
  "AddPreimage h preimage s =
     (case map_of (sdb_preimages s) h of
        Some p \<Rightarrow> s
      | None \<Rightarrow> (append_entry (addPreimageChange h) s)\<lparr>sdb_preimages := AList.update h preimage (sdb_preimages s)\<rparr>)"

definition AddRefund :: "u64 \<Rightarrow> ('t, 'd) StateDB \<Rightarrow> ('t, 'd) StateDB" where
  "AddRefund gas s = (append_entry (refundChange (sdb_refund s)) s)\<lparr>sdb_refund := sdb_refund s + gas\<rparr>"

definition SubRefund :: "u64 \<Rightarrow> ('t, 'd) StateDB \<Rightarrow> ('t, 'd) StateDB res" where
  "SubRefund gas s =
     (let s = append_entry (refundChange (sdb_refund s)) s in
      if gas > sdb_refund s then Inl (GoPanic ''Refund counter below zero'')
      else Inr (s\<lparr>sdb_refund := sdb_refund s - gas\<rparr>))"

definition GetRefund :: "('t, 'd) StateDB \<Rightarrow> u64" where
  "GetRefund s = sdb_refund s"

section \<open>Live objects\<close>

definition setStateObject :: "'t stateObject \<Rightarrow> ('t, 'd) StateDB \<Rightarrow> ('t, 'd) StateDB" where
  "setStateObject obj s = s\<lparr>sdb_stateObjects := AList.update (so_address obj) obj (sdb_stateObjects s)\<rparr>"

text \<open>The account that \<open>getStateObject\<close> decodes from a trie entry; \<open>Inr None\<close> when decoding fails,
  which is logged.\<close>

definition decode_account :: "('t, 'd) eth_lib \<Rightarrow> ('t, 'd) StateDB \<Rightarrow> bytes \<Rightarrow> 't Account option res" where
  "decode_account L s enc =
     (if sdb_useMock s then
        (case rlp_DecodeMock L enc of
           Inl err \<Rightarrow> Inr None
         | Inr (nonce, balance, r, codeHash) \<Rightarrow>
             bind_res (SetValue (int balance) qkc_id NewEmptyTokenBalances) (\<lambda>rawTokenBalances.
               Inr (Some \<lparr>acc_Nonce = nonce, acc_TokenBalances = rawTokenBalances, acc_Root = r,
                 acc_CodeHash = Some codeHash, acc_FullShardKey = Some (sdb_fullShardKey s), acc_Optial = []\<rparr>)))
      else
        (case rlp_DecodeAccount L enc of
           Inl err \<Rightarrow> Inr None
         | Inr (nonce, raw, r, codeHash, fullShardKey, opt) \<Rightarrow>
             (case TokenBalances_DecodeRLP L (sdb_db s) raw (acc_TokenBalances NewAccount) of
                Inl (GoPanic m) \<Rightarrow> Inl (GoPanic m)
              | Inl (GoError m) \<Rightarrow> Inr None
              | Inr tb \<Rightarrow>
                  Inr (Some \<lparr>acc_Nonce = nonce, acc_TokenBalances = tb, acc_Root = r,
                    acc_CodeHash = Some codeHash, acc_FullShardKey = Some fullShardKey, acc_Optial = opt\<rparr>))))"

definition getStateObject :: "('t, 'd) eth_lib \<Rightarrow> recipient \<Rightarrow> ('t, 'd) StateDB
    \<Rightarrow> ('t stateObject option \<times> ('t, 'd) StateDB) res" where
  "getStateObject L addr s =
     (case map_of (sdb_stateObjects s) addr of
        Some obj \<Rightarrow> Inr (if so_deleted obj then None else Some obj, s)
      | None \<Rightarrow>
          (let r = lib_TryGet L (sdb_trie s) (addr_bytes addr);
               enc = (case r of Inl err \<Rightarrow> [] | Inr v \<Rightarrow> v)
           in if enc = [] then Inr (None, setError (err_of r) s)
              else bind_res (decode_account L s enc) (\<lambda>a.
                case a of
                  None \<Rightarrow> Inr (None, s)
                | Some data \<Rightarrow>
                    (let obj = newObject L addr data in Inr (Some obj, setStateObject obj s)))))"

definition createObject :: "('t, 'd) eth_lib \<Rightarrow> recipient \<Rightarrow> ('t, 'd) StateDB
    \<Rightarrow> ('t stateObject \<times> 't stateObject option \<times> ('t, 'd) StateDB) res" where
  "createObject L addr s =
     bind_res (getStateObject L addr s) (\<lambda>(prev, s).
       let newobj = so_SetFullShardKey (sdb_fullShardKey s) (setNonce 0 (newObject L addr NewAccount)) in
       case prev of
         None \<Rightarrow> Inr (newobj, None, setStateObject newobj (append_entry (createObjectChange addr) s))
       | Some p \<Rightarrow>
           bind_res (so_FullShardKey p) (\<lambda>k.
             let newobj = so_SetFullShardKey k newobj
             in Inr (newobj, Some p, setStateObject newobj (append_entry (resetObjectChange p) s))))"

definition GetOrNewStateObject :: "('t, 'd) eth_lib \<Rightarrow> recipient \<Rightarrow> ('t, 'd) StateDB
    \<Rightarrow> ('t stateObject \<times> ('t, 'd) StateDB) res" where
  "GetOrNewStateObject L addr s =
     bind_res (getStateObject L addr s) (\<lambda>(obj, s).
       case obj of
         Some o' \<Rightarrow>
           if so_deleted o' then bind_res (createObject L addr s) (\<lambda>(n, p, s). Inr (n, s)) else Inr (o', s)
       | None \<Rightarrow> bind_res (createObject L addr s) (\<lambda>(n, p, s). Inr (n, s)))"

definition CreateAccount :: "('t, 'd) eth_lib \<Rightarrow> recipient \<Rightarrow> ('t, 'd) StateDB \<Rightarrow> ('t, 'd) StateDB res" where
  "CreateAccount L addr s =
     bind_res (createObject L addr s) (\<lambda>(new, prev, s).
       case prev of
         None \<Rightarrow> Inr s
       | Some p \<Rightarrow> Inr (setStateObject (setBalances (GetBalanceMap (acc_TokenBalances (so_data p))) new) s))"

section \<open>Journalled changes of an object\<close>

text \<open>The methods of \<open>stateObject\<close> that write the journal: they take the object and return the state in
  which it is changed.\<close>

definition ripemd :: recipient where
  "ripemd = 3"

definition touch :: "'t stateObject \<Rightarrow> ('t, 'd) StateDB \<Rightarrow> ('t, 'd) StateDB" where
  "touch c s =
     (let s = append_entry (touchChange (so_address c)) s in
      if so_address c = ripemd then s\<lparr>sdb_journal := journal_dirty (so_address c) (sdb_journal s)\<rparr> else s)"

definition so_SetBalance :: "int \<Rightarrow> u64 \<Rightarrow> 't stateObject \<Rightarrow> ('t, 'd) StateDB \<Rightarrow> ('t, 'd) StateDB res" where
  "so_SetBalance amount tokenID self s =
     (let s = append_entry (balanceChange (so_address self) (GetBalanceMap (acc_TokenBalances (so_data self)))) s in
      bind_res (setTokenBalance amount tokenID self) (\<lambda>self. Inr (setStateObject self s)))"

definition so_SetBalances :: "(u64 \<times> int) list \<Rightarrow> 't stateObject \<Rightarrow> ('t, 'd) StateDB \<Rightarrow> ('t, 'd) StateDB" where
  "so_SetBalances balances self s =
     (let s = append_entry (balanceChange (so_address self) (GetBalanceMap (acc_TokenBalances (so_data self)))) s
      in setStateObject (setBalances balances self) s)"

definition so_AddBalance :: "('t, 'd) eth_lib \<Rightarrow> int \<Rightarrow> u64 \<Rightarrow> 't stateObject \<Rightarrow> ('t, 'd) StateDB
    \<Rightarrow> ('t, 'd) StateDB res" where
  "so_AddBalance L amount tokenID c s =
     (if amount = 0 then Inr (touch c s)
      else bind_res (so_Balance L tokenID c) (\<lambda>(b, c). so_SetBalance (b + amount) tokenID c s))"

definition so_SubBalance :: "('t, 'd) eth_lib \<Rightarrow> int \<Rightarrow> u64 \<Rightarrow> 't stateObject \<Rightarrow> ('t, 'd) StateDB
    \<Rightarrow> ('t, 'd) StateDB res" where
  "so_SubBalance L amount tokenID c s =
     (if amount = 0 then Inr s
      else bind_res (so_Balance L tokenID c) (\<lambda>(b, c). so_SetBalance (b - amount) tokenID c s))"

definition so_SetState :: "('t, 'd) eth_lib \<Rightarrow> hash \<Rightarrow> hash \<Rightarrow> 't stateObject \<Rightarrow> ('t, 'd) StateDB
    \<Rightarrow> ('t, 'd) StateDB res" where
  "so_SetState L key value self s =
     bind_res (so_GetState L (sdb_db s) key self) (\<lambda>(prev, self).
       if prev = value then Inr (setStateObject self s)
       else Inr (setStateObject (setState key value self)
                  (append_entry (storageChange (so_address self) key prev) s)))"

definition so_SetCode :: "('t, 'd) eth_lib \<Rightarrow> hash \<Rightarrow> bytes option \<Rightarrow> 't stateObject \<Rightarrow> ('t, 'd) StateDB
    \<Rightarrow> ('t, 'd) StateDB" where
  "so_SetCode L codeHash code self s =
     (let (prevcode, self) = Code L (sdb_db s) self in
      setStateObject (setCode codeHash code self)
        (append_entry (codeChange (so_address self) prevcode (acc_CodeHash (so_data self))) s))"

definition so_SetNonce :: "u64 \<Rightarrow> 't stateObject \<Rightarrow> ('t, 'd) StateDB \<Rightarrow> ('t, 'd) StateDB" where
  "so_SetNonce nonce self s =
     setStateObject (setNonce nonce self)
       (append_entry (nonceChange (so_address self) (acc_Nonce (so_data self))) s)"

section \<open>Getters\<close>

text \<open>A getter may load the object and its caches; it returns the state it leaves.\<close>

definition Exist :: "('t, 'd) eth_lib \<Rightarrow> recipient \<Rightarrow> ('t, 'd) StateDB \<Rightarrow> (bool \<times> ('t, 'd) StateDB) res" where
  "Exist L addr s = bind_res (getStateObject L addr s) (\<lambda>(obj, s). Inr (obj \<noteq> None, s))"

definition Empty :: "('t, 'd) eth_lib \<Rightarrow> recipient \<Rightarrow> ('t, 'd) StateDB \<Rightarrow> (bool \<times> ('t, 'd) StateDB) res" where
  "Empty L addr s =
     bind_res (getStateObject L addr s) (\<lambda>(so, s).
       Inr (case so of None \<Rightarrow> True | Some so \<Rightarrow> StateObject.empty L so, s))"

definition GetBalance :: "('t, 'd) eth_lib \<Rightarrow> recipient \<Rightarrow> u64 \<Rightarrow> ('t, 'd) StateDB \<Rightarrow> (int \<times> ('t, 'd) StateDB) res" where
  "GetBalance L addr tokenID s =
     bind_res (getStateObject L addr s) (\<lambda>(obj, s).
       case obj of
         None \<Rightarrow> Inr (0, s)
       | Some so \<Rightarrow> bind_res (so_Balance L tokenID so) (\<lambda>(b, so). Inr (b, setStateObject so s)))"

definition GetBalances :: "('t, 'd) eth_lib \<Rightarrow> recipient \<Rightarrow> ('t, 'd) StateDB
    \<Rightarrow> ('t TokenBalances \<times> ('t, 'd) StateDB) res" where
  "GetBalances L addr s =
     bind_res (GetOrNewStateObject L addr s) (\<lambda>(so, s). Inr (TokenBalances_Copy (acc_TokenBalances (so_data so)), s))"

definition GetNonce :: "('t, 'd) eth_lib \<Rightarrow> recipient \<Rightarrow> ('t, 'd) StateDB \<Rightarrow> (u64 \<times> ('t, 'd) StateDB) res" where
  "GetNonce L addr s = bind_res (GetOrNewStateObject L addr s) (\<lambda>(so, s). Inr (acc_Nonce (so_data so), s))"

definition GetCode :: "('t, 'd) eth_lib \<Rightarrow> recipient \<Rightarrow> ('t, 'd) StateDB \<Rightarrow> (bytes option \<times> ('t, 'd) StateDB) res" where
  "GetCode L addr s =
     bind_res (getStateObject L addr s) (\<lambda>(obj, s).
       case obj of
         None \<Rightarrow> Inr (None, s)
       | Some so \<Rightarrow> (let (code, so) = Code L (sdb_db s) so in Inr (code, setStateObject so s)))"

definition GetCodeSize :: "('t, 'd) eth_lib \<Rightarrow> recipient \<Rightarrow> ('t, 'd) StateDB \<Rightarrow> (nat \<times> ('t, 'd) StateDB) res" where
  "GetCodeSize L addr s =
     bind_res (getStateObject L addr s) (\<lambda>(obj, s).
       case obj of
         None \<Rightarrow> Inr (0, s)
       | Some so \<Rightarrow>
           (case so_code so of
              Some code \<Rightarrow> Inr (length code, s)
            | None \<Rightarrow>
                (case lib_ContractCodeSize L (sdb_db s) (so_addrHash so)
                        (case acc_CodeHash (so_data so) of None \<Rightarrow> 0 | Some h \<Rightarrow> h) of
                   Inl err \<Rightarrow> Inr (0, setError (Some err) s)
                 | Inr n \<Rightarrow> Inr (n, s))))"

definition GetCodeHash :: "('t, 'd) eth_lib \<Rightarrow> recipient \<Rightarrow> ('t, 'd) StateDB \<Rightarrow> (hash \<times> ('t, 'd) StateDB) res" where
  "GetCodeHash L addr s =
     bind_res (getStateObject L addr s) (\<lambda>(obj, s).
       Inr (case obj of None \<Rightarrow> 0 | Some so \<Rightarrow> (case acc_CodeHash (so_data so) of None \<Rightarrow> 0 | Some h \<Rightarrow> h), s))"

definition GetState :: "('t, 'd) eth_lib \<Rightarrow> recipient \<Rightarrow> hash \<Rightarrow> ('t, 'd) StateDB \<Rightarrow> (hash \<times> ('t, 'd) StateDB) res" where
  "GetState L addr key s =
     bind_res (getStateObject L addr s) (\<lambda>(obj, s).
       case obj of
         None \<Rightarrow> Inr (0, s)
       | Some so \<Rightarrow> bind_res (so_GetState L (sdb_db s) key so) (\<lambda>(v, so). Inr (v, setStateObject so s)))"

definition GetCommittedState :: "('t, 'd) eth_lib \<Rightarrow> recipient \<Rightarrow> hash \<Rightarrow> ('t, 'd) StateDB
    \<Rightarrow> (hash \<times> ('t, 'd) StateDB) res" where
  "GetCommittedState L addr key s =
     bind_res (getStateObject L addr s) (\<lambda>(obj, s).
       case obj of
         None \<Rightarrow> Inr (0, s)
       | Some so \<Rightarrow> bind_res (so_GetCommittedState L (sdb_db s) key so) (\<lambda>(v, so). Inr (v, setStateObject so s)))"

definition HasSuicided :: "('t, 'd) eth_lib \<Rightarrow> recipient \<Rightarrow> ('t, 'd) StateDB \<Rightarrow> (bool \<times> ('t, 'd) StateDB) res" where
  "HasSuicided L addr s =
     bind_res (getStateObject L addr s) (\<lambda>(obj, s).
       Inr (case obj of None \<Rightarrow> False | Some so \<Rightarrow> so_suicided so, s))"

definition GetFullShardKey :: "('t, 'd) eth_lib \<Rightarrow> recipient \<Rightarrow> ('t, 'd) StateDB \<Rightarrow> (u32 \<times> ('t, 'd) StateDB) res" where
  "GetFullShardKey L addr s =
     bind_res (GetOrNewStateObject L addr s) (\<lambda>(so, s). bind_res (so_FullShardKey so) (\<lambda>k. Inr (k, s)))"

section \<open>Setters\<close>

definition AddBalance :: "('t, 'd) eth_lib \<Rightarrow> recipient \<Rightarrow> int \<Rightarrow> u64 \<Rightarrow> ('t, 'd) StateDB \<Rightarrow> ('t, 'd) StateDB res" where
  "AddBalance L addr amount tokenID s =
     bind_res (GetOrNewStateObject L addr s) (\<lambda>(so, s). so_AddBalance L amount tokenID so s)"

definition SubBalance :: "('t, 'd) eth_lib \<Rightarrow> recipient \<Rightarrow> int \<Rightarrow> u64 \<Rightarrow> ('t, 'd) StateDB \<Rightarrow> ('t, 'd) StateDB res" where
  "SubBalance L addr amount tokenID s =
     bind_res (GetOrNewStateObject L addr s) (\<lambda>(so, s). so_SubBalance L amount tokenID so s)"

definition SetBalance :: "('t, 'd) eth_lib \<Rightarrow> recipient \<Rightarrow> int \<Rightarrow> u64 \<Rightarrow> ('t, 'd) StateDB \<Rightarrow> ('t, 'd) StateDB res" where
  "SetBalance L addr amount tokenID s =
     bind_res (GetOrNewStateObject L addr s) (\<lambda>(so, s). so_SetBalance amount tokenID so s)"

definition SetNonce :: "('t, 'd) eth_lib \<Rightarrow> recipient \<Rightarrow> u64 \<Rightarrow> ('t, 'd) StateDB \<Rightarrow> ('t, 'd) StateDB res" where
  "SetNonce L addr nonce s =
     bind_res (GetOrNewStateObject L addr s) (\<lambda>(so, s). Inr (so_SetNonce nonce so s))"

definition SetCode :: "('t, 'd) eth_lib \<Rightarrow> recipient \<Rightarrow> bytes option \<Rightarrow> ('t, 'd) StateDB \<Rightarrow> ('t, 'd) StateDB res" where
  "SetCode L addr code s =
     bind_res (GetOrNewStateObject L addr s) (\<lambda>(so, s).
       Inr (so_SetCode L (lib_Keccak256 L (case code of None \<Rightarrow> [] | Some c \<Rightarrow> c)) code so s))"

definition SetState :: "('t, 'd) eth_lib \<Rightarrow> recipient \<Rightarrow> hash \<Rightarrow> hash \<Rightarrow> ('t, 'd) StateDB \<Rightarrow> ('t, 'd) StateDB res" where
  "SetState L addr key value s =
     bind_res (GetOrNewStateObject L addr s) (\<lambda>(so, s). so_SetState L key value so s)"

definition Suicide :: "('t, 'd) eth_lib \<Rightarrow> recipient \<Rightarrow> ('t, 'd) StateDB \<Rightarrow> (bool \<times> ('t, 'd) StateDB) res" where
  "Suicide L addr s =
     bind_res (getStateObject L addr s) (\<lambda>(obj, s).
       case obj of
         None \<Rightarrow> Inr (False, s)
       | Some so \<Rightarrow>
           (let s = append_entry (suicideChange addr (so_suicided so) (GetBalanceMap (acc_TokenBalances (so_data so)))) s;
                so = markSuicided so;
                so = so\<lparr>so_data := (so_data so)\<lparr>acc_TokenBalances := NewEmptyTokenBalances\<lparr>tb_db := True\<rparr>\<rparr>\<rparr>
            in Inr (True, setStateObject so s)))"

section \<open>Snapshots\<close>

definition need_obj :: "('t, 'd) eth_lib \<Rightarrow> recipient \<Rightarrow> ('t stateObject \<Rightarrow> 't stateObject) \<Rightarrow> ('t, 'd) StateDB
    \<Rightarrow> ('t, 'd) StateDB res" where
  "need_obj L addr f s =
     bind_res (getStateObject L addr s) (\<lambda>(obj, s).
       case obj of None \<Rightarrow> Inl (GoPanic ''nil pointer'') | Some so \<Rightarrow> Inr (setStateObject (f so) s))"

text \<open>\<open>revert\<close> of the change types.\<close>

fun revert_entry :: "('t, 'd) eth_lib \<Rightarrow> 't journalEntry \<Rightarrow> ('t, 'd) StateDB \<Rightarrow> ('t, 'd) StateDB res" where
  "revert_entry L (createObjectChange a) s =
     Inr (s\<lparr>sdb_stateObjects := AList.delete a (sdb_stateObjects s),
            sdb_stateObjectsDirty := removeAll a (sdb_stateObjectsDirty s)\<rparr>)"
| "revert_entry L (resetObjectChange prev) s = Inr (setStateObject prev s)"
| "revert_entry L (suicideChange a prev prevbalance) s =
     bind_res (getStateObject L a s) (\<lambda>(obj, s).
       case obj of None \<Rightarrow> Inr s
       | Some so \<Rightarrow> Inr (setStateObject (setBalances prevbalance (so\<lparr>so_suicided := prev\<rparr>)) s))"
| "revert_entry L (balanceChange a prev) s = need_obj L a (setBalances prev) s"
| "revert_entry L (nonceChange a prev) s = need_obj L a (setNonce prev) s"
| "revert_entry L (storageChange a key prevalue) s = need_obj L a (setState key prevalue) s"
| "revert_entry L (codeChange a prevcode prevhash) s =
     need_obj L a (setCode (case prevhash of None \<Rightarrow> 0 | Some h \<Rightarrow> h) prevcode) s"
| "revert_entry L (refundChange prev) s = Inr (s\<lparr>sdb_refund := prev\<rparr>)"
| "revert_entry L (addLogChange txhash) s =
     (let logs = GetLogs txhash s in
      if length logs = 1 then
        Inr (s\<lparr>sdb_logs := AList.delete txhash (sdb_logs s), sdb_logSize := sdb_logSize s - 1\<rparr>)
      else if logs = [] then Inl (GoPanic ''slice bounds out of range'')
      else Inr (s\<lparr>sdb_logs := AList.update txhash (butlast logs) (sdb_logs s), sdb_logSize := sdb_logSize s - 1\<rparr>))"
| "revert_entry L (addPreimageChange h) s = Inr (s\<lparr>sdb_preimages := AList.delete h (sdb_preimages s)\<rparr>)"
| "revert_entry L (touchChange a) s = Inr s"

definition undo_entry :: "('t, 'd) eth_lib \<Rightarrow> 't journalEntry \<Rightarrow> ('t, 'd) StateDB \<Rightarrow> ('t, 'd) StateDB res" where
  "undo_entry L e s =
     bind_res (revert_entry L e s) (\<lambda>s. Inr (s\<lparr>sdb_journal := undirty e (sdb_journal s)\<rparr>))"

primrec undo_all :: "('t, 'd) eth_lib \<Rightarrow> 't journalEntry list \<Rightarrow> ('t, 'd) StateDB \<Rightarrow> ('t, 'd) StateDB res" where
  "undo_all L [] s = Inr s"
| "undo_all L (e # es) s = bind_res (undo_entry L e s) (undo_all L es)"

definition journal_revert :: "('t, 'd) eth_lib \<Rightarrow> nat \<Rightarrow> ('t, 'd) StateDB \<Rightarrow> ('t, 'd) StateDB res" where
  "journal_revert L snapshot s =
     (let es = j_entries (sdb_journal s) in
      bind_res (undo_all L (rev (drop snapshot es)) s) (\<lambda>s.
        Inr (s\<lparr>sdb_journal := (sdb_journal s)\<lparr>j_entries := take snapshot es\<rparr>\<rparr>)))"

definition Snapshot :: "('t, 'd) StateDB \<Rightarrow> nat \<times> ('t, 'd) StateDB" where
  "Snapshot s =
     (let i = sdb_nextRevisionId s in
      (i, s\<lparr>sdb_nextRevisionId := i + 1,
            sdb_validRevisions := sdb_validRevisions s @
              [\<lparr>rev_id = i, rev_journalIndex = length (j_entries (sdb_journal s))\<rparr>]\<rparr>))"

definition RevertToSnapshot :: "('t, 'd) eth_lib \<Rightarrow> nat \<Rightarrow> ('t, 'd) StateDB \<Rightarrow> ('t, 'd) StateDB res" where
  "RevertToSnapshot L revid s =
     (let rs = sdb_validRevisions s;
          idx = sort_Search (length rs) (\<lambda>i. rev_id (rs ! i) \<ge> revid)
      in if idx = length rs \<or> rev_id (rs ! idx) \<noteq> revid then Inl (GoPanic ''revision id cannot be reverted'')
         else bind_res (journal_revert L (rev_journalIndex (rs ! idx)) s) (\<lambda>s.
           Inr (s\<lparr>sdb_validRevisions := take idx rs\<rparr>)))"

section \<open>Writing the state\<close>

definition updateStateObject :: "('t, 'd) eth_lib \<Rightarrow> 't stateObject \<Rightarrow> ('t, 'd) StateDB \<Rightarrow> ('t, 'd) StateDB res" where
  "updateStateObject L so s =
     (let d = so_data so in
      case bind_res (TokenBalances_EncodeRLP L (acc_TokenBalances d)) (\<lambda>tb.
             rlp_EncodeAccount L (acc_Nonce d) tb (acc_Root d) (acc_CodeHash d) (acc_FullShardKey d) (acc_Optial d)) of
        Inl err \<Rightarrow> Inl (GoPanic ''can't encode object'')
      | Inr data \<Rightarrow>
          bind_res
            (if sdb_useMock s then
               bind_res (AccountToMock L d) (\<lambda>(m, d).
                 case rlp_EncodeMock L (mock_Nonce m) (mock_Balance m) (mock_Root m) (mock_CodeHash m) of
                   Inl err \<Rightarrow> Inl (GoPanic ''rlp'')
                 | Inr data \<Rightarrow> Inr (data, setStateObject (so\<lparr>so_data := d\<rparr>) s))
             else Inr (data, s))
            (\<lambda>(data, s).
               let r = lib_TryUpdate L (sdb_trie s) (addr_bytes (so_address so)) data
               in Inr (setError (err_of r) (s\<lparr>sdb_trie := (case r of Inl e \<Rightarrow> sdb_trie s | Inr tr \<Rightarrow> tr)\<rparr>))))"

definition deleteStateObject :: "('t, 'd) eth_lib \<Rightarrow> 't stateObject \<Rightarrow> ('t, 'd) StateDB \<Rightarrow> ('t, 'd) StateDB" where
  "deleteStateObject L so s =
     (let s = setStateObject (so\<lparr>so_deleted := True\<rparr>) s;
          r = lib_TryDelete L (sdb_trie s) (addr_bytes (so_address so))
      in setError (err_of r) (s\<lparr>sdb_trie := (case r of Inl e \<Rightarrow> sdb_trie s | Inr tr \<Rightarrow> tr)\<rparr>))"

definition finalise_addr :: "('t, 'd) eth_lib \<Rightarrow> bool \<Rightarrow> recipient \<Rightarrow> ('t, 'd) StateDB \<Rightarrow> ('t, 'd) StateDB res" where
  "finalise_addr L deleteEmptyObjects addr s =
     (case map_of (sdb_stateObjects s) addr of
        None \<Rightarrow> Inr s
      | Some so \<Rightarrow>
          bind_res
            (if so_suicided so \<or> (deleteEmptyObjects \<and> StateObject.empty L so) then Inr (deleteStateObject L so s)
             else bind_res (updateRoot L (sdb_db s) so) (\<lambda>(so, d).
               updateStateObject L so (setStateObject so (s\<lparr>sdb_db := d\<rparr>))))
            (\<lambda>s. Inr (s\<lparr>sdb_stateObjectsDirty := List.insert addr (sdb_stateObjectsDirty s)\<rparr>)))"

primrec finalise_loop :: "('t, 'd) eth_lib \<Rightarrow> bool \<Rightarrow> recipient list \<Rightarrow> ('t, 'd) StateDB \<Rightarrow> ('t, 'd) StateDB res" where
  "finalise_loop L del [] s = Inr s"
| "finalise_loop L del (a # as) s = bind_res (finalise_addr L del a s) (finalise_loop L del as)"

definition Finalise :: "('t, 'd) eth_lib \<Rightarrow> bool \<Rightarrow> ('t, 'd) StateDB \<Rightarrow> ('t, 'd) StateDB res" where
  "Finalise L deleteEmptyObjects s =
     bind_res (finalise_loop L deleteEmptyObjects (map fst (j_dirties (sdb_journal s))) s)
       (\<lambda>s. Inr (clearJournalAndRefund s))"

definition IntermediateRoot :: "('t, 'd) eth_lib \<Rightarrow> bool \<Rightarrow> ('t, 'd) StateDB \<Rightarrow> (hash \<times> ('t, 'd) StateDB) res" where
  "IntermediateRoot L deleteEmptyObjects s =
     bind_res (Finalise L deleteEmptyObjects s) (\<lambda>s. Inr (lib_TrieHash L (sdb_trie s), s))"

definition Prepare :: "hash \<Rightarrow> hash \<Rightarrow> int \<Rightarrow> ('t, 'd) StateDB \<Rightarrow> ('t, 'd) StateDB" where
  "Prepare thash bhash ti s = s\<lparr>sdb_thash := thash, sdb_bhash := bhash, sdb_txIndex := ti\<rparr>"

text \<open>The loop of \<open>Commit\<close> over the live objects; an error of \<open>CommitTrie\<close> ends it.\<close>

definition commit_object :: "('t, 'd) eth_lib \<Rightarrow> bool \<Rightarrow> recipient \<Rightarrow> 't stateObject \<Rightarrow> ('t, 'd) StateDB
    \<Rightarrow> (go_error option \<times> ('t, 'd) StateDB) res" where
  "commit_object L deleteEmptyObjects addr so s =
     (let isDirty = (addr \<in> set (sdb_stateObjectsDirty s)) in
      if so_suicided so \<or> (isDirty \<and> deleteEmptyObjects \<and> StateObject.empty L so) then
        Inr (None, deleteStateObject L so s)
      else if isDirty then
        (let (so, d) =
           (case so_code so of
              Some code \<Rightarrow>
                if so_dirtyCode so then
                  (so\<lparr>so_dirtyCode := False\<rparr>,
                   lib_InsertBlob L (sdb_db s) (case acc_CodeHash (so_data so) of None \<Rightarrow> 0 | Some h \<Rightarrow> h) code)
                else (so, sdb_db s)
            | None \<Rightarrow> (so, sdb_db s))
         in bind_res (CommitTrie L d so) (\<lambda>(err, so, d).
              let s = setStateObject so (s\<lparr>sdb_db := d\<rparr>) in
              case err of
                Some e \<Rightarrow> Inr (Some e, s)
              | None \<Rightarrow> bind_res (updateStateObject L so s) (\<lambda>s. Inr (None, s))))
      else Inr (None, s))"

primrec commit_loop :: "('t, 'd) eth_lib \<Rightarrow> bool \<Rightarrow> (recipient \<times> 't stateObject) list \<Rightarrow> ('t, 'd) StateDB
    \<Rightarrow> (go_error option \<times> ('t, 'd) StateDB) res" where
  "commit_loop L del [] s = Inr (None, s)"
| "commit_loop L del (p # ps) s =
     bind_res (commit_object L del (fst p) (snd p) s) (\<lambda>(err, s).
       case err of
         Some e \<Rightarrow> Inr (Some e, s)
       | None \<Rightarrow> commit_loop L del ps (s\<lparr>sdb_stateObjectsDirty := removeAll (fst p) (sdb_stateObjectsDirty s)\<rparr>))"

definition StateDB_Commit :: "('t, 'd) eth_lib \<Rightarrow> bool \<Rightarrow> ('t, 'd) StateDB \<Rightarrow> (hash res \<times> ('t, 'd) StateDB) res" where
  "StateDB_Commit L deleteEmptyObjects s =
     (let s = s\<lparr>sdb_stateObjectsDirty :=
            fold List.insert (map fst (j_dirties (sdb_journal s))) (sdb_stateObjectsDirty s)\<rparr> in
      bind_res (commit_loop L deleteEmptyObjects (sdb_stateObjects s) s) (\<lambda>(err, s).
        case err of
          Some e \<Rightarrow> Inr (Inl e, clearJournalAndRefund s)
        | None \<Rightarrow>
            (case lib_TrieCommit L (sdb_trie s) (sdb_db s) of
               Inl e \<Rightarrow> Inr (Inl e, clearJournalAndRefund s)
             | Inr (hroot, tr, d) \<Rightarrow> Inr (Inr hroot, clearJournalAndRefund (s\<lparr>sdb_trie := tr, sdb_db := d\<rparr>)))))"

text \<open>\<open>Copy\<close>: the dirty objects, logs and preimages; several fields start again at their zero value.\<close>

primrec copy_dirty :: "('t, 'd) eth_lib \<Rightarrow> (recipient \<times> 't stateObject) list \<Rightarrow> recipient list
    \<Rightarrow> (recipient \<times> 't stateObject) list \<times> recipient list \<Rightarrow> ((recipient \<times> 't stateObject) list \<times> recipient list) res" where
  "copy_dirty L objs [] acc = Inr acc"
| "copy_dirty L objs (a # as) acc =
     (if map_of (fst acc) a \<noteq> None then copy_dirty L objs as acc
      else case map_of objs a of
        None \<Rightarrow> Inl (GoPanic ''nil pointer'')
      | Some so \<Rightarrow> copy_dirty L objs as (AList.update a (deepCopy L so) (fst acc), List.insert a (snd acc)))"

definition copy_journalled :: "('t, 'd) eth_lib \<Rightarrow> (recipient \<times> 't stateObject) list \<Rightarrow> recipient list
    \<Rightarrow> (recipient \<times> 't stateObject) list \<times> recipient list" where
  "copy_journalled L objs as =
     fold (\<lambda>a acc. case map_of objs a of
        None \<Rightarrow> acc
      | Some so \<Rightarrow> (AList.update a (deepCopy L so) (fst acc), List.insert a (snd acc))) as ([], [])"

definition StateDB_Copy :: "('t, 'd) eth_lib \<Rightarrow> ('t, 'd) StateDB \<Rightarrow> ('t, 'd) StateDB res" where
  "StateDB_Copy L s =
     bind_res (copy_dirty L (sdb_stateObjects s) (sdb_stateObjectsDirty s)
         (copy_journalled L (sdb_stateObjects s) (map fst (j_dirties (sdb_journal s))))) (\<lambda>(objs, dirty).
       Inr \<lparr>sdb_db = sdb_db s, sdb_trie = sdb_trie s, sdb_stateObjects = objs, sdb_stateObjectsDirty = dirty,
        sdb_dbErr = None, sdb_refund = sdb_refund s, sdb_thash = 0, sdb_bhash = 0, sdb_txIndex = 0,
        sdb_logs = sdb_logs s, sdb_logSize = sdb_logSize s, sdb_preimages = sdb_preimages s,
        sdb_journal = newJournal, sdb_validRevisions = [], sdb_nextRevisionId = 0,
        sdb_xShardReceiveGasUsed = None, sdb_blockFee = None, sdb_xShardList = None, sdb_fullShardKey = 0,
        sdb_quarkChainConfig = sdb_quarkChainConfig s, sdb_gasUsed = None, sdb_gasLimit = sdb_gasLimit s,
        sdb_shardConfig = None, sdb_senderDisallowMap = sdb_senderDisallowMap s,
        sdb_blockCoinbase = sdb_blockCoinbase s, sdb_timeStamp = sdb_timeStamp s,
        sdb_blockNumber = sdb_blockNumber s, sdb_xShardTxCursorInfo = None, sdb_useMock = False\<rparr>)"

section \<open>Block context\<close>

definition GetXShardReceiveGasUsed :: "('t, 'd) StateDB \<Rightarrow> int" where
  "GetXShardReceiveGasUsed s = (case sdb_xShardReceiveGasUsed s of None \<Rightarrow> 0 | Some g \<Rightarrow> g)"

definition AppendXShardList :: "CrossShardTransactionDeposit \<Rightarrow> ('t, 'd) StateDB \<Rightarrow> ('t, 'd) StateDB" where
  "AppendXShardList d s =
     s\<lparr>sdb_xShardList := Some ((case sdb_xShardList s of None \<Rightarrow> [] | Some l \<Rightarrow> l) @ [d])\<rparr>"

definition GetXShardList :: "('t, 'd) StateDB \<Rightarrow> CrossShardTransactionDeposit list" where
  "GetXShardList s = (case sdb_xShardList s of None \<Rightarrow> [] | Some l \<Rightarrow> l)"

definition StateDB_GetChainID :: "('t, 'd) StateDB \<Rightarrow> u32" where
  "StateDB_GetChainID s = drop_bit 16 (sdb_fullShardKey s)"

definition AddBlockFee :: "(u64 \<times> int) list \<Rightarrow> ('t, 'd) StateDB \<Rightarrow> ('t, 'd) StateDB" where
  "AddBlockFee fee s =
     (case sdb_blockFee s of
        None \<Rightarrow> s\<lparr>sdb_blockFee := Some fee\<rparr>
      | Some m \<Rightarrow> s\<lparr>sdb_blockFee := Some (fold (\<lambda>(k, v) m.
            AList.update k (v + (case map_of m k of None \<Rightarrow> 0 | Some p \<Rightarrow> p)) m) fee m)\<rparr>)"

definition GetBlockFee :: "('t, 'd) StateDB \<Rightarrow> (u64 \<times> int) list" where
  "GetBlockFee s = (case sdb_blockFee s of None \<Rightarrow> [] | Some m \<Rightarrow> m)"

definition GetGasUsed :: "('t, 'd) StateDB \<Rightarrow> int" where
  "GetGasUsed s = (case sdb_gasUsed s of None \<Rightarrow> 0 | Some g \<Rightarrow> g)"

definition AddGasUsed :: "int \<Rightarrow> ('t, 'd) StateDB \<Rightarrow> ('t, 'd) StateDB" where
  "AddGasUsed g s = s\<lparr>sdb_gasUsed := Some (GetGasUsed s + g)\<rparr>"

definition GetGasLimit :: "('t, 'd) StateDB \<Rightarrow> int" where
  "GetGasLimit s = (case sdb_gasLimit s of None \<Rightarrow> 0 | Some g \<Rightarrow> g)"

end
