(* ===== verification/StateRevert.thy ===== *)
theory StateRevert
  imports StateDB
begin

text \<open>
  Snapshots of the state database undo what was done since they were taken. The locale \<open>undo_log\<close> is
  the contract between a state and a log of undo entries: undoing an entry respects observational
  equality of states. It is interpreted on the state database and its journal, with the observations
  of \<open>same_state\<close>: for every account existence, nonce, balances, code, storage, the suicide mark and the
  full shard key, and for the state the refund counter, the logs, the preimages and the dirty counts.
\<close>

section \<open>Undo logs\<close>

locale undo_log =
  fixes obs :: "'s \<Rightarrow> 's \<Rightarrow> bool"
    and ok :: "'e \<Rightarrow> bool"
    and undo :: "'e \<Rightarrow> 's \<Rightarrow> go_error + 's"
    and undos :: "'e list \<Rightarrow> 's \<Rightarrow> go_error + 's"
    and entries :: "'s \<Rightarrow> 'e list"
  assumes obs_sym: "obs s t \<Longrightarrow> obs t s"
    and obs_trans: "obs s t \<Longrightarrow> obs t u \<Longrightarrow> obs s u"
    and undo_obs: "obs s t \<Longrightarrow> ok e \<Longrightarrow> undo e s = Inr s' \<Longrightarrow> \<exists>t'. undo e t = Inr t' \<and> obs s' t'"
    and undos_Nil: "undos [] s = Inr s"
    and undos_Cons: "undos (e # es) s = bind_res (undo e s) (undos es)"
begin

text \<open>\<open>extends s s'\<close>: the log of \<open>s'\<close> is that of \<open>s\<close> and more, and undoing the rest leads back to \<open>s\<close>.\<close>

definition extends :: "'s \<Rightarrow> 's \<Rightarrow> bool" where
  "extends s s' \<longleftrightarrow> (\<exists>es. entries s' = entries s @ es \<and> (\<forall>e\<in>set es. ok e) \<and>
     (\<exists>t. undos (rev es) s' = Inr t \<and> obs t s))"

lemma undos_append: "undos (es @ fs) s = bind_res (undos es s) (undos fs)"
proof (induction es arbitrary: s)
  case (Cons e es)
  then show ?case by (cases "undo e s") (simp_all add: undos_Cons)
qed (simp add: undos_Nil)

lemma undos_obs:
  "obs s t \<Longrightarrow> \<forall>e\<in>set es. ok e \<Longrightarrow> undos es s = Inr s' \<Longrightarrow> \<exists>t'. undos es t = Inr t' \<and> obs s' t'"
proof (induction es arbitrary: s t)
  case Nil
  then show ?case by (simp add: undos_Nil)
next
  case (Cons e es)
  then obtain s1 where s1: "undo e s = Inr s1" "undos es s1 = Inr s'"
    by (auto simp: undos_Cons bind_res_Inr_iff)
  from undo_obs [OF Cons.prems(1) _ s1(1)] Cons.prems(2) obtain t1 where "undo e t = Inr t1" "obs s1 t1" by auto
  with Cons.IH [of s1 t1] Cons.prems(2) s1(2) show ?case by (auto simp: undos_Cons)
qed

lemma extends_obs:
  assumes "obs s' s" "entries s' = entries s"
  shows "extends s s'"
  using assms by (auto simp: extends_def undos_Nil intro!: exI [of _ "[]"])

lemma extends_entry:
  assumes "entries s' = entries s @ [e]" "ok e" "undo e s' = Inr t" "obs t s"
  shows "extends s s'"
  using assms by (auto simp: extends_def undos_Nil undos_Cons intro!: exI [of _ "[e]"])

lemma extends_trans:
  assumes "extends s s'" "extends s' s''"
  shows "extends s s''"
proof -
  from assms(1) obtain es t where es: "entries s' = entries s @ es" "\<forall>e\<in>set es. ok e" "undos (rev es) s' = Inr t" "obs t s"
    by (auto simp: extends_def)
  from assms(2) obtain fs u where fs: "entries s'' = entries s' @ fs" "\<forall>e\<in>set fs. ok e" "undos (rev fs) s'' = Inr u" "obs u s'"
    by (auto simp: extends_def)
  obtain v where v: "undos (rev es) u = Inr v" "obs t v"
    using undos_obs [OF obs_sym [OF fs(4)] _ es(3)] es(2) by auto
  have "undos (rev (es @ fs)) s'' = Inr v" using fs(3) v(1) by (simp add: undos_append)
  moreover have "obs v s" using v(2) es(4) obs_sym obs_trans by blast
  ultimately show ?thesis unfolding extends_def
    by (intro exI [of _ "es @ fs"] conjI exI [of _ v]) (use es fs in auto)
qed

text \<open>Undoing down to a position inside the extension, and what is left still extends \<open>s\<close>.\<close>

lemma extends_undo:
  assumes "extends s s'" "length (entries s) \<le> k" "k \<le> length (entries s')"
  shows "\<exists>t. undos (rev (drop k (entries s'))) s' = Inr t \<and>
    (\<forall>u. obs t u \<longrightarrow> entries u = take k (entries s') \<longrightarrow> extends s u)"
proof -
  from assms(1) obtain es t where es: "entries s' = entries s @ es" "\<forall>e\<in>set es. ok e" "undos (rev es) s' = Inr t" "obs t s"
    by (auto simp: extends_def)
  define j where "j = k - length (entries s)"
  have sp: "rev es = rev (drop j es) @ rev (take j es)" by (metis append_take_drop_id rev_append)
  have dr: "drop k (entries s') = drop j es" and tk: "take k (entries s') = entries s @ take j es"
    using assms(2) es(1) by (simp_all add: j_def)
  from es(3) obtain v where v: "undos (rev (drop j es)) s' = Inr v" "undos (rev (take j es)) v = Inr t"
    unfolding sp undos_append by (auto simp: bind_res_Inr_iff)
  have ok: "\<forall>e\<in>set (rev (take j es)). ok e" using es(2) by (auto dest: in_set_takeD)
  have "extends s u" if u: "obs v u" "entries u = take k (entries s')" for u
  proof -
    obtain w where w: "undos (rev (take j es)) u = Inr w" "obs t w" using undos_obs [OF u(1) ok v(2)] by auto
    have "obs w s" using w(2) es(4) obs_sym obs_trans by blast
    then show ?thesis unfolding extends_def using w(1) u(2) tk ok by (intro exI [of _ "take j es"]) auto
  qed
  then show ?thesis using v(1) dr by auto
qed

end

section \<open>Observations\<close>

record obj_view =
  v_address :: recipient
  v_addrHash :: hash
  v_Nonce :: u64
  v_balance :: "u64 \<Rightarrow> int"
  v_tokenTrie :: bool
  v_code :: "bytes option"
  v_CodeHash :: "hash option"
  v_state :: "hash \<Rightarrow> hash res"
  v_committed :: "hash \<Rightarrow> hash res"
  v_suicided :: bool
  v_FullShardKey :: "u32 option"

definition or_else :: "'a option \<Rightarrow> 'a option \<Rightarrow> 'a option" where
  "or_else x y = (case x of Some v \<Rightarrow> Some v | None \<Rightarrow> y)"

definition or_res :: "'a option \<Rightarrow> 'a res \<Rightarrow> 'a res" where
  "or_res x y = (case x of Some v \<Rightarrow> Inr v | None \<Rightarrow> y)"

definition map_res :: "('a \<Rightarrow> 'b) \<Rightarrow> 'a res \<Rightarrow> 'b res" where
  "map_res f r = (case r of Inl e \<Rightarrow> Inl e | Inr x \<Rightarrow> Inr (f x))"

definition code_lookup :: "('t, 'd) eth_lib \<Rightarrow> 'd \<Rightarrow> hash \<Rightarrow> hash option \<Rightarrow> bytes option" where
  "code_lookup L d addrHash h =
     (if h = Some (emptyCodeHash L) then None
      else case lib_ContractCode L d addrHash (case h of None \<Rightarrow> 0 | Some h \<Rightarrow> h) of Inl e \<Rightarrow> None | Inr c \<Rightarrow> Some c)"

definition obj_view :: "('t, 'd) eth_lib \<Rightarrow> 'd \<Rightarrow> 't stateObject \<Rightarrow> obj_view" where
  "obj_view L d so = \<lparr>
     v_address = so_address so, v_addrHash = so_addrHash so, v_Nonce = acc_Nonce (so_data so),
     v_balance = token_value L (acc_TokenBalances (so_data so)),
     v_tokenTrie = (tb_tokenTrie (acc_TokenBalances (so_data so)) \<noteq> None),
     v_code = or_else (so_code so) (code_lookup L d (so_addrHash so) (acc_CodeHash (so_data so))),
     v_CodeHash = acc_CodeHash (so_data so),
     v_state = (\<lambda>k. map_res fst (so_GetState L d k so)),
     v_committed = (\<lambda>k. map_res fst (so_GetCommittedState L d k so)),
     v_suicided = so_suicided so, v_FullShardKey = acc_FullShardKey (so_data so)\<rparr>"

text \<open>The account an address stands for, without the caching that \<open>getStateObject\<close> does.\<close>

definition load :: "('t, 'd) eth_lib \<Rightarrow> ('t, 'd) StateDB \<Rightarrow> recipient \<Rightarrow> 't stateObject option res" where
  "load L s a =
     (let enc = (case lib_TryGet L (sdb_trie s) (addr_bytes a) of Inl err \<Rightarrow> [] | Inr v \<Rightarrow> v)
      in if enc = [] then Inr None else map_res (map_option (newObject L a)) (decode_account L s enc))"

definition lookup :: "('t, 'd) eth_lib \<Rightarrow> ('t, 'd) StateDB \<Rightarrow> recipient \<Rightarrow> 't stateObject option res" where
  "lookup L s a =
     (case map_of (sdb_stateObjects s) a of
        Some so \<Rightarrow> Inr (if so_deleted so then None else Some so)
      | None \<Rightarrow> load L s a)"

definition acct_view :: "('t, 'd) eth_lib \<Rightarrow> ('t, 'd) StateDB \<Rightarrow> recipient \<Rightarrow> obj_view option res" where
  "acct_view L s a = map_res (map_option (obj_view L (sdb_db s))) (lookup L s a)"

text \<open>An account without a token trie, under its own address and with a code hash.\<close>

definition view_ok :: "recipient \<Rightarrow> obj_view \<Rightarrow> bool" where
  "view_ok a v \<longleftrightarrow> v_address v = a \<and> \<not> v_tokenTrie v \<and> v_CodeHash v \<noteq> None"

text \<open>States in which no account has its balances in a token trie and a deleted account is not in the
  account trie either.\<close>

definition state_ok :: "('t, 'd) eth_lib \<Rightarrow> ('t, 'd) StateDB \<Rightarrow> bool" where
  "state_ok L s \<longleftrightarrow>
     (\<forall>a v. acct_view L s a = Inr (Some v) \<longrightarrow> view_ok a v) \<and>
     (\<forall>a so. map_of (sdb_stateObjects s) a = Some so \<longrightarrow> so_deleted so \<longrightarrow> load L s a = Inr None) \<and>
     (\<forall>a so. load L s a = Inr (Some so) \<longrightarrow> tb_tokenTrie (acc_TokenBalances (so_data so)) = None)"

text \<open>The part of the state that no journalled operation changes.\<close>

definition frame :: "('t, 'd) StateDB \<Rightarrow> ('t, 'd) StateDB" where
  "frame s = s\<lparr>sdb_stateObjects := [], sdb_stateObjectsDirty := [], sdb_dbErr := None, sdb_refund := 0,
     sdb_logs := [], sdb_logSize := 0, sdb_preimages := [], sdb_journal := newJournal,
     sdb_validRevisions := [], sdb_nextRevisionId := 0\<rparr>"

definition same_state :: "('t, 'd) eth_lib \<Rightarrow> ('t, 'd) StateDB \<Rightarrow> ('t, 'd) StateDB \<Rightarrow> bool" where
  "same_state L s t \<longleftrightarrow>
     state_ok L s \<and> state_ok L t \<and> frame s = frame t \<and> acct_view L s = acct_view L t \<and>
     sdb_refund s = sdb_refund t \<and> (\<forall>h. GetLogs h s = GetLogs h t) \<and> sdb_logSize s = sdb_logSize t \<and>
     map_of (sdb_preimages s) = map_of (sdb_preimages t) \<and>
     (\<forall>a. a \<noteq> ripemd \<longrightarrow> dirty_count (j_dirties (sdb_journal s)) a = dirty_count (j_dirties (sdb_journal t)) a)"

subsection \<open>Views of changed objects\<close>

lemma or_simps [simp]:
  "or_else (Some v) y = Some v" "or_else None y = y" "or_res (Some v) r = Inr v" "or_res None r = r"
  by (simp_all add: or_else_def or_res_def)

lemma map_res_simps [simp]: "map_res f (Inl e) = Inl e" "map_res f (Inr x) = Inr (f x)"
  by (simp_all add: map_res_def)

lemma map_res_eq_Inr: "map_res f r = Inr y \<longleftrightarrow> (\<exists>x. r = Inr x \<and> f x = y)"
  by (cases r) auto

lemma so_setError_fields [simp]:
  "so_address (so_setError e so) = so_address so" "so_addrHash (so_setError e so) = so_addrHash so"
  "so_data (so_setError e so) = so_data so" "so_trie (so_setError e so) = so_trie so"
  "so_code (so_setError e so) = so_code so" "so_originStorage (so_setError e so) = so_originStorage so"
  "so_dirtyStorage (so_setError e so) = so_dirtyStorage so" "so_dirtyCode (so_setError e so) = so_dirtyCode so"
  "so_suicided (so_setError e so) = so_suicided so" "so_deleted (so_setError e so) = so_deleted so"
  by (simp_all add: so_setError_def)

lemma getTrie_same_fields:
  assumes "getTrie L d so = Inr (tr, so')"
  shows "so_originStorage so' = so_originStorage so" "so_dirtyStorage so' = so_dirtyStorage so"
    "so_data so' = so_data so" "so_trie so' = Some tr" "so_addrHash so' = so_addrHash so"
    "so_code so' = so_code so" "so_suicided so' = so_suicided so" "so_deleted so' = so_deleted so"
    "so_address so' = so_address so" "getTrie L d so' = Inr (tr, so')"
  using assms by (auto simp: getTrie_def split: option.splits sum.splits)

text \<open>Reading the committed storage depends only on the storage cache and the trie.\<close>

definition storage_read :: "('t, 'd) eth_lib \<Rightarrow> 't \<Rightarrow> hash \<Rightarrow> hash" where
  "storage_read L tr key =
     (case lib_TryGet L tr (hash_bytes key) of
        Inl err \<Rightarrow> 0
      | Inr enc \<Rightarrow>
          if enc = [] then 0
          else case rlp_SplitContent L enc of Inl err \<Rightarrow> 0 | Inr content \<Rightarrow> lib_BytesToHash L content)"

definition open_trie :: "('t, 'd) eth_lib \<Rightarrow> 'd \<Rightarrow> 't option \<Rightarrow> hash \<Rightarrow> hash \<Rightarrow> 't res" where
  "open_trie L d t h r =
     (case t of
        Some tr \<Rightarrow> Inr tr
      | None \<Rightarrow>
          (case lib_OpenStorageTrie L d h r of
             Inr tr \<Rightarrow> Inr tr
           | Inl err \<Rightarrow>
               (case lib_OpenStorageTrie L d h 0 of Inr tr \<Rightarrow> Inr tr | Inl e \<Rightarrow> Inl (GoPanic ''nil trie''))))"

definition committed_of :: "('t, 'd) eth_lib \<Rightarrow> 'd \<Rightarrow> (hash \<times> hash) list \<Rightarrow> 't option \<Rightarrow> hash \<Rightarrow> hash \<Rightarrow> hash
    \<Rightarrow> hash res" where
  "committed_of L d origin t h r key =
     or_res (map_of origin key) (map_res (\<lambda>tr. storage_read L tr key) (open_trie L d t h r))"

lemma getTrie_open: "map_res fst (getTrie L d so) = open_trie L d (so_trie so) (so_addrHash so) (acc_Root (so_data so))"
  by (simp add: getTrie_def open_trie_def split: option.split sum.split)

lemma map_res_comp: "map_res f (map_res g r) = map_res (f \<circ> g) r"
  by (cases r) simp_all

lemma committed_slot_value:
  "map_res fst (so_GetCommittedState L d key so) =
     committed_of L d (so_originStorage so) (so_trie so) (so_addrHash so) (acc_Root (so_data so)) key"
proof (cases "map_of (so_originStorage so) key")
  case None
  then have "map_res fst (so_GetCommittedState L d key so) = map_res (\<lambda>p. storage_read L (fst p) key) (getTrie L d so)"
    by (cases "getTrie L d so")
      (auto simp: so_GetCommittedState_def storage_read_def Let_def split: sum.split)
  also have "\<dots> = map_res (\<lambda>tr. storage_read L tr key) (map_res fst (getTrie L d so))"
    by (simp add: map_res_comp comp_def)
  finally show ?thesis using None by (simp add: committed_of_def getTrie_open)
qed (simp add: so_GetCommittedState_def committed_of_def)

lemma state_value:
  "map_res fst (so_GetState L d key so) =
     or_res (map_of (so_dirtyStorage so) key)
       (committed_of L d (so_originStorage so) (so_trie so) (so_addrHash so) (acc_Root (so_data so)) key)"
  by (simp add: so_GetState_def committed_slot_value or_res_def split: option.split)

lemma obj_view_fields:
  "obj_view L d so = \<lparr>
     v_address = so_address so, v_addrHash = so_addrHash so, v_Nonce = acc_Nonce (so_data so),
     v_balance = token_value L (acc_TokenBalances (so_data so)),
     v_tokenTrie = (tb_tokenTrie (acc_TokenBalances (so_data so)) \<noteq> None),
     v_code = or_else (so_code so) (code_lookup L d (so_addrHash so) (acc_CodeHash (so_data so))),
     v_CodeHash = acc_CodeHash (so_data so),
     v_state = (\<lambda>k. or_res (map_of (so_dirtyStorage so) k)
        (committed_of L d (so_originStorage so) (so_trie so) (so_addrHash so) (acc_Root (so_data so)) k)),
     v_committed = committed_of L d (so_originStorage so) (so_trie so) (so_addrHash so) (acc_Root (so_data so)),
     v_suicided = so_suicided so, v_FullShardKey = acc_FullShardKey (so_data so)\<rparr>"
  by (simp add: obj_view_def state_value committed_slot_value fun_eq_iff)

lemma view_setNonce: "obj_view L d (setNonce n so) = (obj_view L d so)\<lparr>v_Nonce := n\<rparr>"
  by (simp add: obj_view_fields setNonce_def)

lemma view_setState: "obj_view L d (setState k v so) = (obj_view L d so)\<lparr>v_state := (v_state (obj_view L d so))(k := Inr v)\<rparr>"
  by (simp add: obj_view_fields setState_def update_conv' fun_eq_iff)

lemma view_setBalances:
  "obj_view L d (setBalances m so) = (obj_view L d so)
     \<lparr>v_balance := (\<lambda>i. case map_of m i of Some b \<Rightarrow> b | None \<Rightarrow> 0), v_tokenTrie := False\<rparr>"
  by (simp add: obj_view_fields setBalances_def token_value_def NewTokenBalancesWithMap_def trie_value_def fun_eq_iff
      split: option.split)

lemma view_setCode:
  "obj_view L d (setCode h c so) = (obj_view L d so)
     \<lparr>v_code := or_else c (code_lookup L d (v_addrHash (obj_view L d so)) (Some h)),
      v_CodeHash := Some h\<rparr>"
  by (simp add: obj_view_fields setCode_def)

lemma view_suicided: "obj_view L d (so\<lparr>so_suicided := b\<rparr>) = (obj_view L d so)\<lparr>v_suicided := b\<rparr>"
  by (simp add: obj_view_fields)

lemmas view_set = view_setNonce view_setState view_setBalances view_setCode view_suicided

lemma set_deleted [simp]:
  "so_deleted (setNonce n so) = so_deleted so" "so_deleted (setState k v so) = so_deleted so"
  "so_deleted (setBalances m so) = so_deleted so" "so_deleted (setCode h c so) = so_deleted so"
  by (simp_all add: setNonce_def setState_def setBalances_def setCode_def)

lemma set_address [simp]:
  "so_address (setNonce n so) = so_address so" "so_address (setState k v so) = so_address so"
  "so_address (setBalances m so) = so_address so" "so_address (setCode h c so) = so_address so"
  by (simp_all add: setNonce_def setState_def setBalances_def setCode_def)

subsection \<open>Reading an object does not change what is observed\<close>

definition same_obj :: "('t, 'd) eth_lib \<Rightarrow> 'd \<Rightarrow> 't stateObject \<Rightarrow> 't stateObject \<Rightarrow> bool" where
  "same_obj L d so so' \<longleftrightarrow> obj_view L d so' = obj_view L d so \<and> so_deleted so' = so_deleted so"

lemma same_objD: "same_obj L d so so' \<Longrightarrow> so_address so' = so_address so"
  by (auto simp: same_obj_def obj_view_def)

lemma same_obj_trans: "same_obj L d a b \<Longrightarrow> same_obj L d b c \<Longrightarrow> same_obj L d a c"
  by (simp add: same_obj_def)

lemma getTrie_same:
  assumes "getTrie L d so = Inr (tr, so')"
  shows "same_obj L d so so'"
proof -
  note f = getTrie_same_fields [OF assms]
  have "open_trie L d (so_trie so') (so_addrHash so') (acc_Root (so_data so')) =
      open_trie L d (so_trie so) (so_addrHash so) (acc_Root (so_data so))"
    using assms f(10) by (simp flip: getTrie_open)
  then show ?thesis by (simp add: same_obj_def obj_view_fields f committed_of_def fun_eq_iff)
qed

lemma setError_same: "same_obj L d so (so_setError e so)"
  by (simp add: same_obj_def obj_view_fields)

lemma cache_same:
  assumes "getTrie L d so = Inr (tr, so)" "map_of (so_originStorage so) key = None" "v = storage_read L tr key"
  shows "same_obj L d so (so\<lparr>so_originStorage := AList.update key v (so_originStorage so)\<rparr>)"
proof -
  have "open_trie L d (so_trie so) (so_addrHash so) (acc_Root (so_data so)) = Inr tr"
    using assms(1) by (simp flip: getTrie_open)
  then show ?thesis using assms(2,3)
    by (auto simp: same_obj_def obj_view_fields committed_of_def update_conv' fun_eq_iff split: option.split)
qed

lemma GetCommittedState_same:
  assumes "so_GetCommittedState L d key so = Inr (v, so')"
  shows "same_obj L d so so'"
proof (cases "map_of (so_originStorage so) key")
  case None
  with assms obtain tr so1 where g: "getTrie L d so = Inr (tr, so1)"
    by (auto simp: so_GetCommittedState_def bind_res_Inr_iff)
  note f = getTrie_same_fields [OF g]
  have g1: "getTrie L d (so_setError e so1) = Inr (tr, so_setError e so1)" for e
    using f(4) by (simp add: getTrie_def)
  have o: "map_of (so_originStorage (so_setError e so1)) key = None" for e using None f(1) by simp
  have "same_obj L d so1 so'"
  proof (cases "lib_TryGet L tr (hash_bytes key)")
    case (Inl e)
    with assms None g have "so_setError (Some e) so1 = so'" by (simp add: so_GetCommittedState_def)
    then show ?thesis using setError_same [of L d so1 "Some e"] by simp
  next
    case (Inr enc)
    show ?thesis
    proof (cases "enc \<noteq> [] \<and> (\<exists>e. rlp_SplitContent L enc = Inl e)")
      case True
      then obtain e where e: "enc \<noteq> []" "rlp_SplitContent L enc = Inl e" by blast
      with assms None g Inr have so': "so' = so_setError (Some e) so1
          \<lparr>so_originStorage := AList.update key 0 (so_originStorage (so_setError (Some e) so1))\<rparr>"
        by (simp add: so_GetCommittedState_def)
      have "same_obj L d (so_setError (Some e) so1) so'" unfolding so'
        using cache_same [OF g1 o, where v = 0] e Inr by (simp add: storage_read_def)
      then show ?thesis by (rule same_obj_trans [OF setError_same])
    next
      case False
      have so': "so' = so1\<lparr>so_originStorage := AList.update key (storage_read L tr key) (so_originStorage so1)\<rparr>"
        using assms None g Inr False by (auto simp: so_GetCommittedState_def storage_read_def Let_def split: sum.splits)
      show ?thesis unfolding so' by (rule cache_same [OF f(10)]) (use None f(1) in auto)
    qed
  qed
  then show ?thesis by (rule same_obj_trans [OF getTrie_same [OF g]])
qed (use assms in \<open>simp add: so_GetCommittedState_def same_obj_def\<close>)

lemma GetState_same:
  assumes "so_GetState L d key so = Inr (v, so')"
  shows "same_obj L d so so'"
proof (cases "map_of (so_dirtyStorage so) key")
  case None
  with assms show ?thesis by (auto simp: so_GetState_def intro: GetCommittedState_same)
qed (use assms in \<open>simp add: so_GetState_def same_obj_def\<close>)

lemma Code_value:
  assumes "Code L d so = (c, so')"
  shows "same_obj L d so so'" "c = v_code (obj_view L d so)" "acc_CodeHash (so_data so') = acc_CodeHash (so_data so)"
proof -
  show "acc_CodeHash (so_data so') = acc_CodeHash (so_data so)"
    using assms by (auto simp: Code_def split: if_splits sum.splits)
  show "same_obj L d so so'" "c = v_code (obj_view L d so)"
    using assms by (cases "so_code so";
        force simp: Code_def same_obj_def obj_view_fields code_lookup_def split: if_splits sum.splits)+
qed

lemma Balance_same:
  assumes "so_Balance L i so = Inr (b, so')" "tb_tokenTrie (acc_TokenBalances (so_data so)) = None"
  shows "so' = so"
  using assms by (auto simp: so_Balance_def GetTokenBalance_def bind_res_Inr_iff split: option.splits)

section \<open>States\<close>

text \<open>What loading an object into the live set leaves alone.\<close>

definition rest :: "('t, 'd) StateDB \<Rightarrow> ('t, 'd) StateDB" where
  "rest s = s\<lparr>sdb_stateObjects := [], sdb_stateObjectsDirty := [], sdb_dbErr := None\<rparr>"

lemma frame_fields:
  assumes "frame s = frame t"
  shows "sdb_db s = sdb_db t" "sdb_trie s = sdb_trie t" "sdb_useMock s = sdb_useMock t"
    "sdb_fullShardKey s = sdb_fullShardKey t" "sdb_thash s = sdb_thash t"
proof -
  have "sdb_db (frame s) = sdb_db (frame t)" "sdb_trie (frame s) = sdb_trie (frame t)"
    "sdb_useMock (frame s) = sdb_useMock (frame t)" "sdb_fullShardKey (frame s) = sdb_fullShardKey (frame t)"
    "sdb_thash (frame s) = sdb_thash (frame t)" using assms by simp_all
  then show "sdb_db s = sdb_db t" "sdb_trie s = sdb_trie t" "sdb_useMock s = sdb_useMock t"
    "sdb_fullShardKey s = sdb_fullShardKey t" "sdb_thash s = sdb_thash t" by (simp_all add: frame_def)
qed

lemma rest_fields:
  assumes "rest s = rest t"
  shows "frame s = frame t" "sdb_refund s = sdb_refund t" "sdb_logs s = sdb_logs t" "sdb_logSize s = sdb_logSize t"
    "sdb_preimages s = sdb_preimages t" "sdb_journal s = sdb_journal t"
    "sdb_validRevisions s = sdb_validRevisions t" "sdb_nextRevisionId s = sdb_nextRevisionId t"
proof -
  have "frame (rest s) = frame (rest t)" using assms by simp
  then show "frame s = frame t" by (simp add: frame_def rest_def)
  have "sdb_refund (rest s) = sdb_refund (rest t)" "sdb_logs (rest s) = sdb_logs (rest t)"
    "sdb_logSize (rest s) = sdb_logSize (rest t)" "sdb_preimages (rest s) = sdb_preimages (rest t)"
    "sdb_journal (rest s) = sdb_journal (rest t)" "sdb_validRevisions (rest s) = sdb_validRevisions (rest t)"
    "sdb_nextRevisionId (rest s) = sdb_nextRevisionId (rest t)" using assms by simp_all
  then show "sdb_refund s = sdb_refund t" "sdb_logs s = sdb_logs t" "sdb_logSize s = sdb_logSize t"
    "sdb_preimages s = sdb_preimages t" "sdb_journal s = sdb_journal t"
    "sdb_validRevisions s = sdb_validRevisions t" "sdb_nextRevisionId s = sdb_nextRevisionId t"
    by (simp_all add: rest_def)
qed

lemma frame_simps [simp]:
  "frame (setStateObject so s) = frame s" "frame (append_entry e s) = frame s" "frame (setError er s) = frame s"
  "frame (s\<lparr>sdb_journal := j\<rparr>) = frame s" "frame (s\<lparr>sdb_refund := r\<rparr>) = frame s"
  "frame (s\<lparr>sdb_logs := l\<rparr>) = frame s" "frame (s\<lparr>sdb_logSize := n\<rparr>) = frame s"
  "frame (s\<lparr>sdb_preimages := p\<rparr>) = frame s" "frame (s\<lparr>sdb_stateObjects := os\<rparr>) = frame s"
  "frame (s\<lparr>sdb_stateObjectsDirty := as\<rparr>) = frame s" "frame (s\<lparr>sdb_validRevisions := rs\<rparr>) = frame s"
  "frame (s\<lparr>sdb_nextRevisionId := i\<rparr>) = frame s"
  by (simp_all add: frame_def setStateObject_def append_entry_def setError_def)

lemma rest_simps [simp]: "rest (setStateObject so s) = rest s" "rest (setError e s) = rest s"
  by (simp_all add: rest_def setStateObject_def setError_def)

lemma setStateObject_fields [simp]:
  "sdb_journal (setStateObject so s) = sdb_journal s" "sdb_refund (setStateObject so s) = sdb_refund s"
  "sdb_logs (setStateObject so s) = sdb_logs s" "sdb_logSize (setStateObject so s) = sdb_logSize s"
  "sdb_preimages (setStateObject so s) = sdb_preimages s" "sdb_db (setStateObject so s) = sdb_db s"
  "sdb_validRevisions (setStateObject so s) = sdb_validRevisions s"
  "sdb_nextRevisionId (setStateObject so s) = sdb_nextRevisionId s"
  by (simp_all add: setStateObject_def)

lemma append_entry_fields [simp]:
  "sdb_stateObjects (append_entry e s) = sdb_stateObjects s" "sdb_refund (append_entry e s) = sdb_refund s"
  "sdb_logs (append_entry e s) = sdb_logs s" "sdb_logSize (append_entry e s) = sdb_logSize s"
  "sdb_preimages (append_entry e s) = sdb_preimages s" "sdb_db (append_entry e s) = sdb_db s"
  "sdb_thash (append_entry e s) = sdb_thash s" "sdb_trie (append_entry e s) = sdb_trie s"
  "sdb_validRevisions (append_entry e s) = sdb_validRevisions s"
  "sdb_nextRevisionId (append_entry e s) = sdb_nextRevisionId s"
  "sdb_journal (append_entry e s) = journal_append e (sdb_journal s)"
  by (simp_all add: append_entry_def)

lemma journal_append_entries [simp]: "j_entries (journal_append e j) = j_entries j @ [e]"
  by (simp add: journal_append_def journal_dirty_def Let_def split: option.split)

lemma undirty_entries [simp]: "j_entries (undirty e j) = j_entries j"
  by (simp add: undirty_def Let_def split: option.split)

lemma dirty_count_undirty:
  "dirty_count (j_dirties (undirty e j)) a =
     (if dirtied e = Some a then dirty_count (j_dirties j) a - 1 else dirty_count (j_dirties j) a)"
  by (auto simp: undirty_def dirty_count_def Let_def update_conv' delete_conv' split: option.split)

lemma dirty_count_append:
  "dirty_count (j_dirties (journal_append e j)) a =
     (if dirtied e = Some a then dirty_count (j_dirties j) a + 1 else dirty_count (j_dirties j) a)"
  by (auto simp: journal_append_def journal_dirty_def dirty_count_def Let_def update_conv' split: option.split)

lemma decode_account_frame:
  assumes "frame s = frame t"
  shows "decode_account L s = decode_account L t"
  by (rule ext) (simp only: decode_account_def frame_fields [OF assms])

lemma load_frame:
  assumes "frame s = frame t"
  shows "load L s = load L t"
  by (rule ext) (simp only: load_def frame_fields [OF assms] decode_account_frame [OF assms])

lemma load_simps [simp]:
  "load L (setStateObject so s) = load L s" "load L (append_entry e s) = load L s" "load L (setError er s) = load L s"
  "load L (s\<lparr>sdb_journal := j\<rparr>) = load L s" "load L (s\<lparr>sdb_refund := r\<rparr>) = load L s"
  "load L (s\<lparr>sdb_logs := l\<rparr>) = load L s" "load L (s\<lparr>sdb_logSize := n\<rparr>) = load L s"
  "load L (s\<lparr>sdb_preimages := p\<rparr>) = load L s" "load L (s\<lparr>sdb_stateObjects := os\<rparr>) = load L s"
  "load L (s\<lparr>sdb_stateObjectsDirty := as\<rparr>) = load L s" "load L (s\<lparr>sdb_validRevisions := rs\<rparr>) = load L s"
  "load L (s\<lparr>sdb_nextRevisionId := i\<rparr>) = load L s"
  by (rule load_frame; simp)+

lemma lookup_same_objects:
  assumes "frame s = frame t" "sdb_stateObjects s = sdb_stateObjects t"
  shows "lookup L s = lookup L t" "acct_view L s = acct_view L t" "state_ok L s = state_ok L t"
proof -
  show l: "lookup L s = lookup L t" by (rule ext) (simp only: lookup_def assms(2) load_frame [OF assms(1)])
  then show v: "acct_view L s = acct_view L t" using frame_fields(1) [OF assms(1)] by (simp add: acct_view_def fun_eq_iff)
  show "state_ok L s = state_ok L t" using assms(2) load_frame [OF assms(1)] by (simp add: state_ok_def v)
qed

lemma map_of_setStateObject [simp]:
  "map_of (sdb_stateObjects (setStateObject so s)) a = (if a = so_address so then Some so else map_of (sdb_stateObjects s) a)"
  by (simp add: setStateObject_def update_conv')

lemma lookup_setStateObject:
  "lookup L (setStateObject so s) a =
     (if a = so_address so then Inr (if so_deleted so then None else Some so) else lookup L s a)"
  by (simp add: lookup_def split: option.split)

lemma view_setStateObject:
  assumes "\<not> so_deleted so"
  shows "acct_view L (setStateObject so s) = (acct_view L s)(so_address so := Inr (Some (obj_view L (sdb_db s) so)))"
  using assms by (auto simp: acct_view_def lookup_setStateObject fun_eq_iff)

lemma state_ok_setStateObject:
  assumes "state_ok L s" "\<not> so_deleted so" "view_ok (so_address so) (obj_view L (sdb_db s) so)"
  shows "state_ok L (setStateObject so s)"
  using assms by (auto simp: state_ok_def view_setStateObject split: if_splits)

lemma state_ok_cong:
  assumes "state_ok L s" "acct_view L s' = acct_view L s" "frame s' = frame s"
    "\<And>b so. map_of (sdb_stateObjects s') b = Some so \<Longrightarrow> so_deleted so \<Longrightarrow> map_of (sdb_stateObjects s) b = Some so"
  shows "state_ok L s'"
  using assms load_frame [OF assms(3), of L] unfolding state_ok_def by metis

lemma same_state_sym: "same_state L s t \<Longrightarrow> same_state L t s"
  by (simp add: same_state_def)

lemma same_state_trans: "same_state L s t \<Longrightarrow> same_state L t u \<Longrightarrow> same_state L s u"
  by (simp add: same_state_def)

lemma same_state_refl: "state_ok L s \<Longrightarrow> same_state L s s"
  by (simp add: same_state_def)

lemma same_state_journal:
  assumes "same_state L s t"
    "\<And>a. a \<noteq> ripemd \<Longrightarrow> dirty_count (j_dirties j) a = dirty_count (j_dirties k) a"
  shows "same_state L (s\<lparr>sdb_journal := j\<rparr>) (t\<lparr>sdb_journal := k\<rparr>)"
proof -
  have l: "acct_view L (s\<lparr>sdb_journal := j\<rparr>) = acct_view L s" "acct_view L (t\<lparr>sdb_journal := k\<rparr>) = acct_view L t"
    "state_ok L (s\<lparr>sdb_journal := j\<rparr>) = state_ok L s" "state_ok L (t\<lparr>sdb_journal := k\<rparr>) = state_ok L t"
    by (rule lookup_same_objects; simp)+
  have g: "GetLogs h (s\<lparr>sdb_journal := j\<rparr>) = GetLogs h s" "GetLogs h (t\<lparr>sdb_journal := k\<rparr>) = GetLogs h t" for h
    by (simp_all add: GetLogs_def)
  show ?thesis using assms by (simp add: same_state_def l g)
qed

lemma put_same_state:
  assumes "same_state L s t" "obj_view L (sdb_db s) so = obj_view L (sdb_db s) so'" "\<not> so_deleted so" "\<not> so_deleted so'"
    "view_ok (so_address so) (obj_view L (sdb_db s) so)"
  shows "same_state L (setStateObject so s) (setStateObject so' t)"
proof -
  have d: "sdb_db s = sdb_db t" using assms(1) frame_fields(1) by (auto simp: same_state_def)
  have a: "so_address so' = so_address so" using arg_cong [OF assms(2), of v_address] by (simp add: obj_view_def)
  have "state_ok L (setStateObject so s)" "state_ok L (setStateObject so' t)"
    using assms a d by (auto intro!: state_ok_setStateObject simp: same_state_def)
  then show ?thesis using assms a d
    by (simp add: same_state_def view_setStateObject GetLogs_def)
qed

subsection \<open>Loading an object\<close>

definition unchanged :: "('t, 'd) eth_lib \<Rightarrow> ('t, 'd) StateDB \<Rightarrow> ('t, 'd) StateDB \<Rightarrow> bool" where
  "unchanged L s s' \<longleftrightarrow> rest s' = rest s \<and> acct_view L s' = acct_view L s \<and>
     (\<forall>b so. map_of (sdb_stateObjects s') b = Some so \<longrightarrow> so_deleted so \<longrightarrow> map_of (sdb_stateObjects s) b = Some so)"

lemma unchanged_refl [simp]: "unchanged L s s"
  by (simp add: unchanged_def)

lemma unchanged_same_state:
  assumes "state_ok L s" "unchanged L s s'"
  shows "same_state L s' s"
proof -
  have r: "rest s' = rest s" using assms(2) by (simp add: unchanged_def)
  have "state_ok L s'" using assms r rest_fields(1) by (intro state_ok_cong [of L s s']) (auto simp: unchanged_def)
  then show ?thesis using assms rest_fields [OF r] by (simp add: same_state_def unchanged_def GetLogs_def)
qed

lemma unchanged_put:
  assumes "lookup L s (so_address so) = Inr (Some so0)" "same_obj L (sdb_db s) so0 so" "\<not> so_deleted so"
  shows "unchanged L s (setStateObject so s)"
  using assms by (auto simp: unchanged_def view_setStateObject same_obj_def acct_view_def fun_eq_iff split: if_splits)

lemma unchanged_trans: "unchanged L s t \<Longrightarrow> unchanged L t u \<Longrightarrow> unchanged L s u"
  by (fastforce simp: unchanged_def)

lemma getStateObject_lookup:
  assumes "lookup L s a = Inr x"
  shows "\<exists>s'. getStateObject L a s = Inr (x, s') \<and> unchanged L s s' \<and> lookup L s' = lookup L s"
proof (cases "map_of (sdb_stateObjects s) a")
  case (Some so)
  then show ?thesis using assms by (auto simp: getStateObject_def lookup_def)
next
  case None
  with assms have l: "load L s a = Inr x" by (simp add: lookup_def)
  let ?r = "lib_TryGet L (sdb_trie s) (addr_bytes a)"
  let ?enc = "case ?r of Inl err \<Rightarrow> [] | Inr v \<Rightarrow> v"
  show ?thesis
  proof (cases "?enc = []")
    case True
    have o: "sdb_stateObjects (setError e s) = sdb_stateObjects s" for e by (simp add: setError_def)
    have "unchanged L s (setError (err_of ?r) s)" "lookup L (setError (err_of ?r) s) = lookup L s"
      using lookup_same_objects [of "setError (err_of ?r) s" s L] by (auto simp: unchanged_def o)
    then show ?thesis using None True l by (auto simp: getStateObject_def load_def Let_def)
  next
    case False
    with l obtain y where y: "decode_account L s ?enc = Inr y" "x = map_option (newObject L a) y"
      by (auto simp: load_def Let_def map_res_eq_Inr)
    show ?thesis
    proof (cases y)
      case n: None
      then show ?thesis using None False y by (auto simp: getStateObject_def Let_def)
    next
      case (Some data)
      let ?o = "newObject L a data"
      have ao: "so_address ?o = a" "\<not> so_deleted ?o" by (simp_all add: newObject_def)
      have "unchanged L s (setStateObject ?o s)"
        by (rule unchanged_put [where so0 = ?o]) (use assms Some y ao in \<open>simp_all add: same_obj_def\<close>)
      moreover have "lookup L (setStateObject ?o s) = lookup L s"
        using assms Some y ao by (auto simp: lookup_setStateObject fun_eq_iff)
      ultimately show ?thesis using None False y Some by (auto simp: getStateObject_def Let_def)
    qed
  qed
qed

lemma getStateObject_Inr:
  assumes "getStateObject L a s = Inr (x, s')"
  shows "lookup L s a = Inr x" "unchanged L s s'" "lookup L s' = lookup L s"
proof -
  have "\<exists>y. lookup L s a = Inr y"
    using assms by (auto simp: getStateObject_def lookup_def load_def Let_def bind_res_Inr_iff
        split: option.splits if_splits)
  then obtain y where y: "lookup L s a = Inr y" by blast
  from getStateObject_lookup [OF y] assms show "lookup L s a = Inr x" "unchanged L s s'" "lookup L s' = lookup L s"
    using y by auto
qed

lemma lookup_SomeD:
  assumes "lookup L s a = Inr (Some so)"
  shows "\<not> so_deleted so" "acct_view L s a = Inr (Some (obj_view L (sdb_db s) so))"
  using assms by (auto simp: lookup_def acct_view_def load_def Let_def map_res_eq_Inr newObject_def
      split: option.splits if_splits)

lemma lookup_Some_ok:
  assumes "lookup L s a = Inr (Some so)" "state_ok L s"
  shows "view_ok a (obj_view L (sdb_db s) so)" "so_address so = a"
    "tb_tokenTrie (acc_TokenBalances (so_data so)) = None" "acc_CodeHash (so_data so) \<noteq> None"
proof -
  show v: "view_ok a (obj_view L (sdb_db s) so)" using assms lookup_SomeD(2) [OF assms(1)] by (simp add: state_ok_def)
  then show "so_address so = a" "tb_tokenTrie (acc_TokenBalances (so_data so)) = None" "acc_CodeHash (so_data so) \<noteq> None"
    by (auto simp: view_ok_def obj_view_def)
qed

lemma same_state_lookup:
  assumes "same_state L s t" "lookup L s a = Inr x"
  shows "\<exists>y. lookup L t a = Inr y \<and> (case x of None \<Rightarrow> y = None
    | Some so \<Rightarrow> \<exists>so'. y = Some so' \<and> obj_view L (sdb_db s) so = obj_view L (sdb_db s) so')"
proof -
  have "acct_view L s a = acct_view L t a" using assms(1) by (simp add: same_state_def)
  moreover have "sdb_db s = sdb_db t" using assms(1) frame_fields(1) by (auto simp: same_state_def)
  ultimately have e: "map_res (map_option (obj_view L (sdb_db s))) (lookup L t a) = Inr (map_option (obj_view L (sdb_db s)) x)"
    using assms(2) by (simp add: acct_view_def)
  then show ?thesis by (cases x) (auto simp: map_res_eq_Inr)
qed

subsection \<open>Undoing an entry respects what is observed\<close>

fun entry_ok :: "'t journalEntry \<Rightarrow> bool" where
  "entry_ok (resetObjectChange p) =
     (\<not> so_deleted p \<and> tb_tokenTrie (acc_TokenBalances (so_data p)) = None \<and> acc_CodeHash (so_data p) \<noteq> None)"
| "entry_ok e = True"

lemma unchanged_pair:
  assumes "same_state L s t" "unchanged L s s'" "unchanged L t t'"
  shows "same_state L s' t'"
proof -
  have "state_ok L s" "state_ok L t" using assms(1) by (simp_all add: same_state_def)
  then have "same_state L s' s" "same_state L t t'"
    using unchanged_same_state assms(2,3) same_state_sym by blast+
  then show ?thesis using assms(1) same_state_trans by blast
qed

lemma unchanged_db: "unchanged L s s' \<Longrightarrow> sdb_db s' = sdb_db s"
  using rest_fields(1) frame_fields(1) by (auto simp: unchanged_def)

lemma need_obj_same:
  assumes "same_state L s t" "need_obj L a f s = Inr s'"
    "\<And>so. so_deleted (f so) = so_deleted so" "\<And>so. so_address (f so) = so_address so"
    "\<And>d so. obj_view L d (f so) = g d (obj_view L d so)" "\<And>d v. view_ok a v \<Longrightarrow> view_ok a (g d v)"
  shows "\<exists>t'. need_obj L a f t = Inr t' \<and> same_state L s' t'"
proof -
  from assms(2) obtain so s1 where g: "getStateObject L a s = Inr (Some so, s1)" "s' = setStateObject (f so) s1"
    by (auto simp: need_obj_def bind_res_Inr_iff split: option.splits)
  note l = getStateObject_Inr [OF g(1)]
  from same_state_lookup [OF assms(1) l(1)] obtain so' where so': "lookup L t a = Inr (Some so')"
    "obj_view L (sdb_db s) so = obj_view L (sdb_db s) so'" by auto
  from getStateObject_lookup [OF so'(1)] obtain t1 where t1: "getStateObject L a t = Inr (Some so', t1)" "unchanged L t t1" by auto
  have st: "same_state L s1 t1" by (rule unchanged_pair [OF assms(1) l(2) t1(2)])
  have "state_ok L s" using assms(1) by (simp add: same_state_def)
  note ok = lookup_Some_ok [OF l(1) this]
  have "same_state L (setStateObject (f so) s1) (setStateObject (f so') t1)"
    by (rule put_same_state [OF st])
      (use assms(3-6) so'(2) ok lookup_SomeD(1) [OF l(1)] lookup_SomeD(1) [OF so'(1)] unchanged_db [OF l(2)] in auto)
  then show ?thesis using t1(1) g(2) by (simp add: need_obj_def)
qed

lemma view_delete:
  "acct_view L (s\<lparr>sdb_stateObjects := AList.delete a (sdb_stateObjects s), sdb_stateObjectsDirty := as\<rparr>) =
     (acct_view L s)(a := map_res (map_option (obj_view L (sdb_db s))) (load L s a))"
  by (auto simp: acct_view_def lookup_def delete_conv' fun_eq_iff split: option.split)

lemma load_view_ok:
  assumes "state_ok L s" "load L s a = Inr (Some so)"
  shows "view_ok a (obj_view L d so)"
proof -
  have "tb_tokenTrie (acc_TokenBalances (so_data so)) = None" using assms unfolding state_ok_def by blast
  moreover have "so_address so = a" "acc_CodeHash (so_data so) \<noteq> None"
    using assms(2) by (auto simp: load_def Let_def map_res_eq_Inr newObject_def split: if_splits option.splits)
  ultimately show ?thesis by (simp add: view_ok_def obj_view_def)
qed

lemma state_ok_delete:
  assumes "state_ok L s"
  shows "state_ok L (s\<lparr>sdb_stateObjects := AList.delete a (sdb_stateObjects s), sdb_stateObjectsDirty := as\<rparr>)"
  using assms load_view_ok [OF assms]
  by (auto simp: state_ok_def view_delete delete_conv' map_res_eq_Inr split: if_splits)

lemma revert_entry_same:
  assumes "same_state L s t" "entry_ok e" "revert_entry L e s = Inr s'"
  shows "\<exists>t'. revert_entry L e t = Inr t' \<and> same_state L s' t'"
proof (cases e)
  case (createObjectChange a)
  have "frame s = frame t" using assms(1) by (simp add: same_state_def)
  note f = frame_fields(1) [OF this] load_frame [OF this]
  have ok: "state_ok L s" "state_ok L t" using assms(1) by (simp_all add: same_state_def)
  show ?thesis using assms createObjectChange f state_ok_delete [OF ok(1)] state_ok_delete [OF ok(2)]
    by (auto simp: same_state_def view_delete GetLogs_def)
next
  case (resetObjectChange p)
  then show ?thesis using assms
    by (auto intro!: put_same_state simp: view_ok_def obj_view_def)
next
  case (suicideChange a prev bal)
  with assms(3) obtain x s1 where g: "getStateObject L a s = Inr (x, s1)" by (auto simp: bind_res_Inr_iff)
  note l = getStateObject_Inr [OF g]
  from same_state_lookup [OF assms(1) l(1)] obtain y where y: "lookup L t a = Inr y" "case x of None \<Rightarrow> y = None
    | Some so \<Rightarrow> \<exists>so'. y = Some so' \<and> obj_view L (sdb_db s) so = obj_view L (sdb_db s) so'" by blast
  from getStateObject_lookup [OF y(1)] obtain t1 where t1: "getStateObject L a t = Inr (y, t1)" "unchanged L t t1" by auto
  have st: "same_state L s1 t1" by (rule unchanged_pair [OF assms(1) l(2) t1(2)])
  have okS: "state_ok L s" using assms(1) by (simp add: same_state_def)
  show ?thesis
  proof (cases x)
    case None
    then show ?thesis using g t1 y st assms(3) suicideChange by simp
  next
    case (Some so)
    with y obtain so' where so': "y = Some so'" "obj_view L (sdb_db s) so = obj_view L (sdb_db s) so'" by auto
    note ok = lookup_Some_ok [OF l(1) [unfolded Some] okS]
    let ?f = "\<lambda>so. setBalances bal (so\<lparr>so_suicided := prev\<rparr>)"
    have "same_state L (setStateObject (?f so) s1) (setStateObject (?f so') t1)"
      by (rule put_same_state [OF st])
        (use so' ok lookup_SomeD(1) [OF l(1) [unfolded Some]] lookup_SomeD(1) [OF y(1) [unfolded so'(1)]] unchanged_db [OF l(2)]
          in \<open>auto simp: view_set view_ok_def\<close>)
    then show ?thesis using g t1 so'(1) Some assms(3) suicideChange by simp
  qed
next
  case (balanceChange a m)
  with assms(3) have n: "need_obj L a (setBalances m) s = Inr s'" by simp
  have "\<exists>t'. need_obj L a (setBalances m) t = Inr t' \<and> same_state L s' t'"
    by (rule need_obj_same [OF assms(1) n _ _ view_setBalances]) (auto simp: view_ok_def)
  then show ?thesis using balanceChange by simp
next
  case (nonceChange a m)
  with assms(3) have n: "need_obj L a (setNonce m) s = Inr s'" by simp
  have "\<exists>t'. need_obj L a (setNonce m) t = Inr t' \<and> same_state L s' t'"
    by (rule need_obj_same [OF assms(1) n _ _ view_setNonce]) (auto simp: view_ok_def)
  then show ?thesis using nonceChange by simp
next
  case (storageChange a k v)
  with assms(3) have n: "need_obj L a (setState k v) s = Inr s'" by simp
  have "\<exists>t'. need_obj L a (setState k v) t = Inr t' \<and> same_state L s' t'"
    by (rule need_obj_same [OF assms(1) n _ _ view_setState]) (auto simp: view_ok_def)
  then show ?thesis using storageChange by simp
next
  case (codeChange a c h)
  let ?f = "setCode (case h of None \<Rightarrow> 0 | Some h \<Rightarrow> h) c"
  from codeChange assms(3) have n: "need_obj L a ?f s = Inr s'" by simp
  have "\<exists>t'. need_obj L a ?f t = Inr t' \<and> same_state L s' t'"
    by (rule need_obj_same [OF assms(1) n _ _ view_setCode]) (auto simp: view_ok_def)
  then show ?thesis using codeChange by simp
next
  case (refundChange r)
  have "acct_view L (s\<lparr>sdb_refund := r\<rparr>) = acct_view L s" "state_ok L (s\<lparr>sdb_refund := r\<rparr>) = state_ok L s" for s
    by (rule lookup_same_objects; simp)+
  then show ?thesis using assms refundChange by (auto simp: same_state_def GetLogs_def)
next
  case (addLogChange h)
  have v: "acct_view L (s\<lparr>sdb_logs := l, sdb_logSize := n\<rparr>) = acct_view L s"
    "state_ok L (s\<lparr>sdb_logs := l, sdb_logSize := n\<rparr>) = state_ok L s" for s l n
    by (rule lookup_same_objects; simp)+
  have "GetLogs h s = GetLogs h t" using assms(1) by (simp add: same_state_def)
  then show ?thesis using assms addLogChange
    by (auto simp: same_state_def v Let_def GetLogs_def update_conv' delete_conv' split: if_splits)
next
  case (addPreimageChange h)
  have "acct_view L (s\<lparr>sdb_preimages := p\<rparr>) = acct_view L s" "state_ok L (s\<lparr>sdb_preimages := p\<rparr>) = state_ok L s" for s p
    by (rule lookup_same_objects; simp)+
  then show ?thesis using assms addPreimageChange by (auto simp: same_state_def GetLogs_def delete_conv')
next
  case (touchChange a)
  then show ?thesis using assms by auto
qed

lemma undo_entry_same:
  assumes "same_state L s t" "entry_ok e" "undo_entry L e s = Inr s'"
  shows "\<exists>t'. undo_entry L e t = Inr t' \<and> same_state L s' t'"
proof -
  from assms(3) obtain s1 where s1: "revert_entry L e s = Inr s1" "s' = s1\<lparr>sdb_journal := undirty e (sdb_journal s1)\<rparr>"
    by (auto simp: undo_entry_def bind_res_Inr_iff)
  from revert_entry_same [OF assms(1,2) s1(1)] obtain t1 where t1: "revert_entry L e t = Inr t1" "same_state L s1 t1" by blast
  have "same_state L s' (t1\<lparr>sdb_journal := undirty e (sdb_journal t1)\<rparr>)" unfolding s1(2)
    by (rule same_state_journal [OF t1(2)]) (use t1(2) in \<open>auto simp: dirty_count_undirty same_state_def\<close>)
  then show ?thesis using t1(1) by (simp add: undo_entry_def)
qed

interpretation jrn: undo_log "same_state L" entry_ok "undo_entry L" "undo_all L" "\<lambda>s. j_entries (sdb_journal s)" for L
  by unfold_locales (simp_all add: same_state_sym undo_entry_same, rule same_state_trans)

section \<open>Every operation can be undone\<close>

definition good :: "('t, 'd) eth_lib \<Rightarrow> ('t, 'd) StateDB \<Rightarrow> ('t, 'd) StateDB \<Rightarrow> bool" where
  "good L s s' \<longleftrightarrow> jrn.extends L s s' \<and> state_ok L s' \<and>
     sdb_validRevisions s' = sdb_validRevisions s \<and> sdb_nextRevisionId s' = sdb_nextRevisionId s"

lemma good_trans: "good L s t \<Longrightarrow> good L t u \<Longrightarrow> good L s u"
  unfolding good_def using jrn.extends_trans by fastforce

lemma good_unchanged:
  assumes "state_ok L s" "unchanged L s s'"
  shows "good L s s'"
proof -
  have st: "same_state L s' s" by (rule unchanged_same_state [OF assms])
  have r: "rest s' = rest s" using assms(2) by (simp add: unchanged_def)
  note f = rest_fields [OF r]
  have "jrn.extends L s s'" by (rule jrn.extends_obs [OF st]) (simp add: f)
  then show ?thesis using st f by (simp add: good_def same_state_def)
qed

lemma good_refl: "state_ok L s \<Longrightarrow> good L s s"
  by (rule good_unchanged) simp_all

lemma good_entry:
  assumes "j_entries (sdb_journal s') = j_entries (sdb_journal s) @ [e]" "entry_ok e" "undo_entry L e s' = Inr t"
    "same_state L t s" "state_ok L s'" "sdb_validRevisions s' = sdb_validRevisions s"
    "sdb_nextRevisionId s' = sdb_nextRevisionId s"
  shows "good L s s'"
  using jrn.extends_entry [of s' s e L t] assms by (simp add: good_def)

lemma same_state_intro:
  assumes "state_ok L s" "frame t = frame s" "acct_view L t = acct_view L s"
    "\<And>b so. map_of (sdb_stateObjects t) b = Some so \<Longrightarrow> so_deleted so \<Longrightarrow> map_of (sdb_stateObjects s) b = Some so"
    "sdb_refund t = sdb_refund s" "sdb_logs t = sdb_logs s" "sdb_logSize t = sdb_logSize s"
    "sdb_preimages t = sdb_preimages s"
    "\<And>b. b \<noteq> ripemd \<Longrightarrow> dirty_count (j_dirties (sdb_journal t)) b = dirty_count (j_dirties (sdb_journal s)) b"
  shows "same_state L t s"
  using assms state_ok_cong [OF assms(1,3,2,4)] by (simp add: same_state_def GetLogs_def)

lemma state_ok_append [simp]: "state_ok L (append_entry e s) = state_ok L s"
  by (rule lookup_same_objects) simp_all

lemma view_append [simp]: "acct_view L (append_entry e s) = acct_view L s"
  by (rule lookup_same_objects) simp_all

lemma view_journal [simp]: "acct_view L (s\<lparr>sdb_journal := j\<rparr>) = acct_view L s"
  by (rule lookup_same_objects) simp_all

text \<open>Replacing a live object, with an entry whose undoing puts back an object with the old view.\<close>

lemma good_live:
  assumes "state_ok L s" "lookup L s a = Inr (Some so)" "dirtied e = Some a" "entry_ok e"
    "so_address so1 = a" "\<not> so_deleted so1" "view_ok a (obj_view L (sdb_db s) so1)"
    "\<And>s. map_of (sdb_stateObjects s) a = Some so1 \<Longrightarrow> revert_entry L e s = Inr (setStateObject so2 s)"
    "obj_view L (sdb_db s) so2 = obj_view L (sdb_db s) so" "\<not> so_deleted so2"
  shows "good L s (setStateObject so1 (append_entry e s))"
proof -
  let ?s = "setStateObject so1 (append_entry e s)"
  let ?t = "(setStateObject so2 ?s)\<lparr>sdb_journal := undirty e (sdb_journal (setStateObject so2 ?s))\<rparr>"
  have ad: "so_address so2 = a" using arg_cong [OF assms(9), of v_address] lookup_Some_ok(2) [OF assms(2,1)]
    by (simp add: obj_view_def)
  have u: "undo_entry L e ?s = Inr ?t" using assms(5,8) by (simp add: undo_entry_def)
  have "acct_view L ?t = acct_view L s"
    using assms(5,6,9,10) ad lookup_SomeD(2) [OF assms(2)] by (simp add: view_setStateObject fun_eq_iff)
  then have "same_state L ?t s"
    by (intro same_state_intro [OF assms(1)])
      (use ad assms(3,5,6,10) in \<open>auto simp: dirty_count_undirty dirty_count_append split: if_splits\<close>)
  moreover have "state_ok L ?s" using assms by (auto intro!: state_ok_setStateObject)
  ultimately show ?thesis by (intro good_entry [OF _ assms(4) u]) simp_all
qed

lemma getStateObject_live:
  "map_of (sdb_stateObjects s) a = Some so \<Longrightarrow> \<not> so_deleted so \<Longrightarrow> getStateObject L a s = Inr (Some so, s)"
  by (simp add: getStateObject_def)

lemma good_create:
  assumes "state_ok L s" "lookup L s a = Inr None" "so_address n = a" "\<not> so_deleted n" "view_ok a (obj_view L (sdb_db s) n)"
  shows "good L s (setStateObject n (append_entry (createObjectChange a) s))"
proof -
  let ?e = "createObjectChange a :: 'a journalEntry"
  let ?s = "setStateObject n (append_entry ?e s)"
  let ?u = "?s\<lparr>sdb_stateObjects := AList.delete a (sdb_stateObjects ?s),
            sdb_stateObjectsDirty := removeAll a (sdb_stateObjectsDirty ?s)\<rparr>"
  let ?t = "?u\<lparr>sdb_journal := undirty ?e (sdb_journal ?u)\<rparr>"
  have ld: "load L s a = Inr None"
    using assms(1,2) by (auto simp: lookup_def state_ok_def split: option.splits if_splits)
  have "acct_view L s a = Inr None" using assms(2) by (simp add: acct_view_def)
  then have v: "acct_view L ?t = acct_view L s"
    using ld assms(3,4) by (simp add: view_delete view_setStateObject fun_eq_iff)
  have u: "undo_entry L ?e ?s = Inr ?t" by (simp add: undo_entry_def)
  have st: "same_state L ?t s"
    by (intro same_state_intro [OF assms(1) _ v])
      (use assms(3,4) in \<open>auto simp: dirty_count_undirty dirty_count_append delete_conv' split: if_splits\<close>)
  have "state_ok L ?s" using assms by (auto intro!: state_ok_setStateObject)
  then show ?thesis by (intro good_entry [OF _ _ u st]) simp_all
qed

lemma good_reset:
  assumes "state_ok L s" "lookup L s a = Inr (Some p)" "so_address n = a" "\<not> so_deleted n" "view_ok a (obj_view L (sdb_db s) n)"
  shows "good L s (setStateObject n (append_entry (resetObjectChange p) s))"
proof -
  let ?e = "resetObjectChange p"
  let ?s = "setStateObject n (append_entry ?e s)"
  let ?t = "(setStateObject p ?s)\<lparr>sdb_journal := undirty ?e (sdb_journal (setStateObject p ?s))\<rparr>"
  note p = lookup_Some_ok [OF assms(2,1)] lookup_SomeD [OF assms(2)]
  have u: "undo_entry L ?e ?s = Inr ?t" by (simp add: undo_entry_def)
  have v: "acct_view L ?t = acct_view L s" using p assms(3,4) by (simp add: view_setStateObject fun_eq_iff)
  have st: "same_state L ?t s"
    by (intro same_state_intro [OF assms(1) _ v])
      (use assms(3,4) p in \<open>auto simp: dirty_count_undirty dirty_count_append split: if_splits\<close>)
  have "state_ok L ?s" using assms by (auto intro!: state_ok_setStateObject)
  then show ?thesis using p by (intro good_entry [OF _ _ u st]) simp_all
qed

lemma update_update: "AList.update k v (AList.update k w al) = AList.update k v al"
  by (induction al) auto

lemma setStateObject_twice: "so_address n = so_address m \<Longrightarrow> setStateObject n (setStateObject m s) = setStateObject n s"
  by (simp add: setStateObject_def update_update)

lemma fresh_object:
  "so_address (so_SetFullShardKey k (setNonce 0 (newObject L a NewAccount))) = a"
  "\<not> so_deleted (so_SetFullShardKey k (setNonce 0 (newObject L a NewAccount)))"
  "view_ok a (obj_view L d (so_SetFullShardKey k (setNonce 0 (newObject L a NewAccount))))"
  by (simp_all add: so_SetFullShardKey_def setNonce_def newObject_def NewAccount_def view_ok_def obj_view_def
      CopyWithDB_def TokenBalances_Copy_def NewEmptyTokenBalances_def)

lemma SetFullShardKey_twice: "so_SetFullShardKey k (so_SetFullShardKey l so) = so_SetFullShardKey k so"
  by (simp add: so_SetFullShardKey_def)

lemma createObject_good:
  assumes "state_ok L s" "createObject L a s = Inr (n, prev, s')"
  shows "good L s s'" "lookup L s' a = Inr (Some n)"
    "prev = Some p \<Longrightarrow> \<exists>s1. unchanged L s s1 \<and> lookup L s1 a = Inr (Some p) \<and>
       s' = setStateObject n (append_entry (resetObjectChange p) s1) \<and> so_address n = a \<and> \<not> so_deleted n
       \<and> view_ok a (obj_view L (sdb_db s1) n)"
proof -
  from assms(2) obtain x s1 where g: "getStateObject L a s = Inr (x, s1)"
    by (auto simp: createObject_def bind_res_Inr_iff)
  note l = getStateObject_Inr [OF g]
  have g1: "good L s s1" by (rule good_unchanged [OF assms(1) l(2)])
  have ok1: "state_ok L s1" using g1 by (simp add: good_def)
  have l1: "lookup L s1 a = Inr x" using l by simp
  have *: "good L s1 s' \<and> so_address n = a \<and> \<not> so_deleted n \<and> prev = x \<and> (prev = Some p \<longrightarrow>
      s' = setStateObject n (append_entry (resetObjectChange p) s1) \<and> view_ok a (obj_view L (sdb_db s1) n))
      \<and> lookup L s' a = Inr (Some n)" for p
  proof (cases x)
    case None
    have "good L s1 (setStateObject n (append_entry (createObjectChange a) s1))" "so_address n = a" "\<not> so_deleted n"
      using good_create [OF ok1 l1 [unfolded None]] fresh_object [where L = L] None assms(2) g
      by (auto simp: createObject_def Let_def)
    then show ?thesis using assms(2) g None by (auto simp: createObject_def Let_def lookup_setStateObject)
  next
    case (Some q)
    with assms(2) g obtain k where k: "n = so_SetFullShardKey k (setNonce 0 (newObject L a NewAccount))" "prev = Some q"
      "s' = setStateObject n (append_entry (resetObjectChange q) s1)"
      by (auto simp: createObject_def Let_def bind_res_Inr_iff SetFullShardKey_twice)
    have n: "so_address n = a" "\<not> so_deleted n" "view_ok a (obj_view L d n)" for d
      unfolding k(1) by (rule fresh_object)+
    show ?thesis using good_reset [OF ok1 l1 [unfolded Some] n] n k Some by (auto simp: lookup_setStateObject)
  qed
  show "good L s s'" using g1 * good_trans by blast
  show "lookup L s' a = Inr (Some n)" using * by blast
  show "prev = Some p \<Longrightarrow> \<exists>s1. unchanged L s s1 \<and> lookup L s1 a = Inr (Some p) \<and>
       s' = setStateObject n (append_entry (resetObjectChange p) s1) \<and> so_address n = a \<and> \<not> so_deleted n
       \<and> view_ok a (obj_view L (sdb_db s1) n)"
    using * [of p] l(2) l1 by blast
qed

lemma GetOrNew_good:
  assumes "state_ok L s" "GetOrNewStateObject L a s = Inr (so, s')"
  shows "good L s s'" "lookup L s' a = Inr (Some so)"
proof -
  from assms(2) obtain x s1 where g: "getStateObject L a s = Inr (x, s1)"
    by (auto simp: GetOrNewStateObject_def bind_res_Inr_iff)
  note l = getStateObject_Inr [OF g]
  have g1: "good L s s1" by (rule good_unchanged [OF assms(1) l(2)])
  have ok1: "state_ok L s1" using g1 by (simp add: good_def)
  have "good L s1 s' \<and> lookup L s' a = Inr (Some so)"
  proof (cases x)
    case None
    with assms(2) g obtain p where "createObject L a s1 = Inr (so, p, s')"
      by (auto simp: GetOrNewStateObject_def bind_res_Inr_iff)
    from createObject_good(1,2) [OF ok1 this] show ?thesis by blast
  next
    case (Some o')
    with l have "lookup L s1 a = Inr (Some o')" by simp
    with lookup_SomeD(1) [OF this] assms(2) g Some good_refl [OF ok1] show ?thesis
      by (auto simp: GetOrNewStateObject_def)
  qed
  then show "good L s s'" "lookup L s' a = Inr (Some so)" using g1 good_trans by blast+
qed

lemma CreateAccount_good:
  assumes "state_ok L s" "CreateAccount L a s = Inr s'"
  shows "good L s s'"
proof -
  from assms(2) obtain n prev s1 where c: "createObject L a s = Inr (n, prev, s1)"
    by (auto simp: CreateAccount_def bind_res_Inr_iff)
  show ?thesis
  proof (cases prev)
    case None
    then show ?thesis using createObject_good(1) [OF assms(1) c] assms(2) c by (simp add: CreateAccount_def)
  next
    case (Some p)
    from createObject_good(3) [OF assms(1) c Some] obtain s0 where s0: "unchanged L s s0" "lookup L s0 a = Inr (Some p)"
      "s1 = setStateObject n (append_entry (resetObjectChange p) s0)" "so_address n = a" "\<not> so_deleted n"
      "view_ok a (obj_view L (sdb_db s0) n)" by blast
    let ?n = "setBalances (GetBalanceMap (acc_TokenBalances (so_data p))) n"
    have g0: "good L s s0" by (rule good_unchanged [OF assms(1) s0(1)])
    then have "state_ok L s0" by (simp add: good_def)
    from good_reset [OF this s0(2), of ?n] s0(4-6)
    have "good L s0 (setStateObject ?n (append_entry (resetObjectChange p) s0))"
      by (simp add: view_set view_ok_def)
    then show ?thesis using good_trans [OF g0] assms(2) c Some s0(3)
      by (simp add: CreateAccount_def setStateObject_twice)
  qed
qed

lemma no_trie_balance:
  assumes "tb_tokenTrie t = None"
  shows "(\<lambda>i. case map_of (GetBalanceMap t) i of Some b \<Rightarrow> b | None \<Rightarrow> 0) = token_value L t"
  using assms by (simp add: fun_eq_iff token_value_def GetBalanceMap_def TokenBalances_Copy_def trie_value_def
      split: option.split)

text \<open>Undoing a balance change gives back all balances of an account without a token trie.\<close>

lemma revert_balances_view:
  assumes "obj_view L d so1 = (obj_view L d so)\<lparr>v_balance := f\<rparr>" "tb_tokenTrie (acc_TokenBalances (so_data so)) = None"
  shows "obj_view L d (setBalances (GetBalanceMap (acc_TokenBalances (so_data so))) so1) = obj_view L d so"
proof -
  have "v_balance (obj_view L d so) = token_value L (acc_TokenBalances (so_data so))"
    "\<not> v_tokenTrie (obj_view L d so)" using assms(2) by (simp_all add: obj_view_def)
  then show ?thesis unfolding view_setBalances assms(1) no_trie_balance [OF assms(2), of L] by simp
qed

lemma need_obj_live:
  assumes "map_of (sdb_stateObjects s) a = Some so" "\<not> so_deleted so"
  shows "need_obj L a f s = Inr (setStateObject (f so) s)"
  using assms by (simp add: need_obj_def getStateObject_live)

lemma view_setTokenBalance:
  assumes "setTokenBalance amount i so = Inr so1" "tb_tokenTrie (acc_TokenBalances (so_data so)) = None"
  shows "obj_view L d so1 = (obj_view L d so)\<lparr>v_balance := (token_value L (acc_TokenBalances (so_data so)))(i := amount)\<rparr>"
    "so_address so1 = so_address so" "so_deleted so1 = so_deleted so"
  using assms by (auto simp: setTokenBalance_def SetValue_def bind_res_Inr_iff obj_view_fields token_value_def
      update_conv' fun_eq_iff trie_value_def split: if_splits option.split)

lemma SetBalance_good:
  assumes "state_ok L s" "lookup L s a = Inr (Some so)" "so_SetBalance amount i so s = Inr s'"
  shows "good L s s'"
proof -
  note ok = lookup_Some_ok [OF assms(2,1)] lookup_SomeD [OF assms(2)]
  from assms(3) obtain so1 where so1: "setTokenBalance amount i so = Inr so1"
    "s' = setStateObject so1 (append_entry (balanceChange a (GetBalanceMap (acc_TokenBalances (so_data so)))) s)"
    using ok(2) by (auto simp: so_SetBalance_def Let_def bind_res_Inr_iff)
  note v = view_setTokenBalance [OF so1(1) ok(3)]
  have "view_ok a (obj_view L (sdb_db s) so1)" using ok(1) by (simp add: v(1) view_ok_def)
  then show ?thesis unfolding so1(2)
    by (intro good_live [OF assms(1,2) _ _ _ _ _ _ revert_balances_view [OF v(1) ok(3)]])
      (use ok(2,5) v(2,3) in \<open>simp_all add: need_obj_live\<close>)
qed

lemma same_lookup_trans:
  assumes "state_ok L s" "lookup L s a = Inr (Some so)" "same_obj L (sdb_db s) so so1"
  shows "unchanged L s (setStateObject so1 s)" "lookup L (setStateObject so1 s) a = Inr (Some so1)"
proof -
  have a: "so_address so1 = a" "\<not> so_deleted so1"
    using lookup_Some_ok(2) [OF assms(2,1)] lookup_SomeD(1) [OF assms(2)] same_objD [OF assms(3)] assms(3)
    by (auto simp: same_obj_def)
  show "unchanged L s (setStateObject so1 s)" by (rule unchanged_put [OF _ assms(3)]) (use a assms(2) in auto)
  show "lookup L (setStateObject so1 s) a = Inr (Some so1)" using a by (simp add: lookup_setStateObject)
qed

lemma SetNonce_good:
  assumes "state_ok L s" "lookup L s a = Inr (Some so)"
  shows "good L s (so_SetNonce n so s)"
proof -
  note ok = lookup_Some_ok [OF assms(2,1)] lookup_SomeD [OF assms(2)]
  have v: "obj_view L d (setNonce (acc_Nonce (so_data so)) (setNonce n so)) = obj_view L d so" for d
    unfolding view_set by (simp add: obj_view_def)
  have "good L s (setStateObject (setNonce n so) (append_entry (nonceChange a (acc_Nonce (so_data so))) s))"
    by (rule good_live [OF assms _ _ _ _ _ _ v]) (use ok in \<open>simp_all add: need_obj_live view_set view_ok_def\<close>)
  then show ?thesis using ok(2) by (simp add: so_SetNonce_def)
qed

lemma SetState_good:
  assumes "state_ok L s" "lookup L s a = Inr (Some so)" "so_SetState L k v so s = Inr s'"
  shows "good L s s'"
proof -
  note ok = lookup_Some_ok [OF assms(2,1)] lookup_SomeD [OF assms(2)]
  from assms(3) obtain prev so1 where g: "so_GetState L (sdb_db s) k so = Inr (prev, so1)"
    by (auto simp: so_SetState_def bind_res_Inr_iff)
  have sm: "same_obj L (sdb_db s) so so1" by (rule GetState_same [OF g])
  have a1: "so_address so1 = a" "\<not> so_deleted so1" using same_objD [OF sm] ok sm by (auto simp: same_obj_def)
  have v1: "obj_view L (sdb_db s) so1 = obj_view L (sdb_db s) so" using sm by (simp add: same_obj_def)
  show ?thesis
  proof (cases "prev = v")
    case True
    with assms(3) g have "s' = setStateObject so1 s" by (simp add: so_SetState_def)
    then show ?thesis using good_unchanged [OF assms(1)] same_lookup_trans(1) [OF assms(1,2) sm] by simp
  next
    case False
    have "v_state (obj_view L (sdb_db s) so) k = Inr prev" using g by (simp add: obj_view_def)
    then have v: "obj_view L (sdb_db s) (setState k prev (setState k v so1)) = obj_view L (sdb_db s) so"
      by (simp add: view_set v1 fun_upd_idem)
    have "good L s (setStateObject (setState k v so1) (append_entry (storageChange a k prev) s))"
      by (rule good_live [OF assms(1,2) _ _ _ _ _ _ v]) (use ok a1 v1 in \<open>simp_all add: need_obj_live view_set view_ok_def\<close>)
    then show ?thesis using assms(3) g False a1 by (simp add: so_SetState_def)
  qed
qed

lemma SetCode_good:
  assumes "state_ok L s" "lookup L s a = Inr (Some so)"
  shows "good L s (so_SetCode L h c so s)"
proof -
  note ok = lookup_Some_ok [OF assms(2,1)] lookup_SomeD [OF assms(2)]
  obtain pc so1 where g: "Code L (sdb_db s) so = (pc, so1)" by (cases "Code L (sdb_db s) so")
  note c = Code_value [OF g]
  have a1: "so_address so1 = a" "\<not> so_deleted so1" using same_objD [OF c(1)] ok c(1) by (auto simp: same_obj_def)
  have v1: "obj_view L (sdb_db s) so1 = obj_view L (sdb_db s) so" using c(1) by (simp add: same_obj_def)
  obtain h0 where h0: "acc_CodeHash (so_data so) = Some h0" using ok(4) by blast
  have pc: "or_else pc (code_lookup L (sdb_db s) (so_addrHash so) (Some h0)) = pc"
    by (cases "so_code so") (simp_all add: c(2) obj_view_fields h0 or_else_def split: option.split)
  have "obj_view L (sdb_db s) (setCode h0 pc (setCode h c so1)) =
      (obj_view L (sdb_db s) so)\<lparr>v_code := pc, v_CodeHash := Some h0\<rparr>"
    using pc unfolding view_set v1 by (simp add: obj_view_def)
  moreover have "v_CodeHash (obj_view L (sdb_db s) so) = Some h0" using h0 by (simp add: obj_view_def)
  ultimately have v: "obj_view L (sdb_db s) (setCode h0 pc (setCode h c so1)) = obj_view L (sdb_db s) so"
    by (intro obj_view.equality) (simp_all add: c(2))
  have "good L s (setStateObject (setCode h c so1) (append_entry (codeChange a pc (Some h0)) s))"
    by (rule good_live [OF assms _ _ _ _ _ _ v]) (use ok a1 v1 in \<open>simp_all add: need_obj_live view_set view_ok_def\<close>)
  then show ?thesis using g c(3) h0 a1 by (simp add: so_SetCode_def)
qed

lemma touch_good:
  assumes "state_ok L s"
  shows "good L s (touch so s)"
proof -
  let ?e = "touchChange (so_address so) :: 'a journalEntry"
  let ?s = "touch so s"
  have o: "sdb_stateObjects ?s = sdb_stateObjects s" "frame ?s = frame s" "sdb_refund ?s = sdb_refund s"
    "sdb_logs ?s = sdb_logs s" "sdb_logSize ?s = sdb_logSize s" "sdb_preimages ?s = sdb_preimages s"
    "sdb_validRevisions ?s = sdb_validRevisions s" "sdb_nextRevisionId ?s = sdb_nextRevisionId s"
    "j_entries (sdb_journal ?s) = j_entries (sdb_journal s) @ [?e]"
    by (simp_all add: touch_def Let_def journal_dirty_def)
  have d: "dirty_count (j_dirties (sdb_journal ?s)) b =
      (if b = so_address so then dirty_count (j_dirties (sdb_journal s)) b + 1 else dirty_count (j_dirties (sdb_journal s)) b)"
    if "b \<noteq> ripemd" for b
  proof (cases "so_address so = ripemd")
    case True
    then have "dirty_count (j_dirties (sdb_journal ?s)) b = dirty_count (j_dirties (journal_append ?e (sdb_journal s))) b"
      using that by (simp add: touch_def Let_def journal_dirty_def dirty_count_def update_conv')
    then show ?thesis using True by (simp add: dirty_count_append)
  next
    case False
    then show ?thesis by (simp add: touch_def Let_def dirty_count_append)
  qed
  let ?t = "?s\<lparr>sdb_journal := undirty ?e (sdb_journal ?s)\<rparr>"
  have l: "acct_view L ?s = acct_view L s" "state_ok L ?s = state_ok L s"
    by (rule lookup_same_objects; simp add: o)+
  have u: "undo_entry L ?e ?s = Inr ?t" by (simp add: undo_entry_def)
  have "same_state L ?t s"
    by (rule same_state_intro [OF assms]) (use o l d in \<open>auto simp: dirty_count_undirty\<close>)
  then show ?thesis by (intro good_entry [OF _ _ u]) (use o l assms in simp_all)
qed

lemma AddBalance_good:
  assumes "state_ok L s" "lookup L s a = Inr (Some so)"
  shows "so_AddBalance L x i so s = Inr s' \<Longrightarrow> good L s s'" "so_SubBalance L x i so s = Inr s' \<Longrightarrow> good L s s'"
proof -
  have b: "so1 = so" if "so_Balance L i so = Inr (b, so1)" for b so1
    by (rule Balance_same [OF that]) (rule lookup_Some_ok(3) [OF assms(2,1)])
  show "so_AddBalance L x i so s = Inr s' \<Longrightarrow> good L s s'"
    by (auto simp: so_AddBalance_def bind_res_Inr_iff touch_good [OF assms(1)] dest!: b
        intro: SetBalance_good [OF assms] split: if_splits)
  show "so_SubBalance L x i so s = Inr s' \<Longrightarrow> good L s s'"
    using good_refl [OF assms(1)]
    by (auto simp: so_SubBalance_def bind_res_Inr_iff dest!: b intro: SetBalance_good [OF assms] split: if_splits)
qed

lemma Suicide_good:
  assumes "state_ok L s" "Suicide L a s = Inr (b, s')"
  shows "good L s s'"
proof -
  from assms(2) obtain x s1 where g: "getStateObject L a s = Inr (x, s1)" by (auto simp: Suicide_def bind_res_Inr_iff)
  note l = getStateObject_Inr [OF g]
  have g1: "good L s s1" by (rule good_unchanged [OF assms(1) l(2)])
  have ok1: "state_ok L s1" using g1 by (simp add: good_def)
  show ?thesis
  proof (cases x)
    case None
    then show ?thesis using assms(2) g g1 by (simp add: Suicide_def)
  next
    case (Some so)
    have l1: "lookup L s1 a = Inr (Some so)" using l Some by simp
    note ok = lookup_Some_ok [OF l1 ok1] lookup_SomeD [OF l1]
    let ?m = "GetBalanceMap (acc_TokenBalances (so_data so))"
    let ?so = "(markSuicided so)\<lparr>so_data := (so_data so)\<lparr>acc_TokenBalances := NewEmptyTokenBalances\<lparr>tb_db := True\<rparr>\<rparr>\<rparr>"
    let ?so2 = "setBalances ?m (?so\<lparr>so_suicided := so_suicided so\<rparr>)"
    have nb: "obj_view L d ?so = (obj_view L d so)\<lparr>v_suicided := True, v_balance := (\<lambda>i. 0)\<rparr>" for d
      using ok(3) by (simp add: obj_view_fields markSuicided_def token_value_def NewEmptyTokenBalances_def trie_value_def fun_eq_iff)
    have "obj_view L d ?so2 = (obj_view L d so)\<lparr>v_suicided := so_suicided so,
        v_balance := token_value L (acc_TokenBalances (so_data so)), v_tokenTrie := False\<rparr>" for d
      unfolding view_setBalances view_suicided nb no_trie_balance [OF ok(3), of L] by simp
    moreover have "v_suicided (obj_view L d so) = so_suicided so" "\<not> v_tokenTrie (obj_view L d so)"
      "v_balance (obj_view L d so) = token_value L (acc_TokenBalances (so_data so))" for d
      using ok(3) by (simp_all add: obj_view_def)
    ultimately have v: "obj_view L d ?so2 = obj_view L d so" for d
      by (intro obj_view.equality) simp_all
    have "good L s1 (setStateObject ?so (append_entry (suicideChange a (so_suicided so) ?m) s1))"
      by (rule good_live [OF ok1 l1 _ _ _ _ _ _ v])
        (use ok nb in \<open>simp_all add: getStateObject_live view_ok_def markSuicided_def\<close>)
    then show ?thesis using assms(2) g Some good_trans [OF g1] by (simp add: Suicide_def Let_def markSuicided_def)
  qed
qed

end
