(* ===== verification/Snapshots.thy ===== *)
theory Snapshots
  imports StateRevert
begin

text \<open>
  Sequences of operations on the state database between a snapshot and the return to it: whatever
  operations run in between, nested snapshots and returns included, \<open>RevertToSnapshot\<close> succeeds and
  leads back to the observations of the state in which the snapshot was taken.
\<close>

section \<open>Operations\<close>

datatype sop =
    OpAddBalance recipient int u64
  | OpSubBalance recipient int u64
  | OpSetBalance recipient int u64
  | OpSetNonce recipient u64
  | OpSetCode recipient "bytes option"
  | OpSetState recipient hash hash
  | OpSuicide recipient
  | OpCreateAccount recipient
  | OpAddLog Log
  | OpAddPreimage hash bytes
  | OpAddRefund u64
  | OpSubRefund u64
  | OpExist recipient
  | OpEmpty recipient
  | OpGetBalance recipient u64
  | OpGetBalances recipient
  | OpGetNonce recipient
  | OpGetCode recipient
  | OpGetCodeSize recipient
  | OpGetCodeHash recipient
  | OpGetState recipient hash
  | OpGetCommittedState recipient hash
  | OpHasSuicided recipient
  | OpGetFullShardKey recipient
  | OpSnapshot
  | OpRevert nat

fun exec_op :: "('t, 'd) eth_lib \<Rightarrow> sop \<Rightarrow> ('t, 'd) StateDB \<Rightarrow> ('t, 'd) StateDB res" where
  "exec_op L (OpAddBalance a x i) s = AddBalance L a x i s"
| "exec_op L (OpSubBalance a x i) s = SubBalance L a x i s"
| "exec_op L (OpSetBalance a x i) s = SetBalance L a x i s"
| "exec_op L (OpSetNonce a n) s = SetNonce L a n s"
| "exec_op L (OpSetCode a c) s = SetCode L a c s"
| "exec_op L (OpSetState a k v) s = SetState L a k v s"
| "exec_op L (OpSuicide a) s = map_res snd (Suicide L a s)"
| "exec_op L (OpCreateAccount a) s = CreateAccount L a s"
| "exec_op L (OpAddLog l) s = Inr (AddLog l s)"
| "exec_op L (OpAddPreimage h p) s = Inr (AddPreimage h p s)"
| "exec_op L (OpAddRefund g) s = Inr (AddRefund g s)"
| "exec_op L (OpSubRefund g) s = SubRefund g s"
| "exec_op L (OpExist a) s = map_res snd (Exist L a s)"
| "exec_op L (OpEmpty a) s = map_res snd (Empty L a s)"
| "exec_op L (OpGetBalance a i) s = map_res snd (GetBalance L a i s)"
| "exec_op L (OpGetBalances a) s = map_res snd (GetBalances L a s)"
| "exec_op L (OpGetNonce a) s = map_res snd (GetNonce L a s)"
| "exec_op L (OpGetCode a) s = map_res snd (GetCode L a s)"
| "exec_op L (OpGetCodeSize a) s = map_res snd (GetCodeSize L a s)"
| "exec_op L (OpGetCodeHash a) s = map_res snd (GetCodeHash L a s)"
| "exec_op L (OpGetState a k) s = map_res snd (GetState L a k s)"
| "exec_op L (OpGetCommittedState a k) s = map_res snd (GetCommittedState L a k s)"
| "exec_op L (OpHasSuicided a) s = map_res snd (HasSuicided L a s)"
| "exec_op L (OpGetFullShardKey a) s = map_res snd (GetFullShardKey L a s)"
| "exec_op L OpSnapshot s = Inr (snd (Snapshot s))"
| "exec_op L (OpRevert r) s = RevertToSnapshot L r s"

primrec run_ops :: "('t, 'd) eth_lib \<Rightarrow> sop list \<Rightarrow> ('t, 'd) StateDB \<Rightarrow> ('t, 'd) StateDB res" where
  "run_ops L [] s = Inr s"
| "run_ops L (op # ops) s = bind_res (exec_op L op s) (run_ops L ops)"

fun plain_op :: "sop \<Rightarrow> bool" where
  "plain_op OpSnapshot = False"
| "plain_op (OpRevert r) = False"
| "plain_op op = True"

section \<open>Logs, preimages and refunds\<close>

lemma good_state_entry:
  fixes s :: "('t, 'd) StateDB"
  assumes "state_ok L s" "sdb_stateObjects s' = sdb_stateObjects s" "frame s' = frame s"
    "sdb_journal s' = journal_append e (sdb_journal s)" "dirtied e = None" "entry_ok e"
    "revert_entry L e s' = Inr t" "frame t = frame s" "sdb_stateObjects t = sdb_stateObjects s"
    "sdb_journal t = sdb_journal s'" "sdb_refund t = sdb_refund s" "\<And>h. GetLogs h t = GetLogs h s"
    "sdb_logSize t = sdb_logSize s" "map_of (sdb_preimages t) = map_of (sdb_preimages s)"
    "sdb_validRevisions s' = sdb_validRevisions s" "sdb_nextRevisionId s' = sdb_nextRevisionId s"
  shows "good L s s'"
proof -
  let ?t = "t\<lparr>sdb_journal := undirty e (sdb_journal t)\<rparr>"
  have u: "undo_entry L e s' = Inr ?t" using assms(7) by (simp add: undo_entry_def)
  have l: "acct_view L ?t = acct_view L s" "state_ok L ?t = state_ok L s" "state_ok L s' = state_ok L s"
    by (rule lookup_same_objects; simp add: assms)+
  have "same_state L ?t s"
    using assms l by (auto simp: same_state_def dirty_count_undirty dirty_count_append GetLogs_def)
  then show ?thesis by (intro good_entry [OF _ assms(6) u]) (use assms l in simp_all)
qed

lemma AddLog_good:
  assumes "state_ok L s"
  shows "good L s (AddLog l s)"
proof -
  obtain lg where s': "AddLog l s = (append_entry (addLogChange (sdb_thash s)) s)
      \<lparr>sdb_logs := AList.update (sdb_thash s) (GetLogs (sdb_thash s) s @ [lg]) (sdb_logs s), sdb_logSize := sdb_logSize s + 1\<rparr>"
    by (auto simp: AddLog_def Let_def GetLogs_def)
  have g: "GetLogs (sdb_thash s) (AddLog l s) = GetLogs (sdb_thash s) s @ [lg]"
    by (simp add: s' GetLogs_def update_conv')
  have "\<exists>t. revert_entry L (addLogChange (sdb_thash s)) (AddLog l s) = Inr t \<and> frame t = frame s
      \<and> sdb_stateObjects t = sdb_stateObjects s \<and> sdb_journal t = sdb_journal (AddLog l s)
      \<and> sdb_refund t = sdb_refund s \<and> (\<forall>h. GetLogs h t = GetLogs h s) \<and> sdb_logSize t = sdb_logSize s
      \<and> sdb_preimages t = sdb_preimages s"
    using g by (auto simp: s' Let_def GetLogs_def update_conv' delete_conv' split: option.split)
  then obtain t where t: "revert_entry L (addLogChange (sdb_thash s)) (AddLog l s) = Inr t" "frame t = frame s"
    "sdb_stateObjects t = sdb_stateObjects s" "sdb_journal t = sdb_journal (AddLog l s)" "sdb_refund t = sdb_refund s"
    "\<And>h. GetLogs h t = GetLogs h s" "sdb_logSize t = sdb_logSize s" "sdb_preimages t = sdb_preimages s" by blast
  show ?thesis by (rule good_state_entry [OF assms _ _ _ _ _ t(1-7)]) (simp_all add: s' t(8))
qed

lemma AddPreimage_good:
  assumes "state_ok L s"
  shows "good L s (AddPreimage h p s)"
proof (cases "map_of (sdb_preimages s) h")
  case (Some x)
  then show ?thesis using good_refl [OF assms] by (simp add: AddPreimage_def)
next
  case None
  let ?s = "(append_entry (addPreimageChange h) s)\<lparr>sdb_preimages := AList.update h p (sdb_preimages s)\<rparr>"
  have "good L s ?s"
    by (rule good_state_entry [OF assms, where e = "addPreimageChange h"
          and t = "?s\<lparr>sdb_preimages := AList.delete h (sdb_preimages ?s)\<rparr>"])
      (use None in \<open>auto simp: GetLogs_def delete_conv' update_conv' fun_eq_iff\<close>)
  then show ?thesis using None by (simp add: AddPreimage_def)
qed

lemma refund_good:
  assumes "state_ok L s"
  shows "good L s ((append_entry (refundChange (sdb_refund s)) s)\<lparr>sdb_refund := r\<rparr>)"
  by (rule good_state_entry [OF assms, where e = "refundChange (sdb_refund s)"
        and t = "(append_entry (refundChange (sdb_refund s)) s)\<lparr>sdb_refund := sdb_refund s\<rparr>"])
    (simp_all add: GetLogs_def)

section \<open>Plain operations\<close>

lemma getOrNew_step:
  assumes "state_ok L s" "bind_res (GetOrNewStateObject L a s) f = Inr s'"
    "\<And>so s1. state_ok L s1 \<Longrightarrow> lookup L s1 a = Inr (Some so) \<Longrightarrow> f (so, s1) = Inr s' \<Longrightarrow> good L s1 s'"
  shows "good L s s'"
proof -
  from assms(2) obtain so s1 where g: "GetOrNewStateObject L a s = Inr (so, s1)" "f (so, s1) = Inr s'"
    by (auto simp: bind_res_Inr_iff)
  note n = GetOrNew_good [OF assms(1) g(1)]
  then have "state_ok L s1" by (simp add: good_def)
  from good_trans [OF n(1) assms(3) [OF this n(2) g(2)]] show ?thesis .
qed

lemma getOrNew_read:
  assumes "state_ok L s" "map_res snd (bind_res (GetOrNewStateObject L a s) f) = Inr s'"
    "\<And>so s1 v t. f (so, s1) = Inr (v, t) \<Longrightarrow> t = s1"
  shows "good L s s'"
  using assms GetOrNew_good(1) [OF assms(1)] by (fastforce simp: map_res_eq_Inr bind_res_Inr_iff)

lemma get_read:
  assumes "state_ok L s" "map_res snd (bind_res (getStateObject L a s) f) = Inr s'"
    "\<And>s1 v t. f (None, s1) = Inr (v, t) \<Longrightarrow> unchanged L s1 t"
    "\<And>so s1 v t. f (Some so, s1) = Inr (v, t) \<Longrightarrow> unchanged L s1 t
       \<or> (\<exists>so1. same_obj L (sdb_db s1) so so1 \<and> t = setStateObject so1 s1)"
  shows "good L s s'"
proof -
  from assms(2) obtain x s1 v where g: "getStateObject L a s = Inr (x, s1)" "f (x, s1) = Inr (v, s')"
    by (auto simp: map_res_eq_Inr bind_res_Inr_iff)
  note l = getStateObject_Inr [OF g(1)]
  have g1: "good L s s1" by (rule good_unchanged [OF assms(1) l(2)])
  then have ok1: "state_ok L s1" by (simp add: good_def)
  have "unchanged L s1 s'"
  proof (cases x)
    case None
    then show ?thesis using g(2) assms(3) by blast
  next
    case (Some so)
    then have l1: "lookup L s1 a = Inr (Some so)" using l by simp
    then show ?thesis using g(2) Some assms(4) same_lookup_trans(1) [OF ok1 l1] by blast
  qed
  then show ?thesis using good_trans [OF g1 good_unchanged [OF ok1]] by blast
qed

lemma unchanged_setError: "unchanged L t (setError e t)"
proof -
  have o: "sdb_stateObjects (setError e t) = sdb_stateObjects t" by (simp add: setError_def)
  then show ?thesis using lookup_same_objects(2) [of "setError e t" t L] by (simp add: unchanged_def)
qed

lemma GetBalance_unchanged:
  assumes "state_ok L s" "GetBalance L a i s = Inr (v, s')"
  shows "unchanged L s s'"
proof -
  from assms(2) obtain x s1 where g: "getStateObject L a s = Inr (x, s1)" by (auto simp: GetBalance_def bind_res_Inr_iff)
  note l = getStateObject_Inr [OF g]
  have ok1: "state_ok L s1" using good_unchanged [OF assms(1) l(2)] by (simp add: good_def)
  show ?thesis
  proof (cases x)
    case None
    then show ?thesis using assms(2) g l(2) by (simp add: GetBalance_def)
  next
    case (Some so)
    then have l1: "lookup L s1 a = Inr (Some so)" using l by simp
    from assms(2) g Some obtain so1 where b: "so_Balance L i so = Inr (v, so1)" "s' = setStateObject so1 s1"
      by (auto simp: GetBalance_def bind_res_Inr_iff)
    have "so1 = so" by (rule Balance_same [OF b(1) lookup_Some_ok(3) [OF l1 ok1]])
    then have "unchanged L s1 s'" unfolding b(2)
      by (intro same_lookup_trans(1) [OF ok1 l1]) (simp add: same_obj_def)
    then show ?thesis by (rule unchanged_trans [OF l(2)])
  qed
qed

lemma GetBalance_good:
  "state_ok L s \<Longrightarrow> GetBalance L a i s = Inr (v, s') \<Longrightarrow> good L s s'"
  by (simp add: good_unchanged GetBalance_unchanged)

lemma plain_good:
  assumes "state_ok L s" "plain_op op" "exec_op L op s = Inr s'"
  shows "good L s s'"
proof (cases op)
  case (OpAddBalance a x i)
  show ?thesis using assms(3) unfolding OpAddBalance exec_op.simps AddBalance_def
    by (rule getOrNew_step [OF assms(1)]) (simp add: AddBalance_good(1))
next
  case (OpSubBalance a x i)
  show ?thesis using assms(3) unfolding OpSubBalance exec_op.simps SubBalance_def
    by (rule getOrNew_step [OF assms(1)]) (simp add: AddBalance_good(2))
next
  case (OpSetBalance a x i)
  show ?thesis using assms(3) unfolding OpSetBalance exec_op.simps SetBalance_def
    by (rule getOrNew_step [OF assms(1)]) (simp add: SetBalance_good)
next
  case (OpSetNonce a n)
  show ?thesis using assms(3) unfolding OpSetNonce exec_op.simps SetNonce_def
    by (rule getOrNew_step [OF assms(1)]) (use SetNonce_good in fastforce)
next
  case (OpSetCode a c)
  show ?thesis using assms(3) unfolding OpSetCode exec_op.simps SetCode_def
    by (rule getOrNew_step [OF assms(1)]) (use SetCode_good in fastforce)
next
  case (OpSetState a k v)
  show ?thesis using assms(3) unfolding OpSetState exec_op.simps SetState_def
    by (rule getOrNew_step [OF assms(1)]) (simp add: SetState_good)
next
  case (OpSuicide a)
  with assms(3) show ?thesis by (auto simp: map_res_eq_Inr intro: Suicide_good [OF assms(1)])
next
  case (OpCreateAccount a)
  with assms(3) show ?thesis by (auto intro: CreateAccount_good [OF assms(1)])
next
  case (OpGetBalance a i)
  with assms(3) show ?thesis by (auto simp: map_res_eq_Inr intro: GetBalance_good [OF assms(1)])
next
  case (OpGetBalances a)
  show ?thesis using assms(3) unfolding OpGetBalances exec_op.simps GetBalances_def
    by (rule getOrNew_read [OF assms(1)]) auto
next
  case (OpGetNonce a)
  show ?thesis using assms(3) unfolding OpGetNonce exec_op.simps GetNonce_def
    by (rule getOrNew_read [OF assms(1)]) auto
next
  case (OpGetFullShardKey a)
  show ?thesis using assms(3) unfolding OpGetFullShardKey exec_op.simps GetFullShardKey_def
    by (rule getOrNew_read [OF assms(1)]) (auto simp: bind_res_Inr_iff)
next
  case (OpExist a)
  show ?thesis using assms(3) unfolding OpExist exec_op.simps Exist_def
    by (rule get_read [OF assms(1)]) auto
next
  case (OpEmpty a)
  show ?thesis using assms(3) unfolding OpEmpty exec_op.simps Empty_def
    by (rule get_read [OF assms(1)]) auto
next
  case (OpGetCode a)
  show ?thesis using assms(3) unfolding OpGetCode exec_op.simps GetCode_def
    by (rule get_read [OF assms(1)]) (auto split: prod.splits dest: Code_value(1))
next
  case (OpGetCodeSize a)
  show ?thesis using assms(3) unfolding OpGetCodeSize exec_op.simps GetCodeSize_def
    by (rule get_read [OF assms(1)]) (auto simp: unchanged_setError split: option.splits sum.splits)
next
  case (OpGetCodeHash a)
  show ?thesis using assms(3) unfolding OpGetCodeHash exec_op.simps GetCodeHash_def
    by (rule get_read [OF assms(1)]) auto
next
  case (OpGetState a k)
  show ?thesis using assms(3) unfolding OpGetState exec_op.simps GetState_def
    by (rule get_read [OF assms(1)]) (auto simp: bind_res_Inr_iff dest: GetState_same)
next
  case (OpGetCommittedState a k)
  show ?thesis using assms(3) unfolding OpGetCommittedState exec_op.simps GetCommittedState_def
    by (rule get_read [OF assms(1)]) (auto simp: bind_res_Inr_iff dest: GetCommittedState_same)
next
  case (OpHasSuicided a)
  show ?thesis using assms(3) unfolding OpHasSuicided exec_op.simps HasSuicided_def
    by (rule get_read [OF assms(1)]) auto
next
  case (OpAddLog l)
  with assms(3) show ?thesis using AddLog_good [OF assms(1)] by auto
next
  case (OpAddPreimage h p)
  with assms(3) show ?thesis using AddPreimage_good [OF assms(1)] by auto
next
  case (OpAddRefund g)
  with assms(3) show ?thesis using refund_good [OF assms(1)] by (auto simp: AddRefund_def)
next
  case (OpSubRefund g)
  with assms(3) show ?thesis using refund_good [OF assms(1)] by (auto simp: SubRefund_def Let_def split: if_splits)
qed (use assms(2) in auto)

section \<open>Revisions\<close>

text \<open>The stack of valid revisions: increasing ids below the next one, and increasing positions within
  the journal.\<close>

definition revs_ok :: "('t, 'd) StateDB \<Rightarrow> bool" where
  "revs_ok s \<longleftrightarrow>
     sorted_wrt (\<lambda>r r'. rev_id r < rev_id r' \<and> rev_journalIndex r \<le> rev_journalIndex r') (sdb_validRevisions s) \<and>
     (\<forall>r\<in>set (sdb_validRevisions s). rev_id r < sdb_nextRevisionId s \<and>
        rev_journalIndex r \<le> length (j_entries (sdb_journal s)))"

lemma revs_ok_prefix:
  assumes "revs_ok s" "sdb_validRevisions s' = take k (sdb_validRevisions s)" "sdb_nextRevisionId s' = sdb_nextRevisionId s"
    "\<And>r. r \<in> set (take k (sdb_validRevisions s)) \<Longrightarrow> rev_journalIndex r \<le> length (j_entries (sdb_journal s'))"
  shows "revs_ok s'"
  using assms by (auto simp: revs_ok_def intro: sorted_wrt_take dest: in_set_takeD)

lemma search_revision:
  assumes "revs_ok s" "idx < length (sdb_validRevisions s)"
  shows "sort_Search (length (sdb_validRevisions s)) (\<lambda>i. rev_id (sdb_validRevisions s ! i) \<ge> rev_id (sdb_validRevisions s ! idx)) = idx"
proof (rule sort_Search_at)
  have lt: "rev_id (sdb_validRevisions s ! i) < rev_id (sdb_validRevisions s ! j)"
    if "i < j" "j < length (sdb_validRevisions s)" for i j
    using assms(1) that sorted_wrt_nth_less unfolding revs_ok_def by fastforce
  show "\<forall>a b. a \<le> b \<longrightarrow> b < length (sdb_validRevisions s) \<longrightarrow>
      rev_id (sdb_validRevisions s ! idx) \<le> rev_id (sdb_validRevisions s ! a) \<longrightarrow>
      rev_id (sdb_validRevisions s ! idx) \<le> rev_id (sdb_validRevisions s ! b)"
  proof (intro allI impI)
    fix a b assume ab: "a \<le> b" "b < length (sdb_validRevisions s)"
      "rev_id (sdb_validRevisions s ! idx) \<le> rev_id (sdb_validRevisions s ! a)"
    show "rev_id (sdb_validRevisions s ! idx) \<le> rev_id (sdb_validRevisions s ! b)"
      using ab lt [of a b] by (cases "a = b") auto
  qed
  show "\<not> rev_id (sdb_validRevisions s ! idx) \<le> rev_id (sdb_validRevisions s ! a)" if "a < idx" for a
    using lt [OF that assms(2)] by simp
qed (use assms(2) in auto)

lemma RevertToSnapshot_at:
  assumes "revs_ok s" "idx < length (sdb_validRevisions s)"
  shows "RevertToSnapshot L (rev_id (sdb_validRevisions s ! idx)) s =
    bind_res (journal_revert L (rev_journalIndex (sdb_validRevisions s ! idx)) s) (\<lambda>t.
      Inr (t\<lparr>sdb_validRevisions := take idx (sdb_validRevisions s)\<rparr>))"
  using search_revision [OF assms] assms(2) by (simp add: RevertToSnapshot_def Let_def)

lemma RevertToSnapshot_found:
  assumes "RevertToSnapshot L r s = Inr s'"
  shows "\<exists>idx < length (sdb_validRevisions s). rev_id (sdb_validRevisions s ! idx) = r"
proof -
  let ?rs = "sdb_validRevisions s"
  let ?i = "sort_Search (length ?rs) (\<lambda>i. rev_id (?rs ! i) \<ge> r)"
  have n: "?i \<noteq> length ?rs" "rev_id (?rs ! ?i) = r"
    using assms by (auto simp: RevertToSnapshot_def Let_def split: if_splits)
  have "?i \<le> length ?rs" by (simp add: sort_Search_def Search_loop_le)
  with n show ?thesis by (intro exI [of _ ?i]) auto
qed

text \<open>Undoing writes neither the entries of the journal nor the revisions.\<close>

lemma getStateObject_revs:
  assumes "getStateObject L a s = Inr (x, s')"
  shows "sdb_validRevisions s' = sdb_validRevisions s" "sdb_nextRevisionId s' = sdb_nextRevisionId s"
  using getStateObject_Inr(2) [OF assms] rest_fields(7,8) [of s' s] by (auto simp: unchanged_def)

lemma revert_entry_revs:
  assumes "revert_entry L e s = Inr s'"
  shows "sdb_nextRevisionId s' = sdb_nextRevisionId s"
  using assms
  by (cases e) (auto simp: need_obj_def bind_res_Inr_iff Let_def getStateObject_revs split: option.splits if_splits)

lemma undo_all_revs:
  "undo_all L es s = Inr s' \<Longrightarrow> sdb_nextRevisionId s' = sdb_nextRevisionId s"
proof (induction es arbitrary: s)
  case (Cons e es)
  then obtain s1 where "revert_entry L e s = Inr s1"
    "undo_all L es (s1\<lparr>sdb_journal := undirty e (sdb_journal s1)\<rparr>) = Inr s'"
    by (auto simp: undo_entry_def bind_res_Inr_iff)
  with Cons.IH [of "s1\<lparr>sdb_journal := undirty e (sdb_journal s1)\<rparr>"] revert_entry_revs show ?case by fastforce
qed simp

lemma same_state_revs:
  assumes "state_ok L t"
  shows "same_state L t (t\<lparr>sdb_journal := (sdb_journal t)\<lparr>j_entries := es\<rparr>, sdb_validRevisions := rs\<rparr>)"
proof -
  let ?u = "t\<lparr>sdb_journal := (sdb_journal t)\<lparr>j_entries := es\<rparr>, sdb_validRevisions := rs\<rparr>"
  have "acct_view L ?u = acct_view L t" "state_ok L ?u = state_ok L t" by (rule lookup_same_objects; simp)+
  then show ?thesis using assms by (simp add: same_state_def GetLogs_def)
qed

section \<open>Runs between snapshot and return\<close>

text \<open>What holds of every state of a run after a snapshot with the revisions \<open>rs @ [r]\<close> in state \<open>s0\<close>.\<close>

definition run_inv :: "('t, 'd) eth_lib \<Rightarrow> ('t, 'd) StateDB \<Rightarrow> nat \<Rightarrow> ('t, 'd) StateDB \<Rightarrow> bool" where
  "run_inv L s0 i s \<longleftrightarrow> jrn.extends L s0 s \<and> state_ok L s \<and> revs_ok s \<and>
     (\<exists>rs. sdb_validRevisions s = sdb_validRevisions s0 @
        \<lparr>rev_id = i, rev_journalIndex = length (j_entries (sdb_journal s0))\<rparr> # rs)"

lemma extends_length: "jrn.extends L s s' \<Longrightarrow> length (j_entries (sdb_journal s)) \<le> length (j_entries (sdb_journal s'))"
  by (auto simp: jrn.extends_def)

lemma revs_ok_good:
  assumes "revs_ok s" "good L s s'"
  shows "revs_ok s'"
  using assms extends_length [of L s s'] by (fastforce simp: revs_ok_def good_def)

lemma run_inv_plain:
  assumes "run_inv L s0 i s" "plain_op op" "exec_op L op s = Inr s'"
  shows "run_inv L s0 i s'"
proof -
  have g: "good L s s'" by (rule plain_good [OF _ assms(2,3)]) (use assms(1) in \<open>simp add: run_inv_def\<close>)
  then have "jrn.extends L s s'" "state_ok L s'" "sdb_validRevisions s' = sdb_validRevisions s" by (simp_all add: good_def)
  then show ?thesis using assms(1) jrn.extends_trans revs_ok_good [OF _ g] unfolding run_inv_def by metis
qed

lemma Snapshot_simps:
  "sdb_validRevisions (snd (Snapshot s)) = sdb_validRevisions s @
     [\<lparr>rev_id = sdb_nextRevisionId s, rev_journalIndex = length (j_entries (sdb_journal s))\<rparr>]"
  "sdb_nextRevisionId (snd (Snapshot s)) = sdb_nextRevisionId s + 1" "fst (Snapshot s) = sdb_nextRevisionId s"
  "sdb_journal (snd (Snapshot s)) = sdb_journal s"
  by (simp_all add: Snapshot_def Let_def)

lemma Snapshot_same:
  assumes "state_ok L s"
  shows "same_state L (snd (Snapshot s)) s" "state_ok L (snd (Snapshot s))"
proof -
  have l: "acct_view L (snd (Snapshot s)) = acct_view L s" "state_ok L (snd (Snapshot s)) = state_ok L s"
    by (rule lookup_same_objects; simp add: Snapshot_def Let_def)+
  then show "same_state L (snd (Snapshot s)) s" "state_ok L (snd (Snapshot s))"
    using assms by (auto simp: same_state_def GetLogs_def Snapshot_def Let_def)
qed

lemma revs_ok_Snapshot: "revs_ok s \<Longrightarrow> revs_ok (snd (Snapshot s))"
  by (auto simp: revs_ok_def Snapshot_simps sorted_wrt_append intro: less_SucI)

lemma run_inv_Snapshot:
  assumes "run_inv L s0 i s"
  shows "run_inv L s0 i (snd (Snapshot s))"
proof -
  have ok: "state_ok L s" "revs_ok s" "jrn.extends L s0 s" using assms by (simp_all add: run_inv_def)
  have "jrn.extends L s (snd (Snapshot s))"
    by (rule jrn.extends_obs [OF Snapshot_same(1) [OF ok(1)]]) (simp add: Snapshot_simps)
  with ok show ?thesis using assms jrn.extends_trans [OF ok(3)] Snapshot_same(2) revs_ok_Snapshot
    by (auto simp: run_inv_def Snapshot_simps)
qed

lemma run_inv_revert:
  assumes "run_inv L s0 i s" "length (sdb_validRevisions s0) \<le> idx" "idx < length (sdb_validRevisions s)"
  shows "\<exists>t. RevertToSnapshot L (rev_id (sdb_validRevisions s ! idx)) s = Inr t \<and> jrn.extends L s0 t \<and> state_ok L t
    \<and> revs_ok t \<and> sdb_validRevisions t = take idx (sdb_validRevisions s)
    \<and> j_entries (sdb_journal t) = take (rev_journalIndex (sdb_validRevisions s ! idx)) (j_entries (sdb_journal s))"
proof -
  let ?rs = "sdb_validRevisions s" and ?es = "j_entries (sdb_journal s)"
  let ?k = "rev_journalIndex (?rs ! idx)"
  from assms(1) obtain rs where ok: "jrn.extends L s0 s" "state_ok L s" "revs_ok s"
    "?rs = sdb_validRevisions s0 @ \<lparr>rev_id = i, rev_journalIndex = length (j_entries (sdb_journal s0))\<rparr> # rs"
    by (auto simp: run_inv_def)
  have le: "rev_journalIndex (?rs ! a) \<le> rev_journalIndex (?rs ! b)" if "a \<le> b" "b < length ?rs" for a b
    using ok(3) that sorted_wrt_nth_less unfolding revs_ok_def by (cases "a = b") fastforce+
  have "rev_journalIndex (?rs ! length (sdb_validRevisions s0)) = length (j_entries (sdb_journal s0))"
    using ok(4) by simp
  then have k1: "length (j_entries (sdb_journal s0)) \<le> ?k" using le [OF assms(2,3)] by simp
  have k2: "?k \<le> length ?es" using ok(3) assms(3) unfolding revs_ok_def by simp
  from jrn.extends_undo [OF ok(1) k1 k2] obtain t where t: "undo_all L (rev (drop ?k ?es)) s = Inr t"
    "\<forall>u. same_state L t u \<longrightarrow> j_entries (sdb_journal u) = take ?k ?es \<longrightarrow> jrn.extends L s0 u" by blast
  have okt: "state_ok L t"
  proof -
    from ok(1) obtain es t0 where es: "?es = j_entries (sdb_journal s0) @ es" "\<forall>e\<in>set es. entry_ok e"
      by (auto simp: jrn.extends_def)
    then have "\<forall>e\<in>set (rev (drop ?k ?es)). entry_ok e" using k1 by (auto dest: in_set_dropD)
    from jrn.undos_obs [OF same_state_refl [OF ok(2)] this t(1)] show ?thesis by (auto simp: same_state_def)
  qed
  let ?u = "t\<lparr>sdb_journal := (sdb_journal t)\<lparr>j_entries := take ?k ?es\<rparr>, sdb_validRevisions := take idx ?rs\<rparr>"
  have st: "same_state L t ?u" by (rule same_state_revs [OF okt])
  have r: "RevertToSnapshot L (rev_id (?rs ! idx)) s = Inr ?u"
    using RevertToSnapshot_at [OF ok(3) assms(3), of L] t(1) by (simp add: journal_revert_def Let_def)
  have "revs_ok ?u"
  proof (rule revs_ok_prefix [OF ok(3)])
    show "sdb_nextRevisionId ?u = sdb_nextRevisionId s" using undo_all_revs [OF t(1)] by simp
    fix r assume "r \<in> set (take idx ?rs)"
    then obtain a where a: "a < idx" "r = ?rs ! a" using assms(3) by (auto simp: in_set_conv_nth)
    then show "rev_journalIndex r \<le> length (j_entries (sdb_journal ?u))" using le [of a idx] assms(3) k2 by simp
  qed simp
  then show ?thesis using r st t(2) by (intro exI [of _ ?u]) (auto simp: same_state_def)
qed

lemma run_inv_OpRevert:
  assumes "run_inv L s0 i s" "i < r" "RevertToSnapshot L r s = Inr s'"
  shows "run_inv L s0 i s'"
proof -
  let ?rs = "sdb_validRevisions s" and ?n = "length (sdb_validRevisions s0)"
  from assms(1) obtain rs where ok: "revs_ok s"
    "?rs = sdb_validRevisions s0 @ \<lparr>rev_id = i, rev_journalIndex = length (j_entries (sdb_journal s0))\<rparr> # rs"
    by (auto simp: run_inv_def)
  from RevertToSnapshot_found [OF assms(3)] obtain idx where idx: "idx < length ?rs" "rev_id (?rs ! idx) = r" by blast
  have "?n < idx"
  proof (rule ccontr)
    assume "\<not> ?n < idx"
    then have "rev_id (?rs ! idx) \<le> rev_id (?rs ! ?n)"
      using ok sorted_wrt_nth_less [of _ ?rs idx ?n] unfolding revs_ok_def by (cases "idx = ?n") fastforce+
    then show False using idx(2) ok(2) assms(2) by simp
  qed
  moreover from this run_inv_revert [OF assms(1) _ idx(1)] obtain t where t: "RevertToSnapshot L r s = Inr t"
    "jrn.extends L s0 t" "state_ok L t" "revs_ok t" "sdb_validRevisions t = take idx ?rs" using idx(2) by auto
  ultimately show ?thesis using assms(3) ok(2) by (auto simp: run_inv_def take_Cons' split: if_splits)
qed

lemma run_ops_inv:
  assumes "run_inv L s0 i s" "run_ops L ops s = Inr s'" "\<forall>op\<in>set ops. \<forall>r. op = OpRevert r \<longrightarrow> i < r"
  shows "run_inv L s0 i s'"
  using assms
proof (induction ops arbitrary: s)
  case (Cons op ops)
  then obtain s1 where s1: "exec_op L op s = Inr s1" "run_ops L ops s1 = Inr s'" by (auto simp: bind_res_Inr_iff)
  have "run_inv L s0 i s1"
  proof (cases "plain_op op")
    case True
    then show ?thesis using run_inv_plain Cons.prems(1) s1(1) by blast
  next
    case False
    then show ?thesis using Cons.prems(1,3) s1(1) run_inv_Snapshot run_inv_OpRevert
      by (cases op) auto
  qed
  then show ?case using Cons.IH s1(2) Cons.prems(3) by auto
qed simp

text \<open>C2: Take a snapshot, run any operations on the state - changes of balances, nonces, code and
  storage, account creation and suicide, logs, preimages, refunds, reads, and further snapshots with
  returns to them - and return to the snapshot: this succeeds, and every account has its existence,
  nonce, balances, code, code hash, storage, committed storage, suicide mark and full shard key as
  before, as have the refund counter, the logs, the preimages, the journal entries, its dirty marks but for
  the one of the account \<open>ripemd\<close>, and the stack of revisions. This holds of states in which no account keeps its
  balances in a token trie and the account trie holds no deleted account (\<open>state_ok\<close>); balances in a token trie
  are lost.\<close>

theorem revert_restores:
  assumes "state_ok L s" "revs_ok s" "Snapshot s = (i, s1)" "run_ops L ops s1 = Inr s2"
    "\<forall>op\<in>set ops. \<forall>r. op = OpRevert r \<longrightarrow> i < r"
  shows "\<exists>s3. RevertToSnapshot L i s2 = Inr s3 \<and> same_state L s3 s
    \<and> j_entries (sdb_journal s3) = j_entries (sdb_journal s) \<and> sdb_validRevisions s3 = sdb_validRevisions s"
proof -
  let ?n = "length (sdb_validRevisions s)"
  have s1: "s1 = snd (Snapshot s)" "i = sdb_nextRevisionId s" using assms(3) Snapshot_simps(3) [of s] by auto
  have "jrn.extends L s s1" unfolding s1(1)
    by (rule jrn.extends_obs [OF Snapshot_same(1) [OF assms(1)]]) (simp add: Snapshot_simps)
  then have "run_inv L s i s1"
    using Snapshot_same(2) [OF assms(1)] revs_ok_Snapshot [OF assms(2)] s1(2)
    by (simp add: run_inv_def s1(1) Snapshot_simps)
  from run_ops_inv [OF this assms(4,5)] have inv: "run_inv L s i s2" .
  then obtain rs where rs: "sdb_validRevisions s2 = sdb_validRevisions s @
      \<lparr>rev_id = i, rev_journalIndex = length (j_entries (sdb_journal s))\<rparr> # rs" by (auto simp: run_inv_def)
  from run_inv_revert [OF inv order.refl] rs obtain t where t: "RevertToSnapshot L i s2 = Inr t" "jrn.extends L s t"
    "sdb_validRevisions t = sdb_validRevisions s"
    "j_entries (sdb_journal t) = take (length (j_entries (sdb_journal s))) (j_entries (sdb_journal s2))" by auto
  have "j_entries (sdb_journal s2) = j_entries (sdb_journal s) @ drop (length (j_entries (sdb_journal s))) (j_entries (sdb_journal s2))"
    using inv by (auto simp: run_inv_def jrn.extends_def)
  then have e: "j_entries (sdb_journal t) = j_entries (sdb_journal s)" using t(4) by (metis append_eq_conv_conj)
  then have "same_state L t s" using t(2) by (auto simp: jrn.extends_def)
  then show ?thesis using t e by blast
qed

definition blank_state :: "(bytes \<Rightarrow> bytes, unit) StateDB" where
  "blank_state = (case New (map_lib (\<lambda>k. [])) 0 () of Inl e \<Rightarrow> undefined | Inr s \<Rightarrow> s)"

lemma blank_state_eq: "New (map_lib (\<lambda>k. [])) 0 () = Inr blank_state"
  by (simp add: blank_state_def New_def map_lib_def)

lemma blank_state_ok: "state_ok (map_lib (\<lambda>k. [])) blank_state" "revs_ok blank_state"
proof -
  have "load (map_lib (\<lambda>k. [])) blank_state a = Inr None" for a
    by (simp add: load_def blank_state_def New_def map_lib_def)
  then show "state_ok (map_lib (\<lambda>k. [])) blank_state"
    by (simp add: state_ok_def acct_view_def lookup_def) (simp add: blank_state_def New_def map_lib_def)
  show "revs_ok blank_state" by (simp add: revs_ok_def blank_state_def New_def map_lib_def)
qed

lemma sample_run:
  "\<exists>s2. run_ops (map_lib (\<lambda>k. [])) [OpSetNonce 7 5, OpSnapshot, OpAddBalance 7 10 1, OpRevert 1, OpSuicide 7]
     (snd (Snapshot blank_state)) = Inr s2"
proof -
  show ?thesis
    by (simp add: SetNonce_def GetOrNewStateObject_def getStateObject_def createObject_def AddBalance_def so_AddBalance_def
        blank_state_def New_def map_lib_def Snapshot_def so_SetNonce_def Suicide_def so_Balance_def so_SetBalance_def
        setTokenBalance_def SetValue_def GetTokenBalance_def RevertToSnapshot_def sort_Search_def Search_loop.simps
        journal_revert_def undo_entry_def need_obj_def setStateObject_def append_entry_def journal_append_def
        newObject_def NewAccount_def setNonce_def so_SetFullShardKey_def CopyWithDB_def TokenBalances_Copy_def
        NewEmptyTokenBalances_def Let_def newJournal_def journal_dirty_def dirty_count_def
        setError_def err_of_def so_FullShardKey_def undirty_def)
qed

theorem revert_restores_witness:
  "\<exists>s2 s3. run_ops (map_lib (\<lambda>k. [])) [OpSetNonce 7 5, OpSnapshot, OpAddBalance 7 10 1, OpRevert 1, OpSuicide 7]
       (snd (Snapshot blank_state)) = Inr s2
     \<and> RevertToSnapshot (map_lib (\<lambda>k. [])) 0 s2 = Inr s3 \<and> same_state (map_lib (\<lambda>k. [])) s3 blank_state"
proof -
  from sample_run obtain s2 where s2: "run_ops (map_lib (\<lambda>k. [])) [OpSetNonce 7 5, OpSnapshot, OpAddBalance 7 10 1, OpRevert 1, OpSuicide 7]
       (snd (Snapshot blank_state)) = Inr s2" by blast
  have "Snapshot blank_state = (0, snd (Snapshot blank_state))"
    by (simp add: Snapshot_def blank_state_def New_def map_lib_def)
  from revert_restores [OF blank_state_ok this s2] s2 show ?thesis by auto
qed

section \<open>Balances in a token trie\<close>

text \<open>C37: Returning to a snapshot does not restore balances that are in a token trie: setting one balance
  of such an account and returning leaves the account without its trie, with a balance of 0 for every
  token that was not in the cache.\<close>

theorem revert_loses_trie_balances:
  assumes "revs_ok s" "map_of (sdb_stateObjects s) a = Some so" "so_address so = a" "\<not> so_deleted so"
    "tb_balances (acc_TokenBalances (so_data so)) = []" "0 \<le> amount" "Snapshot s = (i, s1)"
  shows "\<exists>s2 s3 so'. SetBalance L a amount tok s1 = Inr s2 \<and> RevertToSnapshot L i s2 = Inr s3
    \<and> lookup L s3 a = Inr (Some so') \<and> (\<forall>j. token_value L (acc_TokenBalances (so_data so')) j = 0)"
proof -
  have s1: "s1 = snd (Snapshot s)" "i = sdb_nextRevisionId s" using assms(7) Snapshot_simps(3) [of s] by auto
  have o1: "map_of (sdb_stateObjects s1) a = Some so" using assms(2) by (simp add: s1(1) Snapshot_def Let_def)
  have j: "sdb_journal s1 = sdb_journal s" by (simp add: s1(1) Snapshot_simps)
  let ?e = "balanceChange a [] :: 'a journalEntry"
  obtain so1 where so1: "setTokenBalance amount tok so = Inr so1" "so_address so1 = a" "\<not> so_deleted so1"
    using assms(3,4,6) by (auto simp: setTokenBalance_def SetValue_def)
  let ?s2 = "setStateObject so1 (append_entry ?e s1)"
  have s2: "SetBalance L a amount tok s1 = Inr ?s2"
    using o1 assms(3-5) so1(1)
    by (simp add: SetBalance_def GetOrNewStateObject_def getStateObject_def so_SetBalance_def GetBalanceMap_def TokenBalances_Copy_def)
  have rv: "sdb_validRevisions ?s2 = sdb_validRevisions s @ [\<lparr>rev_id = i, rev_journalIndex = length (j_entries (sdb_journal s))\<rparr>]"
    "j_entries (sdb_journal ?s2) = j_entries (sdb_journal s) @ [?e]"
    "sdb_nextRevisionId ?s2 = sdb_nextRevisionId s + 1"
    by (simp_all add: s1 Snapshot_simps)
  have "revs_ok s1" unfolding s1(1) by (rule revs_ok_Snapshot [OF assms(1)])
  then have "revs_ok ?s2" by (auto simp: revs_ok_def)
  note R = RevertToSnapshot_at [OF this, of "length (sdb_validRevisions s)", unfolded rv(1)]
  let ?so = "setBalances [] so1"
  have u: "undo_all L [?e] ?s2 = Inr ((setStateObject ?so ?s2)\<lparr>sdb_journal := undirty ?e (sdb_journal ?s2)\<rparr>)"
    using so1 by (simp add: undo_entry_def need_obj_live)
  let ?s3 = "(setStateObject ?so ?s2)\<lparr>sdb_journal := (undirty ?e (sdb_journal ?s2))\<lparr>j_entries := j_entries (sdb_journal s)\<rparr>,
      sdb_validRevisions := sdb_validRevisions s\<rparr>"
  have s3: "RevertToSnapshot L i ?s2 = Inr ?s3"
    using R [of L] u j by (simp add: journal_revert_def Let_def)
  have "lookup L ?s3 a = lookup L (setStateObject ?so ?s2) a"
    using lookup_same_objects(1) [of ?s3 "setStateObject ?so ?s2" L] by simp
  then have "lookup L ?s3 a = Inr (Some ?so)" using so1 by (simp add: lookup_setStateObject)
  moreover have "token_value L (acc_TokenBalances (so_data ?so)) j = 0" for j
    by (simp add: setBalances_def NewTokenBalancesWithMap_def token_value_def trie_value_def)
  ultimately show ?thesis using s2 s3 by blast
qed

definition trie_account :: "(bytes \<Rightarrow> bytes) stateObject" where
  "trie_account = (newObject (map_lib (\<lambda>k. [])) 7 NewAccount)\<lparr>so_data := NewAccount\<lparr>acc_TokenBalances :=
     \<lparr>tb_db = True, tb_tokenTrie = Some (\<lambda>k. if k = EncodeToByte32 1 then [1, 5] else []), tb_balances = []\<rparr>\<rparr>\<rparr>"

theorem revert_loses_trie_balances_witness:
  "token_value (map_lib (\<lambda>k. [])) (acc_TokenBalances (so_data trie_account)) 1 = 5 \<and>
   (\<exists>s2 s3 so'. SetBalance (map_lib (\<lambda>k. [])) 7 100 2 (snd (Snapshot (setStateObject trie_account blank_state))) = Inr s2
     \<and> RevertToSnapshot (map_lib (\<lambda>k. [])) 0 s2 = Inr s3
     \<and> lookup (map_lib (\<lambda>k. [])) s3 7 = Inr (Some so')
     \<and> token_value (map_lib (\<lambda>k. [])) (acc_TokenBalances (so_data so')) 1 = 0)"
proof
  show "token_value (map_lib (\<lambda>k. [])) (acc_TokenBalances (so_data trie_account)) 1 = 5"
    by (simp add: trie_account_def token_value_def trie_value_def trie_Get_def map_lib_def be_value_def)
  have t: "so_address trie_account = 7" "\<not> so_deleted trie_account" "tb_balances (acc_TokenBalances (so_data trie_account)) = []"
    by (simp_all add: trie_account_def newObject_def)
  have r: "revs_ok (setStateObject trie_account blank_state)" using blank_state_ok(2) by (simp add: revs_ok_def)
  have "Snapshot (setStateObject trie_account blank_state) = (0, snd (Snapshot (setStateObject trie_account blank_state)))"
    by (simp add: Snapshot_def blank_state_def New_def map_lib_def)
  from revert_loses_trie_balances [OF r _ t _ this, of 100 "map_lib (\<lambda>k. [])" 2] t(1)
  show "\<exists>s2 s3 so'. SetBalance (map_lib (\<lambda>k. [])) 7 100 2 (snd (Snapshot (setStateObject trie_account blank_state))) = Inr s2
     \<and> RevertToSnapshot (map_lib (\<lambda>k. [])) 0 s2 = Inr s3
     \<and> lookup (map_lib (\<lambda>k. [])) s3 7 = Inr (Some so')
     \<and> token_value (map_lib (\<lambda>k. [])) (acc_TokenBalances (so_data so')) 1 = 0" by auto
qed

end
