(* ===== verification/StateFinal.thy ===== *)
theory StateFinal
  imports Snapshots
begin

text \<open>
  \<open>Finalise\<close> writes the dirty accounts into the tries. It deletes those that have committed suicide or,
  on request, are empty, and changes nothing that can be read of the others: their storage moves from
  the dirty to the committed storage, and their balances may move into a token trie.
\<close>

section \<open>Token balances\<close>

lemma TokenBalances_Commit_value:
  assumes "trie_laws L" "db_laws L" "tb_wf L t" "TokenBalances_Commit L d t = Inr (t', d')"
  shows "token_value L t' i = token_value L t i" "tb_wf L t'"
proof -
  have "(\<forall>i. token_value L t' i = token_value L t i) \<and> tb_wf L t'"
  proof (cases "notUsingTrie t")
    case True
    then show ?thesis using assms by (simp add: TokenBalances_Commit_def)
  next
    case False
    obtain tn where tn: "lib_NewSecure L 0 (Some d) = Inr tn" "\<And>k. trie_Get L tn k = []"
      by (rule trie_Get_new [OF assms(1), of d]) blast
    obtain e where e: "lib_NewSecure L 0 None = Inl e" using assms(2) unfolding db_laws_def by blast
    obtain tr0 h tr where c: "lib_TrieCommit L (fold (commit_entry L) (tb_balances t) tr0) d = Inr (h, tr, d')"
      "t' = t\<lparr>tb_tokenTrie := Some tr, tb_balances := []\<rparr>"
      "tb_tokenTrie t = Some tr0 \<or> tb_tokenTrie t = None \<and> (\<forall>k. trie_Get L tr0 k = [])"
      using assms(4) False tn e
      by (auto simp: TokenBalances_Commit_def bind_res_Inr_iff split: option.splits sum.splits if_splits)
    have g: "trie_Get L tr k = trie_Get L (fold (commit_entry L) (tb_balances t) tr0) k" for k
      by (rule trie_Get_Commit [OF assms(1) c(1)])
    show ?thesis using TokenBalances.committed_value [OF assms(1,3) g c(3)] c(2) by blast
  qed
  then show "token_value L t' i = token_value L t i" "tb_wf L t'" by blast+
qed

lemma TokenBalances_Commit_opens:
  assumes "db_laws L" "TokenBalances_Commit L d t = Inr (t', d')" "lib_OpenStorageTrie L d a r = Inr tr"
  shows "lib_OpenStorageTrie L d' a r = Inr tr"
proof (cases "notUsingTrie t")
  case True
  then show ?thesis using assms by (simp add: TokenBalances_Commit_def)
next
  case False
  with assms(2) obtain tr0 h tr1 where "lib_TrieCommit L (fold (commit_entry L) (tb_balances t) tr0) d = Inr (h, tr1, d')"
    by (auto simp: TokenBalances_Commit_def bind_res_Inr_iff split: option.splits sum.splits if_splits)
  then show ?thesis using assms(1,3) unfolding db_laws_def by blast
qed

section \<open>Storage\<close>

lemma hash_bytes_inj: "hash_bytes a = hash_bytes b \<longleftrightarrow> a = b"
proof
  assume "hash_bytes a = hash_bytes b"
  then have "be_value (be_bytes 32 (unat a)) = be_value (be_bytes 32 (unat b))" by (simp add: hash_bytes_def)
  moreover have "unat a < 256 ^ 32" "unat b < 256 ^ 32" using unat_lt_exp [of a] unat_lt_exp [of b] by simp_all
  ultimately show "a = b" by (simp add: be_value_be_bytes word_unat_eq_iff)
qed simp

text \<open>The bytes of a storage slot in the trie, and what the trie holds for a key after a slot was written: the
  dirty value if it differs from the committed one, else what it held before.\<close>

definition slot_bytes :: "('t, 'd) eth_lib \<Rightarrow> hash \<Rightarrow> bytes" where
  "slot_bytes L v = (if v = 0 then [] else rlp_EncodeBytes L (trim_zeros (hash_bytes v)))"

definition slot_after :: "('t, 'd) eth_lib \<Rightarrow> hash option \<Rightarrow> hash option \<Rightarrow> bytes res \<Rightarrow> bytes res" where
  "slot_after L dv ov old =
     (case dv of
        None \<Rightarrow> old
      | Some v \<Rightarrow> if v \<noteq> (case ov of None \<Rightarrow> 0 | Some v \<Rightarrow> v) then Inr (slot_bytes L v) else old)"

lemma updateTrie_entry_value:
  assumes "trie_laws L" "db_laws L" "updateTrie_entry L (key, value) (tr, so) = (tr', so')"
  shows "so_data so' = so_data so" "so_address so' = so_address so" "so_code so' = so_code so"
    "so_suicided so' = so_suicided so" "so_deleted so' = so_deleted so" "so_addrHash so' = so_addrHash so"
    "map_of (so_dirtyStorage so') k = (if k = key then None else map_of (so_dirtyStorage so) k)"
    "map_of (so_originStorage so') k =
       (if k = key \<and> value \<noteq> (case map_of (so_originStorage so) key of None \<Rightarrow> 0 | Some v \<Rightarrow> v) then Some value
        else map_of (so_originStorage so) k)"
    "lib_TryGet L tr' (hash_bytes k) =
       (if k = key then slot_after L (Some value) (map_of (so_originStorage so) key) (lib_TryGet L tr (hash_bytes k))
        else lib_TryGet L tr (hash_bytes k))"
proof -
  let ?so = "so\<lparr>so_dirtyStorage := AList.delete key (so_dirtyStorage so)\<rparr>"
  let ?so2 = "?so\<lparr>so_originStorage := AList.update key value (so_originStorage so)\<rparr>"
  let ?v0 = "case map_of (so_originStorage so) key of None \<Rightarrow> 0 | Some v \<Rightarrow> v"
  let ?del = "lib_TryDelete L tr (hash_bytes key)"
  let ?upd = "lib_TryUpdate L tr (hash_bytes key) (rlp_EncodeBytes L (trim_zeros (hash_bytes value)))"
  have r: "value = ?v0 \<and> tr' = tr \<and> so' = ?so \<or>
     value \<noteq> ?v0 \<and> (\<exists>e. so' = so_setError e ?so2) \<and>
       tr' = (if value = 0 then case ?del of Inl e \<Rightarrow> tr | Inr t \<Rightarrow> t else case ?upd of Inl e \<Rightarrow> tr | Inr t \<Rightarrow> t)"
    using assms(3) by (auto simp: updateTrie_entry_def Let_def split: if_splits)
  show "so_data so' = so_data so" "so_address so' = so_address so" "so_code so' = so_code so"
    "so_suicided so' = so_suicided so" "so_deleted so' = so_deleted so" "so_addrHash so' = so_addrHash so"
    using r by auto
  show "map_of (so_dirtyStorage so') k = (if k = key then None else map_of (so_dirtyStorage so) k)"
    using r by (auto simp: delete_conv')
  show "map_of (so_originStorage so') k =
       (if k = key \<and> value \<noteq> ?v0 then Some value else map_of (so_originStorage so) k)"
    using r by (auto simp: update_conv')
  obtain t1 where t1: "?del = Inr t1" "\<And>k'. lib_TryGet L t1 k' = (if k' = hash_bytes key then Inr [] else lib_TryGet L tr k')"
    using assms(1) unfolding trie_laws_def by metis
  have "rlp_EncodeBytes L (trim_zeros (hash_bytes value)) \<noteq> []" using assms(2) unfolding db_laws_def by blast
  then obtain t2 where t2: "?upd = Inr t2" "\<And>k'. lib_TryGet L t2 k' = (if k' = hash_bytes key
      then Inr (rlp_EncodeBytes L (trim_zeros (hash_bytes value))) else lib_TryGet L tr k')"
    using assms(1) unfolding trie_laws_def by metis
  show "lib_TryGet L tr' (hash_bytes k) =
       (if k = key then slot_after L (Some value) (map_of (so_originStorage so) key) (lib_TryGet L tr (hash_bytes k))
        else lib_TryGet L tr (hash_bytes k))"
    using r t1 t2 by (auto simp: slot_after_def slot_bytes_def hash_bytes_inj split: if_splits)
qed

text \<open>What the committed cache holds for a key after \<open>updateTrie\<close>, from the dirty and the committed entry.\<close>

definition origin_after :: "hash option \<Rightarrow> hash option \<Rightarrow> hash option" where
  "origin_after dv ov =
     (case dv of
        None \<Rightarrow> ov
      | Some v \<Rightarrow> if v \<noteq> (case ov of None \<Rightarrow> 0 | Some v \<Rightarrow> v) then Some v else ov)"

lemma updateTrie_fold_value:
  assumes "trie_laws L" "db_laws L" "fold (updateTrie_entry L) m (tr, so) = (tr', so')" "distinct (map fst m)"
  shows "so_data so' = so_data so \<and> so_address so' = so_address so \<and> so_code so' = so_code so \<and>
    so_suicided so' = so_suicided so \<and> so_deleted so' = so_deleted so \<and> so_addrHash so' = so_addrHash so \<and>
    (\<forall>k. map_of (so_dirtyStorage so') k = (if k \<in> fst ` set m then None else map_of (so_dirtyStorage so) k)) \<and>
    (\<forall>k. map_of (so_originStorage so') k =
       origin_after (map_of m k) (map_of (so_originStorage so) k)) \<and>
    (\<forall>k. lib_TryGet L tr' (hash_bytes k) = slot_after L (map_of m k) (map_of (so_originStorage so) k) (lib_TryGet L tr (hash_bytes k)))"
  using assms(3,4)
proof (induction m arbitrary: tr so)
  case (Cons p m)
  obtain tr1 so1 where 1: "updateTrie_entry L p (tr, so) = (tr1, so1)" by (cases "updateTrie_entry L p (tr, so)")
  obtain key v where p: "p = (key, v)" by (cases p)
  note u = updateTrie_entry_value [OF assms(1,2) 1 [unfolded p]]
  have nk: "key \<notin> fst ` set m" "map_of m key = None"
    using Cons.prems(2) p by (auto simp: map_of_eq_None_iff)
  have IH: "so_data so' = so_data so1 \<and> so_address so' = so_address so1 \<and> so_code so' = so_code so1 \<and>
    so_suicided so' = so_suicided so1 \<and> so_deleted so' = so_deleted so1 \<and> so_addrHash so' = so_addrHash so1 \<and>
    (\<forall>k. map_of (so_dirtyStorage so') k = (if k \<in> fst ` set m then None else map_of (so_dirtyStorage so1) k)) \<and>
    (\<forall>k. map_of (so_originStorage so') k =
       origin_after (map_of m k) (map_of (so_originStorage so1) k)) \<and>
    (\<forall>k. lib_TryGet L tr' (hash_bytes k) = slot_after L (map_of m k) (map_of (so_originStorage so1) k) (lib_TryGet L tr1 (hash_bytes k)))"
    by (rule Cons.IH) (use Cons.prems 1 in auto)
  have o: "map_of (so_originStorage so') k =
       origin_after (map_of (p # m) k) (map_of (so_originStorage so) k)" for k
  proof (cases "k = key")
    case True
    then show ?thesis using IH u(8) [of k] nk p by (simp add: origin_after_def)
  next
    case False
    then show ?thesis using IH u(8) [of k] p by simp
  qed
  have t: "lib_TryGet L tr' (hash_bytes k) =
      slot_after L (map_of (p # m) k) (map_of (so_originStorage so) k) (lib_TryGet L tr (hash_bytes k))" for k
  proof (cases "k = key")
    case True
    then show ?thesis using IH u(9) [of k] nk p by (simp add: slot_after_def)
  next
    case False
    then show ?thesis using IH u(8,9) [of k] p by simp
  qed
  show ?case using IH u nk p o t by auto
qed (simp add: origin_after_def slot_after_def)

section \<open>Accounts\<close>

text \<open>An object whose storage can be opened and whose dirty storage has been read before it was written,
  as \<open>SetState\<close> does.\<close>

definition object_ok :: "('t, 'd) eth_lib \<Rightarrow> 'd \<Rightarrow> 't stateObject \<Rightarrow> bool" where
  "object_ok L d so \<longleftrightarrow> tb_wf L (acc_TokenBalances (so_data so)) \<and> distinct (map fst (so_dirtyStorage so)) \<and>
     (\<forall>k. map_of (so_dirtyStorage so) k \<noteq> None \<longrightarrow> map_of (so_originStorage so) k \<noteq> None) \<and>
     (so_trie so = None \<longrightarrow> (\<exists>tr. lib_OpenStorageTrie L d (so_addrHash so) (acc_Root (so_data so)) = Inr tr))"

text \<open>What is read of an account: all but the committed storage and the root.\<close>

definition same_account :: "('t, 'd) eth_lib \<Rightarrow> 'd \<Rightarrow> 't stateObject \<Rightarrow> 'd \<Rightarrow> 't stateObject \<Rightarrow> bool" where
  "same_account L d so d' so' \<longleftrightarrow>
     so_address so' = so_address so \<and> acc_Nonce (so_data so') = acc_Nonce (so_data so) \<and>
     (\<forall>i. token_value L (acc_TokenBalances (so_data so')) i = token_value L (acc_TokenBalances (so_data so)) i) \<and>
     so_code so' = so_code so \<and> acc_CodeHash (so_data so') = acc_CodeHash (so_data so) \<and>
     acc_FullShardKey (so_data so') = acc_FullShardKey (so_data so) \<and>
     so_suicided so' = so_suicided so \<and> so_deleted so' = so_deleted so \<and>
     (\<forall>k. map_res fst (so_GetState L d' k so') = map_res fst (so_GetState L d k so))"

text \<open>The storage of an account has been written to its trie: the trie with the root of the account holds every
  dirty value that differs from the committed one, no entry for a value that became zero, and for every
  other key what it held before.\<close>

definition storage_written :: "('t, 'd) eth_lib \<Rightarrow> 'd \<Rightarrow> 't stateObject \<Rightarrow> 't stateObject \<Rightarrow> bool" where
  "storage_written L d so so' \<longleftrightarrow> (\<exists>tr tr'. open_trie L d (so_trie so) (so_addrHash so) (acc_Root (so_data so)) = Inr tr \<and>
     so_trie so' = Some tr' \<and> acc_Root (so_data so') = lib_TrieHash L tr' \<and> so_dirtyStorage so' = [] \<and>
     (\<forall>k. lib_TryGet L tr' (hash_bytes k) =
        slot_after L (map_of (so_dirtyStorage so) k) (map_of (so_originStorage so) k) (lib_TryGet L tr (hash_bytes k))))"

text \<open>The account itself is in the account trie, encoded with that root and its token balances.\<close>

definition account_written :: "('t, 'd) eth_lib \<Rightarrow> 't stateObject \<Rightarrow> 't \<Rightarrow> bool" where
  "account_written L so tr \<longleftrightarrow> (\<exists>tb data. TokenBalances_EncodeRLP L (acc_TokenBalances (so_data so)) = Inr tb \<and>
     rlp_EncodeAccount L (acc_Nonce (so_data so)) tb (acc_Root (so_data so)) (acc_CodeHash (so_data so))
       (acc_FullShardKey (so_data so)) (acc_Optial (so_data so)) = Inr data \<and>
     lib_TryGet L tr (addr_bytes (so_address so)) = Inr data)"

lemma updateRoot_same:
  assumes "trie_laws L" "db_laws L" "object_ok L d so" "updateRoot L d so = Inr (so', d')"
  shows "same_account L d so d'' so'" "object_ok L d'' so'" "storage_written L d so so'"
    "lib_OpenStorageTrie L d a r = Inr t \<Longrightarrow> lib_OpenStorageTrie L d' a r = Inr t"
proof -
  from assms(4) obtain tr so1 where g: "getTrie L d so = Inr (tr, so1)"
    by (auto simp: updateRoot_def updateTrie_def bind_res_Inr_iff)
  note gs = getTrie_same_fields [OF g]
  obtain tr2 so2 where f: "fold (updateTrie_entry L) (so_dirtyStorage so1) (tr, so1) = (tr2, so2)"
    by (cases "fold (updateTrie_entry L) (so_dirtyStorage so1) (tr, so1)")
  from assms(4) obtain tb where c: "TokenBalances_Commit L d (acc_TokenBalances (so_data so2)) = Inr (tb, d')"
    "so' = so2\<lparr>so_trie := Some tr2, so_data := (so_data so2)\<lparr>acc_TokenBalances := tb, acc_Root := lib_TrieHash L tr2\<rparr>\<rparr>"
    using g f by (auto simp: updateRoot_def updateTrie_def bind_res_Inr_iff)
  have ok: "tb_wf L (acc_TokenBalances (so_data so))" "distinct (map fst (so_dirtyStorage so))"
    "\<And>k. map_of (so_dirtyStorage so) k \<noteq> None \<Longrightarrow> map_of (so_originStorage so) k \<noteq> None"
    using assms(3) by (auto simp: object_ok_def)
  note F = updateTrie_fold_value [OF assms(1,2) f] 
  have d2: "map_of (so_dirtyStorage so2) k = None" for k
    using F ok(2) gs(2) by (auto simp: map_of_eq_None_iff)
  have o2: "map_of (so_originStorage so2) k = origin_after (map_of (so_dirtyStorage so) k) (map_of (so_originStorage so) k)" for k
    using F ok(2) gs by auto
  have w: "tb_wf L (acc_TokenBalances (so_data so2))" using F ok(1,2) gs by auto
  note v = TokenBalances_Commit_value [OF assms(1,2) w c(1)]
  have op: "open_trie L d (so_trie so) (so_addrHash so) (acc_Root (so_data so)) = Inr tr"
    using g by (simp flip: getTrie_open)
  have rd: "storage_read L tr2 k = storage_read L tr k" if "map_of (so_dirtyStorage so) k = None" for k
    using F ok(2) gs(2) that by (simp add: storage_read_def slot_after_def)
  have st: "map_res fst (so_GetState L d'' k so') = map_res fst (so_GetState L d k so)" for k
  proof (cases "map_of (so_dirtyStorage so) k")
    case None
    then show ?thesis using d2 [of k] o2 [of k] rd [of k] op
      by (simp add: state_value c(2) committed_of_def origin_after_def open_trie_def split: option.splits)
  next
    case (Some x)
    then obtain y where "map_of (so_originStorage so) k = Some y" using ok(3) [of k] by auto
    then show ?thesis using d2 [of k] o2 [of k] Some
      by (simp add: state_value c(2) committed_of_def origin_after_def split: if_splits)
  qed
  show "same_account L d so d'' so'" using F ok(2) gs v st by (simp add: same_account_def c(2))
  have "so_dirtyStorage so2 = []" using d2 [of "fst (hd (so_dirtyStorage so2))"] by (cases "so_dirtyStorage so2") auto
  then show "object_ok L d'' so'" "storage_written L d so so'" using v op F ok(2) gs by (simp_all add: object_ok_def storage_written_def c(2))
  show "lib_OpenStorageTrie L d a r = Inr t \<Longrightarrow> lib_OpenStorageTrie L d' a r = Inr t"
    using TokenBalances_Commit_opens [OF assms(2) c(1)] by blast
qed

lemma same_account_trans:
  "same_account L d so d1 so1 \<Longrightarrow> same_account L d1 so1 d2 so2 \<Longrightarrow> same_account L d so d2 so2"
  by (simp add: same_account_def)

lemma object_ok_opens:
  assumes "object_ok L d so" "\<And>a r t. lib_OpenStorageTrie L d a r = Inr t \<Longrightarrow> lib_OpenStorageTrie L d' a r = Inr t"
  shows "object_ok L d' so" "same_account L d so d' so" "storage_written L d' so so' \<longleftrightarrow> storage_written L d so so'"
proof -
  show "object_ok L d' so" using assms unfolding object_ok_def by blast
  have "open_trie L d' (so_trie so) (so_addrHash so) (acc_Root (so_data so)) =
      open_trie L d (so_trie so) (so_addrHash so) (acc_Root (so_data so))"
  proof (cases "so_trie so")
    case None
    then obtain tr where "lib_OpenStorageTrie L d (so_addrHash so) (acc_Root (so_data so)) = Inr tr"
      using assms(1) by (auto simp: object_ok_def)
    with assms(2) [OF this] None show ?thesis by (simp add: open_trie_def)
  qed (simp add: open_trie_def)
  then show "same_account L d so d' so" "storage_written L d' so so' \<longleftrightarrow> storage_written L d so so'"
    by (simp_all add: same_account_def storage_written_def state_value committed_of_def)
qed

definition live_ok :: "('t, 'd) eth_lib \<Rightarrow> ('t, 'd) StateDB \<Rightarrow> bool" where
  "live_ok L s \<longleftrightarrow> \<not> sdb_useMock s \<and>
     (\<forall>a so. map_of (sdb_stateObjects s) a = Some so \<longrightarrow> so_address so = a \<and> object_ok L (sdb_db s) so)"

definition removes :: "('t, 'd) eth_lib \<Rightarrow> bool \<Rightarrow> 't stateObject \<Rightarrow> bool" where
  "removes L del so \<longleftrightarrow> so_suicided so \<or> (del \<and> StateObject.empty L so)"

lemma setError_fields [simp]:
  "sdb_stateObjects (setError e s) = sdb_stateObjects s" "sdb_db (setError e s) = sdb_db s"
  "sdb_useMock (setError e s) = sdb_useMock s" "sdb_trie (setError e s) = sdb_trie s"
  "sdb_journal (setError e s) = sdb_journal s"
  by (simp_all add: setError_def)

lemma addr_bytes_inj: "addr_bytes a = addr_bytes b \<longleftrightarrow> a = b"
proof
  assume "addr_bytes a = addr_bytes b"
  then have "be_value (be_bytes 20 (unat a)) = be_value (be_bytes 20 (unat b))" by (simp add: addr_bytes_def)
  moreover have "unat a < 256 ^ 20" "unat b < 256 ^ 20" using unat_lt_exp [of a] unat_lt_exp [of b] by simp_all
  ultimately show "a = b" by (simp add: be_value_be_bytes word_unat_eq_iff)
qed simp

text \<open>What becomes of the account \<open>so\<close> at \<open>a\<close>, from a state to a later one.\<close>

definition finalised :: "('t, 'd) eth_lib \<Rightarrow> bool \<Rightarrow> bool \<Rightarrow> recipient \<Rightarrow> ('t, 'd) StateDB \<Rightarrow> 't stateObject \<Rightarrow> ('t, 'd) StateDB
    \<Rightarrow> 't stateObject \<Rightarrow> bool" where
  "finalised L del dirty a s so s' so' \<longleftrightarrow>
     (if dirty \<and> removes L del so then so_deleted so' \<and> lib_TryGet L (sdb_trie s') (addr_bytes a) = Inr []
      else same_account L (sdb_db s) so (sdb_db s') so' \<and>
        (dirty \<longrightarrow> storage_written L (sdb_db s) so so' \<and> account_written L so' (sdb_trie s')))"

lemma deleteStateObject_trie:
  assumes "trie_laws L"
  shows "lib_TryGet L (sdb_trie (deleteStateObject L so s)) k =
    (if k = addr_bytes (so_address so) then Inr [] else lib_TryGet L (sdb_trie s) k)"
proof -
  obtain t where "lib_TryDelete L (sdb_trie s) (addr_bytes (so_address so)) = Inr t"
    "\<And>k'. lib_TryGet L t k' = (if k' = addr_bytes (so_address so) then Inr [] else lib_TryGet L (sdb_trie s) k')"
    using assms unfolding trie_laws_def by metis
  then show ?thesis by (simp add: deleteStateObject_def Let_def setStateObject_def)
qed

lemma updateStateObject_trie:
  assumes "trie_laws L" "db_laws L" "\<not> sdb_useMock s" "updateStateObject L so s = Inr s'"
  shows "account_written L so (sdb_trie s')" "k \<noteq> addr_bytes (so_address so) \<Longrightarrow> lib_TryGet L (sdb_trie s') k = lib_TryGet L (sdb_trie s) k"
proof -
  let ?d = "so_data so"
  obtain tb data where d: "TokenBalances_EncodeRLP L (acc_TokenBalances ?d) = Inr tb"
    "rlp_EncodeAccount L (acc_Nonce ?d) tb (acc_Root ?d) (acc_CodeHash ?d) (acc_FullShardKey ?d) (acc_Optial ?d) = Inr data"
    using assms(4) by (auto simp: updateStateObject_def Let_def bind_res_Inr_iff split: sum.splits)
  then have "data \<noteq> []" using assms(2) unfolding db_laws_def by blast
  then obtain t where t: "lib_TryUpdate L (sdb_trie s) (addr_bytes (so_address so)) data = Inr t"
    "\<And>k'. lib_TryGet L t k' = (if k' = addr_bytes (so_address so) then Inr data else lib_TryGet L (sdb_trie s) k')"
    using assms(1) unfolding trie_laws_def by metis
  then have "sdb_trie s' = t" using assms(3,4) d by (auto simp: updateStateObject_def Let_def)
  with t(2) d show "account_written L so (sdb_trie s')" "k \<noteq> addr_bytes (so_address so) \<Longrightarrow> lib_TryGet L (sdb_trie s') k = lib_TryGet L (sdb_trie s) k"
    by (auto simp: account_written_def)
qed

definition opens_more :: "('t, 'd) eth_lib \<Rightarrow> 'd \<Rightarrow> 'd \<Rightarrow> bool" where
  "opens_more L d d' \<longleftrightarrow> (\<forall>a r t. lib_OpenStorageTrie L d a r = Inr t \<longrightarrow> lib_OpenStorageTrie L d' a r = Inr t)"

lemma finalise_addr_same:
  assumes "trie_laws L" "db_laws L" "live_ok L s" "finalise_addr L del a0 s = Inr s'"
  shows "live_ok L s' \<and> opens_more L (sdb_db s) (sdb_db s') \<and>
    (\<forall>k. k \<noteq> addr_bytes a0 \<longrightarrow> lib_TryGet L (sdb_trie s') k = lib_TryGet L (sdb_trie s) k) \<and>
    (\<forall>a so. map_of (sdb_stateObjects s) a = Some so \<longrightarrow>
      (\<exists>so'. map_of (sdb_stateObjects s') a = Some so' \<and> finalised L del (a = a0) a s so s' so' \<and> (a \<noteq> a0 \<longrightarrow> so' = so)))"
proof (cases "map_of (sdb_stateObjects s) a0")
  case None
  then show ?thesis using assms(3,4) by (auto simp: finalise_addr_def finalised_def same_account_def opens_more_def)
next
  case (Some so)
  have ok: "so_address so = a0" "object_ok L (sdb_db s) so" "\<not> sdb_useMock s"
    using assms(3) Some by (auto simp: live_ok_def)
  show ?thesis
  proof (cases "removes L del so")
    case True
    let ?so = "so\<lparr>so_deleted := True\<rparr>"
    have s': "s' = (deleteStateObject L so s)\<lparr>sdb_stateObjectsDirty := List.insert a0 (sdb_stateObjectsDirty (deleteStateObject L so s))\<rparr>"
      using assms(4) Some True by (auto simp: finalise_addr_def removes_def)
    have o: "map_of (sdb_stateObjects s') a = (if a = a0 then Some ?so else map_of (sdb_stateObjects s) a)"
      "sdb_db s' = sdb_db s" "\<not> sdb_useMock s'" for a
      using ok(1,3) by (auto simp: s' deleteStateObject_def Let_def setStateObject_def update_conv')
    have t: "lib_TryGet L (sdb_trie s') k = (if k = addr_bytes a0 then Inr [] else lib_TryGet L (sdb_trie s) k)" for k
      using deleteStateObject_trie [OF assms(1), of so s k] ok(1) by (simp add: s')
    have "object_ok L (sdb_db s) ?so" using ok(2) by (simp add: object_ok_def)
    then show ?thesis using o t ok Some True assms(3)
      by (auto simp: live_ok_def same_account_def finalised_def opens_more_def)
  next
    case False
    with assms(4) Some obtain so1 d1 s1 where u: "updateRoot L (sdb_db s) so = Inr (so1, d1)"
      "updateStateObject L so1 (setStateObject so1 (s\<lparr>sdb_db := d1\<rparr>)) = Inr s1"
      "s' = s1\<lparr>sdb_stateObjectsDirty := List.insert a0 (sdb_stateObjectsDirty s1)\<rparr>"
      by (auto simp: finalise_addr_def removes_def bind_res_Inr_iff)
    note R = updateRoot_same [OF assms(1,2) ok(2) u(1)]
    have a1: "so_address so1 = a0" using R(1) ok(1) by (simp add: same_account_def)
    have o: "map_of (sdb_stateObjects s') a = (if a = a0 then Some so1 else map_of (sdb_stateObjects s) a)"
      "sdb_db s' = d1" "\<not> sdb_useMock s'" for a
      using u(2,3) ok(3) a1
      by (auto simp: updateStateObject_def Let_def setStateObject_def update_conv' split: sum.splits)
    have "\<not> sdb_useMock (setStateObject so1 (s\<lparr>sdb_db := d1\<rparr>))" using ok(3) by (simp add: setStateObject_def)
    note t = updateStateObject_trie [OF assms(1,2) this u(2)]
    have t': "account_written L so1 (sdb_trie s')" "k \<noteq> addr_bytes a0 \<Longrightarrow> lib_TryGet L (sdb_trie s') k = lib_TryGet L (sdb_trie s) k" for k
      using t u(3) a1 by (simp_all add: setStateObject_def)
    have oth: "object_ok L d1 so' \<and> same_account L (sdb_db s) so' d1 so'" if "map_of (sdb_stateObjects s) a = Some so'" for a so'
      using object_ok_opens(1,2) [of L "sdb_db s" so' d1] R(4) assms(3) that by (auto simp: live_ok_def)
    show ?thesis using o R t' oth Some False a1 assms(3) unfolding live_ok_def opens_more_def finalised_def by auto
  qed
qed

lemma finalised_then:
  assumes "live_ok L s" "map_of (sdb_stateObjects s) a = Some so" "opens_more L (sdb_db s) (sdb_db s1)"
    "finalised L del False a s so s1 so" "finalised L del dirty a s1 so s' so'"
  shows "finalised L del dirty a s so s' so'"
proof -
  have "object_ok L (sdb_db s) so" using assms(1,2) by (auto simp: live_ok_def)
  from object_ok_opens(3) [OF this, of "sdb_db s1" so'] assms(3) have
    "storage_written L (sdb_db s1) so so' \<longleftrightarrow> storage_written L (sdb_db s) so so'" unfolding opens_more_def by blast
  with assms(4,5) show ?thesis using same_account_trans by (auto simp: finalised_def split: if_splits)
qed

lemma finalised_kept:
  assumes "finalised L del dirty a s so s1 so1" "same_account L (sdb_db s1) so1 (sdb_db s') so1" "so_address so1 = a"
    "lib_TryGet L (sdb_trie s') (addr_bytes a) = lib_TryGet L (sdb_trie s1) (addr_bytes a)"
  shows "finalised L del dirty a s so s' so1"
  using assms same_account_trans [of L "sdb_db s" so "sdb_db s1" so1 "sdb_db s'" so1]
  by (auto simp: finalised_def account_written_def split: if_splits)

lemma finalise_loop_same:
  assumes "trie_laws L" "db_laws L" "live_ok L s" "finalise_loop L del as s = Inr s'" "distinct as"
  shows "live_ok L s' \<and> opens_more L (sdb_db s) (sdb_db s') \<and>
    (\<forall>k. k \<notin> addr_bytes ` set as \<longrightarrow> lib_TryGet L (sdb_trie s') k = lib_TryGet L (sdb_trie s) k) \<and>
    (\<forall>a so. map_of (sdb_stateObjects s) a = Some so \<longrightarrow>
      (\<exists>so'. map_of (sdb_stateObjects s') a = Some so' \<and> finalised L del (a \<in> set as) a s so s' so' \<and> (a \<notin> set as \<longrightarrow> so' = so)))"
  using assms(3-5)
proof (induction as arbitrary: s)
  case Nil
  then show ?case by (auto simp: finalised_def same_account_def opens_more_def)
next
  case (Cons a0 as)
  then obtain s1 where s1: "finalise_addr L del a0 s = Inr s1" "finalise_loop L del as s1 = Inr s'"
    by (auto simp: bind_res_Inr_iff)
  note F = finalise_addr_same [OF assms(1,2) Cons.prems(1) s1(1)]
  note IH = Cons.IH [OF _ s1(2)]
  have d: "distinct as" "a0 \<notin> set as" using Cons.prems(3) by auto
  have I: "live_ok L s'" "opens_more L (sdb_db s1) (sdb_db s')"
    "\<And>k. k \<notin> addr_bytes ` set as \<Longrightarrow> lib_TryGet L (sdb_trie s') k = lib_TryGet L (sdb_trie s1) k"
    "\<And>a so. map_of (sdb_stateObjects s1) a = Some so \<Longrightarrow>
      (\<exists>so'. map_of (sdb_stateObjects s') a = Some so' \<and> finalised L del (a \<in> set as) a s1 so s' so' \<and> (a \<notin> set as \<longrightarrow> so' = so))"
    using IH F d(1) by blast+
  have "\<exists>so'. map_of (sdb_stateObjects s') a = Some so' \<and> finalised L del (a \<in> set (a0 # as)) a s so s' so' \<and> (a \<notin> set (a0 # as) \<longrightarrow> so' = so)"
    if so: "map_of (sdb_stateObjects s) a = Some so" for a so
  proof -
    from F so obtain so1 where so1: "map_of (sdb_stateObjects s1) a = Some so1" "finalised L del (a = a0) a s so s1 so1"
      "a \<noteq> a0 \<Longrightarrow> so1 = so" by blast
    from I(4) [OF so1(1)] obtain so' where so': "map_of (sdb_stateObjects s') a = Some so'"
      "finalised L del (a \<in> set as) a s1 so1 s' so'" "a \<notin> set as \<Longrightarrow> so' = so1" by blast
    have "finalised L del (a \<in> set (a0 # as)) a s so s' so'"
    proof (cases "a = a0")
      case True
      have "so_address so1 = a" using F so1(1) by (auto simp: live_ok_def)
      moreover have "addr_bytes a \<notin> addr_bytes ` set as" using True d(2) by (auto simp: addr_bytes_inj)
      moreover have "same_account L (sdb_db s1) so1 (sdb_db s') so1" using so'(2,3) True d(2) by (simp add: finalised_def)
      ultimately show ?thesis using finalised_kept [OF so1(2)] I(3) so'(3) True d(2) by simp
    next
      case False
      then show ?thesis using finalised_then [OF Cons.prems(1) so] F so1(2,3) so'(2) by auto
    qed
    then show ?thesis using so1 so' by auto
  qed
  moreover have "opens_more L (sdb_db s) (sdb_db s')" using F I(2) by (auto simp: opens_more_def)
  moreover have "lib_TryGet L (sdb_trie s') k = lib_TryGet L (sdb_trie s) k" if "k \<notin> addr_bytes ` set (a0 # as)" for k
    using F I(3) [of k] that by auto
  ultimately show ?case using I(1) by blast
qed

text \<open>C6: \<open>Finalise\<close> clears the journal, the revisions and the refund counter. Of the live accounts it
  deletes exactly the dirty ones that have committed suicide or, if asked for, are empty, and takes them out
  of the account trie. Of all others nonce, balances of every token, code, code hash, full shard key and the
  value of every storage key are read as before. A dirty account that stays has its storage in its trie: every
  dirty value that differs from the committed one is the value of its key there, a key whose value became
  zero is not in the trie, and the other keys are as before; and the account is in the account trie with
  the root of that trie. No other entry of the account trie changes. The live accounts are assumed to be stored
  under their own addresses, with storage that can be opened and dirty slots that were read before they were
  written, as \<open>SetState\<close> does (\<open>live_ok\<close>, \<open>object_ok\<close>), and the tries and their database are as in \<open>trie_laws\<close> and
  \<open>db_laws\<close>.\<close>

theorem finalise_keeps_accounts:
  assumes "trie_laws L" "db_laws L" "live_ok L s" "distinct (map fst (j_dirties (sdb_journal s)))"
    "Finalise L del s = Inr s'"
  shows "sdb_journal s' = newJournal \<and> sdb_validRevisions s' = [] \<and> sdb_refund s' = 0 \<and>
    (\<forall>a so. map_of (sdb_stateObjects s) a = Some so \<longrightarrow>
      (\<exists>so'. map_of (sdb_stateObjects s') a = Some so' \<and>
        (if a \<in> fst ` set (j_dirties (sdb_journal s)) \<and> (so_suicided so \<or> del \<and> StateObject.empty L so)
         then so_deleted so' \<and> lib_TryGet L (sdb_trie s') (addr_bytes a) = Inr []
         else same_account L (sdb_db s) so (sdb_db s') so' \<and>
           (a \<in> fst ` set (j_dirties (sdb_journal s)) \<longrightarrow>
              storage_written L (sdb_db s) so so' \<and> account_written L so' (sdb_trie s'))))) \<and>
    (\<forall>k. k \<notin> addr_bytes ` fst ` set (j_dirties (sdb_journal s)) \<longrightarrow> lib_TryGet L (sdb_trie s') k = lib_TryGet L (sdb_trie s) k)"
proof -
  from assms(5) obtain s1 where s1: "finalise_loop L del (map fst (j_dirties (sdb_journal s))) s = Inr s1"
    "s' = clearJournalAndRefund s1" by (auto simp: Finalise_def bind_res_Inr_iff)
  have e: "sdb_stateObjects s' = sdb_stateObjects s1" "sdb_db s' = sdb_db s1" "sdb_trie s' = sdb_trie s1" "sdb_journal s' = newJournal"
    "sdb_validRevisions s' = []" "sdb_refund s' = 0" by (simp_all add: s1(2) clearJournalAndRefund_def)
  note F = finalise_loop_same [OF assms(1-3) s1(1) assms(4), unfolded finalised_def removes_def set_map, THEN conjunct2, THEN conjunct2]
  show ?thesis unfolding e using F by (intro conjI refl) blast+
qed

definition storing_account :: "(bytes \<Rightarrow> bytes) stateObject" where
  "storing_account = (setNonce 1 (newObject (map_lib (\<lambda>k. [])) 7 NewAccount))
     \<lparr>so_originStorage := [(1, 0)], so_dirtyStorage := [(1, 2)]\<rparr>"

definition storing_state :: "(bytes \<Rightarrow> bytes, unit) StateDB" where
  "storing_state = append_entry (storageChange 7 1 0) (setStateObject storing_account blank_state)"

lemma storing_state_fields:
  "sdb_stateObjects storing_state = [(7, storing_account)]" "j_dirties (sdb_journal storing_state) = [(7, 1)]"
  "\<not> sdb_useMock storing_state" "so_address storing_account = 7" "\<not> so_suicided storing_account"
  "\<not> StateObject.empty L storing_account" "sdb_trie storing_state = (\<lambda>k. [])"
  by (simp_all add: storing_state_def storing_account_def blank_state_def New_def map_lib_def setStateObject_def
      append_entry_def newJournal_def journal_append_def journal_dirty_def dirty_count_def newObject_def setNonce_def
      StateObject.empty_def)

theorem finalise_keeps_accounts_witness:
  "\<exists>s' so'. Finalise (map_lib (\<lambda>k. [])) True storing_state = Inr s' \<and> map_of (sdb_stateObjects s') 7 = Some so'
     \<and> same_account (map_lib (\<lambda>k. [])) () storing_account () so' \<and> storage_written (map_lib (\<lambda>k. [])) () storing_account so'
     \<and> account_written (map_lib (\<lambda>k. [])) so' (sdb_trie s') \<and> sdb_journal s' = newJournal"
proof -
  let ?L = "map_lib (\<lambda>k. [])"
  have l: "live_ok ?L storing_state"
    by (simp add: live_ok_def storing_state_fields)
       (simp add: object_ok_def storing_account_def newObject_def setNonce_def tb_wf_def CopyWithDB_def
         TokenBalances_Copy_def NewAccount_def NewEmptyTokenBalances_def map_lib_def)
  have "\<exists>s'. Finalise ?L True storing_state = Inr s'"
    by (simp add: Finalise_def finalise_addr_def storing_state_fields updateRoot_def updateTrie_def getTrie_def
        updateStateObject_def TokenBalances_Commit_def notUsingTrie_def TokenBalances_EncodeRLP_def
        TokenBalances_SerializeToBytes_def readyBeforeSer_def storing_account_def newObject_def setNonce_def
        updateTrie_entry_def CopyWithDB_def TokenBalances_Copy_def NewAccount_def NewEmptyTokenBalances_def
        nonZeroEntriesInBalancesCache_def TokenBalances_Len_def so_setError_def err_of_def map_lib_def setStateObject_def setError_def Let_def)
  then obtain s' where s': "Finalise ?L True storing_state = Inr s'" by blast
  have m: "map_of (sdb_stateObjects storing_state) 7 = Some storing_account"
    and dt: "distinct (map fst (j_dirties (sdb_journal storing_state)))" by (simp_all add: storing_state_fields)
  note F = finalise_keeps_accounts [OF map_lib_laws map_lib_db_laws l dt s']
  from F have "\<forall>a so. map_of (sdb_stateObjects storing_state) a = Some so \<longrightarrow>
      (\<exists>so'. map_of (sdb_stateObjects s') a = Some so' \<and>
        (if a \<in> fst ` set (j_dirties (sdb_journal storing_state)) \<and> (so_suicided so \<or> True \<and> StateObject.empty ?L so)
         then so_deleted so' \<and> lib_TryGet ?L (sdb_trie s') (addr_bytes a) = Inr []
         else same_account ?L (sdb_db storing_state) so (sdb_db s') so' \<and>
           (a \<in> fst ` set (j_dirties (sdb_journal storing_state)) \<longrightarrow>
              storage_written ?L (sdb_db storing_state) so so' \<and> account_written ?L so' (sdb_trie s'))))" by blast
  from this [rule_format, OF m] F s' show ?thesis by (auto simp: storing_state_fields)
qed

end
