(* ===== verification/VmLib.thy ===== *)
theory VmLib
  imports EthLib
begin

text \<open>
  What \<open>core/vm\<close> takes from go-ethereum, as a parameter of the model: the protocol constants and gas
  tables of \<open>params\<close>, the rules of the chain configuration at the block number of the execution, the
  helpers of \<open>common\<close> and \<open>common/math\<close>, and the cryptographic functions of the precompiled contracts.
  The predicates \<open>math_laws\<close>, \<open>gas_params\<close> and \<open>table_positive\<close> state what the documentation says of them;
  \<open>std_math\<close>, \<open>std_params\<close> and \<open>std_gas\<close> are values that have these laws.

  The methods of Go's \<open>big.Int\<close> that the virtual machine uses are defined here as well.
\<close>

section \<open>Big integers\<close>

definition big_Uint64 :: "int \<Rightarrow> u64" where
  "big_Uint64 x = word_of_int \<bar>x\<bar>"

definition big_Int64 :: "int \<Rightarrow> int" where
  "big_Int64 x = (let v = sint (big_Uint64 x) in if x < 0 then sint (- (word_of_int v :: u64)) else v)"

definition big_BitLen :: "int \<Rightarrow> nat" where
  "big_BitLen x = bit_len (nat \<bar>x\<bar>)"

definition big_SetBytes :: "bytes \<Rightarrow> int" where
  "big_SetBytes b = int (be_value b)"

definition big_Sign :: "int \<Rightarrow> int" where
  "big_Sign x = sgn x"

section \<open>Protocol constants\<close>

record eth_params =
  p_StackLimit :: nat
  p_CallCreateDepth :: nat
  p_MaxCodeSize :: nat
  p_MemoryGas :: u64
  p_QuadCoeffDiv :: u64
  p_CopyGas :: u64
  p_SstoreSetGas :: u64
  p_SstoreRefundGas :: u64
  p_SstoreClearGas :: u64
  p_SstoreResetGas :: u64
  p_LogGas :: u64
  p_LogTopicGas :: u64
  p_LogDataGas :: u64
  p_Sha3Gas :: u64
  p_Sha3WordGas :: u64
  p_CreateGas :: u64
  p_Create2Gas :: u64
  p_CreateDataGas :: u64
  p_CallNewAccountGas :: u64
  p_CallValueTransferGas :: u64
  p_CallStipend :: u64
  p_SuicideRefundGas :: u64
  p_JumpdestGas :: u64

record precompile_params =
  p_EcrecoverGas :: u64
  p_Sha256PerWordGas :: u64
  p_Sha256BaseGas :: u64
  p_Ripemd160PerWordGas :: u64
  p_Ripemd160BaseGas :: u64
  p_IdentityPerWordGas :: u64
  p_IdentityBaseGas :: u64
  p_ModExpQuadCoeffDiv :: u64
  p_Bn256AddGas :: u64
  p_Bn256ScalarMulGas :: u64
  p_Bn256PairingBaseGas :: u64
  p_Bn256PairingPerPointGas :: u64

record GasTable =
  gt_ExtcodeSize :: u64
  gt_ExtcodeCopy :: u64
  gt_ExtcodeHash :: u64
  gt_Balance :: u64
  gt_SLoad :: u64
  gt_Calls :: u64
  gt_Suicide :: u64
  gt_ExpByte :: u64
  gt_CreateBySuicide :: u64

record chain_rules =
  IsHomestead :: bool
  IsEIP150 :: bool
  IsEIP158 :: bool
  IsByzantium :: bool
  IsConstantinople :: bool

text \<open>\<open>math_Byte n padlength i\<close> is the byte at position \<open>i\<close> of the big-endian form of \<open>n\<close> in
  \<open>padlength\<close> bytes, \<open>math_ReadBits n k\<close> the \<open>k\<close> bytes that \<open>math.ReadBits\<close> writes into a buffer
  of zeros of that length.\<close>

record vm_math =
  U256 :: "int \<Rightarrow> int"
  S256 :: "int \<Rightarrow> int"
  math_Exp :: "int \<Rightarrow> int \<Rightarrow> int"
  math_Byte :: "int \<Rightarrow> int \<Rightarrow> int \<Rightarrow> u8"
  math_BigMax :: "int \<Rightarrow> int \<Rightarrow> int"
  math_BigMin :: "int \<Rightarrow> int \<Rightarrow> int"
  SafeAdd :: "u64 \<Rightarrow> u64 \<Rightarrow> u64 \<times> bool"
  SafeMul :: "u64 \<Rightarrow> u64 \<Rightarrow> u64 \<times> bool"
  math_ReadBits :: "int \<Rightarrow> nat \<Rightarrow> bytes"
  RightPadBytes :: "bytes \<Rightarrow> int \<Rightarrow> bytes"
  LeftPadBytes :: "bytes \<Rightarrow> int \<Rightarrow> bytes"
  BigToAddress :: "int \<Rightarrow> recipient"
  BigToHash :: "int \<Rightarrow> hash"
  vm_BytesToAddress :: "bytes \<Rightarrow> recipient"

text \<open>A point of the curve bn256 is represented by a byte string.\<close>

record vm_crypto =
  rlp_EncodeCreate :: "recipient \<Rightarrow> u32 option \<Rightarrow> u64 \<Rightarrow> bytes"
  crypto_CreateAddress2 :: "recipient \<Rightarrow> hash \<Rightarrow> bytes \<Rightarrow> recipient"
  crypto_ValidateSignatureValues :: "u8 \<Rightarrow> int \<Rightarrow> int \<Rightarrow> bool"
  crypto_Ecrecover :: "bytes \<Rightarrow> bytes \<Rightarrow> bytes res"
  sha256_Sum256 :: "bytes \<Rightarrow> bytes"
  ripemd160_Sum :: "bytes \<Rightarrow> bytes"
  bn256_UnmarshalG1 :: "bytes \<Rightarrow> bytes res"
  bn256_UnmarshalG2 :: "bytes \<Rightarrow> bytes res"
  bn256_MarshalG1 :: "bytes \<Rightarrow> bytes"
  bn256_Add :: "bytes \<Rightarrow> bytes \<Rightarrow> bytes"
  bn256_ScalarMult :: "bytes \<Rightarrow> int \<Rightarrow> bytes"
  bn256_PairingCheck :: "bytes list \<Rightarrow> bytes list \<Rightarrow> bool"

record ('t, 'd) vm_lib =
  vl_eth :: "('t, 'd) eth_lib"
  vl_params :: eth_params
  vl_pre :: precompile_params
  vl_gas :: GasTable
  vl_rules :: chain_rules
  vl_math :: vm_math
  vl_crypto :: vm_crypto

section \<open>Documented behaviour\<close>

text \<open>Arithmetic modulo $2^{256}$, its signed reading, checked addition and multiplication of 64-bit
  numbers, padding, and the conversions to addresses and hashes.\<close>

definition math_laws :: "vm_math \<Rightarrow> bool" where
  "math_laws M \<longleftrightarrow>
     (\<forall>x. U256 M x = x mod 2 ^ 256) \<and>
     (\<forall>x. S256 M x = (if x < 2 ^ 255 then x else x - 2 ^ 256)) \<and>
     (\<forall>b e. 0 \<le> e \<longrightarrow> math_Exp M b e = b ^ nat e mod 2 ^ 256) \<and>
     (\<forall>x n i. 0 \<le> i \<longrightarrow> i < n \<longrightarrow> math_Byte M x n i = word_of_int (x div 256 ^ nat (n - 1 - i))) \<and>
     (\<forall>x y. math_BigMax M x y = max x y \<and> math_BigMin M x y = min x y) \<and>
     (\<forall>x y. SafeAdd M x y = (x + y, unat x + unat y \<ge> 2 ^ 64)) \<and>
     (\<forall>x y. SafeMul M x y = (x * y, unat x * unat y \<ge> 2 ^ 64)) \<and>
     (\<forall>x n. 0 \<le> x \<longrightarrow> math_ReadBits M x n = be_bytes n (nat x)) \<and>
     (\<forall>b n. RightPadBytes M b n = b @ replicate (nat (n - int (length b))) 0) \<and>
     (\<forall>b n. LeftPadBytes M b n = replicate (nat (n - int (length b))) 0 @ b) \<and>
     (\<forall>x. BigToAddress M x = word_of_int \<bar>x\<bar> \<and> BigToHash M x = word_of_int \<bar>x\<bar>) \<and>
     (\<forall>b. vm_BytesToAddress M b = of_nat (be_value b))"

definition std_math :: vm_math where
  "std_math = \<lparr>U256 = (\<lambda>x. x mod 2 ^ 256), S256 = (\<lambda>x. if x < 2 ^ 255 then x else x - 2 ^ 256),
     math_Exp = (\<lambda>b e. b ^ nat e mod 2 ^ 256), math_Byte = (\<lambda>x n i. word_of_int (x div 256 ^ nat (n - 1 - i))),
     math_BigMax = max, math_BigMin = min,
     SafeAdd = (\<lambda>x y. (x + y, unat x + unat y \<ge> 2 ^ 64)), SafeMul = (\<lambda>x y. (x * y, unat x * unat y \<ge> 2 ^ 64)),
     math_ReadBits = (\<lambda>x n. be_bytes n (nat x)),
     RightPadBytes = (\<lambda>b n. b @ replicate (nat (n - int (length b))) 0),
     LeftPadBytes = (\<lambda>b n. replicate (nat (n - int (length b))) 0 @ b),
     BigToAddress = (\<lambda>x. word_of_int \<bar>x\<bar>), BigToHash = (\<lambda>x. word_of_int \<bar>x\<bar>),
     vm_BytesToAddress = (\<lambda>b. of_nat (be_value b))\<rparr>"

lemma std_math_laws: "math_laws std_math"
  by (simp add: math_laws_def std_math_def)

lemma math_simps:
  assumes "math_laws M"
  shows "U256 M x = x mod 2 ^ 256"
    "S256 M x = (if x < 2 ^ 255 then x else x - 2 ^ 256)"
    "0 \<le> e \<Longrightarrow> math_Exp M x e = x ^ nat e mod 2 ^ 256"
    "0 \<le> i \<Longrightarrow> i < n \<Longrightarrow> math_Byte M x n i = word_of_int (x div 256 ^ nat (n - 1 - i))"
    "math_BigMax M x y = max x y" "math_BigMin M x y = min x y"
    "SafeAdd M a b = (a + b, unat a + unat b \<ge> 2 ^ 64)"
    "SafeMul M a b = (a * b, unat a * unat b \<ge> 2 ^ 64)"
    "0 \<le> x \<Longrightarrow> math_ReadBits M x k = be_bytes k (nat x)"
    "RightPadBytes M bs n = bs @ replicate (nat (n - int (length bs))) 0"
    "LeftPadBytes M bs n = replicate (nat (n - int (length bs))) 0 @ bs"
    "BigToAddress M x = word_of_int \<bar>x\<bar>" "BigToHash M x = word_of_int \<bar>x\<bar>"
    "vm_BytesToAddress M bs = of_nat (be_value bs)"
  using assms by (simp_all add: math_laws_def)

text \<open>The yellow paper's fee schedule, as far as the proofs depend on it.\<close>

definition gas_params :: "eth_params \<Rightarrow> bool" where
  "gas_params P \<longleftrightarrow>
     p_StackLimit P = 1024 \<and> p_CallCreateDepth P = 1024 \<and> p_MemoryGas P = 3 \<and> p_QuadCoeffDiv P = 512 \<and>
     p_JumpdestGas P = 1 \<and> p_CallStipend P = 2300 \<and> p_CallValueTransferGas P = 9000 \<and>
     p_CallNewAccountGas P = 25000 \<and>
     p_SstoreSetGas P = 20000 \<and> p_SstoreClearGas P = 5000 \<and> p_SstoreResetGas P = 5000 \<and>
     p_LogGas P = 375 \<and> p_Sha3Gas P = 30 \<and> p_CreateGas P = 32000 \<and> p_Create2Gas P = 32000"

definition std_params :: eth_params where
  "std_params = \<lparr>p_StackLimit = 1024, p_CallCreateDepth = 1024, p_MaxCodeSize = 24576, p_MemoryGas = 3,
     p_QuadCoeffDiv = 512, p_CopyGas = 3, p_SstoreSetGas = 20000, p_SstoreRefundGas = 15000,
     p_SstoreClearGas = 5000, p_SstoreResetGas = 5000, p_LogGas = 375, p_LogTopicGas = 375, p_LogDataGas = 8,
     p_Sha3Gas = 30, p_Sha3WordGas = 6, p_CreateGas = 32000, p_Create2Gas = 32000, p_CreateDataGas = 200,
     p_CallNewAccountGas = 25000, p_CallValueTransferGas = 9000, p_CallStipend = 2300,
     p_SuicideRefundGas = 24000, p_JumpdestGas = 1\<rparr>"

lemma std_params_laws: "gas_params std_params"
  by (simp add: gas_params_def std_params_def)

text \<open>Every gas table charges for the operations that read the state and for calls.\<close>

definition table_positive :: "GasTable \<Rightarrow> bool" where
  "table_positive G \<longleftrightarrow> 0 < gt_ExtcodeSize G \<and> 0 < gt_ExtcodeCopy G \<and> 0 < gt_Balance G
     \<and> 0 < gt_SLoad G \<and> 0 < gt_Calls G \<and> unat (gt_Calls G) \<le> 700 \<and> unat (gt_ExpByte G) \<le> 50"

definition std_gas :: GasTable where
  "std_gas = \<lparr>gt_ExtcodeSize = 700, gt_ExtcodeCopy = 700, gt_ExtcodeHash = 400, gt_Balance = 400, gt_SLoad = 200,
     gt_Calls = 700, gt_Suicide = 5000, gt_ExpByte = 50, gt_CreateBySuicide = 25000\<rparr>"

lemma std_gas_laws: "table_positive std_gas"
  by (simp add: table_positive_def std_gas_def)

definition std_pre :: precompile_params where
  "std_pre = \<lparr>p_EcrecoverGas = 3000, p_Sha256PerWordGas = 12, p_Sha256BaseGas = 60, p_Ripemd160PerWordGas = 120,
     p_Ripemd160BaseGas = 600, p_IdentityPerWordGas = 3, p_IdentityBaseGas = 15, p_ModExpQuadCoeffDiv = 20,
     p_Bn256AddGas = 500, p_Bn256ScalarMulGas = 40000, p_Bn256PairingBaseGas = 100000,
     p_Bn256PairingPerPointGas = 80000\<rparr>"

definition std_rules :: chain_rules where
  "std_rules = \<lparr>IsHomestead = True, IsEIP150 = True, IsEIP158 = True, IsByzantium = True, IsConstantinople = True\<rparr>"

text \<open>Cryptographic functions without content, for concrete executions that do not use them.\<close>

definition null_crypto :: vm_crypto where
  "null_crypto = \<lparr>rlp_EncodeCreate = (\<lambda>a k n. []), crypto_CreateAddress2 = (\<lambda>a h b. 0),
     crypto_ValidateSignatureValues = (\<lambda>v r s. False), crypto_Ecrecover = (\<lambda>h s. Inl (GoError ''none'')),
     sha256_Sum256 = (\<lambda>b. []), ripemd160_Sum = (\<lambda>b. []), bn256_UnmarshalG1 = (\<lambda>b. Inl (GoError ''none'')),
     bn256_UnmarshalG2 = (\<lambda>b. Inl (GoError ''none'')), bn256_MarshalG1 = (\<lambda>b. []), bn256_Add = (\<lambda>a b. []),
     bn256_ScalarMult = (\<lambda>a n. []), bn256_PairingCheck = (\<lambda>a b. False)\<rparr>"

definition std_vm :: "('t, 'd) eth_lib \<Rightarrow> ('t, 'd) vm_lib" where
  "std_vm L = \<lparr>vl_eth = L, vl_params = std_params, vl_pre = std_pre, vl_gas = std_gas, vl_rules = std_rules,
     vl_math = std_math, vl_crypto = null_crypto\<rparr>"

text \<open>The hypothesis of theorems on the virtual machine: the library behaves as documented. The gas tables
  before Constantinople have no price for \<open>EXTCODEHASH\<close>, which is not an instruction there.\<close>

definition vm_laws :: "('t, 'd) vm_lib \<Rightarrow> bool" where
  "vm_laws V \<longleftrightarrow> math_laws (vl_math V) \<and> gas_params (vl_params V) \<and> table_positive (vl_gas V)
     \<and> (IsConstantinople (vl_rules V) \<longrightarrow> 0 < gt_ExtcodeHash (vl_gas V))"

lemma std_vm_laws: "vm_laws (std_vm L)"
  by (auto simp: vm_laws_def std_vm_def std_math_laws std_params_laws table_positive_def std_gas_def)

end
