(* ===== verification/VmStack.thy ===== *)
theory VmStack
  imports VmLib
begin

text \<open>
  The passive parts of \<open>core/vm\<close>: the operand stack (\<open>stack.go\<close>, \<open>stack_table.go\<close>), the byte memory
  (\<open>memory.go\<close>, \<open>memory_table.go\<close>), the slice helpers (\<open>common.go\<close>) and the analysis that tells code
  from push data (\<open>analysis.go\<close>).

  A stack is the list of its items with the top first, so that \<open>Back(n)\<close> is the item number \<open>n\<close>. Access
  below the bottom is an index panic. The items are \<open>*big.Int\<close> pointers that a pool recycles; the model
  has their values. Slices of the memory beyond its length are a panic (Go allows them up to the capacity).
\<close>

unbundle bit_operations_syntax

section \<open>Stack\<close>

type_synonym stack = "int list"

definition index_panic :: go_error where
  "index_panic = GoPanic ''index out of range''"

definition pop1 :: "stack \<Rightarrow> (int \<Rightarrow> stack \<Rightarrow> 'a res) \<Rightarrow> 'a res" where
  "pop1 st f = (case st of [] \<Rightarrow> Inl index_panic | x # st \<Rightarrow> f x st)"

definition pop2 :: "stack \<Rightarrow> (int \<Rightarrow> int \<Rightarrow> stack \<Rightarrow> 'a res) \<Rightarrow> 'a res" where
  "pop2 st f = pop1 st (\<lambda>x st. pop1 st (f x))"

definition pop3 :: "stack \<Rightarrow> (int \<Rightarrow> int \<Rightarrow> int \<Rightarrow> stack \<Rightarrow> 'a res) \<Rightarrow> 'a res" where
  "pop3 st f = pop1 st (\<lambda>x st. pop2 st (f x))"

definition pop4 :: "stack \<Rightarrow> (int \<Rightarrow> int \<Rightarrow> int \<Rightarrow> int \<Rightarrow> stack \<Rightarrow> 'a res) \<Rightarrow> 'a res" where
  "pop4 st f = pop2 st (\<lambda>x y st. pop2 st (f x y))"

definition Back :: "stack \<Rightarrow> nat \<Rightarrow> int res" where
  "Back st n = (if n < length st then Inr (st ! n) else Inl index_panic)"

definition st_swap :: "nat \<Rightarrow> stack \<Rightarrow> stack res" where
  "st_swap n st =
     (if 0 < n \<and> n \<le> length st then Inr (st[n - 1 := st ! 0, 0 := st ! (n - 1)]) else Inl index_panic)"

definition st_dup :: "nat \<Rightarrow> stack \<Rightarrow> stack res" where
  "st_dup n st = (if 0 < n \<and> n \<le> length st then Inr (st ! (n - 1) # st) else Inl index_panic)"

definition st_require :: "nat \<Rightarrow> stack \<Rightarrow> go_error option" where
  "st_require n st = (if length st < n then Some (GoError ''stack underflow'') else None)"

definition makeStackFunc :: "eth_params \<Rightarrow> nat \<Rightarrow> nat \<Rightarrow> stack \<Rightarrow> go_error option" where
  "makeStackFunc P pops pushs st =
     (case st_require pops st of
        Some err \<Rightarrow> Some err
      | None \<Rightarrow>
          if int (length st) + int pushs - int pops > int (p_StackLimit P)
          then Some (GoError ''stack limit reached'') else None)"

definition makeDupStackFunc :: "eth_params \<Rightarrow> nat \<Rightarrow> stack \<Rightarrow> go_error option" where
  "makeDupStackFunc P n = makeStackFunc P n (n + 1)"

definition makeSwapStackFunc :: "eth_params \<Rightarrow> nat \<Rightarrow> stack \<Rightarrow> go_error option" where
  "makeSwapStackFunc P n = makeStackFunc P n n"

lemma pop_simps [simp]:
  "pop1 (x # st) f = f x st" "pop1 [] f = Inl index_panic"
  "pop2 (x # y # st) g = g x y st"
  "pop3 (x # y # z # st) h = h x y z st"
  "pop4 (x # y # z # w # st) k = k x y z w st"
  by (simp_all add: pop1_def pop2_def pop3_def pop4_def)

lemma pop1_Inr: "pop1 st f = Inr r \<longleftrightarrow> (\<exists>x st'. st = x # st' \<and> f x st' = Inr r)"
  by (auto simp: pop1_def split: list.splits)

lemma pop2_Inr: "pop2 st f = Inr r \<longleftrightarrow> (\<exists>x y st'. st = x # y # st' \<and> f x y st' = Inr r)"
  by (auto simp: pop2_def pop1_Inr)

lemma pop3_Inr: "pop3 st f = Inr r \<longleftrightarrow> (\<exists>x y z st'. st = x # y # z # st' \<and> f x y z st' = Inr r)"
  by (auto simp: pop3_def pop1_Inr pop2_Inr)

lemma pop4_Inr: "pop4 st f = Inr r \<longleftrightarrow> (\<exists>x y z w st'. st = x # y # z # w # st' \<and> f x y z w st' = Inr r)"
  by (auto simp: pop4_def pop2_Inr)

lemmas pops_Inr = pop1_Inr pop2_Inr pop3_Inr pop4_Inr

lemma Back_Inr: "Back st n = Inr x \<longleftrightarrow> n < length st \<and> x = st ! n"
  by (auto simp: Back_def)

section \<open>Memory\<close>

record Memory =
  mem_store :: bytes
  mem_lastGasCost :: u64

definition NewMemory :: Memory where
  "NewMemory = \<lparr>mem_store = [], mem_lastGasCost = 0\<rparr>"

text \<open>\<open>copy(dst[off:off+n], src)\<close> on a list: as many bytes as both sides have.\<close>

definition overwrite :: "nat \<Rightarrow> nat \<Rightarrow> bytes \<Rightarrow> bytes \<Rightarrow> bytes" where
  "overwrite off n src dst = take off dst @ take n src @ drop (off + min n (length src)) dst"

definition mem_Set :: "u64 \<Rightarrow> u64 \<Rightarrow> bytes \<Rightarrow> Memory \<Rightarrow> Memory res" where
  "mem_Set offset sz val m =
     (if 0 < sz then
        if offset + sz > of_nat (length (mem_store m)) then Inl (GoPanic ''invalid memory: store empty'')
        else if offset > offset + sz then Inl index_panic
        else Inr (m\<lparr>mem_store := overwrite (unat offset) (unat sz) val (mem_store m)\<rparr>)
      else Inr m)"

definition mem_Set32 :: "vm_math \<Rightarrow> u64 \<Rightarrow> int \<Rightarrow> Memory \<Rightarrow> Memory res" where
  "mem_Set32 M offset val m =
     (if offset + 32 > of_nat (length (mem_store m)) then Inl (GoPanic ''invalid memory: store empty'')
      else if offset > offset + 32 then Inl index_panic
      else Inr (m\<lparr>mem_store := overwrite (unat offset) 32 (math_ReadBits M val 32) (mem_store m)\<rparr>))"

definition mem_Resize :: "u64 \<Rightarrow> Memory \<Rightarrow> Memory" where
  "mem_Resize sz m =
     (if of_nat (length (mem_store m)) < sz
      then m\<lparr>mem_store := mem_store m @ replicate (unat (sz - of_nat (length (mem_store m)))) 0\<rparr> else m)"

text \<open>\<open>Get\<close> and \<open>GetPtr\<close> read the same bytes; the former copies them.\<close>

definition mem_Get :: "int \<Rightarrow> int \<Rightarrow> Memory \<Rightarrow> bytes res" where
  "mem_Get offset sz m =
     (if sz = 0 then Inr []
      else if int (length (mem_store m)) > offset then
        if sz < 0 \<or> offset < 0 \<or> offset + sz > int (length (mem_store m)) then Inl index_panic
        else Inr (take (nat sz) (drop (nat offset) (mem_store m)))
      else Inr [])"

definition mem_GetPtr :: "int \<Rightarrow> int \<Rightarrow> Memory \<Rightarrow> bytes res" where
  "mem_GetPtr offset sz m =
     (if sz = 0 then Inr []
      else if int (length (mem_store m)) > offset then
        if sz < 0 \<or> offset < 0 \<or> offset + sz > int (length (mem_store m)) then Inl index_panic
        else Inr (take (nat sz) (drop (nat offset) (mem_store m)))
      else Inr [])"

section \<open>Slices and sizes\<close>

definition calcMemSize :: "int \<Rightarrow> int \<Rightarrow> int" where
  "calcMemSize off l = (if l = 0 then 0 else off + l)"

text \<open>The end of the slice may wrap around below its start; the slice expression then panics.\<close>

definition getData :: "vm_math \<Rightarrow> bytes \<Rightarrow> u64 \<Rightarrow> u64 \<Rightarrow> bytes res" where
  "getData M data start sz =
     (let len = of_nat (length data) :: u64;
          start = (if start > len then len else start);
          end = start + sz;
          end = (if end > len then len else end)
      in if end < start then Inl index_panic
         else Inr (RightPadBytes M (take (unat end - unat start) (drop (unat start) data)) (sint sz)))"

definition getDataBig :: "vm_math \<Rightarrow> bytes \<Rightarrow> int \<Rightarrow> int \<Rightarrow> bytes res" where
  "getDataBig M data start sz =
     (let dlen = int (length data);
          s = math_BigMin M start dlen;
          e = math_BigMin M (s + sz) dlen
      in if big_Uint64 e < big_Uint64 s \<or> unat (big_Uint64 e) > length data then Inl index_panic
         else Inr (RightPadBytes M (take (unat (big_Uint64 e) - unat (big_Uint64 s)) (drop (unat (big_Uint64 s)) data))
           (sint (big_Uint64 sz))))"

definition bigUint64 :: "int \<Rightarrow> u64 \<times> bool" where
  "bigUint64 v = (big_Uint64 v, big_BitLen v > 64)"

definition toWordSize :: "u64 \<Rightarrow> u64" where
  "toWordSize sz = (if sz > 0xFFFFFFFFFFFFFFFF - 31 then 0xFFFFFFFFFFFFFFFF div 32 + 1 else (sz + 31) div 32)"

primrec allZero :: "bytes \<Rightarrow> bool" where
  "allZero [] = True"
| "allZero (b # bs) = (if b \<noteq> 0 then False else allZero bs)"

section \<open>Memory an operation needs\<close>

definition mem_range :: "nat \<Rightarrow> nat \<Rightarrow> stack \<Rightarrow> int res" where
  "mem_range i j st = bind_res (Back st i) (\<lambda>off. bind_res (Back st j) (\<lambda>l. Inr (calcMemSize off l)))"

definition mem_fixed :: "int \<Rightarrow> stack \<Rightarrow> int res" where
  "mem_fixed n st = bind_res (Back st 0) (\<lambda>off. Inr (calcMemSize off n))"

definition mem_max :: "vm_math \<Rightarrow> (stack \<Rightarrow> int res) \<Rightarrow> (stack \<Rightarrow> int res) \<Rightarrow> stack \<Rightarrow> int res" where
  "mem_max M f g st = bind_res (f st) (\<lambda>x. bind_res (g st) (\<lambda>y. Inr (math_BigMax M x y)))"

definition memorySha3 :: "stack \<Rightarrow> int res" where
  "memorySha3 = mem_range 0 1"

definition memoryCallDataCopy :: "stack \<Rightarrow> int res" where
  "memoryCallDataCopy = mem_range 0 2"

definition memoryReturnDataCopy :: "stack \<Rightarrow> int res" where
  "memoryReturnDataCopy = mem_range 0 2"

definition memoryCodeCopy :: "stack \<Rightarrow> int res" where
  "memoryCodeCopy = mem_range 0 2"

definition memoryExtCodeCopy :: "stack \<Rightarrow> int res" where
  "memoryExtCodeCopy = mem_range 1 3"

definition memoryMLoad :: "stack \<Rightarrow> int res" where
  "memoryMLoad = mem_fixed 32"

definition memoryMStore8 :: "stack \<Rightarrow> int res" where
  "memoryMStore8 = mem_fixed 1"

definition memoryMStore :: "stack \<Rightarrow> int res" where
  "memoryMStore = mem_fixed 32"

definition memoryCreate :: "stack \<Rightarrow> int res" where
  "memoryCreate = mem_range 1 2"

definition memoryCreate2 :: "stack \<Rightarrow> int res" where
  "memoryCreate2 = mem_range 1 2"

definition memoryCall :: "vm_math \<Rightarrow> stack \<Rightarrow> int res" where
  "memoryCall M = mem_max M (mem_range 5 6) (mem_range 3 4)"

definition memoryDelegateCall :: "vm_math \<Rightarrow> stack \<Rightarrow> int res" where
  "memoryDelegateCall M = mem_max M (mem_range 4 5) (mem_range 2 3)"

definition memoryStaticCall :: "vm_math \<Rightarrow> stack \<Rightarrow> int res" where
  "memoryStaticCall M = mem_max M (mem_range 4 5) (mem_range 2 3)"

definition memoryReturn :: "stack \<Rightarrow> int res" where
  "memoryReturn = mem_range 0 1"

definition memoryRevert :: "stack \<Rightarrow> int res" where
  "memoryRevert = mem_range 0 1"

definition memoryLog :: "stack \<Rightarrow> int res" where
  "memoryLog = mem_range 0 1"

section \<open>Code and push data\<close>

type_synonym bitvec = "u8 list"

definition PUSH1 :: u8 where
  "PUSH1 = 0x60"

definition PUSH32 :: u8 where
  "PUSH32 = 0x7F"

definition JUMPDEST :: u8 where
  "JUMPDEST = 0x5B"

definition bits_or :: "nat \<Rightarrow> u8 \<Rightarrow> bitvec \<Rightarrow> bitvec res" where
  "bits_or i b bits = (if i < length bits then Inr (bits[i := (bits ! i) OR b]) else Inl index_panic)"

definition bits_set :: "nat \<Rightarrow> bitvec \<Rightarrow> bitvec res" where
  "bits_set pos bits = bits_or (pos div 8) (drop_bit (pos mod 8) 0x80) bits"

definition bits_set8 :: "nat \<Rightarrow> bitvec \<Rightarrow> bitvec res" where
  "bits_set8 pos bits =
     bind_res (bits_or (pos div 8) (drop_bit (pos mod 8) 0xFF) bits)
       (bits_or (pos div 8 + 1) (NOT (drop_bit (pos mod 8) 0xFF)))"

definition codeSegment :: "bitvec \<Rightarrow> nat \<Rightarrow> bool res" where
  "codeSegment bits pos =
     (if pos div 8 < length bits then Inr ((bits ! (pos div 8)) AND drop_bit (pos mod 8) 0x80 = 0)
      else Inl index_panic)"

text \<open>The two inner loops of \<open>codeBitmap\<close>, over the data bytes of one push instruction.\<close>

fun mark1 :: "nat \<Rightarrow> nat \<Rightarrow> bitvec \<Rightarrow> bitvec res" where
  "mark1 0 pc bits = Inr bits"
| "mark1 (Suc numbits) pc bits = bind_res (bits_set pc bits) (mark1 numbits (pc + 1))"

fun mark8 :: "nat \<Rightarrow> nat \<Rightarrow> bitvec \<Rightarrow> bitvec res" where
  "mark8 numbits pc bits =
     (if numbits \<ge> 8 then bind_res (bits_set8 pc bits) (mark8 (numbits - 8) (pc + 8))
      else mark1 numbits pc bits)"

declare mark8.simps [simp del]

definition push_len :: "u8 \<Rightarrow> nat" where
  "push_len op = (if op \<ge> PUSH1 \<and> op \<le> PUSH32 then unat (op - PUSH1 + 1) else 0)"

function codeBitmap_loop :: "bytes \<Rightarrow> nat \<Rightarrow> bitvec \<Rightarrow> bitvec res" where
  "codeBitmap_loop code pc bits =
     (if pc < length code then
        (case mark8 (push_len (code ! pc)) (pc + 1) bits of
           Inl e \<Rightarrow> Inl e
         | Inr bits \<Rightarrow> codeBitmap_loop code (pc + 1 + push_len (code ! pc)) bits)
      else Inr bits)"
  by auto
termination by (relation "measure (\<lambda>(code, pc, bits). length code - pc)") auto

declare codeBitmap_loop.simps [simp del]

definition codeBitmap :: "bytes \<Rightarrow> bitvec res" where
  "codeBitmap code = codeBitmap_loop code 0 (replicate (length code div 8 + 1 + 4) 0)"

section \<open>The analysis marks exactly the push data\<close>

text \<open>The reference: a byte is push data when an instruction before it skips over it.\<close>

fun push_data :: "nat \<Rightarrow> bytes \<Rightarrow> bool list" where
  "push_data k [] = []"
| "push_data (Suc k) (b # bs) = True # push_data k bs"
| "push_data 0 (b # bs) = False # push_data (push_len b) bs"

definition marked :: "bitvec \<Rightarrow> nat \<Rightarrow> bool" where
  "marked bits p \<longleftrightarrow> bit (bits ! (p div 8)) (7 - p mod 8)"

lemma bit_0x80: "bit (drop_bit k (0x80 :: u8)) n \<longleftrightarrow> k + n = 7"
proof -
  have "(0x80 :: u8) = 2 ^ 7" by simp
  then show ?thesis by (simp only: bit_drop_bit_eq comp_def bit_exp_iff) auto
qed

lemma bit_0xFF: "bit (drop_bit k (0xFF :: u8)) n \<longleftrightarrow> k + n < 8"
proof -
  have "(0xFF :: u8) = mask 8" by (simp add: mask_eq_exp_minus_1)
  then show ?thesis by (simp only: bit_drop_bit_eq comp_def bit_mask_iff) auto
qed

lemma and_single_zero:
  assumes "k < 8"
  shows "(w :: u8) AND drop_bit k 0x80 = 0 \<longleftrightarrow> \<not> bit w (7 - k)"
proof
  assume "w AND drop_bit k 0x80 = 0"
  then have "\<not> bit (w AND drop_bit k 0x80) (7 - k)" by simp
  then show "\<not> bit w (7 - k)" using assms by (simp add: bit_and_iff bit_0x80)
next
  assume b: "\<not> bit w (7 - k)"
  show "w AND drop_bit k 0x80 = 0"
  proof (rule bit_eqI)
    fix n show "bit (w AND drop_bit k 0x80) n = bit (0 :: u8) n"
      using b assms by (cases "n = 7 - k") (auto simp: bit_and_iff bit_0x80)
  qed
qed

lemma codeSegment_marked:
  assumes "p div 8 < length bits"
  shows "codeSegment bits p = Inr (\<not> marked bits p)"
  using assms by (simp add: codeSegment_def marked_def and_single_zero)

lemma bits_or_marked:
  assumes "i < length bits"
  obtains bits' where "bits_or i b bits = Inr bits'" "length bits' = length bits"
    "\<And>p. p div 8 < length bits \<Longrightarrow> marked bits' p = (marked bits p \<or> p div 8 = i \<and> bit b (7 - p mod 8))"
proof
  show "bits_or i b bits = Inr (bits[i := (bits ! i) OR b])" using assms by (simp add: bits_or_def)
  show "length (bits[i := (bits ! i) OR b]) = length bits" by simp
  show "p div 8 < length bits \<Longrightarrow>
      marked (bits[i := (bits ! i) OR b]) p = (marked bits p \<or> p div 8 = i \<and> bit b (7 - p mod 8))" for p
    by (cases "p div 8 = i") (auto simp: marked_def bit_or_iff nth_list_update)
qed

text \<open>What a loop over a range of positions does to a bit vector.\<close>

definition marks :: "bitvec res \<Rightarrow> bitvec \<Rightarrow> (nat \<Rightarrow> bool) \<Rightarrow> bool" where
  "marks r bits Q \<longleftrightarrow> (\<exists>bits'. r = Inr bits' \<and> length bits' = length bits \<and>
     (\<forall>p. p div 8 < length bits \<longrightarrow> marked bits' p = (marked bits p \<or> Q p)))"

lemma marks_bind:
  assumes "marks r bits Q" "\<And>bits'. length bits' = length bits \<Longrightarrow> marks (f bits') bits' R"
    "\<And>p. Q p \<or> R p \<longleftrightarrow> S p"
  shows "marks (bind_res r f) bits S"
proof -
  obtain b1 where b1: "r = Inr b1" "length b1 = length bits"
    "\<And>p. p div 8 < length bits \<Longrightarrow> marked b1 p = (marked bits p \<or> Q p)" using assms(1) by (auto simp: marks_def)
  obtain b2 where b2: "f b1 = Inr b2" "length b2 = length b1"
    "\<And>p. p div 8 < length b1 \<Longrightarrow> marked b2 p = (marked b1 p \<or> R p)" using assms(2) [OF b1(2)] by (auto simp: marks_def)
  show ?thesis unfolding marks_def using b1 b2 assms(3) by (auto intro!: exI [of _ b2])
qed

lemma marks_or:
  assumes "i < length bits"
  shows "marks (bits_or i b bits) bits (\<lambda>p. p div 8 = i \<and> bit b (7 - p mod 8))"
  using bits_or_marked [OF assms] unfolding marks_def by metis

lemma marks_cong: "marks r bits Q \<Longrightarrow> (\<And>p. Q p \<longleftrightarrow> R p) \<Longrightarrow> marks r bits R"
  by (simp add: marks_def)

lemma octets:
  fixes p pos :: nat
  shows "(p div 8 = pos div 8 \<and> pos mod 8 + (7 - p mod 8) < 8 \<or>
      p div 8 = pos div 8 + 1 \<and> \<not> pos mod 8 + (7 - p mod 8) < 8) = (pos \<le> p \<and> p < pos + 8)"
proof -
  define a r b q where "a = pos div 8" and "r = pos mod 8" and "b = p div 8" and "q = p mod 8"
  have e: "pos = 8 * a + r" "p = 8 * b + q" "r < 8" "q < 8" by (simp_all add: a_def r_def b_def q_def)
  consider "b < a" | "b = a" | "b = a + 1" | "a + 1 < b" by linarith
  then have "(b = a \<and> r + (7 - q) < 8 \<or> b = a + 1 \<and> \<not> r + (7 - q) < 8) = (8 * a + r \<le> 8 * b + q \<and> 8 * b + q < 8 * a + r + 8)"
    by cases (use e(3,4) in auto)
  then show ?thesis unfolding e(1,2) [symmetric] by (simp only: a_def r_def b_def q_def)
qed

lemma octet_eq:
  fixes p pos :: nat
  shows "(p div 8 = pos div 8 \<and> pos mod 8 + (7 - p mod 8) = 7) = (p = pos)"
proof
  assume a: "p div 8 = pos div 8 \<and> pos mod 8 + (7 - p mod 8) = 7"
  have "p mod 8 < 8" by simp
  with a have "pos mod 8 = p mod 8" by linarith
  with a show "p = pos" by (metis mult_div_mod_eq)
next
  assume "p = pos"
  moreover have "pos mod 8 < 8" by simp
  ultimately show "p div 8 = pos div 8 \<and> pos mod 8 + (7 - p mod 8) = 7" by (intro conjI; simp; linarith)
qed

lemma marks_set: "pos div 8 < length bits \<Longrightarrow> marks (bits_set pos bits) bits (\<lambda>p. p = pos)"
  unfolding bits_set_def
proof (rule marks_cong [OF marks_or])
  fix p show "(p div 8 = pos div 8 \<and> bit (drop_bit (pos mod 8) (0x80 :: u8)) (7 - p mod 8)) = (p = pos)"
    unfolding bit_0x80 by (rule octet_eq)
qed

lemma marks_set8:
  assumes "pos div 8 + 1 < length bits"
  shows "marks (bits_set8 pos bits) bits (\<lambda>p. pos \<le> p \<and> p < pos + 8)"
  unfolding bits_set8_def
proof (rule marks_bind [OF marks_or])
  show "pos div 8 < length bits" using assms by simp
next
  fix bits' :: bitvec assume "length bits' = length bits"
  then show "marks (bits_or (pos div 8 + 1) (NOT (drop_bit (pos mod 8) 0xFF)) bits') bits'
      (\<lambda>p. p div 8 = pos div 8 + 1 \<and> bit (NOT (drop_bit (pos mod 8) (0xFF :: u8))) (7 - p mod 8))"
    using assms by (intro marks_or) simp
next
  fix p
  have "bit (NOT (drop_bit (pos mod 8) (0xFF :: u8))) (7 - p mod 8) \<longleftrightarrow> \<not> pos mod 8 + (7 - p mod 8) < 8"
    by (auto simp: bit_not_iff bit_0xFF)
  then show "(p div 8 = pos div 8 \<and> bit (drop_bit (pos mod 8) (0xFF :: u8)) (7 - p mod 8) \<or>
      p div 8 = pos div 8 + 1 \<and> bit (NOT (drop_bit (pos mod 8) (0xFF :: u8))) (7 - p mod 8)) = (pos \<le> p \<and> p < pos + 8)"
    unfolding bit_0xFF by (simp only: octets)
qed

lemma marks_mark1:
  "(pc + n) div 8 < length bits \<Longrightarrow> marks (mark1 n pc bits) bits (\<lambda>p. pc \<le> p \<and> p < pc + n)"
proof (induction n arbitrary: pc bits)
  case 0
  then show ?case by (auto simp: marks_def)
next
  case (Suc n)
  show ?case unfolding mark1.simps
  proof (rule marks_bind [OF marks_set])
    show "pc div 8 < length bits" using Suc.prems div_le_mono [of pc "pc + Suc n" 8] by simp
    show "marks (mark1 n (pc + 1) bits') bits' (\<lambda>p. pc + 1 \<le> p \<and> p < pc + 1 + n)" if "length bits' = length bits" for bits'
      using Suc.prems that by (intro Suc.IH) simp
  qed auto
qed

lemma marks_mark8:
  "(pc + n) div 8 < length bits \<Longrightarrow> marks (mark8 n pc bits) bits (\<lambda>p. pc \<le> p \<and> p < pc + n)"
proof (induction n pc bits rule: mark8.induct)
  case (1 n pc bits)
  show ?case
  proof (cases "n \<ge> 8")
    case True
    have "marks (bind_res (bits_set8 pc bits) (mark8 (n - 8) (pc + 8))) bits (\<lambda>p. pc \<le> p \<and> p < pc + n)"
    proof (rule marks_bind [OF marks_set8])
      show "pc div 8 + 1 < length bits" using "1.prems" div_le_mono [of "pc + 8" "pc + n" 8] True by simp
      show "marks (mark8 (n - 8) (pc + 8) bits') bits' (\<lambda>p. pc + 8 \<le> p \<and> p < pc + 8 + (n - 8))"
        if "length bits' = length bits" for bits'
        using "1.prems" that True by (intro "1.IH" [OF True]) simp
    qed (use True in auto)
    then show ?thesis by (subst mark8.simps) (simp only: True if_True)
  next
    case False
    then show ?thesis using marks_mark1 [OF "1.prems"] by (subst mark8.simps) (simp only: if_False)
  qed
qed

lemma push_data_skip:
  "i < length bs \<Longrightarrow> push_data k bs ! i \<longleftrightarrow> i < k \<or> push_data 0 (drop k bs) ! (i - k)"
proof (induction k bs arbitrary: i rule: push_data.induct)
  case (2 k b bs)
  then show ?case by (cases i) auto
qed simp_all

lemma push_len_le: "push_len op \<le> 32"
proof (cases "op \<ge> PUSH1 \<and> op \<le> PUSH32")
  case True
  then have "unat op \<le> 127" "96 \<le> unat op" by (simp_all add: PUSH1_def PUSH32_def word_le_nat_alt)
  moreover have "unat (op - PUSH1) = unat op - 96"
    using True by (simp add: PUSH1_def unat_sub_if' word_le_nat_alt)
  ultimately have "unat (op - PUSH1 + 1) = unat op - 96 + 1"
    by (subst unat_add_lt) simp_all
  then have "push_len op = unat op - 96 + 1" using True by (simp only: push_len_def if_True simp_thms)
  then show ?thesis using \<open>unat op \<le> 127\<close> by linarith
qed (auto simp: push_len_def)

lemma codeBitmap_loop_marks:
  "length bits = length code div 8 + 5 \<Longrightarrow>
   \<exists>bits'. codeBitmap_loop code pc bits = Inr bits' \<and> length bits' = length bits \<and>
     (\<forall>p<length code. marked bits' p = (marked bits p \<or> pc \<le> p \<and> push_data 0 (drop pc code) ! (p - pc)))"
proof (induction code pc bits rule: codeBitmap_loop.induct)
  case (1 code pc bits)
  show ?case
  proof (cases "pc < length code")
    case False
    then show ?thesis by (auto simp: codeBitmap_loop.simps [of code pc bits])
  next
    case True
    define k where "k = push_len (code ! pc)"
    have "(pc + 1 + k) div 8 < length bits" using True "1.prems" push_len_le [of "code ! pc"] by (simp add: k_def)
    from marks_mark8 [OF this] obtain b1 where b1: "mark8 k (pc + 1) bits = Inr b1" "length b1 = length bits"
      "\<And>p. p div 8 < length bits \<Longrightarrow> marked b1 p = (marked bits p \<or> pc + 1 \<le> p \<and> p < pc + 1 + k)"
      unfolding marks_def by blast
    obtain b2 where b2: "codeBitmap_loop code (pc + 1 + k) b1 = Inr b2" "length b2 = length b1"
      "\<And>p. p < length code \<Longrightarrow> marked b2 p = (marked b1 p \<or> pc + 1 + k \<le> p \<and> push_data 0 (drop (pc + 1 + k) code) ! (p - (pc + 1 + k)))"
      using "1.IH" [OF True b1(1) [unfolded k_def]] b1(2) "1.prems" by (auto simp: k_def)
    have d: "drop pc code = code ! pc # drop (Suc pc) code" using True by (rule Cons_nth_drop_Suc [symmetric])
    have "marked b2 p = (marked bits p \<or> pc \<le> p \<and> push_data 0 (drop pc code) ! (p - pc))" if p: "p < length code" for p
    proof -
      have "p div 8 < length bits" using p "1.prems" by simp
      then have m: "marked b2 p = (marked bits p \<or> pc + 1 \<le> p \<and> p < pc + 1 + k \<or>
          pc + 1 + k \<le> p \<and> push_data 0 (drop (pc + 1 + k) code) ! (p - (pc + 1 + k)))" using b1(3) b2(3) [OF p] by simp
      show ?thesis
      proof (cases "pc < p")
        case True
        then obtain i where i: "p = Suc (pc + i)" by (auto dest: less_imp_Suc_add)
        have "push_data k (drop (Suc pc) code) ! i \<longleftrightarrow> i < k \<or> push_data 0 (drop k (drop (Suc pc) code)) ! (i - k)"
          by (rule push_data_skip) (use p i in simp)
        then have "push_data 0 (drop pc code) ! (p - pc) \<longleftrightarrow> i < k \<or> push_data 0 (drop (pc + 1 + k) code) ! (i - k)"
          by (simp add: d i k_def add.commute)
        then show ?thesis unfolding m using i by auto
      qed (auto simp: m d)
    qed
    then show ?thesis using b1(1,2) b2(1,2) True by (auto simp: codeBitmap_loop.simps [of code pc bits] k_def)
  qed
qed

text \<open>C22: The jump-destination analysis of a contract's code never indexes outside its bit vector, and a
  position counts as code exactly when it is not among the data bytes of a push instruction that starts
  before it, where instructions are read from the first byte on and a push skips its data.\<close>

theorem code_bitmap_push_data:
  "\<exists>bits. codeBitmap code = Inr bits \<and>
     (\<forall>pos\<in>{0..<length code}. codeSegment bits pos = Inr (\<not> push_data 0 code ! pos))"
proof -
  define z :: bitvec where "z = replicate (length code div 8 + 1 + 4) 0"
  have z: "length z = length code div 8 + 5" by (simp add: z_def)
  have n: "\<not> marked z p" if "p < length code" for p
  proof -
    have "p div 8 < length code div 8 + 1 + 4" using div_le_mono [of p "length code" 8] that by simp
    then show ?thesis unfolding marked_def z_def by (subst nth_replicate) simp_all
  qed
  from codeBitmap_loop_marks [OF z, of 0] obtain bits where b: "codeBitmap_loop code 0 z = Inr bits" "length bits = length z"
    "\<And>p. p < length code \<Longrightarrow> marked bits p = (marked z p \<or> 0 \<le> p \<and> push_data 0 (drop 0 code) ! (p - 0))" by blast
  have "codeSegment bits p = Inr (\<not> push_data 0 code ! p)" if p: "p < length code" for p
  proof -
    have "p div 8 < length bits" using div_le_mono [of p "length code" 8] p by (simp add: b(2) z)
    then show ?thesis using b(3) [OF p] n [OF p] by (simp add: codeSegment_marked)
  qed
  moreover have "codeBitmap code = Inr bits" using b(1) by (simp only: codeBitmap_def z_def)
  ultimately show ?thesis by (intro exI [of _ bits]) simp
qed

theorem code_bitmap_push_data_witness:
  "\<exists>bits. codeBitmap [0x61, 0x5B, 0x5B, 0x5B] = Inr bits \<and> codeSegment bits 2 = Inr False \<and> codeSegment bits 3 = Inr True"
proof -
  obtain bits where b: "codeBitmap [0x61, 0x5B, 0x5B, 0x5B] = Inr bits"
    "\<forall>pos\<in>{0..<length ([0x61, 0x5B, 0x5B, 0x5B] :: bytes)}. codeSegment bits pos = Inr (\<not> push_data 0 [0x61, 0x5B, 0x5B, 0x5B] ! pos)"
    using code_bitmap_push_data by blast
  have "push_len 0x61 = Suc (Suc 0)" "push_len 0x5B = 0" by (simp_all add: push_len_def PUSH1_def PUSH32_def)
  then have "push_data 0 [0x61, 0x5B, 0x5B, 0x5B] = [False, True, True, False]" by simp
  then show ?thesis using b by (auto simp: numeral_2_eq_2 numeral_3_eq_3)
qed

section \<open>Memory accesses within bounds\<close>

lemma overwrite_length: "off + n \<le> length dst \<Longrightarrow> length (overwrite off n src dst) = length dst"
  by (auto simp: overwrite_def min_def)

lemma overwrite_inside:
  "off + n \<le> length dst \<Longrightarrow> length src = n \<Longrightarrow> take n (drop off (overwrite off n src dst)) = src"
  by (simp add: overwrite_def min_def)

lemma overwrite_outside:
  "off + n \<le> length dst \<Longrightarrow> i < off \<or> off + n \<le> i \<Longrightarrow> i < length dst \<Longrightarrow> overwrite off n src dst ! i = dst ! i"
  by (auto simp: overwrite_def nth_append min_def)

lemma u64_add_no_wrap:
  fixes a b :: u64
  assumes "unat a + unat b \<le> n" "n < 2 ^ 63"
  shows "unat (a + b) = unat a + unat b" "\<not> a + b > of_nat n" "\<not> a > a + b"
proof -
  show u: "unat (a + b) = unat a + unat b" by (rule unat_add_lt) (use assms in simp)
  have "unat (of_nat n :: u64) = n" using assms(2) by (simp add: unat_of_nat)
  with u assms show "\<not> a + b > of_nat n" "\<not> a > a + b" by (simp_all add: word_less_nat_alt)
qed

lemma mem_Set_ok:
  assumes "unat offset + unat sz \<le> length (mem_store m)" "length (mem_store m) < 2 ^ 63"
  shows "mem_Set offset sz val m = Inr (m\<lparr>mem_store := overwrite (unat offset) (unat sz) val (mem_store m)\<rparr>)"
  using u64_add_no_wrap [OF assms] by (auto simp: mem_Set_def overwrite_def word_gt_0)

lemma mem_Get_ok:
  assumes "0 \<le> offset" "0 \<le> sz" "offset + sz \<le> int (length (mem_store m))"
  shows "mem_Get offset sz m = Inr (take (nat sz) (drop (nat offset) (mem_store m)))"
  using assms by (auto simp: mem_Get_def)

text \<open>C26: A 32-byte word that \<open>Set32\<close> stores into memory that has been resized to hold it reads back from
  its offset with the value that was written; no other byte and not the size of the memory changes.\<close>

theorem memory_word_roundtrip:
  assumes "math_laws M" "0 \<le> v" "v < 2 ^ 256" "unat off + 32 \<le> length (mem_store m)" "length (mem_store m) < 2 ^ 63"
  shows "\<exists>m' bs. mem_Set32 M off v m = Inr m' \<and> mem_Get (int (unat off)) 32 m' = Inr bs \<and> big_SetBytes bs = v
    \<and> length (mem_store m') = length (mem_store m)
    \<and> (\<forall>i\<in>{0..<length (mem_store m)} - {unat off..<unat off + 32}. mem_store m' ! i = mem_store m ! i)"
proof -
  let ?b = "be_bytes 32 (nat v)"
  have w: "\<not> off + 32 > of_nat (length (mem_store m))" "\<not> off > off + 32"
    using u64_add_no_wrap [of off 32 "length (mem_store m)"] assms(4,5) by simp_all
  have s: "mem_Set32 M off v m = Inr (m\<lparr>mem_store := overwrite (unat off) 32 ?b (mem_store m)\<rparr>)"
    using w assms(1,2) by (simp add: mem_Set32_def math_simps)
  have "nat v < 256 ^ 32" using assms(2,3) by (simp add: nat_less_iff)
  then have b: "be_value ?b = nat v" by (simp only: be_value_be_bytes mod_less)
  have a: "int (unat off) + 32 \<le> int (length (mem_store m))" using assms(4) by linarith
  have g: "mem_Get (int (unat off)) 32 (m\<lparr>mem_store := overwrite (unat off) 32 ?b (mem_store m)\<rparr>) = Inr ?b"
    using overwrite_inside [OF assms(4), of ?b] overwrite_length [OF assms(4), of ?b] a
    by (subst mem_Get_ok) simp_all
  have o: "overwrite (unat off) 32 ?b (mem_store m) ! i = mem_store m ! i"
    if "i \<in> {0..<length (mem_store m)} - {unat off..<unat off + 32}" for i
    using that by (intro overwrite_outside [OF assms(4)]) auto
  have "big_SetBytes ?b = v" unfolding big_SetBytes_def b using assms(2) by simp
  then show ?thesis using s g o overwrite_length [OF assms(4), of ?b] by auto
qed

theorem memory_word_roundtrip_witness:
  "\<exists>m' bs. mem_Set32 std_math 32 7 \<lparr>mem_store = replicate 96 1, mem_lastGasCost = 0\<rparr> = Inr m' \<and> mem_Get 32 32 m' = Inr bs
    \<and> big_SetBytes bs = 7 \<and> mem_store m' ! 64 = 1"
proof -
  obtain m' bs where m: "mem_Set32 std_math 32 7 \<lparr>mem_store = replicate 96 1, mem_lastGasCost = 0\<rparr> = Inr m'"
    "mem_Get (int (unat (32 :: u64))) 32 m' = Inr bs" "big_SetBytes bs = 7"
    "\<forall>i\<in>{0..<length (mem_store \<lparr>mem_store = replicate 96 1, mem_lastGasCost = 0\<rparr>)} - {unat (32 :: u64)..<unat (32 :: u64) + 32}.
       mem_store m' ! i = mem_store \<lparr>mem_store = replicate 96 1, mem_lastGasCost = 0\<rparr> ! i"
    using memory_word_roundtrip [OF std_math_laws, of 7 32 "\<lparr>mem_store = replicate 96 1, mem_lastGasCost = 0\<rparr>"] by auto
  have "mem_store m' ! 64 = 1" using m(4) [rule_format, of 64] by simp
  then show ?thesis using m by auto
qed

end
