(* ===== verification/VmArith.thy ===== *)
theory VmArith
  imports VmStack "HOL-Library.Signed_Division"
begin

text \<open>
  The arithmetic, comparison and bit instructions of \<open>core/vm/instructions.go\<close> as functions on the
  stack, and their equivalence with the operations of 256-bit machine words. The instructions compute on
  unbounded integers and reduce with \<open>math.U256\<close>; the signed ones read their operands with
  \<open>math.S256\<close>. Division and remainder of \<open>big.Int\<close> are applied to non-negative operands only.
\<close>

section \<open>Instructions\<close>

definition opAdd :: "vm_math \<Rightarrow> stack \<Rightarrow> stack res" where
  "opAdd M st = pop2 st (\<lambda>x y st. Inr (U256 M (x + y) # st))"

definition opSub :: "vm_math \<Rightarrow> stack \<Rightarrow> stack res" where
  "opSub M st = pop2 st (\<lambda>x y st. Inr (U256 M (x - y) # st))"

definition opMul :: "vm_math \<Rightarrow> stack \<Rightarrow> stack res" where
  "opMul M st = pop2 st (\<lambda>x y st. Inr (U256 M (x * y) # st))"

definition opDiv :: "vm_math \<Rightarrow> stack \<Rightarrow> stack res" where
  "opDiv M st = pop2 st (\<lambda>x y st. Inr ((if big_Sign y \<noteq> 0 then U256 M (x div y) else 0) # st))"

definition opSdiv :: "vm_math \<Rightarrow> stack \<Rightarrow> stack res" where
  "opSdiv M st =
     pop2 st (\<lambda>x y st.
       let x = S256 M x; y = S256 M y in
       if big_Sign y = 0 \<or> big_Sign x = 0 then Inr (0 # st)
       else if big_Sign x \<noteq> big_Sign y then Inr (U256 M (- (\<bar>x\<bar> div \<bar>y\<bar>)) # st)
       else Inr (U256 M (\<bar>x\<bar> div \<bar>y\<bar>) # st))"

definition opMod :: "vm_math \<Rightarrow> stack \<Rightarrow> stack res" where
  "opMod M st = pop2 st (\<lambda>x y st. Inr ((if big_Sign y = 0 then 0 else U256 M (x mod y)) # st))"

definition opSmod :: "vm_math \<Rightarrow> stack \<Rightarrow> stack res" where
  "opSmod M st =
     pop2 st (\<lambda>x y st.
       let x = S256 M x; y = S256 M y in
       if big_Sign y = 0 then Inr (0 # st)
       else if big_Sign x < 0 then Inr (U256 M (- (\<bar>x\<bar> mod \<bar>y\<bar>)) # st)
       else Inr (U256 M (\<bar>x\<bar> mod \<bar>y\<bar>) # st))"

definition opExp :: "vm_math \<Rightarrow> stack \<Rightarrow> stack res" where
  "opExp M st =
     pop2 st (\<lambda>b e st. Inr (
       (if e < 1 then 1 else if big_Sign b = 0 then 0 else if e = 1 then b else math_Exp M b e) # st))"

definition opSignExtend :: "vm_math \<Rightarrow> stack \<Rightarrow> stack res" where
  "opSignExtend M st =
     pop1 st (\<lambda>back st.
       if back < 31 then
         let bitn = unat (big_Uint64 back * 8 + 7) in
         pop1 st (\<lambda>num st.
           let mask = push_bit bitn 1 - 1 in
           Inr (U256 M (if bit num bitn then num OR NOT mask else num AND mask) # st))
       else Inr st)"

definition opNot :: "vm_math \<Rightarrow> stack \<Rightarrow> stack res" where
  "opNot M st = pop1 st (\<lambda>x st. Inr (U256 M (NOT x) # st))"

definition opLt :: "stack \<Rightarrow> stack res" where
  "opLt st = pop2 st (\<lambda>x y st. Inr ((if x < y then 1 else 0) # st))"

definition opGt :: "stack \<Rightarrow> stack res" where
  "opGt st = pop2 st (\<lambda>x y st. Inr ((if x > y then 1 else 0) # st))"

definition tt255 :: int where
  "tt255 = 2 ^ 255"

definition opSlt :: "stack \<Rightarrow> stack res" where
  "opSlt st =
     pop2 st (\<lambda>x y st. Inr (
       (if x \<ge> tt255 \<and> y < tt255 then 1 else if x < tt255 \<and> y \<ge> tt255 then 0
        else if x < y then 1 else 0) # st))"

definition opSgt :: "stack \<Rightarrow> stack res" where
  "opSgt st =
     pop2 st (\<lambda>x y st. Inr (
       (if x \<ge> tt255 \<and> y < tt255 then 0 else if x < tt255 \<and> y \<ge> tt255 then 1
        else if x > y then 1 else 0) # st))"

definition opEq :: "stack \<Rightarrow> stack res" where
  "opEq st = pop2 st (\<lambda>x y st. Inr ((if x = y then 1 else 0) # st))"

definition opIszero :: "stack \<Rightarrow> stack res" where
  "opIszero st = pop1 st (\<lambda>x st. Inr ((if big_Sign x > 0 then 0 else 1) # st))"

definition opAnd :: "stack \<Rightarrow> stack res" where
  "opAnd st = pop2 st (\<lambda>x y st. Inr ((x AND y) # st))"

definition opOr :: "stack \<Rightarrow> stack res" where
  "opOr st = pop2 st (\<lambda>x y st. Inr ((x OR y) # st))"

definition opXor :: "stack \<Rightarrow> stack res" where
  "opXor st = pop2 st (\<lambda>x y st. Inr ((x XOR y) # st))"

definition opByte :: "vm_math \<Rightarrow> stack \<Rightarrow> stack res" where
  "opByte M st =
     pop2 st (\<lambda>th val st. Inr ((if th < 32 then uint (math_Byte M val 32 (big_Int64 th)) else 0) # st))"

definition opAddmod :: "vm_math \<Rightarrow> stack \<Rightarrow> stack res" where
  "opAddmod M st = pop3 st (\<lambda>x y z st. Inr ((if z > 0 then U256 M ((x + y) mod z) else 0) # st))"

definition opMulmod :: "vm_math \<Rightarrow> stack \<Rightarrow> stack res" where
  "opMulmod M st = pop3 st (\<lambda>x y z st. Inr ((if z > 0 then U256 M ((x * y) mod z) else 0) # st))"

definition opSHL :: "vm_math \<Rightarrow> stack \<Rightarrow> stack res" where
  "opSHL M st =
     pop2 st (\<lambda>shift val st.
       let shift = U256 M shift; val = U256 M val in
       Inr ((if shift \<ge> 256 then 0 else U256 M (push_bit (unat (big_Uint64 shift)) val)) # st))"

definition opSHR :: "vm_math \<Rightarrow> stack \<Rightarrow> stack res" where
  "opSHR M st =
     pop2 st (\<lambda>shift val st.
       let shift = U256 M shift; val = U256 M val in
       Inr ((if shift \<ge> 256 then 0 else U256 M (drop_bit (unat (big_Uint64 shift)) val)) # st))"

definition opSAR :: "vm_math \<Rightarrow> stack \<Rightarrow> stack res" where
  "opSAR M st =
     pop2 st (\<lambda>shift val st.
       let shift = U256 M shift; val = S256 M val in
       if shift \<ge> 256 then Inr (U256 M (if big_Sign val \<ge> 0 then 0 else - 1) # st)
       else Inr (U256 M (drop_bit (unat (big_Uint64 shift)) val) # st))"

section \<open>Integers and machine words\<close>

lemma uint256: "0 \<le> uint (x :: hash)" "uint x < 2 ^ 256"
  using uint_lt2p [of x] by simp_all

lemma int_unat: "uint (x :: 'a::len word) = int (unat x)"
  by simp

lemma uint_word_of_int256: "uint (word_of_int i :: hash) = i mod 2 ^ 256"
  by (simp add: uint_word_of_int)

lemma S256_uint: "math_laws M \<Longrightarrow> S256 M (uint (x :: hash)) = sint x"
proof -
  assume "math_laws M"
  then have "S256 M (uint x) = (if uint x < 2 ^ 255 then uint x else uint x - 2 ^ 256)" by (rule math_simps)
  also have "\<dots> = sint x"
  proof -
    have "sint x = signed_take_bit 255 (uint x)" by (simp add: sint_uint)
    also have "\<dots> = (if bit (uint x) 255 then uint x - 2 ^ 256 else uint x)"
      using uint256 [of x] by (simp add: signed_take_bit_eq_take_bit_minus take_bit_int_eq_self)
    also have "bit (uint x) 255 \<longleftrightarrow> \<not> uint x < 2 ^ 255"
    proof (cases "uint x < 2 ^ 255")
      case False
      then have "uint x div 2 ^ 255 = 1" using uint256 [of x] by (intro int_div_pos_eq [where r = "uint x - 2 ^ 255"]) simp_all
      then show ?thesis using False by (simp add: bit_iff_odd)
    qed (simp add: bit_iff_odd)
    finally show ?thesis by simp
  qed
  finally show ?thesis .
qed

lemma U256_uint: "math_laws M \<Longrightarrow> U256 M i = uint (word_of_int i :: hash)"
  by (simp add: math_simps uint_word_of_int256)

lemma U256_self: "math_laws M \<Longrightarrow> U256 M (uint (x :: hash)) = uint x"
  by (simp add: U256_uint)

lemma big_Uint64_small:
  assumes "0 \<le> n" "n < 2 ^ 64"
  shows "unat (big_Uint64 n) = nat n"
  using assms by (simp add: big_Uint64_def unsigned_of_int take_bit_int_eq_self)

lemma sgn_mult_abs: "x \<noteq> 0 \<Longrightarrow> y \<noteq> 0 \<Longrightarrow>
    x sdiv y = (if sgn x \<noteq> sgn y then - (\<bar>x\<bar> div \<bar>y\<bar>) else \<bar>x\<bar> div \<bar>y\<bar>)" for x y :: int
  by (auto simp: signed_divide_int_def sgn_if)

section \<open>Equivalence with 256-bit words\<close>

lemma words_unsigned:
  fixes x y z :: hash
  assumes M: "math_laws M"
  shows "opAdd M (uint x # uint y # st) = Inr (uint (x + y) # st)"
    "opSub M (uint x # uint y # st) = Inr (uint (x - y) # st)"
    "opMul M (uint x # uint y # st) = Inr (uint (x * y) # st)"
    "opDiv M (uint x # uint y # st) = Inr (uint (x div y) # st)"
    "opMod M (uint x # uint y # st) = Inr (uint (if y = 0 then 0 else x mod y) # st)"
    "opAddmod M (uint x # uint y # uint z # st) =
       Inr (uint (word_of_int (if z = 0 then 0 else (uint x + uint y) mod uint z) :: hash) # st)"
    "opMulmod M (uint x # uint y # uint z # st) =
       Inr (uint (word_of_int (if z = 0 then 0 else (uint x * uint y) mod uint z) :: hash) # st)"
  using uint256(1) [of z]
  by (auto simp: opAdd_def opSub_def opMul_def opDiv_def opMod_def opAddmod_def opMulmod_def U256_uint [OF M]
      big_Sign_def sgn_if word_div_def word_mod_def uint_0_iff less_le)

lemma uint_inj256: "uint (x :: hash) = uint y \<longleftrightarrow> x = y"
  by (simp add: word_uint_eq_iff)

lemma sint_0_256: "sint (x :: hash) = 0 \<longleftrightarrow> x = 0"
  using sint_0 [where 'a = 256] by (metis signed_word_eqI)

lemma words_compare:
  fixes x y :: hash
  shows "opLt (uint x # uint y # st) = Inr (uint (of_bool (x < y) :: hash) # st)"
    "opGt (uint x # uint y # st) = Inr (uint (of_bool (x > y) :: hash) # st)"
    "opEq (uint x # uint y # st) = Inr (uint (of_bool (x = y) :: hash) # st)"
    "opIszero (uint x # st) = Inr (uint (of_bool (x = 0) :: hash) # st)"
  subgoal by (simp add: opLt_def word_less_def)
  subgoal by (simp add: opGt_def word_less_def)
  subgoal by (simp add: opEq_def uint_inj256)
  subgoal using uint256(1) [of x] by (auto simp: opIszero_def big_Sign_def sgn_if uint_0_iff less_le)
  done

lemma words_bits:
  fixes x y :: hash
  assumes M: "math_laws M"
  shows "opAnd (uint x # uint y # st) = Inr (uint (x AND y) # st)"
    "opOr (uint x # uint y # st) = Inr (uint (x OR y) # st)"
    "opXor (uint x # uint y # st) = Inr (uint (x XOR y) # st)"
    "opNot M (uint x # st) = Inr (uint (NOT x) # st)"
  by (simp_all add: opAnd_def opOr_def opXor_def opNot_def unsigned_and_eq unsigned_or_eq unsigned_xor_eq U256_uint [OF M] of_int_not_eq)

lemma sint_tt255: "sint (x :: hash) = (if uint x < tt255 then uint x else uint x - 2 * tt255)"
  using S256_uint [OF std_math_laws, of x] by (auto simp: math_simps [OF std_math_laws] tt255_def split: if_splits)

lemma sint_less_cases:
  fixes x y :: hash
  shows "sint x < sint y \<longleftrightarrow>
    (if uint x \<ge> tt255 \<and> uint y < tt255 then True else if uint x < tt255 \<and> uint y \<ge> tt255 then False else uint x < uint y)"
proof -
  have "0 \<le> uint x" "uint x < 2 * tt255" "0 \<le> uint y" "uint y < 2 * tt255"
    using uint256 [of x] uint256 [of y] by (simp_all add: tt255_def)
  then show ?thesis unfolding sint_tt255 by (simp split: if_split; linarith)
qed

lemma words_signed:
  fixes x y :: hash
  assumes M: "math_laws M"
  shows "opSlt (uint x # uint y # st) = Inr (uint (of_bool (sint x < sint y) :: hash) # st)"
    "opSgt (uint x # uint y # st) = Inr (uint (of_bool (sint x > sint y) :: hash) # st)"
    "opSdiv M (uint x # uint y # st) = Inr (uint (word_of_int (sint x sdiv sint y) :: hash) # st)"
    "opSmod M (uint x # uint y # st) = Inr (uint (word_of_int (if y = 0 then 0 else sint x smod sint y) :: hash) # st)"
  subgoal by (simp add: opSlt_def sint_less_cases)
  subgoal by (auto simp: opSgt_def sint_less_cases)
  subgoal by (auto simp: opSdiv_def S256_uint [OF M] U256_uint [OF M] big_Sign_def sgn_0_0 sgn_mult_abs Let_def)
  subgoal by (auto simp: opSmod_def S256_uint [OF M] U256_uint [OF M] big_Sign_def sgn_0_0 signed_modulo_int_def Let_def sgn_if sint_0_256)
  done

lemma words_exp:
  fixes x y :: hash
  assumes M: "math_laws M"
  shows "opExp M (uint x # uint y # st) = Inr (uint (x ^ unat y) # st)"
proof -
  have p: "math_Exp M (uint x) (uint y) = uint (x ^ unat y)"
  proof -
    have "math_Exp M (uint x) (uint y) = uint x ^ unat y mod 2 ^ 256"
      using math_simps(3) [OF M uint256(1) [of y], of "uint x"] by (simp only: nat_uint_eq)
    also have "\<dots> = uint (word_of_int (uint x ^ unat y) :: hash)" by (rule uint_word_of_int256 [symmetric])
    also have "\<dots> = uint (x ^ unat y)" by simp
    finally show ?thesis .
  qed
  show ?thesis
  proof (cases "y = 0 \<or> y = 1")
    case True
    then show ?thesis by (auto simp: opExp_def big_Sign_def sgn_0_0 uint_0_iff)
  next
    case False
    then have y: "unat y \<noteq> 0" "uint y \<noteq> 0" "uint y \<noteq> 1"
      using uint_0_iff [of y] uint_inj256 [of y 1] by (simp_all add: unat_eq_0)
    moreover have "\<not> uint y < 1" using y(2) uint256(1) [of y] by linarith
    ultimately have y: "unat y \<noteq> 0" "\<not> uint y < 1" "uint y \<noteq> 1" by blast+
    then show ?thesis by (auto simp: opExp_def big_Sign_def sgn_0_0 uint_0_iff p power_0_left)
  qed
qed

lemma shift_amount:
  fixes s :: hash
  assumes "\<not> uint s \<ge> 256"
  shows "unat (big_Uint64 (uint s)) = unat s" "unat s < 256"
proof -
  show "unat s < 256" using assms int_unat [of s] by linarith
  show "unat (big_Uint64 (uint s)) = unat s"
    using big_Uint64_small [OF uint256(1) [of s]] assms by (simp only: nat_uint_eq) simp
qed

lemma words_shift:
  fixes s v :: hash
  assumes M: "math_laws M"
  shows "opSHL M (uint s # uint v # st) = Inr (uint (push_bit (unat s) v) # st)"
    "opSHR M (uint s # uint v # st) = Inr (uint (drop_bit (unat s) v) # st)"
    "opSAR M (uint s # uint v # st) = Inr (uint (word_of_int (sint v div 2 ^ unat s) :: hash) # st)"
proof -
  have b: "uint s \<ge> 256 \<longleftrightarrow> 256 \<le> unat s" using int_unat [of s] by linarith
  show "opSHL M (uint s # uint v # st) = Inr (uint (push_bit (unat s) v) # st)"
  proof (cases "uint s \<ge> 256")
    case True
    then have "push_bit (unat s) v = 0" using b by (intro bit_eqI) (auto simp: bit_push_bit_iff dest: bit_imp_le_length)
    then show ?thesis using True by (simp add: opSHL_def U256_self [OF M])
  next
    case False
    have "word_of_int (push_bit (unat s) (uint v)) = push_bit (unat s) v"
      by (simp add: push_bit_eq_mult)
    then show ?thesis using False shift_amount [OF False] by (simp add: opSHL_def U256_self [OF M] U256_uint [OF M])
  qed
  show "opSHR M (uint s # uint v # st) = Inr (uint (drop_bit (unat s) v) # st)"
  proof (cases "uint s \<ge> 256")
    case True
    then have "drop_bit (unat s) v = 0" using b by (intro bit_eqI) (auto simp: bit_drop_bit_eq dest!: bit_imp_le_length)
    then show ?thesis using True by (simp add: opSHR_def U256_self [OF M])
  next
    case False
    have "word_of_int (drop_bit (unat s) (uint v)) = drop_bit (unat s) v"
    proof -
      have "drop_bit (unat s) (uint v) = uint (drop_bit (unat s) v)"
        using take_bit_int_eq_self [OF uint256 [of v]] by (simp add: unsigned_drop_bit_eq)
      then show ?thesis by simp
    qed
    then show ?thesis using False shift_amount [OF False] by (simp add: opSHR_def U256_self [OF M] U256_uint [OF M])
  qed
  show "opSAR M (uint s # uint v # st) = Inr (uint (word_of_int (sint v div 2 ^ unat s) :: hash) # st)"
  proof (cases "uint s \<ge> 256")
    case True
    have lt: "- (2 ^ 255) \<le> sint v" "sint v < 2 ^ 255"
      using sint_ge [of v] sint_lt [of v] by simp_all
    have p: "(2 :: int) ^ 255 \<le> 2 ^ unat s" using True b by (intro power_increasing) simp_all
    have "sint v div 2 ^ unat s = (if sint v \<ge> 0 then 0 else - 1)"
    proof (cases "sint v \<ge> 0")
      case True
      then show ?thesis using lt p by (simp add: div_pos_pos_trivial)
    next
      case False
      then show ?thesis using lt p by (simp add: int_div_pos_eq [where r = "sint v + 2 ^ unat s" and q = "- 1"])
    qed
    then show ?thesis using True by (auto simp: opSAR_def U256_self [OF M] S256_uint [OF M] U256_uint [OF M] big_Sign_def sgn_if Let_def)
  next
    case False
    then show ?thesis using shift_amount [OF False]
      by (simp add: opSAR_def U256_self [OF M] S256_uint [OF M] U256_uint [OF M] drop_bit_eq_div)
  qed
qed

lemma words_byte:
  fixes i v :: hash
  assumes M: "math_laws M"
  shows "opByte M (uint i # uint v # st) =
    Inr ((if i < 32 then uint v div 256 ^ (31 - unat i) mod 256 else 0) # st)"
proof (cases "i < 32")
  case True
  then have u: "uint i < 32" "0 \<le> uint i" by (simp_all add: word_less_def)
  have b: "big_Int64 (uint i) = uint i"
  proof -
    have s: "signed_take_bit 63 (uint i) = uint i"
    proof (rule signed_take_bit_int_eq_self)
      have "- (2 ^ 63) \<le> (0 :: int)" by simp
      then show "- (2 ^ 63) \<le> uint i" using u(2) by (rule order_trans)
      have "(32 :: int) \<le> 2 ^ 63" by simp
      then show "uint i < 2 ^ 63" using u(1) by (rule less_le_trans [rotated])
    qed
    have "sint (word_of_int (uint i) :: u64) = uint i"
      using u by (subst sint_uint, subst uint_word_of_int)
        (simp add: take_bit_int_eq_self s)
    then show ?thesis using u by (simp add: big_Int64_def big_Uint64_def)
  qed
  have "nat (32 - 1 - uint i) = 31 - unat i" using u int_unat [of i] by linarith
  then show ?thesis using True u
    by (simp add: opByte_def b math_simps [OF M] uint_word_of_int)
qed (simp add: opByte_def word_less_def)

lemma words_signextend:
  fixes k v :: hash
  assumes M: "math_laws M"
  shows "opSignExtend M (uint k # uint v # st) =
    Inr (uint (if k < 31 then word_of_int (signed_take_bit (8 * unat k + 7) (uint v)) else v) # st)"
proof (cases "k < 31")
  case True
  then have u: "uint k < 31" "0 \<le> uint k" by (simp_all add: word_less_def)
  let ?n = "8 * unat k + 7"
  have k: "unat (big_Uint64 (uint k)) = unat k" using big_Uint64_small [OF u(2)] u(1) by simp
  have "unat k < 31" using True by (simp add: word_less_nat_alt)
  have n: "unat (big_Uint64 (uint k) * 8 + 7) = ?n"
    using k \<open>unat k < 31\<close> by (simp add: unat_word_ariths)
  have "push_bit ?n 1 - 1 = (mask ?n :: int)" by (simp add: mask_eq_exp_minus_1)
  moreover have "uint v OR NOT (mask ?n) = uint v AND mask ?n OR NOT (mask ?n)"
    by (rule bit_eqI) (auto simp: bit_simps)
  ultimately have e: "(if bit (uint v) ?n then uint v OR NOT (push_bit ?n 1 - 1) else uint v AND (push_bit ?n 1 - 1)) =
      signed_take_bit ?n (uint v)"
    by (simp add: signed_take_bit_def take_bit_eq_mask)
  have "opSignExtend M (uint k # uint v # st) =
      Inr (U256 M (if bit (uint v) ?n then uint v OR NOT (push_bit ?n 1 - 1) else uint v AND (push_bit ?n 1 - 1)) # st)"
    using u n by (simp add: opSignExtend_def Let_def)
  then show ?thesis unfolding e using True by (simp add: U256_uint [OF M])
qed (simp add: opSignExtend_def word_less_def)

lemmas words_arith = words_unsigned words_compare words_bits words_signed words_exp words_shift words_byte words_signextend

text \<open>C18: On operands that are 256-bit values the arithmetic instructions compute the operations of 256-bit
  machine words: addition, subtraction, multiplication and powers wrap, division and remainder by zero give
  zero, the modulus of ADDMOD and MULMOD is taken of the sum and the product before they wrap, the bitwise
  instructions and the comparisons are those of words, the signed instructions truncate towards zero and give
  the remainder the sign of the dividend, the shifts by 256 and more give zero (or the sign), and sign extension copies the sign bit of the chosen byte.\<close>

theorem arithmetic_is_word_arithmetic:
  fixes x y z :: hash
  assumes "math_laws M"
  shows "opAdd M (uint x # uint y # st) = Inr (uint (x + y) # st)
    \<and> opSub M (uint x # uint y # st) = Inr (uint (x - y) # st)
    \<and> opMul M (uint x # uint y # st) = Inr (uint (x * y) # st)
    \<and> opDiv M (uint x # uint y # st) = Inr (uint (x div y) # st)
    \<and> opMod M (uint x # uint y # st) = Inr (uint (if y = 0 then 0 else x mod y) # st)
    \<and> opSdiv M (uint x # uint y # st) = Inr (uint (word_of_int (sint x sdiv sint y) :: hash) # st)
    \<and> opSmod M (uint x # uint y # st) = Inr (uint (word_of_int (if y = 0 then 0 else sint x smod sint y) :: hash) # st)
    \<and> opExp M (uint x # uint y # st) = Inr (uint (x ^ unat y) # st)
    \<and> opAddmod M (uint x # uint y # uint z # st) =
        Inr (uint (word_of_int (if z = 0 then 0 else (uint x + uint y) mod uint z) :: hash) # st)
    \<and> opMulmod M (uint x # uint y # uint z # st) =
        Inr (uint (word_of_int (if z = 0 then 0 else (uint x * uint y) mod uint z) :: hash) # st)
    \<and> opNot M (uint x # st) = Inr (uint (NOT x) # st)
    \<and> opAnd (uint x # uint y # st) = Inr (uint (x AND y) # st)
    \<and> opOr (uint x # uint y # st) = Inr (uint (x OR y) # st)
    \<and> opXor (uint x # uint y # st) = Inr (uint (x XOR y) # st)
    \<and> opLt (uint x # uint y # st) = Inr (uint (of_bool (x < y) :: hash) # st)
    \<and> opGt (uint x # uint y # st) = Inr (uint (of_bool (x > y) :: hash) # st)
    \<and> opEq (uint x # uint y # st) = Inr (uint (of_bool (x = y) :: hash) # st)
    \<and> opIszero (uint x # st) = Inr (uint (of_bool (x = 0) :: hash) # st)
    \<and> opSlt (uint x # uint y # st) = Inr (uint (of_bool (sint x < sint y) :: hash) # st)
    \<and> opSgt (uint x # uint y # st) = Inr (uint (of_bool (sint x > sint y) :: hash) # st)
    \<and> opSHL M (uint x # uint y # st) = Inr (uint (push_bit (unat x) y) # st)
    \<and> opSHR M (uint x # uint y # st) = Inr (uint (drop_bit (unat x) y) # st)
    \<and> opSAR M (uint x # uint y # st) = Inr (uint (word_of_int (sint y div 2 ^ unat x) :: hash) # st)
    \<and> opByte M (uint x # uint y # st) = Inr ((if x < 32 then uint y div 256 ^ (31 - unat x) mod 256 else 0) # st)
    \<and> opSignExtend M (uint x # uint y # st) =
        Inr (uint (if x < 31 then word_of_int (signed_take_bit (8 * unat x + 7) (uint y)) else y) # st)"
  by (intro conjI) (rule words_arith assms)+

theorem arithmetic_is_word_arithmetic_witness:
  "opSdiv std_math [uint (- 7 :: hash), uint (2 :: hash)] = Inr [uint (- 3 :: hash)]"
proof -
  have "opSdiv std_math [uint (- 7 :: hash), uint (2 :: hash)] =
      Inr [uint (word_of_int (sint (- 7 :: hash) sdiv sint (2 :: hash)) :: hash)]"
    using arithmetic_is_word_arithmetic [OF std_math_laws, of "- 7" 2 "[]" 1] by (elim conjE)
  moreover have "sint (- 7 :: hash) sdiv sint (2 :: hash) = - 3" by (simp add: signed_divide_int_def)
  ultimately show ?thesis by simp
qed

end
