(* ===== verification/EvmState.thy ===== *)
theory EvmState
  imports VmArith StateFinal
begin

text \<open>
  The state of an execution: the balance transfer functions that \<open>core/evm.go\<close> installs in the context,
  the contract of a call (\<open>core/vm/contract.go\<close>), the context and the virtual machine object
  (\<open>core/vm/evm.go\<close>), and the frame of the interpreter.

  \<^item> The function fields of \<open>Context\<close> are always \<open>CanTransfer\<close>, \<open>Transfer\<close> and
    \<open>TransferFailureByPoswBalanceCheck\<close> of \<open>core/evm.go\<close>; the model calls these. \<open>GetHash\<close> stays a field.
  \<^item> A \<open>ContractRef\<close> is an account or a contract; of a calling contract the callee reads the address, the
    caller, the value and the map of jump destinations.
  \<^item> The maps \<open>jumpdests\<close> are shared between contracts by reference: the machine has a store of maps and a
    contract the index of its map.
  \<^item> \<open>GetDefaultChainTokenID\<close> caches the token id in the configuration; the cache never changes what it
    returns and is not written back (\<open>GetDefaultChainTokenID_again\<close>).
  \<^item> A nil byte slice and an empty one are both the empty list. Tracing (\<open>Debug\<close>, \<open>Tracer\<close>) has no effect
    on the state and is not modelled; the flag \<open>abort\<close> does not change during an execution.
\<close>

section \<open>Transfers\<close>

definition chain_token :: "('t, 'd) StateDB \<Rightarrow> u64 res" where
  "chain_token s =
     (case sdb_quarkChainConfig s of
        None \<Rightarrow> Inl (GoPanic ''nil pointer dereference'')
      | Some q \<Rightarrow> bind_res (GetDefaultChainTokenID q) (\<lambda>(i, q). Inr i))"

lemma GetDefaultChainTokenID_again:
  assumes "GetDefaultChainTokenID q = Inr (i, q')"
  shows "\<exists>q''. GetDefaultChainTokenID q' = Inr (i, q'')"
  using assms by (auto simp: GetDefaultChainTokenID_def bind_res_Inr_iff split: if_splits)

definition CanTransfer :: "('t, 'd) eth_lib \<Rightarrow> recipient \<Rightarrow> int \<Rightarrow> u64 \<Rightarrow> ('t, 'd) StateDB
    \<Rightarrow> (bool \<times> ('t, 'd) StateDB) res" where
  "CanTransfer L addr amount tokenID s =
     bind_res (GetBalance L addr tokenID s) (\<lambda>(b, s). Inr (b \<ge> amount, s))"

definition Transfer :: "('t, 'd) eth_lib \<Rightarrow> recipient \<Rightarrow> recipient \<Rightarrow> int \<Rightarrow> u64 \<Rightarrow> ('t, 'd) StateDB
    \<Rightarrow> ('t, 'd) StateDB res" where
  "Transfer L sender recip amount tokenID s =
     bind_res (SubBalance L sender amount tokenID s) (AddBalance L recip amount tokenID)"

definition TransferFailureByPoswBalanceCheck :: "('t, 'd) eth_lib \<Rightarrow> recipient \<Rightarrow> int \<Rightarrow> ('t, 'd) StateDB
    \<Rightarrow> (bool \<times> ('t, 'd) StateDB) res" where
  "TransferFailureByPoswBalanceCheck L addr amount s =
     (case map_of (sdb_senderDisallowMap s) addr of
        None \<Rightarrow> Inr (False, s)
      | Some v \<Rightarrow>
          bind_res (chain_token s) (\<lambda>tk.
          bind_res (GetBalance L addr tk s) (\<lambda>(b, s). Inr (amount + v > b, s))))"

section \<open>Errors\<close>

definition ErrOutOfGas :: go_error where "ErrOutOfGas = GoError ''out of gas''"
definition ErrCodeStoreOutOfGas :: go_error where
  "ErrCodeStoreOutOfGas = GoError ''contract creation code storage out of gas''"
definition ErrDepth :: go_error where "ErrDepth = GoError ''max call depth exceeded''"
definition ErrInsufficientBalance :: go_error where
  "ErrInsufficientBalance = GoError ''insufficient balance for transfer''"
definition ErrContractAddressCollision :: go_error where
  "ErrContractAddressCollision = GoError ''contract address collision''"
definition ErrPoSWSenderNotAllowed :: go_error where
  "ErrPoSWSenderNotAllowed = GoError ''sender not allowed due to PoSW''"
definition ErrInvalidSystemContractIndex :: go_error where
  "ErrInvalidSystemContractIndex = GoError ''invalid system contract index''"
definition ErrMintZeroAmountMNT :: go_error where
  "ErrMintZeroAmountMNT = GoError ''mint 0 amount MNT''"
definition ErrTimestampNotMatch :: go_error where
  "ErrTimestampNotMatch = GoError ''timestamp not match''"
definition errWriteProtection :: go_error where
  "errWriteProtection = GoError ''evm: write protection''"
definition errReturnDataOutOfBounds :: go_error where
  "errReturnDataOutOfBounds = GoError ''evm: return data out of bounds''"
definition errExecutionReverted :: go_error where
  "errExecutionReverted = GoError ''evm: execution reverted''"
definition errMaxCodeSizeExceeded :: go_error where
  "errMaxCodeSizeExceeded = GoError ''evm: max code size exceeded''"
definition errGasUintOverflow :: go_error where
  "errGasUintOverflow = GoError ''gas uint64 overflow''"

section \<open>Contracts\<close>

text \<open>\<open>ContractCaller a c v j\<close>: the calling contract has the address \<open>a\<close>, the caller address \<open>c\<close>, the
  value \<open>v\<close> and the map of jump destinations number \<open>j\<close>.\<close>

datatype ContractRef = AccountRef recipient | ContractCaller recipient recipient int nat

fun ref_Address :: "ContractRef \<Rightarrow> recipient" where
  "ref_Address (AccountRef a) = a"
| "ref_Address (ContractCaller a c v j) = a"

record Contract =
  ct_CallerAddress :: recipient
  ct_caller :: ContractRef
  ct_self :: recipient
  ct_jumpdests :: nat
  ct_analysis :: "bitvec option"
  ct_Code :: bytes
  ct_CodeHash :: hash
  ct_CodeAddr :: "recipient option"
  ct_Input :: bytes
  ct_Gas :: u64
  ct_value :: int
  ct_TokenIDQueried :: bool
  ct_IsStaticCall :: bool

definition as_caller :: "Contract \<Rightarrow> ContractRef" where
  "as_caller c = ContractCaller (ct_self c) (ct_CallerAddress c) (ct_value c) (ct_jumpdests c)"

type_synonym jump_maps = "(hash \<times> bitvec) list list"

definition NewContract :: "ContractRef \<Rightarrow> recipient \<Rightarrow> int \<Rightarrow> u64 \<Rightarrow> jump_maps \<Rightarrow> Contract \<times> jump_maps" where
  "NewContract caller object val gas maps =
     (let c = \<lparr>ct_CallerAddress = ref_Address caller, ct_caller = caller, ct_self = object, ct_jumpdests = 0,
            ct_analysis = None, ct_Code = [], ct_CodeHash = 0, ct_CodeAddr = None, ct_Input = [],
            ct_Gas = gas, ct_value = val, ct_TokenIDQueried = False, ct_IsStaticCall = False\<rparr>
      in case caller of
           ContractCaller a ca v j \<Rightarrow> (c\<lparr>ct_jumpdests := j\<rparr>, maps)
         | AccountRef a \<Rightarrow> (c\<lparr>ct_jumpdests := length maps\<rparr>, maps @ [[]]))"

definition GetByte :: "Contract \<Rightarrow> u64 \<Rightarrow> u8" where
  "GetByte c n = (if n < of_nat (length (ct_Code c)) then ct_Code c ! unat n else 0)"

definition GetOp :: "Contract \<Rightarrow> u64 \<Rightarrow> u8" where
  "GetOp c n = GetByte c n"

definition validJumpdest :: "int \<Rightarrow> Contract \<Rightarrow> jump_maps \<Rightarrow> (bool \<times> Contract \<times> jump_maps) res" where
  "validJumpdest dest c maps =
     (let udest = big_Uint64 dest in
      if big_BitLen dest \<ge> 63 \<or> udest \<ge> of_nat (length (ct_Code c)) then Inr (False, c, maps)
      else if ct_Code c ! unat udest \<noteq> JUMPDEST then Inr (False, c, maps)
      else if ct_CodeHash c \<noteq> 0 then
        if ct_jumpdests c < length maps then
          (case map_of (maps ! ct_jumpdests c) (ct_CodeHash c) of
             Some analysis \<Rightarrow> bind_res (codeSegment analysis (unat udest)) (\<lambda>b. Inr (b, c, maps))
           | None \<Rightarrow>
               bind_res (codeBitmap (ct_Code c)) (\<lambda>analysis.
                 let maps = maps[ct_jumpdests c := (ct_CodeHash c, analysis) # maps ! ct_jumpdests c] in
                 bind_res (codeSegment analysis (unat udest)) (\<lambda>b. Inr (b, c, maps))))
        else Inl (GoPanic ''assignment to entry in nil map'')
      else
        (case ct_analysis c of
           Some analysis \<Rightarrow> bind_res (codeSegment analysis (unat udest)) (\<lambda>b. Inr (b, c, maps))
         | None \<Rightarrow>
             bind_res (codeBitmap (ct_Code c)) (\<lambda>analysis.
               bind_res (codeSegment analysis (unat udest)) (\<lambda>b. Inr (b, c\<lparr>ct_analysis := Some analysis\<rparr>, maps)))))"

definition AsDelegate :: "Contract \<Rightarrow> Contract res" where
  "AsDelegate c =
     (case ct_caller c of
        AccountRef a \<Rightarrow> Inl (GoPanic ''interface conversion'')
      | ContractCaller a ca v j \<Rightarrow> Inr (c\<lparr>ct_CallerAddress := ca, ct_value := v\<rparr>))"

definition UseGas :: "u64 \<Rightarrow> Contract \<Rightarrow> bool \<times> Contract" where
  "UseGas gas c = (if ct_Gas c < gas then (False, c) else (True, c\<lparr>ct_Gas := ct_Gas c - gas\<rparr>))"

definition SetCallCode :: "recipient \<Rightarrow> hash \<Rightarrow> bytes \<Rightarrow> Contract \<Rightarrow> Contract" where
  "SetCallCode addr h code c = c\<lparr>ct_Code := code, ct_CodeHash := h, ct_CodeAddr := Some addr\<rparr>"

definition SetCodeOptionalHash :: "recipient \<Rightarrow> bytes \<Rightarrow> hash \<Rightarrow> Contract \<Rightarrow> Contract" where
  "SetCodeOptionalHash addr code h c = c\<lparr>ct_Code := code, ct_CodeHash := h, ct_CodeAddr := Some addr\<rparr>"

section \<open>The virtual machine\<close>

record Context =
  cx_GetHash :: "u64 \<Rightarrow> hash"
  cx_Origin :: recipient
  cx_GasPrice :: int
  cx_GasPriceInGasToken :: int
  cx_Coinbase :: recipient
  cx_GasLimit :: u64
  cx_BlockNumber :: int
  cx_Time :: int
  cx_Difficulty :: int
  cx_ToFullShardKey :: "u32 option"
  cx_GasTokenID :: u64
  cx_TransferTokenID :: u64
  cx_IsApplyXShard :: bool
  cx_XShardGasUsedStart :: u64
  cx_ContractAddress :: "recipient option"

text \<open>A system contract of \<open>contracts.go\<close>, and the times at which the precompiled contracts are enabled;
  both are package variables that the start-up code sets.\<close>

record SystemContract =
  sc_address :: recipient
  sc_bytecode :: bytes
  sc_timestamp :: u64

record ('t, 'd) EVM =
  ev_Context :: Context
  ev_StateDB :: "('t, 'd) StateDB"
  ev_depth :: nat
  ev_NoRecursion :: bool
  ev_EnablePreimageRecording :: bool
  ev_abort :: bool
  ev_callGasTemp :: u64
  ev_readOnly :: bool
  ev_returnData :: bytes
  ev_jumpdests :: jump_maps
  ev_enableTime :: "recipient \<Rightarrow> u64"
  ev_SystemContracts :: "SystemContract list"

abbreviation "ev_TransferTokenID ev \<equiv> cx_TransferTokenID (ev_Context ev)"

definition with_db :: "('t, 'd) EVM \<Rightarrow> ('t, 'd) StateDB \<Rightarrow> ('t, 'd) EVM" where
  "with_db ev s = ev\<lparr>ev_StateDB := s\<rparr>"

record frame =
  fr_pc :: u64
  fr_contract :: Contract
  fr_mem :: Memory
  fr_stack :: stack

text \<open>Reading or changing the state database from the machine.\<close>

definition db_get :: "(('t, 'd) StateDB \<Rightarrow> ('a \<times> ('t, 'd) StateDB) res) \<Rightarrow> ('t, 'd) EVM \<Rightarrow> ('a \<times> ('t, 'd) EVM) res" where
  "db_get f ev = bind_res (f (ev_StateDB ev)) (\<lambda>(x, s). Inr (x, with_db ev s))"

definition db_do :: "(('t, 'd) StateDB \<Rightarrow> ('t, 'd) StateDB res) \<Rightarrow> ('t, 'd) EVM \<Rightarrow> ('t, 'd) EVM res" where
  "db_do f ev = bind_res (f (ev_StateDB ev)) (\<lambda>s. Inr (with_db ev s))"

definition checkTokenIDQueried :: "go_error option \<Rightarrow> Contract \<Rightarrow> u64 \<Rightarrow> u64 \<Rightarrow> go_error option" where
  "checkTokenIDQueried err c transferTokenID defaultTokenID =
     (if err = None \<and> length (ct_Code c) \<noteq> 0 \<and> \<not> ct_TokenIDQueried c \<and> transferTokenID \<noteq> defaultTokenID
         \<and> ct_value c \<noteq> 0
      then Some errExecutionReverted else err)"

end
