(* ===== verification/EvmGasTable.thy ===== *)
theory EvmGasTable
  imports EvmState
begin

text \<open>
  The dynamic gas costs of \<open>core/vm/gas.go\<close> and \<open>core/vm/gas_table.go\<close>. A gas function has the frame and
  the machine as arguments and gives the cost or an error, with the memory's \<open>lastGasCost\<close>, the machine's
  \<open>callGasTemp\<close> and the state's refund counter updated. The code of \<open>gasSStore\<close> after \<open>if true\<close> is
  unreachable and left out. The items of the stack that a function looks at are read first; the interpreter
  has validated the stack before.
\<close>

abbreviation (input) "GasQuickStep \<equiv> 2 :: u64"
abbreviation (input) "GasFastestStep \<equiv> 3 :: u64"
abbreviation (input) "GasFastStep \<equiv> 5 :: u64"
abbreviation (input) "GasMidStep \<equiv> 8 :: u64"
abbreviation (input) "GasSlowStep \<equiv> 10 :: u64"
abbreviation (input) "GasExtStep \<equiv> 20 :: u64"

type_synonym ('t, 'd) gasFunc = "frame \<Rightarrow> u64 \<Rightarrow> ('t, 'd) EVM \<Rightarrow> (u64 res \<times> frame \<times> ('t, 'd) EVM) res"

definition callGas :: "GasTable \<Rightarrow> u64 \<Rightarrow> u64 \<Rightarrow> int \<Rightarrow> u64 res" where
  "callGas gt availableGas base callCost =
     (let availableGas' = availableGas - base;
          gas = availableGas' - availableGas' div 64
      in if gt_CreateBySuicide gt > 0 \<and> (big_BitLen callCost > 64 \<or> gas < big_Uint64 callCost) then Inr gas
         else if big_BitLen callCost > 64 then Inl errGasUintOverflow
         else Inr (big_Uint64 callCost))"

definition memoryGasCost :: "eth_params \<Rightarrow> Memory \<Rightarrow> u64 \<Rightarrow> u64 res \<times> Memory" where
  "memoryGasCost P mem newMemSize =
     (if newMemSize = 0 then (Inr 0, mem)
      else if newMemSize > 0xffffffffe0 then (Inl errGasUintOverflow, mem)
      else
        let newMemSizeWords = toWordSize newMemSize;
            newMemSize = newMemSizeWords * 32
        in if newMemSize > of_nat (length (mem_store mem)) then
             let square = newMemSizeWords * newMemSizeWords;
                 linCoef = newMemSizeWords * p_MemoryGas P;
                 quadCoef = square div p_QuadCoeffDiv P;
                 newTotalFee = linCoef + quadCoef;
                 fee = newTotalFee - mem_lastGasCost mem
             in (Inr fee, mem\<lparr>mem_lastGasCost := newTotalFee\<rparr>)
           else (Inr 0, mem))"

definition gas_add :: "vm_math \<Rightarrow> u64 \<Rightarrow> u64 \<Rightarrow> u64 res" where
  "gas_add M a b = (let (s, overflow) = SafeAdd M a b in if overflow then Inl errGasUintOverflow else Inr s)"

definition gas_mul :: "vm_math \<Rightarrow> u64 \<Rightarrow> u64 \<Rightarrow> u64 res" where
  "gas_mul M a b = (let (s, overflow) = SafeMul M a b in if overflow then Inl errGasUintOverflow else Inr s)"

definition to_u64 :: "int \<Rightarrow> u64 res" where
  "to_u64 v = (let (n, overflow) = bigUint64 v in if overflow then Inl errGasUintOverflow else Inr n)"

text \<open>The common shape of the cost functions that only look at the stack and the memory: the fee for the
  memory, then a computation that may overflow.\<close>

definition mem_gas :: "('t, 'd) vm_lib \<Rightarrow> (u64 \<Rightarrow> u64 res) \<Rightarrow> ('t, 'd) gasFunc" where
  "mem_gas V f fr memorySize ev =
     (let (g, mem) = memoryGasCost (vl_params V) (fr_mem fr) memorySize
      in Inr (bind_res g f, fr\<lparr>fr_mem := mem\<rparr>, ev))"

definition constGasFunc :: "u64 \<Rightarrow> ('t, 'd) gasFunc" where
  "constGasFunc gas fr memorySize ev = Inr (Inr gas, fr, ev)"

text \<open>A base fee and a fee per 32-byte word of a size on the stack.\<close>

definition word_gas :: "('t, 'd) vm_lib \<Rightarrow> u64 \<Rightarrow> nat \<Rightarrow> u64 \<Rightarrow> ('t, 'd) gasFunc" where
  "word_gas V base pos perWord fr memorySize ev =
     bind_res (Back (fr_stack fr) pos) (\<lambda>sz.
       mem_gas V (\<lambda>gas.
         bind_res (gas_add (vl_math V) gas base) (\<lambda>gas.
         bind_res (to_u64 sz) (\<lambda>words.
         bind_res (gas_mul (vl_math V) (toWordSize words) perWord) (\<lambda>words.
         gas_add (vl_math V) gas words)))) fr memorySize ev)"

definition gasCallDataCopy :: "('t, 'd) vm_lib \<Rightarrow> ('t, 'd) gasFunc" where
  "gasCallDataCopy V = word_gas V GasFastestStep 2 (p_CopyGas (vl_params V))"

definition gasReturnDataCopy :: "('t, 'd) vm_lib \<Rightarrow> ('t, 'd) gasFunc" where
  "gasReturnDataCopy V = word_gas V GasFastestStep 2 (p_CopyGas (vl_params V))"

definition gasSStore :: "('t, 'd) vm_lib \<Rightarrow> ('t, 'd) gasFunc" where
  "gasSStore V fr memorySize ev =
     bind_res (Back (fr_stack fr) 1) (\<lambda>y. bind_res (Back (fr_stack fr) 0) (\<lambda>x.
     bind_res (db_get (GetState (vl_eth V) (ct_self (fr_contract fr)) (BigToHash (vl_math V) x)) ev) (\<lambda>(current, ev).
       if current = 0 \<and> y \<noteq> 0 then Inr (Inr (p_SstoreSetGas (vl_params V)), fr, ev)
       else if current \<noteq> 0 \<and> y = 0 then
         Inr (Inr (p_SstoreClearGas (vl_params V)), fr,
           with_db ev (AddRefund (p_SstoreRefundGas (vl_params V)) (ev_StateDB ev)))
       else Inr (Inr (p_SstoreResetGas (vl_params V)), fr, ev))))"

definition makeGasLog :: "('t, 'd) vm_lib \<Rightarrow> u64 \<Rightarrow> ('t, 'd) gasFunc" where
  "makeGasLog V n fr memorySize ev =
     bind_res (Back (fr_stack fr) 1) (\<lambda>sz.
       case to_u64 sz of
         Inl e \<Rightarrow> Inr (Inl e, fr, ev)
       | Inr requestedSize \<Rightarrow>
           mem_gas V (\<lambda>gas.
             bind_res (gas_add (vl_math V) gas (p_LogGas (vl_params V))) (\<lambda>gas.
             bind_res (gas_add (vl_math V) gas (n * p_LogTopicGas (vl_params V))) (\<lambda>gas.
             bind_res (gas_mul (vl_math V) requestedSize (p_LogDataGas (vl_params V))) (\<lambda>memorySizeGas.
             gas_add (vl_math V) gas memorySizeGas)))) fr memorySize ev)"

definition gasSha3 :: "('t, 'd) vm_lib \<Rightarrow> ('t, 'd) gasFunc" where
  "gasSha3 V = word_gas V (p_Sha3Gas (vl_params V)) 1 (p_Sha3WordGas (vl_params V))"

definition gasCodeCopy :: "('t, 'd) vm_lib \<Rightarrow> ('t, 'd) gasFunc" where
  "gasCodeCopy V = word_gas V GasFastestStep 2 (p_CopyGas (vl_params V))"

definition gasExtCodeCopy :: "('t, 'd) vm_lib \<Rightarrow> ('t, 'd) gasFunc" where
  "gasExtCodeCopy V = word_gas V (gt_ExtcodeCopy (vl_gas V)) 3 (p_CopyGas (vl_params V))"

definition gasExtCodeHash :: "('t, 'd) vm_lib \<Rightarrow> ('t, 'd) gasFunc" where
  "gasExtCodeHash V = constGasFunc (gt_ExtcodeHash (vl_gas V))"

definition gasMLoad :: "('t, 'd) vm_lib \<Rightarrow> ('t, 'd) gasFunc" where
  "gasMLoad V = mem_gas V (\<lambda>gas. gas_add (vl_math V) gas GasFastestStep)"

definition gasMStore8 :: "('t, 'd) vm_lib \<Rightarrow> ('t, 'd) gasFunc" where
  "gasMStore8 V = mem_gas V (\<lambda>gas. gas_add (vl_math V) gas GasFastestStep)"

definition gasMStore :: "('t, 'd) vm_lib \<Rightarrow> ('t, 'd) gasFunc" where
  "gasMStore V = mem_gas V (\<lambda>gas. gas_add (vl_math V) gas GasFastestStep)"

definition gasCreate :: "('t, 'd) vm_lib \<Rightarrow> ('t, 'd) gasFunc" where
  "gasCreate V = mem_gas V (\<lambda>gas. gas_add (vl_math V) gas (p_CreateGas (vl_params V)))"

definition gasCreate2 :: "('t, 'd) vm_lib \<Rightarrow> ('t, 'd) gasFunc" where
  "gasCreate2 V = word_gas V (p_Create2Gas (vl_params V)) 2 (p_Sha3WordGas (vl_params V))"

definition gasBalance :: "('t, 'd) vm_lib \<Rightarrow> ('t, 'd) gasFunc" where
  "gasBalance V = constGasFunc (gt_Balance (vl_gas V))"

definition gasExtCodeSize :: "('t, 'd) vm_lib \<Rightarrow> ('t, 'd) gasFunc" where
  "gasExtCodeSize V = constGasFunc (gt_ExtcodeSize (vl_gas V))"

definition gasSLoad :: "('t, 'd) vm_lib \<Rightarrow> ('t, 'd) gasFunc" where
  "gasSLoad V = constGasFunc (gt_SLoad (vl_gas V))"

definition gasExp :: "('t, 'd) vm_lib \<Rightarrow> ('t, 'd) gasFunc" where
  "gasExp V fr memorySize ev =
     bind_res (Back (fr_stack fr) 1) (\<lambda>e.
       let expByteLen = of_nat ((big_BitLen e + 7) div 8) :: u64
       in Inr (gas_add (vl_math V) (expByteLen * gt_ExpByte (vl_gas V)) GasSlowStep, fr, ev))"

text \<open>The end of the four call cost functions: the gas handed to the callee is stored in \<open>callGasTemp\<close>
  (zero when \<open>callGas\<close> fails) and added to the cost.\<close>

definition call_gas :: "('t, 'd) vm_lib \<Rightarrow> u64 \<Rightarrow> int \<Rightarrow> frame \<Rightarrow> ('t, 'd) EVM \<Rightarrow> u64 res \<times> frame \<times> ('t, 'd) EVM" where
  "call_gas V gas requested fr ev =
     (case callGas (vl_gas V) (ct_Gas (fr_contract fr)) gas requested of
        Inl e \<Rightarrow> (Inl e, fr, ev\<lparr>ev_callGasTemp := 0\<rparr>)
      | Inr temp \<Rightarrow> (gas_add (vl_math V) gas temp, fr, ev\<lparr>ev_callGasTemp := temp\<rparr>))"

definition call_mem_gas :: "('t, 'd) vm_lib \<Rightarrow> (u64 \<Rightarrow> u64 res) \<Rightarrow> int \<Rightarrow> ('t, 'd) gasFunc" where
  "call_mem_gas V add requested fr memorySize ev =
     (let (g, mem) = memoryGasCost (vl_params V) (fr_mem fr) memorySize;
          fr = fr\<lparr>fr_mem := mem\<rparr>
      in Inr (case bind_res g add of
                Inl e \<Rightarrow> (Inl e, fr, ev)
              | Inr gas \<Rightarrow> call_gas V gas requested fr ev))"

definition gasCall :: "('t, 'd) vm_lib \<Rightarrow> ('t, 'd) gasFunc" where
  "gasCall V fr memorySize ev =
     bind_res (Back (fr_stack fr) 2) (\<lambda>v. bind_res (Back (fr_stack fr) 1) (\<lambda>a. bind_res (Back (fr_stack fr) 0) (\<lambda>req.
       let gas = gt_Calls (vl_gas V);
           transfersValue = (v \<noteq> 0);
           address = BigToAddress (vl_math V) a
       in bind_res
            (if IsEIP158 (vl_rules V) then
               if transfersValue then
                 bind_res (db_get (Empty (vl_eth V) address) ev) (\<lambda>(e, ev).
                   Inr (if e then gas + p_CallNewAccountGas (vl_params V) else gas, ev))
               else Inr (gas, ev)
             else bind_res (db_get (Exist (vl_eth V) address) ev) (\<lambda>(e, ev).
                    Inr (if \<not> e then gas + p_CallNewAccountGas (vl_params V) else gas, ev)))
            (\<lambda>(gas, ev).
               let gas = (if transfersValue then gas + p_CallValueTransferGas (vl_params V) else gas)
               in call_mem_gas V (\<lambda>memoryGas. gas_add (vl_math V) gas memoryGas) req fr memorySize ev))))"

definition gasCallCode :: "('t, 'd) vm_lib \<Rightarrow> ('t, 'd) gasFunc" where
  "gasCallCode V fr memorySize ev =
     bind_res (Back (fr_stack fr) 2) (\<lambda>v. bind_res (Back (fr_stack fr) 0) (\<lambda>req.
       let gas = gt_Calls (vl_gas V);
           gas = (if v \<noteq> 0 then gas + p_CallValueTransferGas (vl_params V) else gas)
       in call_mem_gas V (\<lambda>memoryGas. gas_add (vl_math V) gas memoryGas) req fr memorySize ev))"

definition gasReturn :: "('t, 'd) vm_lib \<Rightarrow> ('t, 'd) gasFunc" where
  "gasReturn V = mem_gas V Inr"

definition gasRevert :: "('t, 'd) vm_lib \<Rightarrow> ('t, 'd) gasFunc" where
  "gasRevert V = mem_gas V Inr"

definition gasSuicide :: "('t, 'd) vm_lib \<Rightarrow> ('t, 'd) gasFunc" where
  "gasSuicide V fr memorySize ev =
     bind_res (Back (fr_stack fr) 0) (\<lambda>a.
       let self = ct_self (fr_contract fr); address = BigToAddress (vl_math V) a
       in bind_res
            (if IsEIP150 (vl_rules V) then
               let gas = gt_Suicide (vl_gas V) in
               if IsEIP158 (vl_rules V) then
                 bind_res (db_get (Empty (vl_eth V) address) ev) (\<lambda>(e, ev).
                   if e then
                     bind_res (chain_token (ev_StateDB ev)) (\<lambda>tk.
                     bind_res (db_get (GetBalance (vl_eth V) self tk) ev) (\<lambda>(b, ev).
                       Inr (if b \<noteq> 0 then gas + gt_CreateBySuicide (vl_gas V) else gas, ev)))
                   else Inr (gas, ev))
               else bind_res (db_get (Exist (vl_eth V) address) ev) (\<lambda>(e, ev).
                      Inr (if \<not> e then gas + gt_CreateBySuicide (vl_gas V) else gas, ev))
             else Inr (0, ev))
            (\<lambda>(gas, ev).
               bind_res (db_get (HasSuicided (vl_eth V) self) ev) (\<lambda>(h, ev).
                 Inr (Inr gas, fr,
                   if \<not> h then with_db ev (AddRefund (p_SuicideRefundGas (vl_params V)) (ev_StateDB ev)) else ev))))"

definition gasDelegateCall :: "('t, 'd) vm_lib \<Rightarrow> ('t, 'd) gasFunc" where
  "gasDelegateCall V fr memorySize ev =
     bind_res (Back (fr_stack fr) 0) (\<lambda>req. 
       call_mem_gas V (\<lambda>gas. gas_add (vl_math V) gas (gt_Calls (vl_gas V))) req fr memorySize ev)"

definition gasStaticCall :: "('t, 'd) vm_lib \<Rightarrow> ('t, 'd) gasFunc" where
  "gasStaticCall V fr memorySize ev =
     bind_res (Back (fr_stack fr) 0) (\<lambda>req. 
       call_mem_gas V (\<lambda>gas. gas_add (vl_math V) gas (gt_Calls (vl_gas V))) req fr memorySize ev)"

definition gasPush :: "('t, 'd) gasFunc" where
  "gasPush = constGasFunc GasFastestStep"

definition gasSwap :: "('t, 'd) gasFunc" where
  "gasSwap = constGasFunc GasFastestStep"

definition gasDup :: "('t, 'd) gasFunc" where
  "gasDup = constGasFunc GasFastestStep"

end
