(* ===== verification/EvmInstr.thy ===== *)
theory EvmInstr
  imports EvmGasTable
begin

text \<open>
  The instructions of \<open>core/vm/instructions.go\<close> that use more than the stack. An instruction has the frame
  and the machine as arguments and gives the bytes and the error it returns, the frame and the machine;
  \<open>Inl\<close> is a panic. The instructions that call or create contracts have the operations of the virtual machine
  as an argument and may not return: \<open>None\<close> stands for an execution that runs out of the fuel of the model.
\<close>

type_synonym ('t, 'd) exec_result = "((bytes \<times> go_error option) \<times> frame \<times> ('t, 'd) EVM) res"
type_synonym ('t, 'd) instr = "frame \<Rightarrow> ('t, 'd) EVM \<Rightarrow> ('t, 'd) exec_result"
type_synonym ('t, 'd) executionFunc = "frame \<Rightarrow> ('t, 'd) EVM \<Rightarrow> ('t, 'd) exec_result option"

definition ok_exec :: "frame \<Rightarrow> ('t, 'd) EVM \<Rightarrow> ('t, 'd) exec_result" where
  "ok_exec fr ev = Inr (([], None), fr, ev)"

definition stack_op :: "(stack \<Rightarrow> stack res) \<Rightarrow> ('t, 'd) instr" where
  "stack_op f fr ev = bind_res (f (fr_stack fr)) (\<lambda>st. ok_exec (fr\<lparr>fr_stack := st\<rparr>) ev)"

definition push_val :: "int \<Rightarrow> ('t, 'd) instr" where
  "push_val x fr ev = ok_exec (fr\<lparr>fr_stack := x # fr_stack fr\<rparr>) ev"

abbreviation "fr_self fr \<equiv> ct_self (fr_contract fr)"

section \<open>Hashing and the environment\<close>

definition opSha3 :: "('t, 'd) vm_lib \<Rightarrow> ('t, 'd) instr" where
  "opSha3 V fr ev =
     pop2 (fr_stack fr) (\<lambda>offset sz st.
       bind_res (mem_Get (big_Int64 offset) (big_Int64 sz) (fr_mem fr)) (\<lambda>data.
         let h = lib_Keccak256 (vl_eth V) data;
             ev = (if ev_EnablePreimageRecording ev then with_db ev (AddPreimage h data (ev_StateDB ev)) else ev)
         in ok_exec (fr\<lparr>fr_stack := uint h # st\<rparr>) ev))"

definition opAddress :: "('t, 'd) instr" where
  "opAddress fr ev = push_val (uint (fr_self fr)) fr ev"

definition opBalance :: "('t, 'd) vm_lib \<Rightarrow> ('t, 'd) instr" where
  "opBalance V fr ev =
     pop1 (fr_stack fr) (\<lambda>slot st.
       bind_res (chain_token (ev_StateDB ev)) (\<lambda>tk.
       bind_res (db_get (GetBalance (vl_eth V) (BigToAddress (vl_math V) slot) tk) ev) (\<lambda>(b, ev).
         ok_exec (fr\<lparr>fr_stack := b # st\<rparr>) ev)))"

definition opOrigin :: "('t, 'd) instr" where
  "opOrigin fr ev = push_val (uint (cx_Origin (ev_Context ev))) fr ev"

definition opCaller :: "('t, 'd) instr" where
  "opCaller fr ev = push_val (uint (ct_CallerAddress (fr_contract fr))) fr ev"

definition opCallValue :: "('t, 'd) instr" where
  "opCallValue fr ev = push_val (ct_value (fr_contract fr)) fr ev"

definition opCallDataLoad :: "('t, 'd) vm_lib \<Rightarrow> ('t, 'd) instr" where
  "opCallDataLoad V fr ev =
     pop1 (fr_stack fr) (\<lambda>x st.
       bind_res (getDataBig (vl_math V) (ct_Input (fr_contract fr)) x 32) (\<lambda>b.
       ok_exec (fr\<lparr>fr_stack := big_SetBytes b # st\<rparr>) ev))"

definition opCallDataSize :: "('t, 'd) instr" where
  "opCallDataSize fr ev = push_val (int (length (ct_Input (fr_contract fr)))) fr ev"

text \<open>Copying a part of a byte slice into the memory.\<close>

definition copy_to_mem :: "('t, 'd) vm_lib \<Rightarrow> bytes \<Rightarrow> int \<Rightarrow> int \<Rightarrow> int \<Rightarrow> stack \<Rightarrow> ('t, 'd) instr" where
  "copy_to_mem V data memOffset dataOffset len st fr ev =
     bind_res (getDataBig (vl_math V) data dataOffset len) (\<lambda>b.
     bind_res (mem_Set (big_Uint64 memOffset) (big_Uint64 len) b (fr_mem fr))
       (\<lambda>mem. ok_exec (fr\<lparr>fr_mem := mem, fr_stack := st\<rparr>) ev))"

definition opCallDataCopy :: "('t, 'd) vm_lib \<Rightarrow> ('t, 'd) instr" where
  "opCallDataCopy V fr ev =
     pop3 (fr_stack fr) (\<lambda>memOffset dataOffset len st.
       copy_to_mem V (ct_Input (fr_contract fr)) memOffset dataOffset len st fr ev)"

definition opReturnDataSize :: "('t, 'd) instr" where
  "opReturnDataSize fr ev = push_val (int (length (ev_returnData ev))) fr ev"

definition opReturnDataCopy :: "('t, 'd) instr" where
  "opReturnDataCopy fr ev =
     pop3 (fr_stack fr) (\<lambda>memOffset dataOffset len st.
       let end = dataOffset + len; data = ev_returnData ev in
       if big_BitLen end > 64 \<or> of_nat (length data) < big_Uint64 end
       then Inr (([], Some errReturnDataOutOfBounds), fr\<lparr>fr_stack := st\<rparr>, ev)
       else
         bind_res (mem_Set (big_Uint64 memOffset) (big_Uint64 len)
             (drop (unat (big_Uint64 dataOffset)) (take (unat (big_Uint64 end)) data)) (fr_mem fr))
           (\<lambda>mem. ok_exec (fr\<lparr>fr_mem := mem, fr_stack := st\<rparr>) ev))"

definition opExtCodeSize :: "('t, 'd) vm_lib \<Rightarrow> ('t, 'd) instr" where
  "opExtCodeSize V fr ev =
     pop1 (fr_stack fr) (\<lambda>slot st.
       bind_res (db_get (GetCodeSize (vl_eth V) (BigToAddress (vl_math V) slot)) ev) (\<lambda>(n, ev).
         ok_exec (fr\<lparr>fr_stack := int n # st\<rparr>) ev))"

definition opCodeSize :: "('t, 'd) instr" where
  "opCodeSize fr ev = push_val (int (length (ct_Code (fr_contract fr)))) fr ev"

definition opCodeCopy :: "('t, 'd) vm_lib \<Rightarrow> ('t, 'd) instr" where
  "opCodeCopy V fr ev =
     pop3 (fr_stack fr) (\<lambda>memOffset codeOffset len st.
       copy_to_mem V (ct_Code (fr_contract fr)) memOffset codeOffset len st fr ev)"

definition code_bytes :: "bytes option \<Rightarrow> bytes" where
  "code_bytes c = (case c of None \<Rightarrow> [] | Some b \<Rightarrow> b)"

definition opExtCodeCopy :: "('t, 'd) vm_lib \<Rightarrow> ('t, 'd) instr" where
  "opExtCodeCopy V fr ev =
     pop4 (fr_stack fr) (\<lambda>addr memOffset codeOffset len st.
       bind_res (db_get (GetCode (vl_eth V) (BigToAddress (vl_math V) addr)) ev) (\<lambda>(code, ev).
         copy_to_mem V (code_bytes code) memOffset codeOffset len st fr ev))"

definition opExtCodeHash :: "('t, 'd) vm_lib \<Rightarrow> ('t, 'd) instr" where
  "opExtCodeHash V fr ev =
     pop1 (fr_stack fr) (\<lambda>slot st.
       let address = BigToAddress (vl_math V) slot in
       bind_res (db_get (Empty (vl_eth V) address) ev) (\<lambda>(e, ev).
         if e then ok_exec (fr\<lparr>fr_stack := 0 # st\<rparr>) ev
         else bind_res (db_get (GetCodeHash (vl_eth V) address) ev) (\<lambda>(h, ev).
                ok_exec (fr\<lparr>fr_stack := uint h # st\<rparr>) ev)))"

definition opGasprice :: "('t, 'd) instr" where
  "opGasprice fr ev = push_val (cx_GasPrice (ev_Context ev)) fr ev"

definition opBlockhash :: "('t, 'd) instr" where
  "opBlockhash fr ev =
     pop1 (fr_stack fr) (\<lambda>num st.
       let bn = cx_BlockNumber (ev_Context ev); n = bn - 257 in
       ok_exec (fr\<lparr>fr_stack :=
         (if num > n \<and> num < bn then uint (cx_GetHash (ev_Context ev) (big_Uint64 num)) else 0) # st\<rparr>) ev)"

definition opCoinbase :: "('t, 'd) instr" where
  "opCoinbase fr ev = push_val (uint (cx_Coinbase (ev_Context ev))) fr ev"

definition opTimestamp :: "('t, 'd) vm_lib \<Rightarrow> ('t, 'd) instr" where
  "opTimestamp V fr ev = push_val (U256 (vl_math V) (cx_Time (ev_Context ev))) fr ev"

definition opNumber :: "('t, 'd) vm_lib \<Rightarrow> ('t, 'd) instr" where
  "opNumber V fr ev = push_val (U256 (vl_math V) (cx_BlockNumber (ev_Context ev))) fr ev"

definition opDifficulty :: "('t, 'd) vm_lib \<Rightarrow> ('t, 'd) instr" where
  "opDifficulty V fr ev = push_val (U256 (vl_math V) (cx_Difficulty (ev_Context ev))) fr ev"

definition opGasLimit :: "('t, 'd) vm_lib \<Rightarrow> ('t, 'd) instr" where
  "opGasLimit V fr ev = push_val (U256 (vl_math V) (uint (cx_GasLimit (ev_Context ev)))) fr ev"

section \<open>Stack, memory, storage and control flow\<close>

definition opPop :: "stack \<Rightarrow> stack res" where
  "opPop st = pop1 st (\<lambda>x st. Inr st)"

definition opMload :: "('t, 'd) instr" where
  "opMload fr ev =
     pop1 (fr_stack fr) (\<lambda>offset st.
       bind_res (mem_Get (big_Int64 offset) 32 (fr_mem fr)) (\<lambda>b.
         ok_exec (fr\<lparr>fr_stack := big_SetBytes b # st\<rparr>) ev))"

definition opMstore :: "('t, 'd) vm_lib \<Rightarrow> ('t, 'd) instr" where
  "opMstore V fr ev =
     pop2 (fr_stack fr) (\<lambda>mStart val st.
       bind_res (mem_Set32 (vl_math V) (big_Uint64 mStart) val (fr_mem fr)) (\<lambda>mem.
         ok_exec (fr\<lparr>fr_mem := mem, fr_stack := st\<rparr>) ev))"

definition opMstore8 :: "('t, 'd) instr" where
  "opMstore8 fr ev =
     pop2 (fr_stack fr) (\<lambda>p v st.
       let off = big_Int64 p; val = big_Int64 v; m = fr_mem fr in
       if 0 \<le> off \<and> off < int (length (mem_store m))
       then ok_exec (fr\<lparr>fr_mem := m\<lparr>mem_store := (mem_store m)[nat off := word_of_int val]\<rparr>, fr_stack := st\<rparr>) ev
       else Inl index_panic)"

definition opSload :: "('t, 'd) vm_lib \<Rightarrow> ('t, 'd) instr" where
  "opSload V fr ev =
     pop1 (fr_stack fr) (\<lambda>loc st.
       bind_res (db_get (GetState (vl_eth V) (fr_self fr) (BigToHash (vl_math V) loc)) ev) (\<lambda>(v, ev).
         ok_exec (fr\<lparr>fr_stack := uint v # st\<rparr>) ev))"

definition opSstore :: "('t, 'd) vm_lib \<Rightarrow> ('t, 'd) instr" where
  "opSstore V fr ev =
     pop2 (fr_stack fr) (\<lambda>loc val st.
       bind_res (db_do (SetState (vl_eth V) (fr_self fr) (BigToHash (vl_math V) loc) (BigToHash (vl_math V) val)) ev)
         (\<lambda>ev. ok_exec (fr\<lparr>fr_stack := st\<rparr>) ev))"

text \<open>Jumping to a position, the common part of \<open>opJump\<close> and \<open>opJumpi\<close>.\<close>

definition jump_to :: "int \<Rightarrow> ('t, 'd) instr" where
  "jump_to pos fr ev =
     bind_res (validJumpdest pos (fr_contract fr) (ev_jumpdests ev)) (\<lambda>(valid, c, maps).
       let fr = fr\<lparr>fr_contract := c\<rparr>; ev = ev\<lparr>ev_jumpdests := maps\<rparr> in
       if \<not> valid then Inr (([], Some (GoError ''invalid jump destination'')), fr, ev)
       else ok_exec (fr\<lparr>fr_pc := big_Uint64 pos\<rparr>) ev)"

definition opJump :: "('t, 'd) instr" where
  "opJump fr ev = pop1 (fr_stack fr) (\<lambda>pos st. jump_to pos (fr\<lparr>fr_stack := st\<rparr>) ev)"

definition opJumpi :: "('t, 'd) instr" where
  "opJumpi fr ev =
     pop2 (fr_stack fr) (\<lambda>pos cond st.
       let fr = fr\<lparr>fr_stack := st\<rparr> in
       if cond \<noteq> 0 then jump_to pos fr ev else ok_exec (fr\<lparr>fr_pc := fr_pc fr + 1\<rparr>) ev)"

definition opJumpdest :: "('t, 'd) instr" where
  "opJumpdest fr ev = ok_exec fr ev"

definition opPc :: "('t, 'd) instr" where
  "opPc fr ev = push_val (uint (fr_pc fr)) fr ev"

definition opMsize :: "('t, 'd) instr" where
  "opMsize fr ev = push_val (int (length (mem_store (fr_mem fr)))) fr ev"

definition opGas :: "('t, 'd) instr" where
  "opGas fr ev = push_val (uint (ct_Gas (fr_contract fr))) fr ev"

definition opReturn :: "('t, 'd) instr" where
  "opReturn fr ev =
     pop2 (fr_stack fr) (\<lambda>offset sz st.
       bind_res (mem_GetPtr (big_Int64 offset) (big_Int64 sz) (fr_mem fr)) (\<lambda>ret.
         Inr ((ret, None), fr\<lparr>fr_stack := st\<rparr>, ev)))"

definition opRevert :: "('t, 'd) instr" where
  "opRevert fr ev =
     pop2 (fr_stack fr) (\<lambda>offset sz st.
       bind_res (mem_GetPtr (big_Int64 offset) (big_Int64 sz) (fr_mem fr)) (\<lambda>ret.
         Inr ((ret, None), fr\<lparr>fr_stack := st\<rparr>, ev)))"

definition opStop :: "('t, 'd) instr" where
  "opStop fr ev = ok_exec fr ev"

definition opSuicide :: "('t, 'd) vm_lib \<Rightarrow> ('t, 'd) instr" where
  "opSuicide V fr ev =
     bind_res (chain_token (ev_StateDB ev)) (\<lambda>tk.
     bind_res (db_get (GetBalance (vl_eth V) (fr_self fr) tk) ev) (\<lambda>(balance, ev).
     pop1 (fr_stack fr) (\<lambda>a st.
     bind_res (db_do (AddBalance (vl_eth V) (BigToAddress (vl_math V) a) balance tk) ev) (\<lambda>ev.
     bind_res (db_get (Suicide (vl_eth V) (fr_self fr)) ev) (\<lambda>(b, ev).
       ok_exec (fr\<lparr>fr_stack := st\<rparr>) ev)))))"

fun pop_topics :: "vm_math \<Rightarrow> nat \<Rightarrow> stack \<Rightarrow> (hash list \<times> stack) res" where
  "pop_topics M 0 st = Inr ([], st)"
| "pop_topics M (Suc n) st =
     pop1 st (\<lambda>x st. bind_res (pop_topics M n st) (\<lambda>(ts, st). Inr (BigToHash M x # ts, st)))"

definition makeLog :: "('t, 'd) vm_lib \<Rightarrow> nat \<Rightarrow> ('t, 'd) instr" where
  "makeLog V n fr ev =
     pop2 (fr_stack fr) (\<lambda>mStart mSize st.
       bind_res (pop_topics (vl_math V) n st) (\<lambda>(topics, st).
       bind_res (mem_Get (big_Int64 mStart) (big_Int64 mSize) (fr_mem fr)) (\<lambda>d.
         ok_exec (fr\<lparr>fr_stack := st\<rparr>)
           (with_db ev (AddLog \<lparr>lg_Recipient = fr_self fr, lg_Topics = topics, lg_Data = d,
              lg_BlockNumber = big_Uint64 (cx_BlockNumber (ev_Context ev)), lg_TxHash = 0, lg_TxIndex = 0,
              lg_BlockHash = 0, lg_Index = 0, lg_Removed = False\<rparr> (ev_StateDB ev))))))"

text \<open>In every entry of the jump table \<open>size\<close> and \<open>pushByteSize\<close> are the same number.\<close>

definition makePush :: "('t, 'd) vm_lib \<Rightarrow> nat \<Rightarrow> ('t, 'd) instr" where
  "makePush V n fr ev =
     (let code = ct_Code (fr_contract fr);
          codeLen = int (length code);
          startMin = (if sint (fr_pc fr + 1) < codeLen then sint (fr_pc fr + 1) else codeLen);
          endMin = (if startMin + int n < codeLen then startMin + int n else codeLen)
      in if startMin < 0 \<or> endMin < startMin then Inl index_panic
         else ok_exec (fr\<lparr>fr_stack :=
                big_SetBytes (RightPadBytes (vl_math V)
                  (take (nat (endMin - startMin)) (drop (nat startMin) code)) (int n)) # fr_stack fr,
              fr_pc := fr_pc fr + of_nat n\<rparr>) ev)"

definition makeDup :: "nat \<Rightarrow> stack \<Rightarrow> stack res" where
  "makeDup n = st_dup n"

definition makeSwap :: "nat \<Rightarrow> stack \<Rightarrow> stack res" where
  "makeSwap n = st_swap (n + 1)"

section \<open>Calls\<close>

text \<open>The operations of the virtual machine that start a new contract: the returned bytes, the created
  address, the gas left over and the error.\<close>

type_synonym ('t, 'd) call_result = "((bytes \<times> u64 \<times> go_error option) \<times> ('t, 'd) EVM) res option"
type_synonym ('t, 'd) create_result = "((bytes \<times> recipient \<times> u64 \<times> go_error option) \<times> ('t, 'd) EVM) res option"

record ('t, 'd) evm_ops =
  eo_Call :: "ContractRef \<Rightarrow> recipient \<Rightarrow> bytes \<Rightarrow> u64 \<Rightarrow> int \<Rightarrow> ('t, 'd) EVM \<Rightarrow> ('t, 'd) call_result"
  eo_CallCode :: "ContractRef \<Rightarrow> recipient \<Rightarrow> bytes \<Rightarrow> u64 \<Rightarrow> int \<Rightarrow> ('t, 'd) EVM \<Rightarrow> ('t, 'd) call_result"
  eo_DelegateCall :: "ContractRef \<Rightarrow> recipient \<Rightarrow> bytes \<Rightarrow> u64 \<Rightarrow> ('t, 'd) EVM \<Rightarrow> ('t, 'd) call_result"
  eo_StaticCall :: "ContractRef \<Rightarrow> recipient \<Rightarrow> bytes \<Rightarrow> u64 \<Rightarrow> ('t, 'd) EVM \<Rightarrow> ('t, 'd) call_result"
  eo_Create :: "ContractRef \<Rightarrow> bytes \<Rightarrow> u64 \<Rightarrow> int \<Rightarrow> recipient option \<Rightarrow> ('t, 'd) EVM \<Rightarrow> ('t, 'd) create_result"
  eo_Create2 :: "ContractRef \<Rightarrow> bytes \<Rightarrow> u64 \<Rightarrow> int \<Rightarrow> int \<Rightarrow> ('t, 'd) EVM \<Rightarrow> ('t, 'd) create_result"

text \<open>Sequencing of computations that may run out of fuel.\<close>

definition bindF :: "'a res option \<Rightarrow> ('a \<Rightarrow> 'b res option) \<Rightarrow> 'b res option" where
  "bindF r f = (case r of None \<Rightarrow> None | Some (Inl e) \<Rightarrow> Some (Inl e) | Some (Inr x) \<Rightarrow> f x)"

definition currentMntIDAddr :: recipient where
  "currentMntIDAddr = 0x514b430001"

definition ModifyTokenIDQueried :: "recipient \<Rightarrow> Contract \<Rightarrow> Contract" where
  "ModifyTokenIDQueried toAddr c = (if toAddr = currentMntIDAddr then c\<lparr>ct_TokenIDQueried := True\<rparr> else c)"

definition opCreate :: "('t, 'd) vm_lib \<Rightarrow> ('t, 'd) evm_ops \<Rightarrow> ('t, 'd) executionFunc" where
  "opCreate V E fr ev =
     bindF (Some (pop3 (fr_stack fr) (\<lambda>val offset sz st.
         bind_res (mem_Get (big_Int64 offset) (big_Int64 sz) (fr_mem fr)) (\<lambda>input. Inr (val, input, st)))))
       (\<lambda>(val, input, st).
          let gas = ct_Gas (fr_contract fr);
              gas = (if IsEIP150 (vl_rules V) then gas - gas div 64 else gas);
              (used, c) = UseGas gas (fr_contract fr)
          in bindF (eo_Create E (as_caller c) input gas val None ev) (\<lambda>((res, addr, returnGas, suberr), ev).
               let top = (if IsHomestead (vl_rules V) \<and> suberr = Some ErrCodeStoreOutOfGas then 0
                          else if suberr \<noteq> None \<and> suberr \<noteq> Some ErrCodeStoreOutOfGas then 0 else uint addr);
                   c = c\<lparr>ct_Gas := ct_Gas c + returnGas\<rparr>
               in case ct_CodeAddr c of
                    None \<Rightarrow> Some (Inl (GoPanic ''nil pointer dereference''))
                  | Some a \<Rightarrow>
                      Some (Inr ((if suberr = Some errExecutionReverted then res else [], None),
                        fr\<lparr>fr_contract := ModifyTokenIDQueried a c, fr_stack := top # st\<rparr>, ev))))"

definition opCreate2 :: "('t, 'd) evm_ops \<Rightarrow> ('t, 'd) executionFunc" where
  "opCreate2 E fr ev =
     bindF (Some (pop4 (fr_stack fr) (\<lambda>endowment offset sz salt st.
         bind_res (mem_Get (big_Int64 offset) (big_Int64 sz) (fr_mem fr)) (\<lambda>input. Inr (endowment, salt, input, st)))))
       (\<lambda>(endowment, salt, input, st).
          let gas = ct_Gas (fr_contract fr);
              gas = gas - gas div 64;
              (used, c) = UseGas gas (fr_contract fr)
          in bindF (eo_Create2 E (as_caller c) input gas endowment salt ev) (\<lambda>((res, addr, returnGas, suberr), ev).
               let top = (if suberr \<noteq> None then 0 else uint addr);
                   c = c\<lparr>ct_Gas := ct_Gas c + returnGas\<rparr>
               in Some (Inr ((if suberr = Some errExecutionReverted then res else [], None),
                    fr\<lparr>fr_contract := c, fr_stack := top # st\<rparr>, ev))))"

text \<open>What the four call instructions do with the result of the call: the success flag, the output in the
  memory, the gas handed back and the mark for a query of the token id.\<close>

definition after_call :: "recipient \<Rightarrow> int \<Rightarrow> int \<Rightarrow> stack \<Rightarrow> bytes \<Rightarrow> u64 \<Rightarrow> go_error option \<Rightarrow> ('t, 'd) instr" where
  "after_call toAddr retOffset retSize st ret returnGas err fr ev =
     (let top = (if err \<noteq> None then 0 else 1) in
      bind_res (if err = None \<or> err = Some errExecutionReverted
                then mem_Set (big_Uint64 retOffset) (big_Uint64 retSize) ret (fr_mem fr) else Inr (fr_mem fr)) (\<lambda>mem.
        let c = fr_contract fr; c = c\<lparr>ct_Gas := ct_Gas c + returnGas\<rparr>
        in Inr ((ret, None), fr\<lparr>fr_contract := ModifyTokenIDQueried toAddr c, fr_mem := mem, fr_stack := top # st\<rparr>, ev)))"

text \<open>The arguments of a call: the items below the gas, of which the first is the address; \<open>val\<close> tells
  whether a value follows it.\<close>

definition call_args :: "('t, 'd) vm_lib \<Rightarrow> bool \<Rightarrow> frame
    \<Rightarrow> (recipient \<times> int \<times> bytes \<times> int \<times> int \<times> stack) res" where
  "call_args V has_value fr =
     pop2 (fr_stack fr) (\<lambda>gas addr st.
     bind_res (if has_value then pop1 st (\<lambda>v st. Inr (U256 (vl_math V) v, st)) else Inr (0, st)) (\<lambda>(val, st).
     pop4 st (\<lambda>inOffset inSize retOffset retSize st.
     bind_res (mem_Get (big_Int64 inOffset) (big_Int64 inSize) (fr_mem fr)) (\<lambda>args.
       Inr (BigToAddress (vl_math V) addr, val, args, retOffset, retSize, st)))))"

definition opCall :: "('t, 'd) vm_lib \<Rightarrow> ('t, 'd) evm_ops \<Rightarrow> ('t, 'd) executionFunc" where
  "opCall V E fr ev =
     bindF (Some (call_args V True fr)) (\<lambda>(toAddr, val, args, retOffset, retSize, st).
       let gas = ev_callGasTemp ev;
           gas = (if val \<noteq> 0 then gas + p_CallStipend (vl_params V) else gas)
       in bindF (eo_Call E (as_caller (fr_contract fr)) toAddr args gas val ev) (\<lambda>((ret, returnGas, err), ev).
            Some (after_call toAddr retOffset retSize st ret returnGas err fr ev)))"

definition opCallCode :: "('t, 'd) vm_lib \<Rightarrow> ('t, 'd) evm_ops \<Rightarrow> ('t, 'd) executionFunc" where
  "opCallCode V E fr ev =
     bindF (Some (call_args V True fr)) (\<lambda>(toAddr, val, args, retOffset, retSize, st).
       let gas = ev_callGasTemp ev;
           gas = (if val \<noteq> 0 then gas + p_CallStipend (vl_params V) else gas)
       in bindF (eo_CallCode E (as_caller (fr_contract fr)) toAddr args gas val ev) (\<lambda>((ret, returnGas, err), ev).
            Some (after_call toAddr retOffset retSize st ret returnGas err fr ev)))"

definition opDelegateCall :: "('t, 'd) vm_lib \<Rightarrow> ('t, 'd) evm_ops \<Rightarrow> ('t, 'd) executionFunc" where
  "opDelegateCall V E fr ev =
     bindF (Some (call_args V False fr)) (\<lambda>(toAddr, val, args, retOffset, retSize, st).
       bindF (eo_DelegateCall E (as_caller (fr_contract fr)) toAddr args (ev_callGasTemp ev) ev)
         (\<lambda>((ret, returnGas, err), ev). Some (after_call toAddr retOffset retSize st ret returnGas err fr ev)))"

definition opStaticCall :: "('t, 'd) vm_lib \<Rightarrow> ('t, 'd) evm_ops \<Rightarrow> ('t, 'd) executionFunc" where
  "opStaticCall V E fr ev =
     bindF (Some (call_args V False fr)) (\<lambda>(toAddr, val, args, retOffset, retSize, st).
       bindF (eo_StaticCall E (as_caller (fr_contract fr)) toAddr args (ev_callGasTemp ev) ev)
         (\<lambda>((ret, returnGas, err), ev). Some (after_call toAddr retOffset retSize st ret returnGas err fr ev)))"

end
