(* ===== verification/Precompiles.thy ===== *)
theory Precompiles
  imports EvmInstr
begin

text \<open>
  The precompiled contracts of \<open>core/vm/contracts.go\<close>: the Ethereum ones, and those of QuarkChain that
  report the token of a transfer, transfer and mint native tokens, deploy the system contracts and read
  balances. The curve, hash and signature functions are parameters. \<open>GetEnableTime\<close> reads a package
  variable that the start-up code sets; it is a field of the machine, as are the system contracts with their
  byte codes.
\<close>

section \<open>Tables\<close>

datatype PrecompiledContract =
    ecrecover | sha256hash | ripemd160hash | dataCopy | bigModExp | bn256Add | bn256ScalarMul | bn256Pairing
  | currentMntID | transferMnt | deploySystemContract | mintMNT | balanceMNT

definition transferMntAddr :: recipient where
  "transferMntAddr = 0x514b430002"

definition deploySystemContractAddr :: recipient where
  "deploySystemContractAddr = 0x514b430003"

definition MintMNTAddr :: recipient where
  "MintMNTAddr = 0x514b430004"

definition BalanceMNTAddr :: recipient where
  "BalanceMNTAddr = 0x514b430005"

definition PrecompiledContractsHomestead :: "(recipient \<times> PrecompiledContract) list" where
  "PrecompiledContractsHomestead = [(1, ecrecover), (2, sha256hash), (3, ripemd160hash), (4, dataCopy)]"

definition PrecompiledContractsByzantium :: "(recipient \<times> PrecompiledContract) list" where
  "PrecompiledContractsByzantium =
     [(1, ecrecover), (2, sha256hash), (3, ripemd160hash), (4, dataCopy), (5, bigModExp), (6, bn256Add),
      (7, bn256ScalarMul), (8, bn256Pairing), (currentMntIDAddr, currentMntID), (transferMntAddr, transferMnt),
      (deploySystemContractAddr, deploySystemContract), (MintMNTAddr, mintMNT), (BalanceMNTAddr, balanceMNT)]"

definition rootChainPoSWContractAddr :: recipient where
  "rootChainPoSWContractAddr = 0x514b430000000000000000000000000000000001"

definition NonReservedNativeTokenContractAddr :: recipient where
  "NonReservedNativeTokenContractAddr = 0x514b430000000000000000000000000000000002"

definition generalNativeTokenContractAddr :: recipient where
  "generalNativeTokenContractAddr = 0x514b430000000000000000000000000000000003"

text \<open>The table of system contracts before the start-up code sets the time stamps; the byte codes are the
  three constants of the source.\<close>

definition SystemContracts :: "bytes \<Rightarrow> bytes \<Rightarrow> bytes \<Rightarrow> SystemContract list" where
  "SystemContracts b1 b2 b3 =
     [\<lparr>sc_address = 0, sc_bytecode = [], sc_timestamp = 0\<rparr>,
      \<lparr>sc_address = rootChainPoSWContractAddr, sc_bytecode = b1, sc_timestamp = 0\<rparr>,
      \<lparr>sc_address = NonReservedNativeTokenContractAddr, sc_bytecode = b2, sc_timestamp = - 1\<rparr>,
      \<lparr>sc_address = generalNativeTokenContractAddr, sc_bytecode = b3, sc_timestamp = - 1\<rparr>]"

abbreviation (input) "NON_RESERVED_NATIVE_TOKEN \<equiv> 2 :: nat"
abbreviation (input) "ContractScopeGlobal \<equiv> 1 :: nat"
abbreviation (input) "ContractScopeLocalChain0 \<equiv> 2 :: nat"

definition SystemContractScopeMap :: "int \<Rightarrow> nat" where
  "SystemContractScopeMap i =
     (if i = 1 then ContractScopeGlobal else if i = 2 then ContractScopeLocalChain0
      else if i = 3 then ContractScopeGlobal else 0)"

section \<open>Gas\<close>

definition len64 :: "bytes \<Rightarrow> u64" where
  "len64 b = of_nat (length b)"

definition ecrecover_RequiredGas :: "('t, 'd) vm_lib \<Rightarrow> bytes \<Rightarrow> u64" where
  "ecrecover_RequiredGas V input = p_EcrecoverGas (vl_pre V)"

definition sha256hash_RequiredGas :: "('t, 'd) vm_lib \<Rightarrow> bytes \<Rightarrow> u64" where
  "sha256hash_RequiredGas V input = (len64 input + 31) div 32 * p_Sha256PerWordGas (vl_pre V) + p_Sha256BaseGas (vl_pre V)"

definition ripemd160hash_RequiredGas :: "('t, 'd) vm_lib \<Rightarrow> bytes \<Rightarrow> u64" where
  "ripemd160hash_RequiredGas V input = (len64 input + 31) div 32 * p_Ripemd160PerWordGas (vl_pre V) + p_Ripemd160BaseGas (vl_pre V)"

definition dataCopy_RequiredGas :: "('t, 'd) vm_lib \<Rightarrow> bytes \<Rightarrow> u64" where
  "dataCopy_RequiredGas V input = (len64 input + 31) div 32 * p_IdentityPerWordGas (vl_pre V) + p_IdentityBaseGas (vl_pre V)"

definition bigModExp_RequiredGas :: "('t, 'd) vm_lib \<Rightarrow> bytes \<Rightarrow> u64 res" where
  "bigModExp_RequiredGas V input =
     (let M = vl_math V in
      bind_res (getData M input 0 32) (\<lambda>b0.
      bind_res (getData M input 32 32) (\<lambda>b1.
      bind_res (getData M input 64 32) (\<lambda>b2.
      let baseLen = big_SetBytes b0; expLen = big_SetBytes b1; modLen = big_SetBytes b2;
          input = (if length input > 96 then drop 96 input else []) in
      bind_res (if int (length input) \<le> baseLen then Inr []
                else if expLen > 32 then getData M input (big_Uint64 baseLen) 32
                else getData M input (big_Uint64 baseLen) (big_Uint64 expLen)) (\<lambda>head.
      let expHead = big_SetBytes head;
          msb = (if big_BitLen expHead > 0 then int (big_BitLen expHead) - 1 else 0);
          adjExpLen = (if expLen > 32 then 8 * (expLen - 32) else 0) + msb;
          gas = math_BigMax M modLen baseLen;
          gas = (if gas \<le> 64 then gas * gas
                 else if gas \<le> 1024 then gas * gas div 4 + (96 * gas - 3072)
                 else gas * gas div 16 + (480 * gas - 199680));
          gas = gas * math_BigMax M adjExpLen 1;
          gas = gas div uint (p_ModExpQuadCoeffDiv (vl_pre V))
      in Inr (if big_BitLen gas > 64 then 0xFFFFFFFFFFFFFFFF else big_Uint64 gas))))))"

definition bn256Add_RequiredGas :: "('t, 'd) vm_lib \<Rightarrow> bytes \<Rightarrow> u64" where
  "bn256Add_RequiredGas V input = p_Bn256AddGas (vl_pre V)"

definition bn256ScalarMul_RequiredGas :: "('t, 'd) vm_lib \<Rightarrow> bytes \<Rightarrow> u64" where
  "bn256ScalarMul_RequiredGas V input = p_Bn256ScalarMulGas (vl_pre V)"

definition bn256Pairing_RequiredGas :: "('t, 'd) vm_lib \<Rightarrow> bytes \<Rightarrow> u64" where
  "bn256Pairing_RequiredGas V input = p_Bn256PairingBaseGas (vl_pre V) + len64 input div 192 * p_Bn256PairingPerPointGas (vl_pre V)"

definition currentMntID_RequiredGas :: "bytes \<Rightarrow> u64" where
  "currentMntID_RequiredGas input = 3"

definition transferMnt_RequiredGas :: "bytes \<Rightarrow> u64" where
  "transferMnt_RequiredGas input = 0"

definition deploySystemContract_RequiredGas :: "bytes \<Rightarrow> u64" where
  "deploySystemContract_RequiredGas input = 3"

definition mintMNT_RequiredGas :: "bytes \<Rightarrow> u64" where
  "mintMNT_RequiredGas input = 9000"

definition balanceMNT_RequiredGas :: "bytes \<Rightarrow> u64" where
  "balanceMNT_RequiredGas input = 400"

text \<open>The method of the interface, which only \<open>bigModExp\<close> can leave by a panic.\<close>

fun RequiredGas :: "('t, 'd) vm_lib \<Rightarrow> PrecompiledContract \<Rightarrow> bytes \<Rightarrow> u64 res" where
  "RequiredGas V ecrecover input = Inr (ecrecover_RequiredGas V input)"
| "RequiredGas V sha256hash input = Inr (sha256hash_RequiredGas V input)"
| "RequiredGas V ripemd160hash input = Inr (ripemd160hash_RequiredGas V input)"
| "RequiredGas V dataCopy input = Inr (dataCopy_RequiredGas V input)"
| "RequiredGas V bigModExp input = bigModExp_RequiredGas V input"
| "RequiredGas V bn256Add input = Inr (bn256Add_RequiredGas V input)"
| "RequiredGas V bn256ScalarMul input = Inr (bn256ScalarMul_RequiredGas V input)"
| "RequiredGas V bn256Pairing input = Inr (bn256Pairing_RequiredGas V input)"
| "RequiredGas V currentMntID input = Inr (currentMntID_RequiredGas input)"
| "RequiredGas V transferMnt input = Inr (transferMnt_RequiredGas input)"
| "RequiredGas V deploySystemContract input = Inr (deploySystemContract_RequiredGas input)"
| "RequiredGas V mintMNT input = Inr (mintMNT_RequiredGas input)"
| "RequiredGas V balanceMNT input = Inr (balanceMNT_RequiredGas input)"

section \<open>Contracts without effects\<close>

definition hash_bytes32 :: "hash \<Rightarrow> bytes" where
  "hash_bytes32 h = be_bytes 32 (unat h)"

definition ecrecover_Run :: "('t, 'd) vm_lib \<Rightarrow> bytes \<Rightarrow> (bytes \<times> go_error option) res" where
  "ecrecover_Run V input =
     (let input = RightPadBytes (vl_math V) input 128;
          r = big_SetBytes (take 32 (drop 64 input));
          s = big_SetBytes (take 32 (drop 96 input));
          v = input ! 63 - 27
      in if length input < 128 then Inl index_panic
         else if \<not> allZero (take 31 (drop 32 input)) \<or> \<not> crypto_ValidateSignatureValues (vl_crypto V) v r s
         then Inr ([], None)
         else case crypto_Ecrecover (vl_crypto V) (take 32 input) (take 64 (drop 64 input) @ [v]) of
                Inl e \<Rightarrow> Inr ([], None)
              | Inr pubKey \<Rightarrow>
                  if pubKey = [] then Inl index_panic
                  else Inr (LeftPadBytes (vl_math V) (drop 12 (hash_bytes32 (lib_Keccak256 (vl_eth V) (drop 1 pubKey)))) 32, None))"

definition sha256hash_Run :: "('t, 'd) vm_lib \<Rightarrow> bytes \<Rightarrow> bytes \<times> go_error option" where
  "sha256hash_Run V input = (sha256_Sum256 (vl_crypto V) input, None)"

definition ripemd160hash_Run :: "('t, 'd) vm_lib \<Rightarrow> bytes \<Rightarrow> bytes \<times> go_error option" where
  "ripemd160hash_Run V input = (LeftPadBytes (vl_math V) (ripemd160_Sum (vl_crypto V) input) 32, None)"

definition dataCopy_Run :: "bytes \<Rightarrow> bytes \<times> go_error option" where
  "dataCopy_Run input = (input, None)"

definition bigModExp_Run :: "('t, 'd) vm_lib \<Rightarrow> bytes \<Rightarrow> (bytes \<times> go_error option) res" where
  "bigModExp_Run V input =
     (let M = vl_math V in
      bind_res (getData M input 0 32) (\<lambda>b0.
      bind_res (getData M input 32 32) (\<lambda>b1.
      bind_res (getData M input 64 32) (\<lambda>b2.
      let baseLen = big_Uint64 (big_SetBytes b0); expLen = big_Uint64 (big_SetBytes b1); modLen = big_Uint64 (big_SetBytes b2);
          input = (if length input > 96 then drop 96 input else [])
      in if baseLen = 0 \<and> modLen = 0 then Inr ([], None)
         else
           bind_res (getData M input 0 baseLen) (\<lambda>b.
           bind_res (getData M input baseLen expLen) (\<lambda>e.
           bind_res (getData M input (baseLen + expLen) modLen) (\<lambda>m.
           let base = big_SetBytes b; ex = big_SetBytes e; modulus = big_SetBytes m
           in if big_BitLen modulus = 0 then Inr (LeftPadBytes M [] (sint modLen), None)
              else Inr (LeftPadBytes M (big_bytes (base ^ nat ex mod modulus)) (sint modLen), None))))))))"

definition newCurvePoint :: "('t, 'd) vm_lib \<Rightarrow> bytes \<Rightarrow> bytes res" where
  "newCurvePoint V blob = bn256_UnmarshalG1 (vl_crypto V) blob"

definition newTwistPoint :: "('t, 'd) vm_lib \<Rightarrow> bytes \<Rightarrow> bytes res" where
  "newTwistPoint V blob = bn256_UnmarshalG2 (vl_crypto V) blob"

definition bn256Add_Run :: "('t, 'd) vm_lib \<Rightarrow> bytes \<Rightarrow> (bytes \<times> go_error option) res" where
  "bn256Add_Run V input =
     bind_res (getData (vl_math V) input 0 64) (\<lambda>b.
     case newCurvePoint V b of
        Inl err \<Rightarrow> Inr ([], Some err)
      | Inr x \<Rightarrow>
          bind_res (getData (vl_math V) input 64 64) (\<lambda>b.
          case newCurvePoint V b of
             Inl err \<Rightarrow> Inr ([], Some err)
           | Inr y \<Rightarrow> Inr (bn256_MarshalG1 (vl_crypto V) (bn256_Add (vl_crypto V) x y), None)))"

definition bn256ScalarMul_Run :: "('t, 'd) vm_lib \<Rightarrow> bytes \<Rightarrow> (bytes \<times> go_error option) res" where
  "bn256ScalarMul_Run V input =
     bind_res (getData (vl_math V) input 0 64) (\<lambda>b.
     case newCurvePoint V b of
        Inl err \<Rightarrow> Inr ([], Some err)
      | Inr p \<Rightarrow>
          bind_res (getData (vl_math V) input 64 32) (\<lambda>b.
          Inr (bn256_MarshalG1 (vl_crypto V) (bn256_ScalarMult (vl_crypto V) p (big_SetBytes b)), None)))"

text \<open>The loop of \<open>bn256Pairing.Run\<close> over the \<open>n\<close> pairs of points.\<close>

fun pairing_points :: "('t, 'd) vm_lib \<Rightarrow> nat \<Rightarrow> bytes \<Rightarrow> (bytes list \<times> bytes list) res" where
  "pairing_points V 0 input = Inr ([], [])"
| "pairing_points V (Suc n) input =
     bind_res (newCurvePoint V (take 64 input)) (\<lambda>c.
     bind_res (newTwistPoint V (take 128 (drop 64 input))) (\<lambda>t.
     bind_res (pairing_points V n (drop 192 input)) (\<lambda>(cs, ts). Inr (c # cs, t # ts))))"

definition bn256Pairing_Run :: "('t, 'd) vm_lib \<Rightarrow> bytes \<Rightarrow> bytes \<times> go_error option" where
  "bn256Pairing_Run V input =
     (if length input mod 192 > 0 then ([], Some (GoError ''bad elliptic curve pairing size''))
      else case pairing_points V (length input div 192) input of
             Inl err \<Rightarrow> ([], Some err)
           | Inr (cs, ts) \<Rightarrow>
               (replicate 31 0 @ [if bn256_PairingCheck (vl_crypto V) cs ts then 1 else 0], None))"

definition BigToByte32 :: "int \<Rightarrow> bytes res" where
  "BigToByte32 data =
     (let b = big_bytes data in
      if length b > 32 then Inl (GoPanic ''data's len should <= 32'') else Inr (replicate (32 - length b) 0 @ b))"

section \<open>Contracts that use the machine\<close>

type_synonym ('t, 'd) run_result = "((bytes \<times> go_error option) \<times> Contract \<times> ('t, 'd) EVM) res option"

definition run_done :: "bytes \<Rightarrow> go_error option \<Rightarrow> Contract \<Rightarrow> ('t, 'd) EVM \<Rightarrow> ('t, 'd) run_result" where
  "run_done ret err c ev = Some (Inr ((ret, err), c, ev))"

text \<open>An error return after \<open>contract.Gas = 0\<close>.\<close>

definition burn :: "go_error \<Rightarrow> Contract \<Rightarrow> ('t, 'd) EVM \<Rightarrow> ('t, 'd) run_result" where
  "burn err c ev = run_done [] (Some err) (c\<lparr>ct_Gas := 0\<rparr>) ev"

definition currentMntID_Run :: "bytes \<Rightarrow> Contract \<Rightarrow> ('t, 'd) EVM \<Rightarrow> ('t, 'd) run_result" where
  "currentMntID_Run input c ev =
     run_done (replicate 24 0 @ be_bytes 8 (unat (ev_TransferTokenID ev))) None (c\<lparr>ct_TokenIDQueried := True\<rparr>) ev"

definition set_transfer_token :: "u64 \<Rightarrow> ('t, 'd) EVM \<Rightarrow> ('t, 'd) EVM" where
  "set_transfer_token t ev = ev\<lparr>ev_Context := (ev_Context ev)\<lparr>cx_TransferTokenID := t\<rparr>\<rparr>"

text \<open>\<open>transferMnt\<close> calls the target on behalf of its own caller, with the token id of the machine replaced
  for the duration of the call.\<close>

definition transferMnt_Run :: "('t, 'd) vm_lib \<Rightarrow> ('t, 'd) evm_ops \<Rightarrow> bytes \<Rightarrow> Contract \<Rightarrow> ('t, 'd) EVM
    \<Rightarrow> ('t, 'd) run_result" where
  "transferMnt_Run V E input c ev =
     (if length input < 96 then burn (GoError ''should 96'') c ev
      else if ct_IsStaticCall c then burn (GoError ''transferMnt Run: static call not allowed '') c ev
      else
        let M = vl_math V; P = vl_params V in
        bindF (Some (getData M input 0 32)) (\<lambda>b0.
        bindF (Some (getData M input 32 32)) (\<lambda>b1.
        bindF (Some (getData M input 64 32)) (\<lambda>b2.
        bindF (Some (getData M input 96 (len64 input - 96))) (\<lambda>data.
        let toAddr = vm_BytesToAddress M b0; tokenID = big_SetBytes b1; val = big_SetBytes b2
        in if tokenID > uint TOKENIDMAX then burn (GoError ''tokenid > TOKENIDMAX'') c ev
           else if toAddr = transferMntAddr then burn (GoError ''re call toAddr'') c ev
           else
             bindF (Some (if val > 0 then
                 bind_res (db_get (Exist (vl_eth V) toAddr) ev) (\<lambda>(e, ev).
                   Inr (p_CallValueTransferGas P + (if \<not> e then p_CallNewAccountGas P else 0), ev))
                 else Inr (0, ev))) (\<lambda>(gasCost, ev).
             if ct_Gas c < gasCost then burn (GoError ''run transferMnt failed'') c ev
             else
               bindF (Some (db_get (GetBalance (vl_eth V) (ct_CallerAddress c) (big_Uint64 tokenID)) ev)) (\<lambda>(b, ev).
               if b < val \<or> ev_depth ev \<ge> p_CallCreateDepth P
               then run_done [] (Some errExecutionReverted) (snd (UseGas gasCost c)) ev
               else
                 let t = ev_TransferTokenID ev;
                     ev = set_transfer_token (big_Uint64 tokenID) ev;
                     gasToCall = ct_Gas c - gasCost;
                     gasToCall = (if val > 0 then gasToCall + p_CallStipend P else gasToCall);
                     c = snd (UseGas gasCost c)
                 in bindF (eo_Call E (ct_caller c) toAddr data gasToCall val ev) (\<lambda>((ret, remainedGas, err), ev).
                    bindF (Some (chain_token (ev_StateDB ev))) (\<lambda>tk.
                      let err = checkTokenIDQueried err c (ev_TransferTokenID ev) tk
                      in run_done ret err (c\<lparr>ct_Gas := remainedGas\<rparr>) (set_transfer_token t ev))))))))))"

definition deploySystemContract_Run :: "('t, 'd) vm_lib \<Rightarrow> ('t, 'd) evm_ops \<Rightarrow> bytes \<Rightarrow> Contract \<Rightarrow> ('t, 'd) EVM
    \<Rightarrow> ('t, 'd) run_result" where
  "deploySystemContract_Run V E input c ev =
     bindF (Some (getData (vl_math V) input 0 32)) (\<lambda>b0.
      let index = big_Uint64 (big_SetBytes b0);
          contractIndex = (if index > 0 then sint index else 1)
      in if contractIndex \<ge> int (length (ev_SystemContracts ev)) then burn ErrInvalidSystemContractIndex c ev
         else if SystemContractScopeMap contractIndex \<noteq> ContractScopeGlobal
                 \<and> SystemContractScopeMap contractIndex \<noteq> ContractScopeLocalChain0
         then Some (Inl (GoPanic ''bug fix : SystemContractScopeMap Must ContractScopeGlobal or  ContractScopeLocalChain0 ''))
         else if SystemContractScopeMap contractIndex \<noteq> ContractScopeGlobal \<and> StateDB_GetChainID (ev_StateDB ev) \<noteq> 0
         then burn (GoError ''deploySystemContract chainID should 0'') c ev
         else if contractIndex < 0 then Some (Inl index_panic)
         else
           let sc = ev_SystemContracts ev ! nat contractIndex in
           if big_Uint64 (cx_Time (ev_Context ev)) < sc_timestamp sc then burn ErrTimestampNotMatch c ev
           else
             bindF (eo_Create E (AccountRef (ct_self c)) (sc_bytecode sc) (ct_Gas c) 0 (Some (sc_address sc)) ev)
               (\<lambda>((ret, addr, leftover, err), ev).
                  case err of
                    Some e \<Rightarrow> burn e c ev
                  | None \<Rightarrow> run_done (be_bytes 20 (unat addr)) None (c\<lparr>ct_Gas := leftover\<rparr>) ev))"

definition mintMNT_Run :: "('t, 'd) vm_lib \<Rightarrow> bytes \<Rightarrow> Contract \<Rightarrow> ('t, 'd) EVM \<Rightarrow> ('t, 'd) run_result" where
  "mintMNT_Run V input c ev =
     (let M = vl_math V; P = vl_params V in
      bindF (Some (getData M input 0 32)) (\<lambda>b0.
      bindF (Some (getData M input 32 32)) (\<lambda>b1.
      bindF (Some (getData M input 64 32)) (\<lambda>b2.
      let minter = vm_BytesToAddress M b0; mnt = big_SetBytes b1; val = big_SetBytes b2
      in if 0 = val then burn ErrMintZeroAmountMNT c ev
         else if big_Uint64 mnt > TOKENIDMAX then run_done [] (Some (GoError ''tokenid > TOKENIDMAX'')) c ev
         else if StateDB_GetChainID (ev_StateDB ev) \<noteq> 0 then burn (GoError ''deploySystemContract chainID should 0'') c ev
         else
           bindF (Some (chain_token (ev_StateDB ev))) (\<lambda>tk.
           if big_Uint64 mnt = tk then burn (GoError ''default token is not mintable'') c ev
           else
             bindF (Some (db_get (Exist (vl_eth V) minter) ev)) (\<lambda>(e, ev).
             let (paid, c) = (if e then (True, c) else UseGas (p_CallNewAccountGas P) c) in
             if \<not> paid then burn ErrOutOfGas c ev
             else if \<not> NON_RESERVED_NATIVE_TOKEN < length (ev_SystemContracts ev) then Some (Inl index_panic)
             else if sc_address (ev_SystemContracts ev ! NON_RESERVED_NATIVE_TOKEN) \<noteq> ct_CallerAddress c
             then burn (GoError ''invalid sender'') c ev
             else
               bindF (Some (db_do (AddBalance (vl_eth V) minter val (big_Uint64 mnt)) ev)) (\<lambda>ev.
               run_done (replicate 31 0 @ [1]) None c ev)))))))"

definition balanceMNT_Run :: "('t, 'd) vm_lib \<Rightarrow> bytes \<Rightarrow> Contract \<Rightarrow> ('t, 'd) EVM \<Rightarrow> ('t, 'd) run_result" where
  "balanceMNT_Run V input c ev =
     (let M = vl_math V in
      bindF (Some (getData M input 0 32)) (\<lambda>b0.
      bindF (Some (getData M input 32 32)) (\<lambda>b1.
      let addr = vm_BytesToAddress M b0; mnt = big_SetBytes b1
      in if big_Uint64 mnt > TOKENIDMAX then run_done [] (Some (GoError ''tokenid > TOKENIDMAX'')) c ev
         else
           bindF (Some (db_get (GetBalance (vl_eth V) addr (big_Uint64 mnt)) ev)) (\<lambda>(b, ev).
           bindF (Some (BigToByte32 b)) (\<lambda>ret. run_done ret None c ev)))))"

text \<open>The method \<open>Run\<close> of the interface; a contract without effects leaves the contract and the machine alone.\<close>

definition run_pure :: "(bytes \<times> go_error option) res \<Rightarrow> Contract \<Rightarrow> ('t, 'd) EVM \<Rightarrow> ('t, 'd) run_result" where
  "run_pure r c ev = bindF (Some r) (\<lambda>(ret, err). run_done ret err c ev)"

fun precompile_Run :: "('t, 'd) vm_lib \<Rightarrow> ('t, 'd) evm_ops \<Rightarrow> PrecompiledContract \<Rightarrow> bytes \<Rightarrow> Contract
    \<Rightarrow> ('t, 'd) EVM \<Rightarrow> ('t, 'd) run_result" where
  "precompile_Run V E ecrecover input c ev = run_pure (ecrecover_Run V input) c ev"
| "precompile_Run V E sha256hash input c ev = run_pure (Inr (sha256hash_Run V input)) c ev"
| "precompile_Run V E ripemd160hash input c ev = run_pure (Inr (ripemd160hash_Run V input)) c ev"
| "precompile_Run V E dataCopy input c ev = run_pure (Inr (dataCopy_Run input)) c ev"
| "precompile_Run V E bigModExp input c ev = run_pure (bigModExp_Run V input) c ev"
| "precompile_Run V E bn256Add input c ev = run_pure (bn256Add_Run V input) c ev"
| "precompile_Run V E bn256ScalarMul input c ev = run_pure (bn256ScalarMul_Run V input) c ev"
| "precompile_Run V E bn256Pairing input c ev = run_pure (Inr (bn256Pairing_Run V input)) c ev"
| "precompile_Run V E currentMntID input c ev = currentMntID_Run input c ev"
| "precompile_Run V E transferMnt input c ev = transferMnt_Run V E input c ev"
| "precompile_Run V E deploySystemContract input c ev = deploySystemContract_Run V E input c ev"
| "precompile_Run V E mintMNT input c ev = mintMNT_Run V input c ev"
| "precompile_Run V E balanceMNT input c ev = balanceMNT_Run V input c ev"

definition RunPrecompiledContract :: "('t, 'd) vm_lib \<Rightarrow> ('t, 'd) evm_ops \<Rightarrow> PrecompiledContract \<Rightarrow> bytes \<Rightarrow> Contract
    \<Rightarrow> ('t, 'd) EVM \<Rightarrow> ('t, 'd) run_result" where
  "RunPrecompiledContract V E p input c ev =
     bindF (Some (RequiredGas V p input)) (\<lambda>gas.
      let (paid, c) = UseGas gas c
      in if paid then precompile_Run V E p input c ev else run_done [] (Some ErrOutOfGas) c ev)"

end
