(* ===== verification/Evm.thy ===== *)
theory Evm
  imports Precompiles
begin

text \<open>
  The instruction tables of \<open>core/vm/jump_table.go\<close>, the interpreter loop of \<open>core/vm/interpreter.go\<close> and
  the calls of \<open>core/vm/evm.go\<close>.

  The recursion between the interpreter and the calls is cut by the argument \<open>E\<close>, the operations that a
  running contract calls. \<open>evm_ops_at n\<close> are the operations with at most \<open>n\<close> nested ones; deeper ones give
  \<open>None\<close>. The loop of one contract has its gas as fuel, since every instruction that does not end the loop
  costs gas. \<open>EvmSafe\<close> shows that neither bound is ever reached.
\<close>

section \<open>Instruction tables\<close>

record ('t, 'd) operation =
  op_execute :: "('t, 'd) executionFunc"
  op_gasCost :: "('t, 'd) gasFunc"
  op_pops :: nat
  op_pushs :: nat
  op_memorySize :: "(stack \<Rightarrow> int res) option"
  op_halts :: bool
  op_jumps :: bool
  op_writes :: bool
  op_reverts :: bool
  op_returns :: bool

text \<open>An operation without flags that accesses no memory; \<open>validateStack\<close> is \<open>makeStackFunc\<close> of the
  numbers of items popped and pushed. A table has an entry for every valid opcode.\<close>

definition oper :: "('t, 'd) executionFunc \<Rightarrow> ('t, 'd) gasFunc \<Rightarrow> nat \<Rightarrow> nat \<Rightarrow> ('t, 'd) operation" where
  "oper ex gas pops pushs =
     \<lparr>op_execute = ex, op_gasCost = gas, op_pops = pops, op_pushs = pushs, op_memorySize = None,
      op_halts = False, op_jumps = False, op_writes = False, op_reverts = False, op_returns = False\<rparr>"

definition plain :: "('t, 'd) instr \<Rightarrow> ('t, 'd) executionFunc" where
  "plain f fr ev = Some (f fr ev)"

definition on_stack :: "(stack \<Rightarrow> stack res) \<Rightarrow> ('t, 'd) executionFunc" where
  "on_stack f = plain (stack_op f)"

definition mem_oper :: "('t, 'd) executionFunc \<Rightarrow> ('t, 'd) gasFunc \<Rightarrow> nat \<Rightarrow> nat \<Rightarrow> (stack \<Rightarrow> int res)
    \<Rightarrow> ('t, 'd) operation" where
  "mem_oper ex gas pops pushs msize = (oper ex gas pops pushs)\<lparr>op_memorySize := Some msize\<rparr>"

definition arith_ops :: "('t, 'd) vm_lib \<Rightarrow> (u8 \<times> ('t, 'd) operation) list" where
  "arith_ops V =
     [(0x00, (oper (plain opStop) (constGasFunc 0) 0 0)\<lparr>op_halts := True\<rparr>),
      (0x01, oper (on_stack (opAdd (vl_math V))) (constGasFunc GasFastestStep) 2 1),
      (0x02, oper (on_stack (opMul (vl_math V))) (constGasFunc GasFastStep) 2 1),
      (0x03, oper (on_stack (opSub (vl_math V))) (constGasFunc GasFastestStep) 2 1),
      (0x04, oper (on_stack (opDiv (vl_math V))) (constGasFunc GasFastStep) 2 1),
      (0x05, oper (on_stack (opSdiv (vl_math V))) (constGasFunc GasFastStep) 2 1),
      (0x06, oper (on_stack (opMod (vl_math V))) (constGasFunc GasFastStep) 2 1),
      (0x07, oper (on_stack (opSmod (vl_math V))) (constGasFunc GasFastStep) 2 1),
      (0x08, oper (on_stack (opAddmod (vl_math V))) (constGasFunc GasMidStep) 3 1),
      (0x09, oper (on_stack (opMulmod (vl_math V))) (constGasFunc GasMidStep) 3 1),
      (0x0A, oper (on_stack (opExp (vl_math V))) (gasExp V) 2 1),
      (0x0B, oper (on_stack (opSignExtend (vl_math V))) (constGasFunc GasFastStep) 2 1),
      (0x10, oper (on_stack opLt) (constGasFunc GasFastestStep) 2 1),
      (0x11, oper (on_stack opGt) (constGasFunc GasFastestStep) 2 1),
      (0x12, oper (on_stack opSlt) (constGasFunc GasFastestStep) 2 1),
      (0x13, oper (on_stack opSgt) (constGasFunc GasFastestStep) 2 1),
      (0x14, oper (on_stack opEq) (constGasFunc GasFastestStep) 2 1),
      (0x15, oper (on_stack opIszero) (constGasFunc GasFastestStep) 1 1),
      (0x16, oper (on_stack opAnd) (constGasFunc GasFastestStep) 2 1),
      (0x18, oper (on_stack opXor) (constGasFunc GasFastestStep) 2 1),
      (0x17, oper (on_stack opOr) (constGasFunc GasFastestStep) 2 1),
      (0x19, oper (on_stack (opNot (vl_math V))) (constGasFunc GasFastestStep) 1 1),
      (0x1A, oper (on_stack (opByte (vl_math V))) (constGasFunc GasFastestStep) 2 1)]"

definition env_ops :: "('t, 'd) vm_lib \<Rightarrow> (u8 \<times> ('t, 'd) operation) list" where
  "env_ops V =
     [(0x20, mem_oper (plain (opSha3 V)) (gasSha3 V) 2 1 memorySha3),
      (0x30, oper (plain opAddress) (constGasFunc GasQuickStep) 0 1),
      (0x31, oper (plain (opBalance V)) (gasBalance V) 1 1),
      (0x32, oper (plain opOrigin) (constGasFunc GasQuickStep) 0 1),
      (0x33, oper (plain opCaller) (constGasFunc GasQuickStep) 0 1),
      (0x34, oper (plain opCallValue) (constGasFunc GasQuickStep) 0 1),
      (0x35, oper (plain (opCallDataLoad V)) (constGasFunc GasFastestStep) 1 1),
      (0x36, oper (plain opCallDataSize) (constGasFunc GasQuickStep) 0 1),
      (0x37, mem_oper (plain (opCallDataCopy V)) (gasCallDataCopy V) 3 0 memoryCallDataCopy),
      (0x38, oper (plain opCodeSize) (constGasFunc GasQuickStep) 0 1),
      (0x39, mem_oper (plain (opCodeCopy V)) (gasCodeCopy V) 3 0 memoryCodeCopy),
      (0x3A, oper (plain opGasprice) (constGasFunc GasQuickStep) 0 1),
      (0x3B, oper (plain (opExtCodeSize V)) (gasExtCodeSize V) 1 1),
      (0x3C, mem_oper (plain (opExtCodeCopy V)) (gasExtCodeCopy V) 4 0 memoryExtCodeCopy),
      (0x40, oper (plain opBlockhash) (constGasFunc GasExtStep) 1 1),
      (0x41, oper (plain opCoinbase) (constGasFunc GasQuickStep) 0 1),
      (0x42, oper (plain (opTimestamp V)) (constGasFunc GasQuickStep) 0 1),
      (0x43, oper (plain (opNumber V)) (constGasFunc GasQuickStep) 0 1),
      (0x44, oper (plain (opDifficulty V)) (constGasFunc GasQuickStep) 0 1),
      (0x45, oper (plain (opGasLimit V)) (constGasFunc GasQuickStep) 0 1)]"

definition store_ops :: "('t, 'd) vm_lib \<Rightarrow> (u8 \<times> ('t, 'd) operation) list" where
  "store_ops V =
     [(0x50, oper (on_stack opPop) (constGasFunc GasQuickStep) 1 0),
      (0x51, mem_oper (plain opMload) (gasMLoad V) 1 1 memoryMLoad),
      (0x52, mem_oper (plain (opMstore V)) (gasMStore V) 2 0 memoryMStore),
      (0x53, mem_oper (plain opMstore8) (gasMStore8 V) 2 0 memoryMStore8),
      (0x54, oper (plain (opSload V)) (gasSLoad V) 1 1),
      (0x55, (oper (plain (opSstore V)) (gasSStore V) 2 0)\<lparr>op_writes := True\<rparr>),
      (0x56, (oper (plain opJump) (constGasFunc GasMidStep) 1 0)\<lparr>op_jumps := True\<rparr>),
      (0x57, (oper (plain opJumpi) (constGasFunc GasSlowStep) 2 0)\<lparr>op_jumps := True\<rparr>),
      (0x58, oper (plain opPc) (constGasFunc GasQuickStep) 0 1),
      (0x59, oper (plain opMsize) (constGasFunc GasQuickStep) 0 1),
      (0x5A, oper (plain opGas) (constGasFunc GasQuickStep) 0 1),
      (0x5B, oper (plain opJumpdest) (constGasFunc (p_JumpdestGas (vl_params V))) 0 0)]"

definition push_ops :: "('t, 'd) vm_lib \<Rightarrow> (u8 \<times> ('t, 'd) operation) list" where
  "push_ops V = map (\<lambda>n. (0x5F + of_nat n, oper (plain (makePush V n)) gasPush 0 1)) [1..<33]"

definition dup_ops :: "(u8 \<times> ('t, 'd) operation) list" where
  "dup_ops = map (\<lambda>n. (0x7F + of_nat n, oper (on_stack (makeDup n)) gasDup n (n + 1))) [1..<17]"

definition swap_ops :: "(u8 \<times> ('t, 'd) operation) list" where
  "swap_ops = map (\<lambda>n. (0x8F + of_nat n, oper (on_stack (makeSwap n)) gasSwap (n + 1) (n + 1))) [1..<17]"

definition log_ops :: "('t, 'd) vm_lib \<Rightarrow> (u8 \<times> ('t, 'd) operation) list" where
  "log_ops V =
     map (\<lambda>n. (0xA0 + of_nat n, (mem_oper (plain (makeLog V n)) (makeGasLog V (of_nat n)) (n + 2) 0 memoryLog)\<lparr>op_writes := True\<rparr>))
       [0..<5]"

definition close_ops :: "('t, 'd) vm_lib \<Rightarrow> ('t, 'd) evm_ops \<Rightarrow> (u8 \<times> ('t, 'd) operation) list" where
  "close_ops V E =
     [(0xF0, (mem_oper (opCreate V E) (gasCreate V) 3 1 memoryCreate)\<lparr>op_writes := True, op_returns := True\<rparr>),
      (0xF1, (mem_oper (opCall V E) (gasCall V) 7 1 (memoryCall (vl_math V)))\<lparr>op_returns := True\<rparr>),
      (0xF2, (mem_oper (opCallCode V E) (gasCallCode V) 7 1 (memoryCall (vl_math V)))\<lparr>op_returns := True\<rparr>),
      (0xF3, (mem_oper (plain opReturn) (gasReturn V) 2 0 memoryReturn)\<lparr>op_halts := True\<rparr>),
      (0xFF, (oper (plain (opSuicide V)) (gasSuicide V) 1 0)\<lparr>op_halts := True, op_writes := True\<rparr>)]"

definition newFrontierInstructionSet :: "('t, 'd) vm_lib \<Rightarrow> ('t, 'd) evm_ops \<Rightarrow> (u8 \<times> ('t, 'd) operation) list" where
  "newFrontierInstructionSet V E =
     arith_ops V @ env_ops V @ store_ops V @ push_ops V @ dup_ops @ swap_ops @ log_ops V @ close_ops V E"

definition newHomesteadInstructionSet :: "('t, 'd) vm_lib \<Rightarrow> ('t, 'd) evm_ops \<Rightarrow> (u8 \<times> ('t, 'd) operation) list" where
  "newHomesteadInstructionSet V E =
     (0xF4, (mem_oper (opDelegateCall V E) (gasDelegateCall V) 6 1 (memoryDelegateCall (vl_math V)))\<lparr>op_returns := True\<rparr>)
     # newFrontierInstructionSet V E"

definition newByzantiumInstructionSet :: "('t, 'd) vm_lib \<Rightarrow> ('t, 'd) evm_ops \<Rightarrow> (u8 \<times> ('t, 'd) operation) list" where
  "newByzantiumInstructionSet V E =
     (0xFA, (mem_oper (opStaticCall V E) (gasStaticCall V) 6 1 (memoryStaticCall (vl_math V)))\<lparr>op_returns := True\<rparr>)
     # (0x3D, oper (plain opReturnDataSize) (constGasFunc GasQuickStep) 0 1)
     # (0x3E, mem_oper (plain opReturnDataCopy) (gasReturnDataCopy V) 3 0 memoryReturnDataCopy)
     # (0xFD, (mem_oper (plain opRevert) (gasRevert V) 2 0 memoryRevert)\<lparr>op_reverts := True, op_returns := True\<rparr>)
     # newHomesteadInstructionSet V E"

definition newConstantinopleInstructionSet :: "('t, 'd) vm_lib \<Rightarrow> ('t, 'd) evm_ops \<Rightarrow> (u8 \<times> ('t, 'd) operation) list" where
  "newConstantinopleInstructionSet V E =
     (0x1B, oper (on_stack (opSHL (vl_math V))) (constGasFunc GasFastestStep) 2 1)
     # (0x1C, oper (on_stack (opSHR (vl_math V))) (constGasFunc GasFastestStep) 2 1)
     # (0x1D, oper (on_stack (opSAR (vl_math V))) (constGasFunc GasFastestStep) 2 1)
     # (0x3F, oper (plain (opExtCodeHash V)) (gasExtCodeHash V) 1 1)
     # (0xF5, (mem_oper (opCreate2 E) (gasCreate2 V) 4 1 memoryCreate2)\<lparr>op_writes := True, op_returns := True\<rparr>)
     # newByzantiumInstructionSet V E"

text \<open>The table that \<open>NewEVMInterpreter\<close> chooses.\<close>

definition JumpTable :: "('t, 'd) vm_lib \<Rightarrow> ('t, 'd) evm_ops \<Rightarrow> (u8 \<times> ('t, 'd) operation) list" where
  "JumpTable V E =
     (if IsConstantinople (vl_rules V) then newConstantinopleInstructionSet V E
      else if IsByzantium (vl_rules V) then newByzantiumInstructionSet V E
      else if IsHomestead (vl_rules V) then newHomesteadInstructionSet V E
      else newFrontierInstructionSet V E)"

section \<open>The interpreter\<close>

definition enforceRestrictions :: "('t, 'd) vm_lib \<Rightarrow> u8 \<Rightarrow> ('t, 'd) operation \<Rightarrow> stack \<Rightarrow> ('t, 'd) EVM
    \<Rightarrow> go_error option res" where
  "enforceRestrictions V opc operation st ev =
     (if IsByzantium (vl_rules V) \<and> ev_readOnly ev then
        if op_writes operation then Inr (Some errWriteProtection)
        else if opc = 0xF1 then
          bind_res (Back st 2) (\<lambda>v. Inr (if big_BitLen v > 0 then Some errWriteProtection else None))
        else Inr None
      else Inr None)"

text \<open>The size of the memory after an operation: \<open>Inr (Inl e)\<close> when it does not fit into 64 bits.\<close>

definition memory_size :: "('t, 'd) vm_lib \<Rightarrow> ('t, 'd) operation \<Rightarrow> stack \<Rightarrow> u64 res res" where
  "memory_size V operation st =
     (case op_memorySize operation of
        None \<Rightarrow> Inr (Inr 0)
      | Some f \<Rightarrow>
          bind_res (f st) (\<lambda>m.
            let (memSize, overflow) = bigUint64 m in
            if overflow then Inr (Inl errGasUintOverflow)
            else let (sz, overflow) = SafeMul (vl_math V) (toWordSize memSize) 32
                 in Inr (if overflow then Inl errGasUintOverflow else Inr sz)))"

datatype ('t, 'd) step = Done bytes "go_error option" frame "('t, 'd) EVM" | Next frame "('t, 'd) EVM"

text \<open>The execution of an operation whose gas has been paid, and what the loop does with its result.\<close>

definition execute_step :: "('t, 'd) operation \<Rightarrow> frame \<Rightarrow> ('t, 'd) EVM \<Rightarrow> ('t, 'd) step res option" where
  "execute_step operation fr ev =
     bindF (op_execute operation fr ev) (\<lambda>((res, err), fr, ev).
       let ev = (if op_returns operation then ev\<lparr>ev_returnData := res\<rparr> else ev) in
       Some (Inr (if err \<noteq> None then Done [] err fr ev
                  else if op_reverts operation then Done res (Some errExecutionReverted) fr ev
                  else if op_halts operation then Done res None fr ev
                  else if \<not> op_jumps operation then Next (fr\<lparr>fr_pc := fr_pc fr + 1\<rparr>) ev
                  else Next fr ev)))"

text \<open>Charging for an operation.\<close>

definition charge_step :: "('t, 'd) vm_lib \<Rightarrow> ('t, 'd) operation \<Rightarrow> u64 \<Rightarrow> frame \<Rightarrow> ('t, 'd) EVM
    \<Rightarrow> ('t, 'd) step res option" where
  "charge_step V operation memorySize fr ev =
     bindF (Some (op_gasCost operation fr memorySize ev)) (\<lambda>(cost, fr, ev).
       case cost of
         Inl e \<Rightarrow> Some (Inr (Done [] (Some ErrOutOfGas) fr ev))
       | Inr cost \<Rightarrow>
           let (paid, c) = UseGas cost (fr_contract fr) in
           if \<not> paid then Some (Inr (Done [] (Some ErrOutOfGas) fr ev))
           else execute_step operation (fr\<lparr>fr_contract := c,
                  fr_mem := if memorySize > 0 then mem_Resize memorySize (fr_mem fr) else fr_mem fr\<rparr>) ev)"

definition run_step :: "('t, 'd) vm_lib \<Rightarrow> ('t, 'd) evm_ops \<Rightarrow> frame \<Rightarrow> ('t, 'd) EVM \<Rightarrow> ('t, 'd) step res option" where
  "run_step V E fr ev =
     (let opc = GetOp (fr_contract fr) (fr_pc fr); st = fr_stack fr in
      case map_of (JumpTable V E) opc of
        None \<Rightarrow> Some (Inr (Done [] (Some (GoError ''invalid opcode'')) fr ev))
      | Some operation \<Rightarrow>
          (case makeStackFunc (vl_params V) (op_pops operation) (op_pushs operation) st of
             Some err \<Rightarrow> Some (Inr (Done [] (Some err) fr ev))
           | None \<Rightarrow>
               bindF (Some (enforceRestrictions V opc operation st ev)) (\<lambda>restr.
               case restr of
                 Some err \<Rightarrow> Some (Inr (Done [] (Some err) fr ev))
               | None \<Rightarrow>
                   bindF (Some (memory_size V operation st)) (\<lambda>msize.
                   case msize of
                     Inl e \<Rightarrow> Some (Inr (Done [] (Some e) fr ev))
                   | Inr memorySize \<Rightarrow> charge_step V operation memorySize fr ev))))"

fun run_loop :: "('t, 'd) vm_lib \<Rightarrow> ('t, 'd) evm_ops \<Rightarrow> nat \<Rightarrow> frame \<Rightarrow> ('t, 'd) EVM \<Rightarrow> ('t, 'd) run_result" where
  "run_loop V E 0 fr ev = None"
| "run_loop V E (Suc n) fr ev =
     (if ev_abort ev then run_done [] None (fr_contract fr) ev
      else bindF (run_step V E fr ev) (\<lambda>s.
             case s of
               Done ret err fr ev \<Rightarrow> run_done ret err (fr_contract fr) ev
             | Next fr ev \<Rightarrow> run_loop V E n fr ev))"

text \<open>The deferred functions of \<open>Run\<close>.\<close>

definition leave_run :: "bool \<Rightarrow> ('t, 'd) EVM \<Rightarrow> ('t, 'd) EVM" where
  "leave_run reset ev =
     ev\<lparr>ev_depth := ev_depth ev - 1, ev_readOnly := (if reset then False else ev_readOnly ev)\<rparr>"

definition Interpreter_Run :: "('t, 'd) vm_lib \<Rightarrow> ('t, 'd) evm_ops \<Rightarrow> Contract \<Rightarrow> bytes \<Rightarrow> bool \<Rightarrow> ('t, 'd) EVM
    \<Rightarrow> ('t, 'd) run_result" where
  "Interpreter_Run V E c input readOnly ev =
     (let reset = (readOnly \<and> \<not> ev_readOnly ev);
          ev = ev\<lparr>ev_depth := ev_depth ev + 1, ev_readOnly := (if reset then True else ev_readOnly ev),
                  ev_returnData := []\<rparr>
      in if length (ct_Code c) = 0 then run_done [] None c (leave_run reset ev)
         else bindF (run_loop V E (Suc (unat (ct_Gas c)))
                \<lparr>fr_pc = 0, fr_contract = c\<lparr>ct_Input := input\<rparr>, fr_mem = NewMemory, fr_stack = []\<rparr> ev)
                (\<lambda>((ret, err), c, ev). run_done ret err c (leave_run reset ev)))"

definition run :: "('t, 'd) vm_lib \<Rightarrow> ('t, 'd) evm_ops \<Rightarrow> Contract \<Rightarrow> bytes \<Rightarrow> bool \<Rightarrow> ('t, 'd) EVM
    \<Rightarrow> ('t, 'd) run_result" where
  "run V E c input readOnly ev =
     (case ct_CodeAddr c of
        None \<Rightarrow> Interpreter_Run V E c input readOnly ev
      | Some a \<Rightarrow>
          (case map_of PrecompiledContractsByzantium a of
             None \<Rightarrow> Interpreter_Run V E c input readOnly ev
           | Some p \<Rightarrow>
               if sdb_timeStamp (ev_StateDB ev) > ev_enableTime ev a then RunPrecompiledContract V E p input c ev
               else Interpreter_Run V E c input readOnly ev))"

section \<open>Calls\<close>

definition call_done :: "bytes \<Rightarrow> u64 \<Rightarrow> go_error option \<Rightarrow> ('t, 'd) EVM \<Rightarrow> ('t, 'd) call_result" where
  "call_done ret gas err ev = Some (Inr ((ret, gas, err), ev))"

text \<open>A new contract at the address \<open>object\<close> with the code of \<open>addr\<close>.\<close>

definition call_contract :: "('t, 'd) vm_lib \<Rightarrow> ContractRef \<Rightarrow> recipient \<Rightarrow> recipient \<Rightarrow> int \<Rightarrow> u64 \<Rightarrow> ('t, 'd) EVM
    \<Rightarrow> (Contract \<times> ('t, 'd) EVM) res" where
  "call_contract V caller object addr val gas ev =
     (let (c, maps) = NewContract caller object val gas (ev_jumpdests ev); ev = ev\<lparr>ev_jumpdests := maps\<rparr>
      in bind_res (db_get (GetCodeHash (vl_eth V) addr) ev) (\<lambda>(h, ev).
         bind_res (db_get (GetCode (vl_eth V) addr) ev) (\<lambda>(code, ev).
           Inr (SetCallCode addr h (code_bytes code) c, ev))))"

text \<open>The end of the four calls: running the contract, the check for a queried token id, and on an error
  the return to the snapshot and the loss of the gas.\<close>

definition revert_on_error :: "('t, 'd) vm_lib \<Rightarrow> nat \<Rightarrow> bytes \<Rightarrow> go_error option \<Rightarrow> Contract \<Rightarrow> ('t, 'd) EVM
    \<Rightarrow> ('t, 'd) call_result" where
  "revert_on_error V snapshot ret err c ev =
     (if err \<noteq> None then
        bindF (Some (db_do (RevertToSnapshot (vl_eth V) snapshot) ev)) (\<lambda>ev.
          let c = (if err \<noteq> Some errExecutionReverted then snd (UseGas (ct_Gas c) c) else c)
          in call_done ret (ct_Gas c) err ev)
      else call_done ret (ct_Gas c) err ev)"

definition run_call :: "('t, 'd) vm_lib \<Rightarrow> ('t, 'd) evm_ops \<Rightarrow> nat \<Rightarrow> Contract \<Rightarrow> bytes \<Rightarrow> bool \<Rightarrow> ('t, 'd) EVM
    \<Rightarrow> ('t, 'd) call_result" where
  "run_call V E snapshot c input readOnly ev =
     bindF (run V E c input readOnly ev) (\<lambda>((ret, err), c, ev).
     bindF (Some (chain_token (ev_StateDB ev))) (\<lambda>tk.
       revert_on_error V snapshot ret (checkTokenIDQueried err c (ev_TransferTokenID ev) tk) c ev))"

definition take_snapshot :: "('t, 'd) EVM \<Rightarrow> nat \<times> ('t, 'd) EVM" where
  "take_snapshot ev = (let (i, s) = Snapshot (ev_StateDB ev) in (i, with_db ev s))"

definition evm_Call :: "('t, 'd) vm_lib \<Rightarrow> ('t, 'd) evm_ops \<Rightarrow> ContractRef \<Rightarrow> recipient \<Rightarrow> bytes \<Rightarrow> u64 \<Rightarrow> int
    \<Rightarrow> ('t, 'd) EVM \<Rightarrow> ('t, 'd) call_result" where
  "evm_Call V E caller addr input gas val ev =
     (let L = vl_eth V; from = ref_Address caller in
      if ev_NoRecursion ev \<and> ev_depth ev > 0 then call_done [] gas None ev
      else if ev_depth ev > p_CallCreateDepth (vl_params V) then call_done [] gas (Some ErrDepth) ev
      else
        bindF (Some (db_get (CanTransfer L from val (ev_TransferTokenID ev)) ev)) (\<lambda>(can, ev).
        if \<not> can then call_done [] gas (Some ErrInsufficientBalance) ev
        else
          bindF (Some (db_get (TransferFailureByPoswBalanceCheck L from val) ev)) (\<lambda>(posw, ev).
          if posw then call_done [] 0 (Some ErrPoSWSenderNotAllowed) ev
          else
            let (snapshot, ev) = take_snapshot ev in
            bindF (Some (db_get (Exist L addr) ev)) (\<lambda>(ex, ev).
            if \<not> ex \<and> map_of (if IsByzantium (vl_rules V) then PrecompiledContractsByzantium
                                 else PrecompiledContractsHomestead) addr = None
               \<and> IsEIP158 (vl_rules V) \<and> big_Sign val = 0
            then call_done [] gas None ev
            else
              bindF (Some (if \<not> ex then db_do (CreateAccount L addr) ev else Inr ev)) (\<lambda>ev.
              bindF (Some (db_do (Transfer L from addr val (ev_TransferTokenID ev)) ev)) (\<lambda>ev.
              bindF (Some (call_contract V caller addr addr val gas ev)) (\<lambda>(c, ev).
                run_call V E snapshot c input False ev)))))))"

definition evm_CallCode :: "('t, 'd) vm_lib \<Rightarrow> ('t, 'd) evm_ops \<Rightarrow> ContractRef \<Rightarrow> recipient \<Rightarrow> bytes \<Rightarrow> u64 \<Rightarrow> int
    \<Rightarrow> ('t, 'd) EVM \<Rightarrow> ('t, 'd) call_result" where
  "evm_CallCode V E caller addr input gas val ev =
     (let L = vl_eth V; from = ref_Address caller in
      if ev_NoRecursion ev \<and> ev_depth ev > 0 then call_done [] gas None ev
      else if ev_depth ev > p_CallCreateDepth (vl_params V) then call_done [] gas (Some ErrDepth) ev
      else
        bindF (Some (db_get (CanTransfer L from val (ev_TransferTokenID ev)) ev)) (\<lambda>(can, ev).
        if \<not> can then call_done [] gas (Some ErrInsufficientBalance) ev
        else
          bindF (Some (db_get (TransferFailureByPoswBalanceCheck L from val) ev)) (\<lambda>(posw, ev).
          if posw then call_done [] 0 (Some ErrPoSWSenderNotAllowed) ev
          else
            let (snapshot, ev) = take_snapshot ev in
            bindF (Some (call_contract V caller from addr val gas ev)) (\<lambda>(c, ev).
              run_call V E snapshot c input False ev))))"

definition evm_DelegateCall :: "('t, 'd) vm_lib \<Rightarrow> ('t, 'd) evm_ops \<Rightarrow> ContractRef \<Rightarrow> recipient \<Rightarrow> bytes \<Rightarrow> u64
    \<Rightarrow> ('t, 'd) EVM \<Rightarrow> ('t, 'd) call_result" where
  "evm_DelegateCall V E caller addr input gas ev =
     (let L = vl_eth V; from = ref_Address caller in
      if ev_NoRecursion ev \<and> ev_depth ev > 0 then call_done [] gas None ev
      else if ev_depth ev > p_CallCreateDepth (vl_params V) then call_done [] gas (Some ErrDepth) ev
      else
        let (snapshot, ev) = take_snapshot ev in
        bindF (Some (bind_res (AsDelegate (fst (NewContract caller from 0 gas (ev_jumpdests ev)))) (\<lambda>d.
                 bind_res (call_contract V caller from addr 0 gas ev) (\<lambda>(c, ev).
                   Inr (c\<lparr>ct_CallerAddress := ct_CallerAddress d, ct_value := ct_value d\<rparr>, ev))))) (\<lambda>(c, ev).
        bindF (Some (db_get (TransferFailureByPoswBalanceCheck L from (ct_value c)) ev)) (\<lambda>(posw, ev).
        if posw then call_done [] 0 (Some ErrPoSWSenderNotAllowed) ev
        else run_call V E snapshot c input False ev)))"

definition evm_StaticCall :: "('t, 'd) vm_lib \<Rightarrow> ('t, 'd) evm_ops \<Rightarrow> ContractRef \<Rightarrow> recipient \<Rightarrow> bytes \<Rightarrow> u64
    \<Rightarrow> ('t, 'd) EVM \<Rightarrow> ('t, 'd) call_result" where
  "evm_StaticCall V E caller addr input gas ev =
     (let L = vl_eth V; from = ref_Address caller in
      if ev_NoRecursion ev \<and> ev_depth ev > 0 then call_done [] gas None ev
      else if ev_depth ev > p_CallCreateDepth (vl_params V) then call_done [] gas (Some ErrDepth) ev
      else
        let (snapshot, ev) = take_snapshot ev in
        bindF (Some (call_contract V caller addr addr 0 gas ev)) (\<lambda>(c, ev).
        let c = c\<lparr>ct_IsStaticCall := True\<rparr> in
        bindF (Some (db_get (TransferFailureByPoswBalanceCheck L from (ct_value c)) ev)) (\<lambda>(posw, ev).
        if posw then call_done [] 0 (Some ErrPoSWSenderNotAllowed) ev
        else
          bindF (Some (chain_token (ev_StateDB ev))) (\<lambda>tk.
          bindF (Some (db_do (AddBalance L addr 0 tk) ev)) (\<lambda>ev.
            run_call V E snapshot c input True ev)))))"

section \<open>Contract creation\<close>

definition create_done :: "bytes \<Rightarrow> recipient \<Rightarrow> u64 \<Rightarrow> go_error option \<Rightarrow> ('t, 'd) EVM \<Rightarrow> ('t, 'd) create_result" where
  "create_done ret addr gas err ev = Some (Inr ((ret, addr, gas, err), ev))"

definition emptyCodeHash :: "('t, 'd) vm_lib \<Rightarrow> hash" where
  "emptyCodeHash V = lib_Keccak256 (vl_eth V) []"

text \<open>Storing the code that the constructor returned, and the end of \<open>create\<close>.\<close>

definition store_code :: "('t, 'd) vm_lib \<Rightarrow> recipient \<Rightarrow> bytes \<Rightarrow> Contract \<Rightarrow> ('t, 'd) EVM
    \<Rightarrow> (go_error option \<times> Contract \<times> ('t, 'd) EVM) res" where
  "store_code V address ret c ev =
     (let (paid, c) = UseGas (len64 ret * p_CreateDataGas (vl_params V)) c
      in if paid then
           bind_res (db_do (SetCode (vl_eth V) address (if ret = [] then None else Some ret)) ev) (\<lambda>ev. Inr (None, c, ev))
         else Inr (Some ErrCodeStoreOutOfGas, c, ev))"

definition finish_create :: "('t, 'd) vm_lib \<Rightarrow> nat \<Rightarrow> recipient \<Rightarrow> bytes \<Rightarrow> go_error option \<Rightarrow> Contract \<Rightarrow> ('t, 'd) EVM
    \<Rightarrow> ('t, 'd) create_result" where
  "finish_create V snapshot address ret err c ev =
     (let maxCodeSizeExceeded = (IsEIP158 (vl_rules V) \<and> length ret > p_MaxCodeSize (vl_params V)) in
      bindF (Some (if err = None \<and> \<not> maxCodeSizeExceeded then store_code V address ret c ev else Inr (err, c, ev)))
        (\<lambda>(err, c, ev).
           let err' = (if maxCodeSizeExceeded \<and> err = None then Some errMaxCodeSizeExceeded else err) in
           if maxCodeSizeExceeded \<or> (err \<noteq> None \<and> (IsHomestead (vl_rules V) \<or> err \<noteq> Some ErrCodeStoreOutOfGas)) then
             bindF (Some (db_do (RevertToSnapshot (vl_eth V) snapshot) ev)) (\<lambda>ev.
               let c = (if err \<noteq> Some errExecutionReverted then snd (UseGas (ct_Gas c) c) else c)
               in create_done ret address (ct_Gas c) err' ev)
           else create_done ret address (ct_Gas c) err' ev))"

definition evm_create :: "('t, 'd) vm_lib \<Rightarrow> ('t, 'd) evm_ops \<Rightarrow> ContractRef \<Rightarrow> bytes \<Rightarrow> hash \<Rightarrow> u64 \<Rightarrow> int \<Rightarrow> recipient
    \<Rightarrow> ('t, 'd) EVM \<Rightarrow> ('t, 'd) create_result" where
  "evm_create V E caller code codehash gas val address ev =
     (let L = vl_eth V; from = ref_Address caller in
      if ev_depth ev > p_CallCreateDepth (vl_params V) then create_done [] 0 gas (Some ErrDepth) ev
      else
        bindF (Some (db_get (CanTransfer L from val (ev_TransferTokenID ev)) ev)) (\<lambda>(can, ev).
        if \<not> can then create_done [] 0 gas (Some ErrInsufficientBalance) ev
        else
          bindF (Some (if \<not> cx_IsApplyXShard (ev_Context ev) \<or> cx_Origin (ev_Context ev) \<noteq> from then
                   bind_res (db_get (GetNonce L from) ev) (\<lambda>(nonce, ev). db_do (SetNonce L from (nonce + 1)) ev)
                 else Inr ev)) (\<lambda>ev.
          bindF (Some (chain_token (ev_StateDB ev))) (\<lambda>tk.
          if ev_TransferTokenID ev \<noteq> tk
          then create_done [] 0 gas (Some (GoError ''evm:create only support defalut token id'')) ev
          else
            bindF (Some (db_get (GetCodeHash L address) ev)) (\<lambda>(contractHash, ev).
            bindF (Some (db_get (GetNonce L address) ev)) (\<lambda>(nonce, ev).
            if nonce \<noteq> 0 \<or> (contractHash \<noteq> 0 \<and> contractHash \<noteq> emptyCodeHash V)
            then create_done [] 0 0 (Some ErrContractAddressCollision) ev
            else
              bindF (Some (db_get (TransferFailureByPoswBalanceCheck L from val) ev)) (\<lambda>(posw, ev).
              if posw then create_done [] 0 0 (Some ErrPoSWSenderNotAllowed) ev
              else
                let (snapshot, ev) = take_snapshot ev in
                bindF (Some (db_do (CreateAccount L address) ev)) (\<lambda>ev.
                bindF (Some (db_do (SetNonce L address 1) ev)) (\<lambda>ev.
                bindF (Some (db_do (Transfer L from address val (ev_TransferTokenID ev)) ev)) (\<lambda>ev.
                let (c, maps) = NewContract caller address val gas (ev_jumpdests ev);
                    ev = ev\<lparr>ev_jumpdests := maps\<rparr>;
                    c = SetCodeOptionalHash address code codehash c
                in if ev_NoRecursion ev \<and> ev_depth ev > 0 then create_done [] address gas None ev
                   else
                     bindF (run V E c [] False ev) (\<lambda>((ret, err), c, ev).
                     bindF (Some (chain_token (ev_StateDB ev))) (\<lambda>tk.
                       finish_create V snapshot address ret
                         (checkTokenIDQueried err c (ev_TransferTokenID ev) tk) c ev))))))))))))"

definition CreateAddress :: "('t, 'd) vm_lib \<Rightarrow> recipient \<Rightarrow> u32 option \<Rightarrow> u64 \<Rightarrow> recipient" where
  "CreateAddress V b fullShardKey nonce =
     vm_BytesToAddress (vl_math V)
       (drop 12 (hash_bytes32 (lib_Keccak256 (vl_eth V) (rlp_EncodeCreate (vl_crypto V) b fullShardKey nonce))))"

definition evm_Create :: "('t, 'd) vm_lib \<Rightarrow> ('t, 'd) evm_ops \<Rightarrow> ContractRef \<Rightarrow> bytes \<Rightarrow> u64 \<Rightarrow> int \<Rightarrow> recipient option
    \<Rightarrow> ('t, 'd) EVM \<Rightarrow> ('t, 'd) create_result" where
  "evm_Create V E caller code gas val contractRecipient ev =
     (case contractRecipient of
        Some a \<Rightarrow> evm_create V E caller code 0 gas val a ev
      | None \<Rightarrow>
          bindF (Some (db_get (GetNonce (vl_eth V) (ref_Address caller)) ev)) (\<lambda>(nonce, ev).
            evm_create V E caller code 0 gas val
              (CreateAddress V (ref_Address caller) (cx_ToFullShardKey (ev_Context ev)) nonce) ev))"

definition evm_Create2 :: "('t, 'd) vm_lib \<Rightarrow> ('t, 'd) evm_ops \<Rightarrow> ContractRef \<Rightarrow> bytes \<Rightarrow> u64 \<Rightarrow> int \<Rightarrow> int
    \<Rightarrow> ('t, 'd) EVM \<Rightarrow> ('t, 'd) create_result" where
  "evm_Create2 V E caller code gas endowment salt ev =
     (let h = lib_Keccak256 (vl_eth V) code;
          a = crypto_CreateAddress2 (vl_crypto V) (ref_Address caller) (BigToHash (vl_math V) salt) (hash_bytes32 h)
      in evm_create V E caller code h gas endowment a ev)"

section \<open>Tying the knot\<close>

definition no_ops :: "('t, 'd) evm_ops" where
  "no_ops = \<lparr>eo_Call = (\<lambda>c a i g v ev. None), eo_CallCode = (\<lambda>c a i g v ev. None),
     eo_DelegateCall = (\<lambda>c a i g ev. None), eo_StaticCall = (\<lambda>c a i g ev. None),
     eo_Create = (\<lambda>c b g v r ev. None), eo_Create2 = (\<lambda>c b g v s ev. None)\<rparr>"

definition ops_over :: "('t, 'd) vm_lib \<Rightarrow> ('t, 'd) evm_ops \<Rightarrow> ('t, 'd) evm_ops" where
  "ops_over V E = \<lparr>eo_Call = evm_Call V E, eo_CallCode = evm_CallCode V E, eo_DelegateCall = evm_DelegateCall V E,
     eo_StaticCall = evm_StaticCall V E, eo_Create = evm_Create V E, eo_Create2 = evm_Create2 V E\<rparr>"

primrec evm_ops_at :: "('t, 'd) vm_lib \<Rightarrow> nat \<Rightarrow> ('t, 'd) evm_ops" where
  "evm_ops_at V 0 = no_ops"
| "evm_ops_at V (Suc n) = ops_over V (evm_ops_at V n)"

text \<open>The operations of the virtual machine: at each of the call depths up to the limit at most three
  operations nest without a new interpreter run, two of them in precompiled contracts.\<close>

definition evm_fuel :: "('t, 'd) vm_lib \<Rightarrow> nat" where
  "evm_fuel V = 3 * (p_CallCreateDepth (vl_params V) + 2)"

definition EVM_ops :: "('t, 'd) vm_lib \<Rightarrow> ('t, 'd) evm_ops" where
  "EVM_ops V = evm_ops_at V (evm_fuel V)"

end
