(* ===== verification/EvmRel.thy ===== *)
theory EvmRel
  imports Evm
begin

text \<open>
  What an execution does to the machine and the state database: the relation \<open>grows\<close> says that a state
  develops by journalled operations only, so that every snapshot taken before can still be restored, and
  \<open>ev_rel\<close> that a machine keeps its context, depth and flags while its state develops. Every operation on the
  state that the interpreter uses has this property.
\<close>

section \<open>States that develop by journalled operations\<close>

definition grows :: "('t, 'd) eth_lib \<Rightarrow> ('t, 'd) StateDB \<Rightarrow> ('t, 'd) StateDB \<Rightarrow> bool" where
  "grows L s s' \<longleftrightarrow> (state_ok L s \<longrightarrow> revs_ok s \<longrightarrow>
     jrn.extends L s s' \<and> state_ok L s' \<and> revs_ok s' \<and>
     (\<exists>rs. sdb_validRevisions s' = sdb_validRevisions s @ rs) \<and> sdb_nextRevisionId s \<le> sdb_nextRevisionId s')"

lemma grows_good: "(state_ok L s \<Longrightarrow> good L s s') \<Longrightarrow> grows L s s'"
  using revs_ok_good [of s L s'] by (auto simp: grows_def good_def)

lemma grows_refl [simp]: "grows L s s"
  by (rule grows_good) (rule good_refl)

lemma grows_trans: "grows L s t \<Longrightarrow> grows L t u \<Longrightarrow> grows L s u"
  unfolding grows_def using jrn.extends_trans by fastforce

lemma grows_op: "plain_op op \<Longrightarrow> exec_op L op s = Inr s' \<Longrightarrow> grows L s s'"
  by (rule grows_good) (rule plain_good)

lemma grows_Snapshot: "grows L s (snd (Snapshot s))"
  using Snapshot_same [of L s] revs_ok_Snapshot [of s]
  by (auto simp: grows_def Snapshot_simps intro!: jrn.extends_obs)

lemma undo_all_nextRevision:
  "undo_all L es s = Inr t \<Longrightarrow> sdb_nextRevisionId t = sdb_nextRevisionId s"
  using undo_all_revs by blast

text \<open>Returning to a snapshot after a development of the state restores what can be observed.\<close>

lemma grows_revert:
  assumes "grows L (snd (Snapshot s)) s2" "state_ok L s" "revs_ok s"
  shows "\<exists>s3. RevertToSnapshot L (sdb_nextRevisionId s) s2 = Inr s3 \<and> same_state L s3 s \<and>
    sdb_validRevisions s3 = sdb_validRevisions s \<and> sdb_nextRevisionId s \<le> sdb_nextRevisionId s3
    \<and> j_entries (sdb_journal s3) = j_entries (sdb_journal s)"
proof -
  let ?i = "sdb_nextRevisionId s" and ?n = "length (sdb_validRevisions s)"
  have s1: "jrn.extends L s (snd (Snapshot s))"
    by (rule jrn.extends_obs [OF Snapshot_same(1) [OF assms(2)]]) (simp add: Snapshot_simps)
  from assms(1) Snapshot_same(2) [OF assms(2)] revs_ok_Snapshot [OF assms(3)] obtain rs where
    g: "jrn.extends L (snd (Snapshot s)) s2" "state_ok L s2" "revs_ok s2" "?i \<le> sdb_nextRevisionId s2"
    "sdb_validRevisions s2 = sdb_validRevisions s @ \<lparr>rev_id = ?i, rev_journalIndex = length (j_entries (sdb_journal s))\<rparr> # rs"
    by (auto simp: grows_def Snapshot_simps)
  have inv: "run_inv L s ?i s2" using jrn.extends_trans [OF s1 g(1)] g by (auto simp: run_inv_def)
  from run_inv_revert [OF inv order.refl] g(5) obtain t where t: "RevertToSnapshot L ?i s2 = Inr t" "jrn.extends L s t"
    "sdb_validRevisions t = sdb_validRevisions s"
    "j_entries (sdb_journal t) = take (length (j_entries (sdb_journal s))) (j_entries (sdb_journal s2))" by auto
  have "j_entries (sdb_journal s2) = j_entries (sdb_journal s) @ drop (length (j_entries (sdb_journal s))) (j_entries (sdb_journal s2))"
    using inv by (auto simp: run_inv_def jrn.extends_def)
  then have e: "j_entries (sdb_journal t) = j_entries (sdb_journal s)" using t(4) by (metis append_eq_conv_conj)
  then have "same_state L t s" using t(2) by (auto simp: jrn.extends_def)
  moreover have "sdb_nextRevisionId t = sdb_nextRevisionId s2"
    using t(1) undo_all_nextRevision by (fastforce simp: RevertToSnapshot_def journal_revert_def Let_def bind_res_Inr_iff split: if_splits)
  ultimately show ?thesis using t e g(4) by auto
qed

lemma grows_reverted:
  assumes "grows L (snd (Snapshot s)) s2" "RevertToSnapshot L (sdb_nextRevisionId s) s2 = Inr s3"
  shows "grows L s s3"
proof -
  have "jrn.extends L s s3 \<and> state_ok L s3 \<and> revs_ok s3 \<and> (\<exists>rs. sdb_validRevisions s3 = sdb_validRevisions s @ rs)
      \<and> sdb_nextRevisionId s \<le> sdb_nextRevisionId s3" if ok: "state_ok L s" "revs_ok s"
  proof -
    from grows_revert [OF assms(1) ok] assms(2) have r: "same_state L s3 s" "sdb_validRevisions s3 = sdb_validRevisions s"
      "sdb_nextRevisionId s \<le> sdb_nextRevisionId s3" "j_entries (sdb_journal s3) = j_entries (sdb_journal s)" by auto
    have "jrn.extends L s s3" using r(1,4) by (rule jrn.extends_obs)
    moreover have "revs_ok s3" using ok(2) r(2-4) by (auto simp: revs_ok_def)
    ultimately show ?thesis using r by (auto simp: same_state_def)
  qed
  then show ?thesis by (simp add: grows_def)
qed

section \<open>Machines that keep their context\<close>

definition ev_rel :: "('t, 'd) vm_lib \<Rightarrow> ('t, 'd) EVM \<Rightarrow> ('t, 'd) EVM \<Rightarrow> bool" where
  "ev_rel V ev ev' \<longleftrightarrow>
     ev_Context ev' = ev_Context ev \<and> ev_depth ev' = ev_depth ev \<and> ev_NoRecursion ev' = ev_NoRecursion ev \<and>
     ev_EnablePreimageRecording ev' = ev_EnablePreimageRecording ev \<and> ev_abort ev' = ev_abort ev \<and>
     ev_readOnly ev' = ev_readOnly ev \<and> ev_enableTime ev' = ev_enableTime ev \<and>
     ev_SystemContracts ev' = ev_SystemContracts ev \<and>
     grows (vl_eth V) (ev_StateDB ev) (ev_StateDB ev')"

lemma with_db_sel [simp]:
  "ev_StateDB (with_db ev s) = s" "ev_Context (with_db ev s) = ev_Context ev" "ev_depth (with_db ev s) = ev_depth ev"
  "ev_NoRecursion (with_db ev s) = ev_NoRecursion ev" "ev_abort (with_db ev s) = ev_abort ev"
  "ev_EnablePreimageRecording (with_db ev s) = ev_EnablePreimageRecording ev"
  "ev_readOnly (with_db ev s) = ev_readOnly ev" "ev_enableTime (with_db ev s) = ev_enableTime ev"
  "ev_SystemContracts (with_db ev s) = ev_SystemContracts ev" "ev_jumpdests (with_db ev s) = ev_jumpdests ev"
  "ev_callGasTemp (with_db ev s) = ev_callGasTemp ev" "ev_returnData (with_db ev s) = ev_returnData ev"
  by (simp_all add: with_db_def)

lemma ev_rel_refl [simp]: "ev_rel V ev ev"
  by (simp add: ev_rel_def)

lemma ev_rel_trans: "ev_rel V a b \<Longrightarrow> ev_rel V b c \<Longrightarrow> ev_rel V a c"
  by (auto simp: ev_rel_def intro: grows_trans)

lemma ev_rel_db: "grows (vl_eth V) (ev_StateDB ev) s \<Longrightarrow> ev_rel V ev (with_db ev s)"
  by (simp add: ev_rel_def)

lemma ev_rel_fields [simp]:
  "ev_rel V ev (ev'\<lparr>ev_jumpdests := m\<rparr>) = ev_rel V ev ev'"
  "ev_rel V ev (ev'\<lparr>ev_callGasTemp := g\<rparr>) = ev_rel V ev ev'"
  "ev_rel V ev (ev'\<lparr>ev_returnData := d\<rparr>) = ev_rel V ev ev'"
  by (simp_all add: ev_rel_def)

text \<open>Operations on the state, read as steps of the machine.\<close>

lemma db_op:
  assumes "plain_op op" "\<And>s. exec_op (vl_eth V) op s = map_res snd (f s)" "db_get f ev = Inr (x, ev')"
  shows "ev_rel V ev ev'"
proof -
  from assms(3) obtain s where s: "f (ev_StateDB ev) = Inr (x, s)" "ev' = with_db ev s"
    by (auto simp: db_get_def bind_res_Inr_iff)
  then show ?thesis using grows_op [OF assms(1), of "vl_eth V" "ev_StateDB ev" s] assms(2) [of "ev_StateDB ev"]
    by (auto intro: ev_rel_db)
qed

lemma db_act:
  assumes "plain_op op" "\<And>s. exec_op (vl_eth V) op s = f s" "db_do f ev = Inr ev'"
  shows "ev_rel V ev ev'"
proof -
  from assms(3) obtain s where s: "f (ev_StateDB ev) = Inr s" "ev' = with_db ev s"
    by (auto simp: db_do_def bind_res_Inr_iff)
  then show ?thesis using grows_op [OF assms(1), of "vl_eth V" "ev_StateDB ev" s] assms(2) [of "ev_StateDB ev"]
    by (auto intro: ev_rel_db)
qed

lemma db_get_rel:
  "db_get (GetBalance (vl_eth V) a tk) ev = Inr (b, ev') \<Longrightarrow> ev_rel V ev ev'"
  "db_get (GetState (vl_eth V) a k) ev = Inr (h, ev') \<Longrightarrow> ev_rel V ev ev'"
  "db_get (Empty (vl_eth V) a) ev = Inr (e, ev') \<Longrightarrow> ev_rel V ev ev'"
  "db_get (Exist (vl_eth V) a) ev = Inr (e, ev') \<Longrightarrow> ev_rel V ev ev'"
  "db_get (HasSuicided (vl_eth V) a) ev = Inr (e, ev') \<Longrightarrow> ev_rel V ev ev'"
  "db_get (GetCode (vl_eth V) a) ev = Inr (cd, ev') \<Longrightarrow> ev_rel V ev ev'"
  "db_get (GetCodeSize (vl_eth V) a) ev = Inr (n, ev') \<Longrightarrow> ev_rel V ev ev'"
  "db_get (GetCodeHash (vl_eth V) a) ev = Inr (h, ev') \<Longrightarrow> ev_rel V ev ev'"
  "db_get (GetNonce (vl_eth V) a) ev = Inr (nn, ev') \<Longrightarrow> ev_rel V ev ev'"
  "db_get (Suicide (vl_eth V) a) ev = Inr (e, ev') \<Longrightarrow> ev_rel V ev ev'"
  by (erule db_op [rotated 2, where op = "OpGetBalance a tk"]
      db_op [rotated 2, where op = "OpGetState a k"] db_op [rotated 2, where op = "OpEmpty a"]
      db_op [rotated 2, where op = "OpExist a"] db_op [rotated 2, where op = "OpHasSuicided a"]
      db_op [rotated 2, where op = "OpGetCode a"] db_op [rotated 2, where op = "OpGetCodeSize a"]
      db_op [rotated 2, where op = "OpGetCodeHash a"] db_op [rotated 2, where op = "OpGetNonce a"]
      db_op [rotated 2, where op = "OpSuicide a"]; simp)+

lemma db_do_rel:
  "db_do (SetState (vl_eth V) a k v) ev = Inr ev' \<Longrightarrow> ev_rel V ev ev'"
  "db_do (AddBalance (vl_eth V) a x tk) ev = Inr ev' \<Longrightarrow> ev_rel V ev ev'"
  "db_do (SetNonce (vl_eth V) a n) ev = Inr ev' \<Longrightarrow> ev_rel V ev ev'"
  "db_do (SetCode (vl_eth V) a cd) ev = Inr ev' \<Longrightarrow> ev_rel V ev ev'"
  "db_do (CreateAccount (vl_eth V) a) ev = Inr ev' \<Longrightarrow> ev_rel V ev ev'"
  subgoal by (erule db_act [rotated 2, where op = "OpSetState a k v"]) simp_all
  subgoal by (erule db_act [rotated 2, where op = "OpAddBalance a x tk"]) simp_all
  subgoal by (erule db_act [rotated 2, where op = "OpSetNonce a n"]) simp_all
  subgoal by (erule db_act [rotated 2, where op = "OpSetCode a cd"]) simp_all
  subgoal by (erule db_act [rotated 2, where op = "OpCreateAccount a"]) simp_all
  done

end
