(* ===== verification/EvmGas.thy ===== *)
theory EvmGas
  imports EvmRel
begin

text \<open>
  Gas, termination and reverting. The interface \<open>evm_calls\<close> says what an instruction may rely on when it
  starts another contract: the call hands back no more gas than it got, keeps the context and develops the
  state by journalled operations only, and it returns if the depth of the nesting leaves room. From this the
  instructions, the interpreter loop and the calls themselves are shown to have the same properties, so that
  the interface holds of \<open>evm_ops_at V n\<close> for every \<open>n\<close> by induction.
\<close>

section \<open>Sequencing\<close>

lemma bindF_Inr: "bindF r f = Some (Inr y) \<longleftrightarrow> (\<exists>x. r = Some (Inr x) \<and> f x = Some (Inr y))"
  by (auto simp: bindF_def split: option.splits sum.splits)

lemma bindF_None: "bindF r f = None \<longleftrightarrow> r = None \<or> (\<exists>x. r = Some (Inr x) \<and> f x = None)"
  by (auto simp: bindF_def split: option.splits sum.splits)

lemma vm_lawsD:
  assumes "vm_laws V"
  shows "math_laws (vl_math V)" "gas_params (vl_params V)" "table_positive (vl_gas V)"
    "IsConstantinople (vl_rules V) \<Longrightarrow> 0 < gt_ExtcodeHash (vl_gas V)"
  using assms by (auto simp: vm_laws_def)

section \<open>Computations that keep the context\<close>

lemma ev_rel_AddRefund: "ev_rel V ev (with_db ev (AddRefund g (ev_StateDB ev)))"
  by (rule ev_rel_db, rule grows_op [where op = "OpAddRefund g"]) simp_all

lemma ev_rel_AddLog: "ev_rel V ev (with_db ev (AddLog l (ev_StateDB ev)))"
  by (rule ev_rel_db, rule grows_op [where op = "OpAddLog l"]) simp_all

lemma ev_rel_AddPreimage: "ev_rel V ev (with_db ev (AddPreimage h p (ev_StateDB ev)))"
  by (rule ev_rel_db, rule grows_op [where op = "OpAddPreimage h p"]) simp_all

lemmas ev_rel_state = ev_rel_AddRefund ev_rel_AddLog ev_rel_AddPreimage

definition keeps :: "('t, 'd) vm_lib \<Rightarrow> ('t, 'd) EVM \<Rightarrow> ('a \<times> ('t, 'd) EVM) res \<Rightarrow> bool" where
  "keeps V ev0 r \<longleftrightarrow> (\<forall>x ev. r = Inr (x, ev) \<longrightarrow> ev_rel V ev0 ev)"

lemma keeps_intros [intro!]:
  "ev_rel V ev0 ev \<Longrightarrow> keeps V ev0 (Inr (x, ev))"
  "keeps V ev0 (Inl e)"
  "(b \<Longrightarrow> keeps V ev0 r) \<Longrightarrow> (\<not> b \<Longrightarrow> keeps V ev0 s) \<Longrightarrow> keeps V ev0 (if b then r else s)"
  by (simp_all add: keeps_def)

lemma keeps_bind:
  "keeps V ev0 r \<Longrightarrow> (\<And>x ev. ev_rel V ev0 ev \<Longrightarrow> keeps V ev0 (f x ev)) \<Longrightarrow> keeps V ev0 (bind_res r (\<lambda>(x, ev). f x ev))"
  by (auto simp: keeps_def bind_res_Inr_iff)

lemma keeps_read: "(\<And>x. keeps V ev0 (f x)) \<Longrightarrow> keeps V ev0 (bind_res r f)"
  by (auto simp: keeps_def bind_res_Inr_iff)

lemma keeps_db [intro]:
  assumes "ev_rel V ev0 ev"
  shows "keeps V ev0 (db_get (GetBalance (vl_eth V) a tk) ev)" "keeps V ev0 (db_get (GetState (vl_eth V) a k) ev)"
    "keeps V ev0 (db_get (Empty (vl_eth V) a) ev)" "keeps V ev0 (db_get (Exist (vl_eth V) a) ev)"
    "keeps V ev0 (db_get (HasSuicided (vl_eth V) a) ev)" "keeps V ev0 (db_get (GetCode (vl_eth V) a) ev)"
    "keeps V ev0 (db_get (GetCodeSize (vl_eth V) a) ev)" "keeps V ev0 (db_get (GetCodeHash (vl_eth V) a) ev)"
    "keeps V ev0 (db_get (GetNonce (vl_eth V) a) ev)" "keeps V ev0 (db_get (Suicide (vl_eth V) a) ev)"
  unfolding keeps_def by (blast intro: ev_rel_trans [OF assms] db_get_rel)+

lemmas ev_rel_state_trans = ev_rel_trans [OF _ ev_rel_AddRefund] ev_rel_trans [OF _ ev_rel_AddLog]
  ev_rel_trans [OF _ ev_rel_AddPreimage]

lemma db_do_trans:
  assumes "ev_rel V ev0 ev"
  shows "db_do (SetState (vl_eth V) a k v) ev = Inr ev' \<Longrightarrow> ev_rel V ev0 ev'"
    "db_do (AddBalance (vl_eth V) a x tk) ev = Inr ev' \<Longrightarrow> ev_rel V ev0 ev'"
    "db_do (SetNonce (vl_eth V) a n) ev = Inr ev' \<Longrightarrow> ev_rel V ev0 ev'"
    "db_do (SetCode (vl_eth V) a cd) ev = Inr ev' \<Longrightarrow> ev_rel V ev0 ev'"
    "db_do (CreateAccount (vl_eth V) a) ev = Inr ev' \<Longrightarrow> ev_rel V ev0 ev'"
  by (blast intro: ev_rel_trans [OF assms] db_do_rel)+

section \<open>Gas costs\<close>

text \<open>A gas function that only changes the memory fee, \<open>callGasTemp\<close> and the journalled state, and that
  charges at least \<open>lo\<close>.\<close>

definition gas_ok :: "('t, 'd) vm_lib \<Rightarrow> nat \<Rightarrow> ('t, 'd) gasFunc \<Rightarrow> bool" where
  "gas_ok V lo f \<longleftrightarrow> (\<forall>fr m ev cost fr' ev'. f fr m ev = Inr (cost, fr', ev') \<longrightarrow>
     fr_contract fr' = fr_contract fr \<and> fr_stack fr' = fr_stack fr \<and> ev_rel V ev ev' \<and>
     (\<forall>c. cost = Inr c \<longrightarrow> lo \<le> unat c))"

lemma gas_add_unat:
  "math_laws M \<Longrightarrow> gas_add M a b = Inr c \<Longrightarrow> unat c = unat a + unat b"
  by (auto simp: gas_add_def math_simps Let_def unat_add_lt split: if_splits prod.splits)

lemma gas_ok_const [intro]: "lo \<le> unat g \<Longrightarrow> gas_ok V lo (constGasFunc g)"
  by (auto simp: gas_ok_def constGasFunc_def)

lemma gas_ok_mem:
  "(\<And>g c. f g = Inr c \<Longrightarrow> lo \<le> unat c) \<Longrightarrow> gas_ok V lo (mem_gas V f)"
  by (auto simp: gas_ok_def mem_gas_def Let_def bind_res_Inr_iff split: prod.splits)

lemma gas_ok_mem_add:
  "math_laws (vl_math V) \<Longrightarrow> gas_ok V (unat k) (mem_gas V (\<lambda>g. gas_add (vl_math V) g k))"
  by (rule gas_ok_mem) (auto dest: gas_add_unat)

lemma gas_ok_back:
  "(\<And>x. gas_ok V lo (f x)) \<Longrightarrow> gas_ok V lo (\<lambda>fr m ev. bind_res (Back (fr_stack fr) n) (\<lambda>x. f x fr m ev))"
  by (auto simp: gas_ok_def bind_res_Inr_iff)

lemma gas_add_le:
  "math_laws M \<Longrightarrow> gas_add M a b = Inr c \<Longrightarrow> unat a \<le> unat c \<and> unat b \<le> unat c"
  by (drule (1) gas_add_unat) simp

lemma gas_ok_word:
  assumes "math_laws (vl_math V)"
  shows "gas_ok V (unat base) (word_gas V base pos perWord)"
  unfolding word_gas_def [abs_def]
  by (rule gas_ok_back, rule gas_ok_mem) (fastforce simp: bind_res_Inr_iff dest!: gas_add_le [OF assms])

lemma gas_ok_log:
  assumes "math_laws (vl_math V)"
  shows "gas_ok V (unat (p_LogGas (vl_params V))) (makeGasLog V n)"
proof -
  let ?f = "\<lambda>sz. mem_gas V (\<lambda>gas.
      bind_res (gas_add (vl_math V) gas (p_LogGas (vl_params V))) (\<lambda>gas.
      bind_res (gas_add (vl_math V) gas (n * p_LogTopicGas (vl_params V))) (\<lambda>gas.
      bind_res (gas_mul (vl_math V) sz (p_LogDataGas (vl_params V))) (\<lambda>s. gas_add (vl_math V) gas s))))"
  let ?g = "\<lambda>x fr m ev. case to_u64 x of Inl e \<Rightarrow> Inr (Inl e, fr, ev) | Inr sz \<Rightarrow> ?f sz fr m ev"
  have f: "gas_ok V (unat (p_LogGas (vl_params V))) (?f sz)" for sz
    by (rule gas_ok_mem) (fastforce simp: bind_res_Inr_iff dest!: gas_add_le [OF assms])
  have "gas_ok V (unat (p_LogGas (vl_params V))) (?g x)" for x
    using f by (cases "to_u64 x") (simp_all add: gas_ok_def)
  then show ?thesis unfolding makeGasLog_def [abs_def] by (rule gas_ok_back)
qed

lemma gas_ok_exp:
  assumes "math_laws (vl_math V)"
  shows "gas_ok V 10 (gasExp V)"
  by (auto simp: gas_ok_def gasExp_def Let_def bind_res_Inr_iff dest!: gas_add_le [OF assms])

lemma gas_ok_sstore:
  assumes "gas_params (vl_params V)"
  shows "gas_ok V 5000 (gasSStore V)"
proof -
  have "fr' = fr \<and> ev_rel V ev ev' \<and> (\<exists>c. cost = Inr c \<and> 5000 \<le> unat c)"
    if a: "gasSStore V fr m ev = Inr (cost, fr', ev')" for fr m ev cost fr' ev'
  proof -
    from a obtain k b ev1 where "db_get (GetState (vl_eth V) (ct_self (fr_contract fr)) k) ev = Inr (b, ev1)"
      "ev' = ev1 \<or> ev' = with_db ev1 (AddRefund (p_SstoreRefundGas (vl_params V)) (ev_StateDB ev1))"
      "fr' = fr" "cost = Inr (p_SstoreSetGas (vl_params V)) \<or> cost = Inr (p_SstoreClearGas (vl_params V))
        \<or> cost = Inr (p_SstoreResetGas (vl_params V))"
      by (fastforce simp: gasSStore_def bind_res_Inr_iff split: if_splits)
    then show ?thesis using assms ev_rel_trans [OF db_get_rel(2) ev_rel_AddRefund] db_get_rel(2)
      by (auto simp: gas_params_def)
  qed
  then show ?thesis unfolding gas_ok_def by fastforce
qed

lemma gas_ok_suicide: "gas_ok V 0 (gasSuicide V)"
proof -
  have "fr' = fr \<and> ev_rel V ev ev'" if a: "gasSuicide V fr m ev = Inr (cost, fr', ev')" for fr m ev cost fr' ev'
  proof -
    let ?s = "ct_self (fr_contract fr)" and ?a = "BigToAddress (vl_math V) (fr_stack fr ! 0)" and ?g = "gt_Suicide (vl_gas V)"
    let ?base = "if IsEIP150 (vl_rules V) then
               if IsEIP158 (vl_rules V) then
                 bind_res (db_get (Empty (vl_eth V) ?a) ev) (\<lambda>(e, ev).
                   if e then
                     bind_res (chain_token (ev_StateDB ev)) (\<lambda>tk.
                     bind_res (db_get (GetBalance (vl_eth V) ?s tk) ev) (\<lambda>(b, ev).
                       Inr (if b \<noteq> 0 then ?g + gt_CreateBySuicide (vl_gas V) else ?g, ev)))
                   else Inr (?g, ev))
               else bind_res (db_get (Exist (vl_eth V) ?a) ev) (\<lambda>(e, ev).
                      Inr (if \<not> e then ?g + gt_CreateBySuicide (vl_gas V) else ?g, ev))
             else Inr (0, ev)"
    have k: "keeps V ev ?base"
      by (intro keeps_intros keeps_bind keeps_read keeps_db ev_rel_refl; assumption)
    from a have "0 < length (fr_stack fr)" by (simp add: gasSuicide_def Back_def split: if_splits)
    then have bk: "Back (fr_stack fr) 0 = Inr (fr_stack fr ! 0)" by (simp add: Back_def)
    have "gasSuicide V fr m ev = bind_res ?base (\<lambda>(gas, ev).
        bind_res (db_get (HasSuicided (vl_eth V) ?s) ev) (\<lambda>(h, ev).
          Inr (Inr gas, fr, if \<not> h then with_db ev (AddRefund (p_SuicideRefundGas (vl_params V)) (ev_StateDB ev)) else ev)))"
      by (simp only: gasSuicide_def bk bind_res_simps Let_def)
    with a obtain gas ev1 h ev2 where "?base = Inr (gas, ev1)" "db_get (HasSuicided (vl_eth V) ?s) ev1 = Inr (h, ev2)"
      "fr' = fr" "ev' = (if \<not> h then with_db ev2 (AddRefund (p_SuicideRefundGas (vl_params V)) (ev_StateDB ev2)) else ev2)"
      unfolding bind_res_Inr_iff [of ?base] by (fastforce simp: bind_res_Inr_iff)
    then show ?thesis using k ev_rel_trans [OF ev_rel_trans [OF _ db_get_rel(5)] ev_rel_AddRefund] ev_rel_trans [OF _ db_get_rel(5)]
      by (auto simp: keeps_def)
  qed
  then show ?thesis unfolding gas_ok_def by fastforce
qed

lemma gas_ok_mono: "gas_ok V lo f \<Longrightarrow> lo' \<le> lo \<Longrightarrow> gas_ok V lo' f"
  unfolding gas_ok_def by (blast intro: order_trans)

text \<open>Every instruction that does not end the loop has a positive cost.\<close>

lemma gas_pays:
  assumes "vm_laws V"
  shows "gas_ok V 1 (gasCallDataCopy V)" "gas_ok V 1 (gasReturnDataCopy V)" "gas_ok V 1 (gasSStore V)" "gas_ok V 1 (makeGasLog V n)"
    "gas_ok V 1 (gasSha3 V)" "gas_ok V 1 (gasCodeCopy V)" "gas_ok V 1 (gasExtCodeCopy V)"
    "gas_ok V 1 (gasMLoad V)" "gas_ok V 1 (gasMStore8 V)" "gas_ok V 1 (gasMStore V)" "gas_ok V 1 (gasCreate V)"
    "gas_ok V 1 (gasCreate2 V)" "gas_ok V 1 (gasBalance V)" "gas_ok V 1 (gasExtCodeSize V)" "gas_ok V 1 (gasSLoad V)"
    "gas_ok V 1 (gasExp V)" "gas_ok V 1 gasPush" "gas_ok V 1 gasSwap" "gas_ok V 1 gasDup"
    "IsConstantinople (vl_rules V) \<Longrightarrow> gas_ok V 1 (gasExtCodeHash V)" "gas_ok V 1 (constGasFunc (p_JumpdestGas (vl_params V)))"
proof -
  note L = vm_lawsD [OF assms]
  note W = gas_ok_mono [OF gas_ok_word [OF L(1)]] and A = gas_ok_mono [OF gas_ok_mem_add [OF L(1)]]
  have P: "1 \<le> unat (p_Sha3Gas (vl_params V))" "1 \<le> unat (p_Create2Gas (vl_params V))" "1 \<le> unat (p_CreateGas (vl_params V))"
    "1 \<le> unat (p_LogGas (vl_params V))" "1 \<le> unat (p_JumpdestGas (vl_params V))"
    using L(2) by (simp_all add: gas_params_def)
  have T: "1 \<le> unat (gt_ExtcodeCopy (vl_gas V))" "1 \<le> unat (gt_Balance (vl_gas V))" "1 \<le> unat (gt_ExtcodeSize (vl_gas V))"
    "1 \<le> unat (gt_SLoad (vl_gas V))" "IsConstantinople (vl_rules V) \<Longrightarrow> 1 \<le> unat (gt_ExtcodeHash (vl_gas V))"
    using L(3,4) by (auto simp: table_positive_def word_less_nat_alt)
  show "gas_ok V 1 (gasCallDataCopy V)" "gas_ok V 1 (gasReturnDataCopy V)" "gas_ok V 1 (gasSha3 V)" "gas_ok V 1 (gasCodeCopy V)"
    "gas_ok V 1 (gasExtCodeCopy V)" "gas_ok V 1 (gasCreate2 V)"
    unfolding gasCallDataCopy_def gasReturnDataCopy_def gasSha3_def gasCodeCopy_def gasExtCodeCopy_def gasCreate2_def
    using P T by (auto intro!: W)
  show "gas_ok V 1 (gasMLoad V)" "gas_ok V 1 (gasMStore8 V)" "gas_ok V 1 (gasMStore V)" "gas_ok V 1 (gasCreate V)"
    unfolding gasMLoad_def gasMStore8_def gasMStore_def gasCreate_def using P by (auto intro!: A)
  show "gas_ok V 1 (gasBalance V)" "gas_ok V 1 (gasExtCodeSize V)" "gas_ok V 1 (gasSLoad V)" "gas_ok V 1 gasPush" "gas_ok V 1 gasSwap"
    "gas_ok V 1 gasDup" "IsConstantinople (vl_rules V) \<Longrightarrow> gas_ok V 1 (gasExtCodeHash V)" "gas_ok V 1 (constGasFunc (p_JumpdestGas (vl_params V)))"
    unfolding gasBalance_def gasExtCodeSize_def gasSLoad_def gasPush_def gasSwap_def gasDup_def gasExtCodeHash_def
    using P T by (auto intro!: gas_ok_const)
  show "gas_ok V 1 (gasExp V)" by (rule gas_ok_mono [OF gas_ok_exp [OF L(1)]]) simp
  show "gas_ok V 1 (gasSStore V)" by (rule gas_ok_mono [OF gas_ok_sstore [OF L(2)]]) simp
  show "gas_ok V 1 (makeGasLog V n)" using P by (intro gas_ok_mono [OF gas_ok_log [OF L(1)]]) simp
qed

lemma gas_free: "gas_ok V 0 (gasReturn V)" "gas_ok V 0 (gasRevert V)"
  by (auto simp: gasReturn_def gasRevert_def intro: gas_ok_mem)

text \<open>The cost of a call is what the callee gets plus a base fee, which exceeds the stipend when a value is
  transferred.\<close>

definition call_gas_ok :: "('t, 'd) vm_lib \<Rightarrow> bool \<Rightarrow> ('t, 'd) gasFunc \<Rightarrow> bool" where
  "call_gas_ok V has_value f \<longleftrightarrow> (\<forall>fr m ev cost fr' ev'. f fr m ev = Inr (cost, fr', ev') \<longrightarrow>
     fr_contract fr' = fr_contract fr \<and> fr_stack fr' = fr_stack fr \<and> ev_rel V ev ev' \<and>
     (\<forall>c. cost = Inr c \<longrightarrow> (\<exists>b. unat c = b + unat (ev_callGasTemp ev') \<and> 0 < b \<and>
        (has_value \<and> fr_stack fr ! 2 \<noteq> 0 \<longrightarrow> 2300 < b))))"

lemma call_mem_gas_ok:
  assumes "math_laws (vl_math V)" "call_mem_gas V add requested fr m ev = Inr (cost, fr', ev')"
    "\<forall>g c. add g = Inr c \<longrightarrow> lo \<le> unat c"
  shows "fr_contract fr' = fr_contract fr" "fr_stack fr' = fr_stack fr" "ev_rel V ev ev'"
    "cost = Inr c \<Longrightarrow> \<exists>b. unat c = b + unat (ev_callGasTemp ev') \<and> lo \<le> b"
  using assms(2) gas_add_unat [OF assms(1)] assms(3)
  by (auto simp: call_mem_gas_def call_gas_def Let_def bind_res_Inr_iff split: prod.splits sum.splits)

lemma base_fees:
  assumes "gas_params (vl_params V)" "table_positive (vl_gas V)"
  shows "0 < unat (gt_Calls (vl_gas V))" "0 < unat (gt_Calls (vl_gas V) + p_CallNewAccountGas (vl_params V))"
    "2300 < unat (gt_Calls (vl_gas V) + p_CallValueTransferGas (vl_params V))"
    "2300 < unat (gt_Calls (vl_gas V) + p_CallNewAccountGas (vl_params V) + p_CallValueTransferGas (vl_params V))"
  using assms by (auto simp: gas_params_def table_positive_def word_less_nat_alt unat_word_ariths)

lemma call_fee:
  assumes "math_laws (vl_math V)" "0 < unat k" "hv \<longrightarrow> 2300 < unat k"
    "call_mem_gas V (gas_add (vl_math V) k) req fr m ev = Inr (cost, fr', ev')
      \<or> call_mem_gas V (\<lambda>g. gas_add (vl_math V) g k) req fr m ev = Inr (cost, fr', ev')"
  shows "fr_contract fr' = fr_contract fr \<and> fr_stack fr' = fr_stack fr \<and> ev_rel V ev ev' \<and>
    (\<forall>c. cost = Inr c \<longrightarrow> (\<exists>b. unat c = b + unat (ev_callGasTemp ev') \<and> 0 < b \<and> (hv \<longrightarrow> 2300 < b)))"
proof -
  have lo: "gas_add (vl_math V) k g = Inr c \<Longrightarrow> unat k \<le> unat c" "gas_add (vl_math V) g k = Inr c \<Longrightarrow> unat k \<le> unat c" for g c
    using gas_add_unat [OF assms(1)] by fastforce+
  from assms(4) have "\<exists>add. call_mem_gas V add req fr m ev = Inr (cost, fr', ev') \<and> (\<forall>g c. add g = Inr c \<longrightarrow> unat k \<le> unat c)"
    using lo by blast
  then obtain add where add: "call_mem_gas V add req fr m ev = Inr (cost, fr', ev')" "\<forall>g c. add g = Inr c \<longrightarrow> unat k \<le> unat c"
    by blast
  note K = call_mem_gas_ok [OF assms(1) add]
  have "\<exists>b. unat c = b + unat (ev_callGasTemp ev') \<and> 0 < b \<and> (hv \<longrightarrow> 2300 < b)" if c: "cost = Inr c" for c
  proof -
    from K(4) [OF c] obtain b where "unat c = b + unat (ev_callGasTemp ev')" "unat k \<le> b" by blast
    then show ?thesis using assms(2,3) by (intro exI [of _ b]) auto
  qed
  then show ?thesis using K(1-3) by blast
qed

lemma gas_ok_Call:
  assumes "vm_laws V"
  shows "call_gas_ok V True (gasCall V)"
proof -
  note M = vm_lawsD(1) [OF assms] and B = base_fees [OF vm_lawsD(2,3) [OF assms]]
  {
    fix fr :: frame and m ev cost fr' ev'
    assume a: "gasCall V fr m ev = Inr (cost, fr', ev')"
    let ?k = "\<lambda>gas. if fr_stack fr ! 2 \<noteq> 0 then gas + p_CallValueTransferGas (vl_params V) else gas"
    let ?b = "if IsEIP158 (vl_rules V) then
               if fr_stack fr ! 2 \<noteq> 0 then
                 bind_res (db_get (Empty (vl_eth V) (BigToAddress (vl_math V) (fr_stack fr ! 1))) ev) (\<lambda>(e, ev).
                   Inr (if e then gt_Calls (vl_gas V) + p_CallNewAccountGas (vl_params V) else gt_Calls (vl_gas V), ev))
               else Inr (gt_Calls (vl_gas V), ev)
             else bind_res (db_get (Exist (vl_eth V) (BigToAddress (vl_math V) (fr_stack fr ! 1))) ev) (\<lambda>(e, ev).
                    Inr (if \<not> e then gt_Calls (vl_gas V) + p_CallNewAccountGas (vl_params V) else gt_Calls (vl_gas V), ev))"
    from a have len: "2 < length (fr_stack fr)" by (simp add: gasCall_def Back_def split: if_splits)
    then have bk: "Back (fr_stack fr) 0 = Inr (fr_stack fr ! 0)" "Back (fr_stack fr) 1 = Inr (fr_stack fr ! 1)"
      "Back (fr_stack fr) 2 = Inr (fr_stack fr ! 2)" by (auto simp: Back_def)
    have "gasCall V fr m ev = bind_res ?b (\<lambda>(gas, ev).
      call_mem_gas V (gas_add (vl_math V) (?k gas)) (fr_stack fr ! 0) fr m ev)"
      by (simp only: gasCall_def bk bind_res_simps Let_def)
    with a have "bind_res ?b (\<lambda>(gas, ev).
      call_mem_gas V (gas_add (vl_math V) (?k gas)) (fr_stack fr ! 0) fr m ev) = Inr (cost, fr', ev')" by (simp only:)
    then obtain gas ev1 where 0: "?b = Inr (gas, ev1)" and
      2: "call_mem_gas V (gas_add (vl_math V) (?k gas)) (fr_stack fr ! 0) fr m ev1 = Inr (cost, fr', ev')"
      unfolding bind_res_Inr_iff [of ?b] by (elim exE conjE) (simp only: split_paired_all prod.case)
    from 0 have 1: "gas = gt_Calls (vl_gas V) \<or> gas = gt_Calls (vl_gas V) + p_CallNewAccountGas (vl_params V)" "ev_rel V ev ev1"
      by (auto simp: bind_res_Inr_iff dest!: db_get_rel split: if_splits)
    have "0 < unat (?k gas)" "fr_stack fr ! 2 \<noteq> 0 \<longrightarrow> 2300 < unat (?k gas)" using 1(1) B by auto
    from call_fee [OF M this disjI1 [OF 2]] have "fr_contract fr' = fr_contract fr \<and> fr_stack fr' = fr_stack fr \<and> ev_rel V ev ev' \<and>
     (\<forall>c. cost = Inr c \<longrightarrow> (\<exists>b. unat c = b + unat (ev_callGasTemp ev') \<and> 0 < b \<and> (fr_stack fr ! 2 \<noteq> 0 \<longrightarrow> 2300 < b)))"
      using ev_rel_trans [OF 1(2)] by blast
  }
  then show ?thesis by (simp add: call_gas_ok_def)
qed

lemma gas_ok_CallCode:
  assumes "vm_laws V"
  shows "call_gas_ok V True (gasCallCode V)"
proof -
  note M = vm_lawsD(1) [OF assms] and B = base_fees [OF vm_lawsD(2,3) [OF assms]]
  {
    fix fr :: frame and m ev cost fr' ev'
    assume a: "gasCallCode V fr m ev = Inr (cost, fr', ev')"
    let ?k = "if fr_stack fr ! 2 \<noteq> 0 then gt_Calls (vl_gas V) + p_CallValueTransferGas (vl_params V) else gt_Calls (vl_gas V)"
    from a have 2: "call_mem_gas V (gas_add (vl_math V) ?k) (fr_stack fr ! 0) fr m ev = Inr (cost, fr', ev')"
      by (auto simp: gasCallCode_def Let_def bind_res_Inr_iff Back_Inr)
    have "0 < unat ?k" "fr_stack fr ! 2 \<noteq> 0 \<longrightarrow> 2300 < unat ?k" using B by auto
    note call_fee [OF M this disjI1 [OF 2]]
  }
  then show ?thesis by (simp add: call_gas_ok_def)
qed

lemma gas_ok_DelegateCall:
  assumes "vm_laws V"
  shows "call_gas_ok V False (gasDelegateCall V)" "call_gas_ok V False (gasStaticCall V)"
proof -
  note F = call_fee [OF vm_lawsD(1) [OF assms] base_fees(1) [OF vm_lawsD(2,3) [OF assms]]]
  have "call_gas_ok V False (\<lambda>fr m ev. bind_res (Back (fr_stack fr) 0) (\<lambda>req.
      call_mem_gas V (\<lambda>g. gas_add (vl_math V) g (gt_Calls (vl_gas V))) req fr m ev))"
    unfolding call_gas_ok_def
  proof (intro allI impI, goal_cases)
    case (1 fr m ev cost fr' ev')
    then obtain req where r: "call_mem_gas V (\<lambda>g. gas_add (vl_math V) g (gt_Calls (vl_gas V))) req fr m ev = Inr (cost, fr', ev')"
      unfolding bind_res_Inr_iff by blast
    show ?case by (rule F [OF _ disjI2 [OF r]]) simp
  qed
  then show "call_gas_ok V False (gasDelegateCall V)" "call_gas_ok V False (gasStaticCall V)"
    by (simp_all add: gasDelegateCall_def [abs_def] gasStaticCall_def [abs_def])
qed

section \<open>Instructions\<close>

text \<open>An instruction that neither pays nor earns gas.\<close>

definition exec_ok :: "('t, 'd) vm_lib \<Rightarrow> frame \<Rightarrow> ('t, 'd) EVM \<Rightarrow> ('t, 'd) exec_result \<Rightarrow> bool" where
  "exec_ok V fr ev r \<longleftrightarrow> (\<forall>ret err fr' ev'. r = Inr ((ret, err), fr', ev') \<longrightarrow>
     ct_Gas (fr_contract fr') = ct_Gas (fr_contract fr) \<and> ev_rel V ev ev')"

definition instr_ok :: "('t, 'd) vm_lib \<Rightarrow> ('t, 'd) instr \<Rightarrow> bool" where
  "instr_ok V f \<longleftrightarrow> (\<forall>fr ev. exec_ok V fr ev (f fr ev))"

lemma exec_ok_intros:
  "ct_Gas (fr_contract fr') = ct_Gas (fr_contract fr) \<Longrightarrow> ev_rel V ev ev' \<Longrightarrow> exec_ok V fr ev (ok_exec fr' ev')"
  "ct_Gas (fr_contract fr') = ct_Gas (fr_contract fr) \<Longrightarrow> ev_rel V ev ev' \<Longrightarrow> exec_ok V fr ev (Inr (r, fr', ev'))"
  "exec_ok V fr ev (Inl e)"
  by (auto simp: exec_ok_def ok_exec_def)

lemma exec_ok_keeps:
  "keeps V ev0 r \<Longrightarrow> (\<And>x ev. ev_rel V ev0 ev \<Longrightarrow> exec_ok V fr ev0 (f x ev)) \<Longrightarrow> exec_ok V fr ev0 (bind_res r (\<lambda>(x, ev). f x ev))"
  unfolding keeps_def exec_ok_def by (fastforce simp: bind_res_Inr_iff)

lemma exec_ok_bind:
  "(\<And>x. r = Inr x \<Longrightarrow> exec_ok V fr ev (f x)) \<Longrightarrow> exec_ok V fr ev (bind_res r f)"
  by (cases r) (auto simp: exec_ok_def)

lemma exec_ok_pops:
  "(\<And>x st. exec_ok V fr ev (f1 x st)) \<Longrightarrow> exec_ok V fr ev (pop1 s f1)"
  "(\<And>x y st. exec_ok V fr ev (f2 x y st)) \<Longrightarrow> exec_ok V fr ev (pop2 s f2)"
  "(\<And>x y z st. exec_ok V fr ev (f3 x y z st)) \<Longrightarrow> exec_ok V fr ev (pop3 s f3)"
  "(\<And>x y z w st. exec_ok V fr ev (f4 x y z w st)) \<Longrightarrow> exec_ok V fr ev (pop4 s f4)"
  by (auto simp: pop1_def pop2_def pop3_def pop4_def exec_ok_def split: list.splits)

lemma exec_ok_if:
  "(b \<Longrightarrow> exec_ok V fr ev r) \<Longrightarrow> (\<not> b \<Longrightarrow> exec_ok V fr ev s) \<Longrightarrow> exec_ok V fr ev (if b then r else s)"
  by simp

lemmas exec_ok_rules = exec_ok_intros exec_ok_bind exec_ok_pops exec_ok_if

lemma validJumpdest_gas: "validJumpdest d c maps = Inr (b, c', maps') \<Longrightarrow> ct_Gas c' = ct_Gas c"
  by (auto simp: validJumpdest_def Let_def bind_res_Inr_iff split: if_splits option.splits)

lemma jump_to_ok:
  "exec_ok V fr ev (jump_to pos (fr\<lparr>fr_stack := st\<rparr>) ev)"
  by (auto simp: jump_to_def Let_def intro!: exec_ok_rules dest: validJumpdest_gas)

lemma instr_ok_pushes:
  "instr_ok V opAddress" "instr_ok V opOrigin" "instr_ok V opCaller" "instr_ok V opCallValue"
  "instr_ok V opCallDataSize" "instr_ok V opReturnDataSize" "instr_ok V opCodeSize" "instr_ok V opGasprice"
  "instr_ok V opCoinbase" "instr_ok V (opTimestamp W)" "instr_ok V (opNumber W)" "instr_ok V (opDifficulty W)"
  "instr_ok V (opGasLimit W)" "instr_ok V opPc" "instr_ok V opMsize" "instr_ok V opGas"
  "instr_ok V opJumpdest" "instr_ok V opStop" "instr_ok V (makePush W n)"
  by (simp_all add: instr_ok_def opAddress_def opOrigin_def opCaller_def opCallValue_def opCallDataSize_def
      opReturnDataSize_def opCodeSize_def opGasprice_def opCoinbase_def opTimestamp_def opNumber_def
      opDifficulty_def opGasLimit_def opPc_def opMsize_def opGas_def opJumpdest_def opStop_def makePush_def
      push_val_def exec_ok_intros Let_def)

lemma instr_ok_stack: "instr_ok V (stack_op f)"
  by (auto simp: instr_ok_def stack_op_def intro!: exec_ok_rules)

lemma instr_ok_memory:
  "instr_ok V (opCallDataLoad W)" "instr_ok V (opCallDataCopy W)" "instr_ok V opReturnDataCopy"
  "instr_ok V (opCodeCopy W)" "instr_ok V opBlockhash" "instr_ok V opMload" "instr_ok V (opMstore W)"
  "instr_ok V opMstore8" "instr_ok V opJump" "instr_ok V opJumpi" "instr_ok V opReturn" "instr_ok V opRevert"
  by (auto simp: instr_ok_def opCallDataLoad_def opCallDataCopy_def opReturnDataCopy_def opCodeCopy_def
      opBlockhash_def opMload_def opMstore_def opMstore8_def opJump_def opJumpi_def opReturn_def opRevert_def
      copy_to_mem_def Let_def intro!: exec_ok_rules jump_to_ok)

lemma copy_to_mem_ok:
  "ev_rel V ev0 ev \<Longrightarrow> exec_ok V fr ev0 (copy_to_mem W d a b c st fr ev)"
  by (auto simp: copy_to_mem_def intro!: exec_ok_rules)

lemmas exec_ok_reads = exec_ok_pops exec_ok_keeps keeps_db ev_rel_refl exec_ok_intros copy_to_mem_ok exec_ok_if

lemma instr_ok_reads:
  "instr_ok V (opExtCodeSize V)" "instr_ok V (opExtCodeCopy V)" "instr_ok V (opExtCodeHash V)" "instr_ok V (opSload V)"
  unfolding instr_ok_def opExtCodeSize_def opExtCodeCopy_def opExtCodeHash_def opSload_def Let_def
  by (intro allI exec_ok_reads; simp)+

lemma instr_ok_state:
  "instr_ok V (opBalance V)" "instr_ok V (opSstore V)" "instr_ok V (opSuicide V)" "instr_ok V (opSha3 V)" "instr_ok V (makeLog V n)"
proof -
  show "instr_ok V (opBalance V)" unfolding instr_ok_def opBalance_def
    by (rule allI | rule exec_ok_pops | rule exec_ok_keeps keeps_db ev_rel_refl | rule exec_ok_bind | rule exec_ok_intros; simp)+
  show "instr_ok V (opSstore V)" unfolding instr_ok_def opSstore_def
    by (auto intro!: exec_ok_pops exec_ok_bind exec_ok_intros db_do_rel(1))
  have do_ok: "exec_ok V fr ev0 (bind_res (db_do (AddBalance (vl_eth V) a x tk) ev) f)"
    if "ev_rel V ev0 ev" "\<And>ev1. ev_rel V ev0 ev1 \<Longrightarrow> exec_ok V fr ev0 (f ev1)" for fr ev0 ev a x tk f
    by (rule exec_ok_bind) (rule that(2) [OF db_do_trans(2) [OF that(1)]])
  show "instr_ok V (opSuicide V)" unfolding instr_ok_def opSuicide_def
    by (rule allI | rule exec_ok_pops | rule do_ok, assumption | rule exec_ok_keeps keeps_db ev_rel_refl
        | assumption | rule exec_ok_bind | rule exec_ok_intros; simp)+
  show "instr_ok V (opSha3 V)" unfolding instr_ok_def opSha3_def Let_def
    by (auto intro!: exec_ok_pops exec_ok_bind exec_ok_intros ev_rel_state)
  show "instr_ok V (makeLog V n)" unfolding instr_ok_def makeLog_def Let_def
    by (auto intro!: exec_ok_pops exec_ok_bind exec_ok_intros ev_rel_state)
qed

lemmas instr_oks = instr_ok_pushes instr_ok_stack instr_ok_memory instr_ok_reads instr_ok_state

end
