(* ===== verification/EvmCalls.thy ===== *)
theory EvmCalls
  imports EvmGas
begin

text \<open>
  The interface between an instruction and the calls it makes: the gas handed back, the state left behind and
  the termination of every call; and what a step of the interpreter does over operations that have it.
\<close>

section \<open>Interface\<close>

definition call_ok :: "('t, 'd) vm_lib \<Rightarrow> u64 \<Rightarrow> ('t, 'd) EVM \<Rightarrow> ('t, 'd) call_result \<Rightarrow> bool" where
  "call_ok V gas ev r \<longleftrightarrow> (\<forall>ret g err ev'. r = Some (Inr ((ret, g, err), ev')) \<longrightarrow> g \<le> gas \<and> ev_rel V ev ev')"

definition create_ok :: "('t, 'd) vm_lib \<Rightarrow> u64 \<Rightarrow> ('t, 'd) EVM \<Rightarrow> ('t, 'd) create_result \<Rightarrow> bool" where
  "create_ok V gas ev r \<longleftrightarrow> (\<forall>ret a g err ev'. r = Some (Inr ((ret, a, g, err), ev')) \<longrightarrow> g \<le> gas \<and> ev_rel V ev ev')"

text \<open>The number of operations of the machine that nest at one call depth when the code at an address runs:
  \<open>transferMnt\<close> calls any address but its own, \<open>deploySystemContract\<close> creates a system contract.\<close>

definition rank :: "recipient \<Rightarrow> nat" where
  "rank a = (case map_of PrecompiledContractsByzantium a of
     Some p \<Rightarrow> (if p = transferMnt then 3 else if p = deploySystemContract then 2 else 1) | None \<Rightarrow> 1)"

definition create_rank :: "recipient option \<Rightarrow> nat" where
  "create_rank r = (case r of None \<Rightarrow> 3 | Some a \<Rightarrow> rank a)"

text \<open>The system contracts are not precompiled contracts.\<close>

definition system_ok :: "('t, 'd) EVM \<Rightarrow> bool" where
  "system_ok ev \<longleftrightarrow> (\<forall>sc\<in>set (ev_SystemContracts ev). map_of PrecompiledContractsByzantium (sc_address sc) = None)"

text \<open>Operations of rank \<open>r\<close> fit into \<open>n\<close> levels of nesting.\<close>

definition fits :: "('t, 'd) vm_lib \<Rightarrow> nat \<Rightarrow> nat \<Rightarrow> ('t, 'd) EVM \<Rightarrow> bool" where
  "fits V n r ev \<longleftrightarrow> system_ok ev \<and> 3 * (p_CallCreateDepth (vl_params V) + 1 - ev_depth ev) + r \<le> n"

lemma rank_bounds: "1 \<le> rank a" "rank a \<le> 3" "a \<noteq> transferMntAddr \<Longrightarrow> rank a \<le> 2" "create_rank r \<le> 3"
  by (auto simp: rank_def create_rank_def PrecompiledContractsByzantium_def split: option.splits if_splits)

lemma fits_rel: "ev_rel V ev ev' \<Longrightarrow> fits V n r ev' = fits V n r ev"
  by (simp add: fits_def system_ok_def ev_rel_def)

lemma fits_mono: "fits V n r ev \<Longrightarrow> r' \<le> r \<Longrightarrow> fits V n r' ev"
  by (simp add: fits_def)

locale evm_calls =
  fixes V :: "('t, 'd) vm_lib" and E :: "('t, 'd) evm_ops" and n :: nat
  assumes Call: "vm_laws V \<Longrightarrow> call_ok V g ev (eo_Call E c a i g v ev)"
    and CallCode: "vm_laws V \<Longrightarrow> call_ok V g ev (eo_CallCode E c a i g v ev)"
    and DelegateCall: "vm_laws V \<Longrightarrow> call_ok V g ev (eo_DelegateCall E c a i g ev)"
    and StaticCall: "vm_laws V \<Longrightarrow> call_ok V g ev (eo_StaticCall E c a i g ev)"
    and Create: "vm_laws V \<Longrightarrow> create_ok V g ev (eo_Create E c b g v r ev)"
    and Create2: "vm_laws V \<Longrightarrow> create_ok V g ev (eo_Create2 E c b g v s ev)"
    and Call_returns: "vm_laws V \<Longrightarrow> fits V n (rank a) ev \<Longrightarrow> eo_Call E c a i g v ev \<noteq> None"
    and CallCode_returns: "vm_laws V \<Longrightarrow> fits V n (rank a) ev \<Longrightarrow> eo_CallCode E c a i g v ev \<noteq> None"
    and DelegateCall_returns: "vm_laws V \<Longrightarrow> fits V n (rank a) ev \<Longrightarrow> eo_DelegateCall E c a i g ev \<noteq> None"
    and StaticCall_returns: "vm_laws V \<Longrightarrow> fits V n (rank a) ev \<Longrightarrow> eo_StaticCall E c a i g ev \<noteq> None"
    and Create_returns: "vm_laws V \<Longrightarrow> fits V n (create_rank r) ev \<Longrightarrow> eo_Create E c b g v r ev \<noteq> None"
    and Create2_returns: "vm_laws V \<Longrightarrow> fits V n 3 ev \<Longrightarrow> eo_Create2 E c b g v s ev \<noteq> None"

section \<open>Steps of the interpreter\<close>

fun step_frame :: "('t, 'd) step \<Rightarrow> frame" where
  "step_frame (Done ret err fr ev) = fr"
| "step_frame (Next fr ev) = fr"

fun step_evm :: "('t, 'd) step \<Rightarrow> ('t, 'd) EVM" where
  "step_evm (Done ret err fr ev) = ev"
| "step_evm (Next fr ev) = ev"

fun goes_on :: "('t, 'd) step \<Rightarrow> bool" where
  "goes_on (Done ret err fr ev) = False"
| "goes_on (Next fr ev) = True"

abbreviation "fr_gas fr \<equiv> ct_Gas (fr_contract fr)"

text \<open>A step earns no gas, and pays some if the loop goes on.\<close>

definition step_ok :: "('t, 'd) vm_lib \<Rightarrow> frame \<Rightarrow> ('t, 'd) EVM \<Rightarrow> ('t, 'd) step \<Rightarrow> bool" where
  "step_ok V fr ev s \<longleftrightarrow> fr_gas (step_frame s) \<le> fr_gas fr \<and> ev_rel V ev (step_evm s) \<and>
     (goes_on s \<longrightarrow> fr_gas (step_frame s) < fr_gas fr)"

definition oper_ok :: "('t, 'd) vm_lib \<Rightarrow> nat \<Rightarrow> ('t, 'd) operation \<Rightarrow> bool" where
  "oper_ok V n p \<longleftrightarrow> (\<forall>m fr ev. (\<forall>s. charge_step V p m fr ev = Some (Inr s) \<longrightarrow> step_ok V fr ev s) \<and>
     (fits V n 3 ev \<longrightarrow> charge_step V p m fr ev \<noteq> None))"

lemma execute_step_Inr:
  assumes "execute_step p fr ev = Some (Inr s)"
  shows "\<exists>ret err fr' ev'. op_execute p fr ev = Some (Inr ((ret, err), fr', ev')) \<and>
    fr_contract (step_frame s) = fr_contract fr' \<and> (step_evm s = ev' \<or> step_evm s = ev'\<lparr>ev_returnData := ret\<rparr>) \<and>
    (goes_on s \<longrightarrow> \<not> op_halts p \<and> \<not> op_reverts p)"
proof -
  from assms obtain ret err fr' ev' where e: "op_execute p fr ev = Some (Inr ((ret, err), fr', ev'))" and
    s: "s = (let ev = (if op_returns p then ev'\<lparr>ev_returnData := ret\<rparr> else ev') in
       if err \<noteq> None then Done [] err fr' ev
       else if op_reverts p then Done ret (Some errExecutionReverted) fr' ev
       else if op_halts p then Done ret None fr' ev
       else if \<not> op_jumps p then Next (fr'\<lparr>fr_pc := fr_pc fr' + 1\<rparr>) ev else Next fr' ev)"
    unfolding execute_step_def bindF_Inr Let_def split_paired_Ex prod.case option.inject sum.inject by blast
  show ?thesis by (intro exI conjI, rule e) (simp_all add: s Let_def)
qed

text \<open>The cases of a charged operation: not paid, or paid and executed.\<close>

lemma charge_step_Inr:
  assumes "charge_step V p m fr ev = Some (Inr s)"
  obtains (unpaid) cost fr1 ev1 where "op_gasCost p fr m ev = Inr (cost, fr1, ev1)"
      "s = Done [] (Some ErrOutOfGas) fr1 ev1"
  | (paid) cost fr1 ev1 fr2 ret err fr3 ev3 where "op_gasCost p fr m ev = Inr (Inr cost, fr1, ev1)"
      "cost \<le> fr_gas fr1" "fr_gas fr2 = fr_gas fr1 - cost" "fr_stack fr2 = fr_stack fr1"
      "op_execute p fr2 ev1 = Some (Inr ((ret, err), fr3, ev3))" "fr_contract (step_frame s) = fr_contract fr3"
      "step_evm s = ev3 \<or> step_evm s = ev3\<lparr>ev_returnData := ret\<rparr>" "goes_on s \<longrightarrow> \<not> op_halts p \<and> \<not> op_reverts p"
proof -
  from assms obtain cost fr1 ev1 where g: "op_gasCost p fr m ev = Inr (cost, fr1, ev1)" and
    r: "(case cost of Inl e \<Rightarrow> Some (Inr (Done [] (Some ErrOutOfGas) fr1 ev1))
       | Inr cost \<Rightarrow>
           let (paid, c) = UseGas cost (fr_contract fr1) in
           if \<not> paid then Some (Inr (Done [] (Some ErrOutOfGas) fr1 ev1))
           else execute_step p (fr1\<lparr>fr_contract := c,
                  fr_mem := if m > 0 then mem_Resize m (fr_mem fr1) else fr_mem fr1\<rparr>) ev1) = Some (Inr s)"
    unfolding charge_step_def bindF_Inr split_paired_Ex prod.case option.inject by blast
  show thesis
  proof (cases "\<exists>k. cost = Inr k \<and> k \<le> fr_gas fr1")
    case True
    then obtain k where k: "cost = Inr k" "k \<le> fr_gas fr1" by blast
    let ?fr2 = "fr1\<lparr>fr_contract := (fr_contract fr1)\<lparr>ct_Gas := fr_gas fr1 - k\<rparr>,
      fr_mem := if m > 0 then mem_Resize m (fr_mem fr1) else fr_mem fr1\<rparr>"
    have f: "fr_gas ?fr2 = fr_gas fr1 - k" "fr_stack ?fr2 = fr_stack fr1" "execute_step p ?fr2 ev1 = Some (Inr s)"
      using r k by (simp_all add: UseGas_def not_less [symmetric])
    from execute_step_Inr [OF f(3)] paid [OF g [unfolded k(1)] k(2) f(1,2)] show thesis by blast
  next
    case False
    then have "s = Done [] (Some ErrOutOfGas) fr1 ev1"
      using r by (auto simp: UseGas_def not_less split: sum.splits if_splits)
    then show thesis using unpaid g by blast
  qed
qed

lemma execute_step_None: "execute_step p fr ev = None \<longleftrightarrow> op_execute p fr ev = None"
  by (auto simp: execute_step_def bindF_None Let_def)

lemma charge_step_None:
  assumes "charge_step V p m fr ev = None"
  obtains cost fr1 ev1 fr2 where "op_gasCost p fr m ev = Inr (cost, fr1, ev1)" "op_execute p fr2 ev1 = None"
proof -
  from assms obtain cost fr1 ev1 where g: "op_gasCost p fr m ev = Inr (cost, fr1, ev1)" and
    r: "(case cost of Inl e \<Rightarrow> Some (Inr (Done [] (Some ErrOutOfGas) fr1 ev1))
       | Inr cost \<Rightarrow>
           let (paid, c) = UseGas cost (fr_contract fr1) in
           if \<not> paid then Some (Inr (Done [] (Some ErrOutOfGas) fr1 ev1))
           else execute_step p (fr1\<lparr>fr_contract := c,
                  fr_mem := if m > 0 then mem_Resize m (fr_mem fr1) else fr_mem fr1\<rparr>) ev1) = None"
    unfolding charge_step_def bindF_None split_paired_Ex prod.case option.inject by blast
  from r have "\<exists>fr2. op_execute p fr2 ev1 = None"
    by (cases cost) (auto simp: UseGas_def execute_step_None simp del: split_paired_Ex split: if_splits)
  then show thesis using that g by blast
qed

text \<open>Operations that earn no gas while they execute.\<close>

definition exec_le :: "('t, 'd) vm_lib \<Rightarrow> nat \<Rightarrow> ('t, 'd) executionFunc \<Rightarrow> bool" where
  "exec_le V n f \<longleftrightarrow> (\<forall>fr ev. (\<forall>ret err fr' ev'. f fr ev = Some (Inr ((ret, err), fr', ev')) \<longrightarrow>
     fr_gas fr' \<le> fr_gas fr \<and> ev_rel V ev ev') \<and> (fits V n 3 ev \<longrightarrow> f fr ev \<noteq> None))"

lemma exec_le_plain: "instr_ok V f \<Longrightarrow> exec_le V n (plain f)"
  by (simp add: exec_le_def plain_def instr_ok_def exec_ok_def)

lemma ev_rel_returnData: "step_evm s = ev3 \<or> step_evm s = ev3\<lparr>ev_returnData := ret\<rparr> \<Longrightarrow> ev_rel V ev ev3 \<Longrightarrow> ev_rel V ev (step_evm s)"
  by auto

lemma paid_oper_ok:
  assumes "exec_le V n (op_execute p)" "gas_ok V lo (op_gasCost p)" "lo = 1 \<or> op_halts p \<or> op_reverts p"
  shows "oper_ok V n p"
  unfolding oper_ok_def
proof (intro allI conjI impI)
  fix m fr ev s assume "charge_step V p m fr ev = Some (Inr s)"
  then show "step_ok V fr ev s"
  proof (cases rule: charge_step_Inr)
    case (unpaid cost fr1 ev1)
    then show ?thesis using assms(2) by (auto simp: gas_ok_def step_ok_def)
  next
    case (paid cost fr1 ev1 fr2 ret err fr3 ev3)
    have 1: "fr_contract fr1 = fr_contract fr" "ev_rel V ev ev1" "lo \<le> unat cost"
      using assms(2) paid(1) unfolding gas_ok_def by blast+
    have 2: "fr_gas fr3 \<le> fr_gas fr2" "ev_rel V ev1 ev3" using assms(1) paid(5) unfolding exec_le_def by blast+
    have "unat (fr_gas fr3) \<le> unat (fr_gas fr) - unat cost" "unat cost \<le> unat (fr_gas fr)"
      using 1(1) 2(1) paid(2,3) by (simp_all add: word_le_nat_alt unat_sub)
    then show ?thesis
      using 1 paid(6,8) assms(3) ev_rel_returnData [OF paid(7) ev_rel_trans [OF 1(2) 2(2)]]
      by (auto simp: step_ok_def word_le_nat_alt word_less_nat_alt)
  qed
next
  fix m fr ev assume f: "fits V n 3 ev"
  show "charge_step V p m fr ev \<noteq> None"
  proof
    assume "charge_step V p m fr ev = None"
    then obtain cost fr1 ev1 fr2 where g: "op_gasCost p fr m ev = Inr (cost, fr1, ev1)" "op_execute p fr2 ev1 = None"
      by (rule charge_step_None)
    then have "ev_rel V ev ev1" using assms(2) unfolding gas_ok_def by blast
    then show False using g(2) f fits_rel assms(1) unfolding exec_le_def by blast
  qed
qed

section \<open>Calls as instructions\<close>

text \<open>An instruction that gets back at most what the call was given, with the stipend if a value is sent.\<close>

definition exec_call :: "('t, 'd) vm_lib \<Rightarrow> nat \<Rightarrow> bool \<Rightarrow> ('t, 'd) executionFunc \<Rightarrow> bool" where
  "exec_call V n has_value f \<longleftrightarrow> (\<forall>fr ev. (\<forall>ret err fr' ev'. f fr ev = Some (Inr ((ret, err), fr', ev')) \<longrightarrow>
     ev_rel V ev ev' \<and> (\<exists>g. fr_gas fr' = fr_gas fr + g \<and> (g \<le> ev_callGasTemp ev
       \<or> has_value \<and> fr_stack fr ! 2 \<noteq> 0 \<and> g \<le> ev_callGasTemp ev + 2300))) \<and>
     (fits V n 3 ev \<longrightarrow> f fr ev \<noteq> None))"

lemma gas_back_less:
  assumes "g \<le> temp \<or> P \<and> g \<le> temp + 2300" "unat cost = b + unat (temp :: u64)" "0 < b" "P \<longrightarrow> 2300 < b" "cost \<le> gas"
  shows "gas - cost + g < gas"
proof -
  have c: "unat cost < 2 ^ 64" using unat_lt_exp [of cost] by simp
  have "unat g < unat cost"
  proof (cases "g \<le> temp")
    case False
    then have "P" "g \<le> temp + 2300" using assms(1) by auto
    moreover from this(1) have "unat (temp + 2300) = unat temp + 2300" using assms(2,4) c by (subst unat_add_lt) auto
    ultimately show ?thesis using assms(2,4) by (simp add: word_le_nat_alt)
  qed (use assms(2,3) in \<open>simp add: word_le_nat_alt\<close>)
  moreover have "unat cost \<le> unat gas" "unat gas < 2 ^ 64" using assms(5) unat_lt_exp [of gas] by (simp_all add: word_le_nat_alt)
  moreover from calculation have "unat (gas - cost + g) = unat gas - unat cost + unat g"
    using assms(5) by (subst unat_add_lt) (simp_all add: unat_sub)
  ultimately show ?thesis by (simp add: word_less_nat_alt)
qed

lemma call_oper_ok:
  assumes "exec_call V n hv (op_execute p)" "call_gas_ok V hv (op_gasCost p)"
  shows "oper_ok V n p"
  unfolding oper_ok_def
proof (intro allI conjI impI)
  fix m fr ev s assume "charge_step V p m fr ev = Some (Inr s)"
  then show "step_ok V fr ev s"
  proof (cases rule: charge_step_Inr)
    case (unpaid cost fr1 ev1)
    then show ?thesis using assms(2) by (auto simp: call_gas_ok_def step_ok_def)
  next
    case (paid cost fr1 ev1 fr2 ret err fr3 ev3)
    have 1: "fr_contract fr1 = fr_contract fr" "fr_stack fr1 = fr_stack fr" "ev_rel V ev ev1"
      "\<exists>b. unat cost = b + unat (ev_callGasTemp ev1) \<and> 0 < b \<and> (hv \<and> fr_stack fr ! 2 \<noteq> 0 \<longrightarrow> 2300 < b)"
      using assms(2) paid(1) unfolding call_gas_ok_def by blast+
    from assms(1) paid(5) obtain g where 2: "ev_rel V ev1 ev3" "fr_gas fr3 = fr_gas fr2 + g"
      "g \<le> ev_callGasTemp ev1 \<or> (hv \<and> fr_stack fr2 ! 2 \<noteq> 0) \<and> g \<le> ev_callGasTemp ev1 + 2300"
      unfolding exec_call_def by blast
    from 1(4) obtain b where b: "unat cost = b + unat (ev_callGasTemp ev1)" "0 < b" "hv \<and> fr_stack fr2 ! 2 \<noteq> 0 \<longrightarrow> 2300 < b"
      using 1(2) paid(4) by auto
    have "fr_gas fr3 < fr_gas fr" using gas_back_less [OF 2(3) b] paid(2,3) 2(2) 1(1) by simp
    then show ?thesis using paid(6) ev_rel_returnData [OF paid(7) ev_rel_trans [OF 1(3) 2(1)]] by (simp add: step_ok_def)
  qed
next
  fix m fr ev assume f: "fits V n 3 ev"
  show "charge_step V p m fr ev \<noteq> None"
  proof
    assume "charge_step V p m fr ev = None"
    then obtain cost fr1 ev1 fr2 where g: "op_gasCost p fr m ev = Inr (cost, fr1, ev1)" "op_execute p fr2 ev1 = None"
      by (rule charge_step_None)
    then have "ev_rel V ev ev1" using assms(2) unfolding call_gas_ok_def by blast
    then show False using g(2) f fits_rel assms(1) unfolding exec_call_def by blast
  qed
qed

lemma Modify_gas [simp]: "ct_Gas (ModifyTokenIDQueried a c) = ct_Gas c"
  by (simp add: ModifyTokenIDQueried_def)

lemma after_call_gas:
  "after_call toAddr ro rs st ret g err fr ev = Inr (r, fr', ev') \<Longrightarrow> ev' = ev \<and> fr_gas fr' = fr_gas fr + g"
  by (auto simp: after_call_def Let_def bind_res_Inr_iff)

lemma call_args_value:
  "math_laws (vl_math V) \<Longrightarrow> call_args V True fr = Inr (a, val, args) \<Longrightarrow> val \<noteq> 0 \<Longrightarrow> fr_stack fr ! 2 \<noteq> 0"
  by (auto simp: call_args_def pops_Inr bind_res_Inr_iff math_simps)

text \<open>The four call instructions differ in the operation and in whether a value is on the stack.\<close>

lemma exec_callI:
  assumes "vm_laws V" and
    opn: "\<And>fr ev. opn fr ev = bindF (Some (call_args V hv fr)) (\<lambda>(toAddr, val, args, retOffset, retSize, st).
       bindF (f (as_caller (fr_contract fr)) toAddr args
           (if hv \<and> val \<noteq> 0 then ev_callGasTemp ev + p_CallStipend (vl_params V) else ev_callGasTemp ev) val ev)
         (\<lambda>((ret, returnGas, err), ev). Some (after_call toAddr retOffset retSize st ret returnGas err fr ev)))" and
    ok: "\<And>c a i g v ev. call_ok V g ev (f c a i g v ev)" and
    returns: "\<And>c a i g v ev. fits V n (rank a) ev \<Longrightarrow> f c a i g v ev \<noteq> None"
  shows "exec_call V n hv opn"
  unfolding exec_call_def
proof (intro allI conjI impI)
  fix fr ev ret err fr' ev' assume "opn fr ev = Some (Inr ((ret, err), fr', ev'))"
  then obtain a val args ro rs st r g e ev1 where c: "call_args V hv fr = Inr (a, val, args, ro, rs, st)"
    "f (as_caller (fr_contract fr)) a args
       (if hv \<and> val \<noteq> 0 then ev_callGasTemp ev + p_CallStipend (vl_params V) else ev_callGasTemp ev) val ev = Some (Inr ((r, g, e), ev1))"
    "after_call a ro rs st r g e fr ev1 = Inr ((ret, err), fr', ev')"
    unfolding opn bindF_Inr split_paired_Ex prod.case option.inject by blast
  have s: "p_CallStipend (vl_params V) = 2300" using vm_lawsD(2) [OF assms(1)] by (simp add: gas_params_def)
  from ok c(2) have "g \<le> (if hv \<and> val \<noteq> 0 then ev_callGasTemp ev + 2300 else ev_callGasTemp ev)" "ev_rel V ev ev1"
    unfolding call_ok_def s by blast+
  then show "ev_rel V ev ev'" "\<exists>g. fr_gas fr' = fr_gas fr + g \<and> (g \<le> ev_callGasTemp ev
      \<or> hv \<and> fr_stack fr ! 2 \<noteq> 0 \<and> g \<le> ev_callGasTemp ev + 2300)"
    using after_call_gas [OF c(3)] call_args_value [OF vm_lawsD(1) [OF assms(1)], of fr a val] c(1) by (auto split: if_splits)
next
  fix fr ev assume "fits V n 3 ev"
  then have "fits V n (rank a) ev" for a using fits_mono rank_bounds(2) by blast
  then show "opn fr ev \<noteq> None" using returns by (auto simp: opn bindF_None split: prod.splits)
qed

lemma create_gas:
  assumes "gas \<le> ct_Gas (c :: Contract)" "g \<le> gas"
  shows "ct_Gas (snd (UseGas gas c)) + g \<le> ct_Gas c"
proof -
  have "unat (ct_Gas c - gas) = unat (ct_Gas c) - unat gas" using assms(1) by (simp add: unat_sub)
  then have "unat (ct_Gas c - gas + g) = unat (ct_Gas c) - unat gas + unat g"
    using assms unat_lt_exp [of "ct_Gas c"] by (subst unat_add_lt) (auto simp: word_le_nat_alt)
  moreover have "\<not> ct_Gas c < gas" using assms(1) by simp
  ultimately show ?thesis using assms by (simp add: UseGas_def word_le_nat_alt)
qed

lemma part_le: "gas - gas div 64 \<le> (gas :: u64)"
  by (simp add: word_le_nat_alt unat_sub unat_div)

context evm_calls
begin

lemma exec_calls:
  assumes "vm_laws V"
  shows "exec_call V n True (opCall V E)" "exec_call V n True (opCallCode V E)"
    "exec_call V n False (opDelegateCall V E)" "exec_call V n False (opStaticCall V E)"
     apply (rule exec_callI [OF assms, where f = "eo_Call E"])
       apply (simp_all add: opCall_def Let_def Call Call_returns assms)
    apply (rule exec_callI [OF assms, where f = "eo_CallCode E"])
      apply (simp_all add: opCallCode_def Let_def CallCode CallCode_returns assms)
   apply (rule exec_callI [OF assms, where f = "\<lambda>c a i g v. eo_DelegateCall E c a i g"])
     apply (simp_all add: opDelegateCall_def Let_def DelegateCall DelegateCall_returns assms)
  apply (rule exec_callI [OF assms, where f = "\<lambda>c a i g v. eo_StaticCall E c a i g"])
    apply (simp_all add: opStaticCall_def Let_def StaticCall StaticCall_returns assms)
  done

lemma exec_creates:
  assumes "vm_laws V"
  shows "exec_le V n (opCreate V E)" "exec_le V n (opCreate2 E)"
proof -
  show "exec_le V n (opCreate V E)" unfolding exec_le_def
  proof (intro allI conjI impI)
    fix fr ev ret err fr' ev' assume a: "opCreate V E fr ev = Some (Inr ((ret, err), fr', ev'))"
    let ?g = "if IsEIP150 (vl_rules V) then fr_gas fr - fr_gas fr div 64 else fr_gas fr"
    from a obtain input val r addr g e where
      c: "eo_Create E (as_caller (snd (UseGas ?g (fr_contract fr)))) input ?g val None ev = Some (Inr ((r, addr, g, e), ev'))"
      "fr_gas fr' = ct_Gas (snd (UseGas ?g (fr_contract fr))) + g"
      unfolding opCreate_def bindF_Inr Let_def split_paired_Ex prod.case option.inject split_beta
      by (clarsimp split: option.splits)
    have g: "?g \<le> fr_gas fr" using part_le by simp
    from c(1) Create [OF assms] have "g \<le> ?g" "ev_rel V ev ev'" unfolding create_ok_def by blast+
    then show "fr_gas fr' \<le> fr_gas fr" "ev_rel V ev ev'" using create_gas [OF g] c(2) by simp_all
  next
    fix fr ev assume "fits V n 3 ev"
    then have "eo_Create E c b g v None ev \<noteq> None" for c b g v using Create_returns [OF assms, of None ev] by (simp add: create_rank_def)
    then have "opCreate V E fr ev = None \<Longrightarrow> False"
      unfolding opCreate_def bindF_None Let_def split_paired_Ex prod.case option.inject split_beta by (clarsimp split: option.splits)
    then show "opCreate V E fr ev \<noteq> None" by blast
  qed
  show "exec_le V n (opCreate2 E)" unfolding exec_le_def
  proof (intro allI conjI impI)
    fix fr ev ret err fr' ev' assume a: "opCreate2 E fr ev = Some (Inr ((ret, err), fr', ev'))"
    let ?g = "fr_gas fr - fr_gas fr div 64"
    from a obtain input val salt r addr g e where
      c: "eo_Create2 E (as_caller (snd (UseGas ?g (fr_contract fr)))) input ?g val salt ev = Some (Inr ((r, addr, g, e), ev'))"
      "fr_gas fr' = ct_Gas (snd (UseGas ?g (fr_contract fr))) + g"
      unfolding opCreate2_def bindF_Inr Let_def split_paired_Ex prod.case option.inject split_beta
      by clarsimp
    from c(1) Create2 [OF assms] have "g \<le> ?g" "ev_rel V ev ev'" unfolding create_ok_def by blast+
    then show "fr_gas fr' \<le> fr_gas fr" "ev_rel V ev ev'" using create_gas [OF part_le] c(2) by simp_all
  next
    fix fr ev assume "fits V n 3 ev"
    then have "eo_Create2 E c b g v s ev \<noteq> None" for c b g v s using Create2_returns [OF assms, of ev] by simp
    then have "opCreate2 E fr ev = None \<Longrightarrow> False"
      unfolding opCreate2_def bindF_None Let_def split_paired_Ex prod.case option.inject split_beta by clarsimp
    then show "opCreate2 E fr ev \<noteq> None" by blast
  qed
qed

end

end
