(* ===== verification/EvmRun.thy ===== *)
theory EvmRun
  imports EvmCalls
begin

text \<open>
  The interpreter loop, the precompiled contracts and the calls of \<open>core/vm/evm.go\<close> over operations that have
  the interface \<open>evm_calls\<close>, and the interpretation of the interface on the operations of the machine.
\<close>

section \<open>Instruction tables\<close>

definition table_ok :: "('t, 'd) vm_lib \<Rightarrow> nat \<Rightarrow> (u8 \<times> ('t, 'd) operation) list \<Rightarrow> bool" where
  "table_ok V n t \<longleftrightarrow> list_all (\<lambda>(opc, p). oper_ok V n p) t"

lemma table_ok_append [simp]:
  "table_ok V n (a @ b) \<longleftrightarrow> table_ok V n a \<and> table_ok V n b" "table_ok V n (x # b) \<longleftrightarrow> oper_ok V n (snd x) \<and> table_ok V n b"
  "table_ok V n []"
  by (auto simp: table_ok_def split: prod.splits)

lemmas paid_ok = paid_oper_ok [where lo = 1] and free_ok = paid_oper_ok [where lo = 0]

lemmas oper_sel = oper_def mem_oper_def on_stack_def exec_le_plain

lemma const_pays: "g \<noteq> 0 \<Longrightarrow> gas_ok V 1 (constGasFunc g)"
  by (rule gas_ok_const) (simp add: Suc_le_eq unat_gt_0)

lemma arith_ok: "vm_laws V \<Longrightarrow> table_ok V n (arith_ops V)"
  unfolding arith_ops_def table_ok_append snd_conv
  apply (intro conjI table_ok_append(3))
  apply (rule free_ok; simp add: oper_sel instr_oks gas_ok_const del: One_nat_def)
  apply (rule paid_ok; simp add: oper_sel instr_oks const_pays gas_pays del: One_nat_def)+
  done

lemma env_ok: "vm_laws V \<Longrightarrow> table_ok V n (env_ops V)"
  unfolding env_ops_def table_ok_append snd_conv
  by (intro conjI table_ok_append(3); rule paid_ok; simp add: oper_sel instr_oks const_pays gas_pays del: One_nat_def)

lemma store_ok: "vm_laws V \<Longrightarrow> table_ok V n (store_ops V)"
  unfolding store_ops_def table_ok_append snd_conv
  by (intro conjI table_ok_append(3); rule paid_ok; simp add: oper_sel instr_oks const_pays gas_pays del: One_nat_def)

lemma many_ok:
  assumes "vm_laws V"
  shows "table_ok V n (push_ops V)" "table_ok V n dup_ops" "table_ok V n swap_ops" "table_ok V n (log_ops V)"
  unfolding push_ops_def dup_ops_def swap_ops_def log_ops_def table_ok_def list_all_iff
  by (auto intro!: paid_ok simp: oper_sel instr_oks gas_pays assms simp del: One_nat_def)

definition run_ok :: "('t, 'd) vm_lib \<Rightarrow> Contract \<Rightarrow> ('t, 'd) EVM \<Rightarrow> ('t, 'd) run_result \<Rightarrow> bool" where
  "run_ok V c ev r \<longleftrightarrow> (\<forall>ret err c' ev'. r = Some (Inr ((ret, err), c', ev')) \<longrightarrow> ct_Gas c' \<le> ct_Gas c \<and> ev_rel V ev ev')"

lemma run_ok_intros:
  "ct_Gas c' \<le> ct_Gas c \<Longrightarrow> ev_rel V ev0 ev \<Longrightarrow> run_ok V c ev0 (run_done ret err c' ev)"
  "ev_rel V ev0 ev \<Longrightarrow> run_ok V c ev0 (burn e c' ev)"
  "run_ok V c ev0 (Some (Inl e))"
  "(b \<Longrightarrow> run_ok V c ev0 r) \<Longrightarrow> (\<not> b \<Longrightarrow> run_ok V c ev0 s) \<Longrightarrow> run_ok V c ev0 (if b then r else s)"
  by (simp_all add: run_ok_def run_done_def burn_def)

lemma run_ok_keeps:
  "keeps V ev0 r \<Longrightarrow> (\<And>x ev. ev_rel V ev0 ev \<Longrightarrow> run_ok V c ev0 (f x ev)) \<Longrightarrow> run_ok V c ev0 (bindF (Some r) (\<lambda>(x, ev). f x ev))"
  unfolding run_ok_def keeps_def bindF_Inr by fastforce

lemma run_ok_call:
  "(\<And>ret g err ev1. r = Some (Inr ((ret, g, err), ev1)) \<Longrightarrow> run_ok V c ev0 (f ret g err ev1))
    \<Longrightarrow> run_ok V c ev0 (bindF r (\<lambda>((ret, g, err), ev1). f ret g err ev1))"
  unfolding run_ok_def bindF_Inr split_paired_Ex prod.case by blast

lemma run_ok_pair:
  "(\<And>x ev1. r = Inr (x, ev1) \<Longrightarrow> run_ok V c ev0 (f x ev1)) \<Longrightarrow> run_ok V c ev0 (bindF (Some r) (\<lambda>(x, ev1). f x ev1))"
  unfolding run_ok_def bindF_Inr split_paired_Ex prod.case option.inject by blast

lemma run_ok_created:
  "(\<And>ret a g err ev1. r = Some (Inr ((ret, a, g, err), ev1)) \<Longrightarrow> run_ok V c ev0 (f ret a g err ev1))
    \<Longrightarrow> run_ok V c ev0 (bindF r (\<lambda>((ret, a, g, err), ev1). f ret a g err ev1))"
  unfolding run_ok_def bindF_Inr split_paired_Ex prod.case by blast

lemma run_ok_bind: "(\<And>x. r = Some (Inr x) \<Longrightarrow> run_ok V c ev0 (f x)) \<Longrightarrow> run_ok V c ev0 (bindF r f)"
  unfolding run_ok_def bindF_Inr by blast

text \<open>A step panics, ends without effect, or charges and executes an operation of the table.\<close>

lemma run_step_cases:
  "(\<exists>e. run_step V E fr ev = Some (Inl e)) \<or> (\<exists>err. run_step V E fr ev = Some (Inr (Done [] (Some err) fr ev)))
   \<or> (\<exists>p m. map_of (JumpTable V E) (GetOp (fr_contract fr) (fr_pc fr)) = Some p \<and> run_step V E fr ev = charge_step V p m fr ev)"
proof (cases "map_of (JumpTable V E) (GetOp (fr_contract fr) (fr_pc fr))")
  case (Some p)
  let ?st = "fr_stack fr" and ?o = "GetOp (fr_contract fr) (fr_pc fr)"
  show ?thesis
  proof (cases "makeStackFunc (vl_params V) (op_pops p) (op_pushs p) ?st")
    case None
    show ?thesis
    proof (cases "enforceRestrictions V ?o p ?st ev")
      case (Inr restr)
      then show ?thesis
        using Some None by (cases restr; cases "memory_size V p ?st") (auto simp: run_step_def bindF_def split: sum.splits)
    qed (use Some None in \<open>simp add: run_step_def bindF_def\<close>)
  qed (use Some in \<open>simp add: run_step_def\<close>)
qed (simp add: run_step_def)

context evm_calls
begin

lemma close_ok: "vm_laws V \<Longrightarrow> table_ok V n (close_ops V E)"
  unfolding close_ops_def table_ok_append snd_conv
  apply (intro conjI table_ok_append(3))
      apply (rule paid_ok; simp add: oper_sel exec_creates gas_pays del: One_nat_def)
     apply (rule call_oper_ok [where hv = True]; simp add: oper_sel exec_calls gas_ok_Call del: One_nat_def)
    apply (rule call_oper_ok [where hv = True]; simp add: oper_sel exec_calls gas_ok_CallCode del: One_nat_def)
   apply (rule free_ok; simp add: oper_sel instr_oks gas_free del: One_nat_def)
  apply (rule free_ok; simp add: oper_sel instr_oks gas_ok_suicide del: One_nat_def)
  done

lemma frontier_ok: "vm_laws V \<Longrightarrow> table_ok V n (newFrontierInstructionSet V E)"
  by (simp add: newFrontierInstructionSet_def arith_ok env_ok store_ok many_ok close_ok)

lemma homestead_ok: "vm_laws V \<Longrightarrow> table_ok V n (newHomesteadInstructionSet V E)"
  unfolding newHomesteadInstructionSet_def table_ok_append snd_conv
  by (intro conjI frontier_ok call_oper_ok [where hv = False]; simp add: oper_sel exec_calls gas_ok_DelegateCall del: One_nat_def)

lemma byzantium_ok:
  assumes "vm_laws V"
  shows "table_ok V n (newByzantiumInstructionSet V E)"
  unfolding newByzantiumInstructionSet_def table_ok_append snd_conv
  apply (intro conjI homestead_ok [OF assms])
     apply (rule call_oper_ok [where hv = False]; simp add: oper_sel exec_calls gas_ok_DelegateCall assms del: One_nat_def)
    apply (rule paid_ok; simp add: oper_sel instr_oks const_pays del: One_nat_def)
   apply (rule paid_ok; simp add: oper_sel instr_oks gas_pays assms del: One_nat_def)
  apply (rule free_ok; simp add: oper_sel instr_oks gas_free del: One_nat_def)
  done

lemma constantinople_ok:
  assumes "vm_laws V" "IsConstantinople (vl_rules V)"
  shows "table_ok V n (newConstantinopleInstructionSet V E)"
  unfolding newConstantinopleInstructionSet_def table_ok_append snd_conv
  apply (intro conjI byzantium_ok [OF assms(1)])
      apply (rule paid_ok; simp add: oper_sel instr_oks const_pays del: One_nat_def)
     apply (rule paid_ok; simp add: oper_sel instr_oks const_pays del: One_nat_def)
    apply (rule paid_ok; simp add: oper_sel instr_oks const_pays del: One_nat_def)
   apply (rule paid_ok; simp add: oper_sel instr_oks gas_pays assms del: One_nat_def)
  apply (rule paid_ok; simp add: oper_sel exec_creates gas_pays assms del: One_nat_def)
  done

lemma JumpTable_ok:
  assumes "vm_laws V" "map_of (JumpTable V E) opc = Some p"
  shows "oper_ok V n p"
proof -
  have "table_ok V n (JumpTable V E)"
    using frontier_ok homestead_ok byzantium_ok constantinople_ok assms(1) by (simp add: JumpTable_def)
  then show ?thesis using map_of_SomeD [OF assms(2)] by (auto simp: table_ok_def list_all_iff)
qed

section \<open>The loop\<close>

lemma run_step_ok:
  assumes "vm_laws V" "run_step V E fr ev = Some (Inr s)"
  shows "step_ok V fr ev s"
  using run_step_cases [of V E fr ev]
proof (elim disjE exE conjE)
  fix p m assume "map_of (JumpTable V E) (GetOp (fr_contract fr) (fr_pc fr)) = Some p" "run_step V E fr ev = charge_step V p m fr ev"
  then show ?thesis using JumpTable_ok [OF assms(1)] assms(2) by (simp add: oper_ok_def)
qed (use assms(2) in \<open>simp_all add: step_ok_def\<close>)

lemma run_step_returns:
  assumes "vm_laws V" "fits V n 3 ev"
  shows "run_step V E fr ev \<noteq> None"
  using run_step_cases [of V E fr ev]
proof (elim disjE exE conjE)
  fix p m assume "map_of (JumpTable V E) (GetOp (fr_contract fr) (fr_pc fr)) = Some p" "run_step V E fr ev = charge_step V p m fr ev"
  then show ?thesis using JumpTable_ok [OF assms(1)] assms(2) by (simp add: oper_ok_def)
qed simp_all

lemma run_loop_ok:
  assumes "vm_laws V"
  shows "run_ok V (fr_contract fr) ev (run_loop V E k fr ev)"
proof (induction k arbitrary: fr ev)
  case (Suc k)
  {
    fix ret err c' ev' assume a: "run_loop V E (Suc k) fr ev = Some (Inr ((ret, err), c', ev'))"
    have "ct_Gas c' \<le> fr_gas fr \<and> ev_rel V ev ev'"
    proof (cases "ev_abort ev")
      case True
      then show ?thesis using a by (simp add: run_done_def)
    next
      case False
      with a obtain s where s: "run_step V E fr ev = Some (Inr s)" and
        r: "(case s of Done ret err fr ev \<Rightarrow> run_done ret err (fr_contract fr) ev | Next fr ev \<Rightarrow> run_loop V E k fr ev)
          = Some (Inr ((ret, err), c', ev'))" by (auto simp: bindF_Inr)
      from run_step_ok [OF assms s] have ok: "step_ok V fr ev s" .
      show ?thesis
      proof (cases s)
        case (Done x y fr1 ev1)
        then show ?thesis using ok r by (simp add: step_ok_def run_done_def)
      next
        case (Next fr1 ev1)
        then have "ct_Gas c' \<le> fr_gas fr1" "ev_rel V ev1 ev'" using Suc.IH [of fr1 ev1] r by (simp_all add: run_ok_def)
        then show ?thesis using ok Next ev_rel_trans by (fastforce simp: step_ok_def)
      qed
    qed
  }
  then show ?case by (simp add: run_ok_def)
qed (simp add: run_ok_def)

lemma run_loop_returns:
  assumes "vm_laws V" "fits V n 3 ev" "unat (fr_gas fr) < k"
  shows "run_loop V E k fr ev \<noteq> None"
  using assms(2,3)
proof (induction k arbitrary: fr ev)
  case (Suc k)
  show ?case
  proof (cases "ev_abort ev")
    case False
    {
      fix s assume s: "run_step V E fr ev = Some (Inr s)"
      have "(case s of Done ret err fr ev \<Rightarrow> run_done ret err (fr_contract fr) ev | Next fr ev \<Rightarrow> run_loop V E k fr ev) \<noteq> None"
      proof (cases s)
        case (Next fr1 ev1)
        with run_step_ok [OF assms(1) s] have "fr_gas fr1 < fr_gas fr" "ev_rel V ev ev1" by (simp_all add: step_ok_def)
        then show ?thesis using Suc.IH [of ev1 fr1] Suc.prems Next fits_rel [of V ev ev1 n 3] by (simp add: word_less_nat_alt)
      qed (simp add: run_done_def)
    }
    then show ?thesis using False run_step_returns [OF assms(1) Suc.prems(1), of fr] by (simp add: bindF_None)
  qed (simp add: run_done_def)
qed simp

lemma Interpreter_Run_ok:
  assumes "vm_laws V"
  shows "run_ok V c ev (Interpreter_Run V E c input ro ev)"
proof -
  let ?ev = "ev\<lparr>ev_depth := ev_depth ev + 1, ev_readOnly := (if ro \<and> \<not> ev_readOnly ev then True else ev_readOnly ev), ev_returnData := []\<rparr>"
  have leave: "ev_rel V ?ev ev2 \<Longrightarrow> ev_rel V ev (leave_run (ro \<and> \<not> ev_readOnly ev) ev2)" for ev2
    by (auto simp: ev_rel_def leave_run_def)
  let ?fr = "\<lparr>fr_pc = 0, fr_contract = c\<lparr>ct_Input := input\<rparr>, fr_mem = NewMemory, fr_stack = []\<rparr>"
  have "ct_Gas c' \<le> ct_Gas c \<and> ev_rel V ?ev ev'"
    if "run_loop V E (Suc (unat (ct_Gas c))) ?fr ?ev = Some (Inr ((ret, err), c', ev'))" for ret err c' ev'
    using run_loop_ok [OF assms, of ?fr ?ev "Suc (unat (ct_Gas c))"] that by (simp add: run_ok_def del: run_loop.simps)
  then have "run_ok V c ev (bindF (run_loop V E (Suc (unat (ct_Gas c))) ?fr ?ev)
      (\<lambda>((ret, err), c, ev2). run_done ret err c (leave_run (ro \<and> \<not> ev_readOnly ev) ev2)))"
    using leave unfolding run_ok_def bindF_Inr run_done_def by fastforce
  moreover have "run_ok V c ev (run_done [] None c (leave_run (ro \<and> \<not> ev_readOnly ev) ?ev))"
    by (intro run_ok_intros leave) simp_all
  ultimately show ?thesis unfolding Interpreter_Run_def Let_def by (simp only: split: if_split) blast
qed

lemma Interpreter_Run_returns:
  assumes "vm_laws V" "fits V (Suc n) 1 ev" "ev_depth ev \<le> p_CallCreateDepth (vl_params V)"
  shows "Interpreter_Run V E c input ro ev \<noteq> None"
proof -
  let ?ev = "ev\<lparr>ev_depth := ev_depth ev + 1, ev_readOnly := (if ro \<and> \<not> ev_readOnly ev then True else ev_readOnly ev), ev_returnData := []\<rparr>"
  let ?fr = "\<lparr>fr_pc = 0, fr_contract = c\<lparr>ct_Input := input\<rparr>, fr_mem = NewMemory, fr_stack = []\<rparr>"
  have "fits V n 3 ?ev" using assms(2,3) by (simp add: fits_def system_ok_def Suc_diff_le)
  then have "run_loop V E (Suc (unat (ct_Gas c))) ?fr ?ev \<noteq> None" by (rule run_loop_returns [OF assms(1)]) simp
  then show ?thesis by (auto simp: Interpreter_Run_def Let_def bindF_None run_done_def simp del: run_loop.simps not_None_eq)
qed

section \<open>Precompiled contracts\<close>

text \<open>The call that \<open>transferMnt\<close> makes with the token id replaced.\<close>

lemma transfer_call_ok:
  assumes "vm_laws V" "gasCost \<le> ct_Gas c" "0 < val \<Longrightarrow> 9000 \<le> unat gasCost" "ev_rel V ev0 ev"
  shows "run_ok V c ev0 (bindF (eo_Call E cl toAddr data
      (if 0 < val then ct_Gas c - gasCost + p_CallStipend (vl_params V) else ct_Gas c - gasCost) val (set_transfer_token t ev))
    (\<lambda>((ret, remainedGas, err), ev1).
        bindF (Some (chain_token (ev_StateDB ev1))) (\<lambda>tk.
          run_done ret (checkTokenIDQueried err c1 (ev_TransferTokenID ev1) tk) (c1\<lparr>ct_Gas := remainedGas\<rparr>)
            (set_transfer_token (ev_TransferTokenID ev) ev1))))"
proof -
  let ?g = "if 0 < val then ct_Gas c - gasCost + p_CallStipend (vl_params V) else ct_Gas c - gasCost"
  have s: "p_CallStipend (vl_params V) = 2300" using vm_lawsD(2) [OF assms(1)] by (simp add: gas_params_def)
  have d: "unat (ct_Gas c - gasCost) = unat (ct_Gas c) - unat gasCost" "unat gasCost \<le> unat (ct_Gas c)"
    using assms(2) by (simp_all add: unat_sub word_le_nat_alt)
  have g: "?g \<le> ct_Gas c"
  proof (cases "0 < val")
    case True
    then have "unat (ct_Gas c - gasCost + 2300) = unat (ct_Gas c) - unat gasCost + 2300"
      using d assms(3) unat_lt_exp [of "ct_Gas c"] by (subst unat_add_lt) simp_all
    then show ?thesis using True d assms(3) by (simp add: s word_le_nat_alt)
  qed (use d in \<open>simp add: word_le_nat_alt\<close>)
  have "g' \<le> ct_Gas c \<and> ev_rel V ev0 (set_transfer_token (ev_TransferTokenID ev) ev1)"
    if "eo_Call E cl toAddr data ?g val (set_transfer_token t ev) = Some (Inr ((ret, g', err), ev1))" for ret g' err ev1
  proof -
    have 1: "g' \<le> ?g" "ev_rel V (set_transfer_token t ev) ev1" using Call [OF assms(1)] that unfolding call_ok_def by blast+
    from 1(2) have "ev_rel V ev (set_transfer_token (ev_TransferTokenID ev) ev1)" by (simp add: ev_rel_def set_transfer_token_def)
    then show ?thesis using order_trans [OF 1(1) g] ev_rel_trans [OF assms(4)] by blast
  qed
  then show ?thesis by (intro run_ok_call run_ok_bind run_ok_intros) simp_all
qed

lemma UseGas_le: "ct_Gas (snd (UseGas g c)) \<le> ct_Gas c"
  using unat_lt_exp [of "ct_Gas c"] by (auto simp: UseGas_def not_less word_le_nat_alt unat_sub)

lemma transferMnt_ok:
  assumes "vm_laws V"
  shows "run_ok V c ev (transferMnt_Run V E input c ev)"
  unfolding transferMnt_Run_def Let_def
proof (intro run_ok_intros(4) run_ok_intros(2) run_ok_bind [of "Some (getData _ _ _ _)"] ev_rel_refl, rule run_ok_pair, goal_cases)
  case (1 b0 b1 b2 data gasCost ev1)
  have k: "ev_rel V ev ev1" and g: "0 < big_SetBytes b2 \<Longrightarrow> 9000 \<le> unat gasCost"
    using 1(9) vm_lawsD(2) [OF assms]
    by (auto simp: bind_res_Inr_iff gas_params_def dest: db_get_rel(4) split: if_splits)
  show ?case
  proof (intro run_ok_intros(4) run_ok_intros(2) k, rule run_ok_keeps, rule keeps_db(1), rule k, goal_cases)
    case (1 b ev2)
    then show ?case using g
      by (intro run_ok_intros(4) run_ok_intros(1) UseGas_le transfer_call_ok [OF assms]) (simp_all add: not_less)
  qed
qed

lemma deploySystemContract_ok:
  assumes "vm_laws V"
  shows "run_ok V c ev (deploySystemContract_Run V E input c ev)"
  unfolding deploySystemContract_Run_def Let_def
proof (intro run_ok_intros(2-4) run_ok_bind [of "Some (getData _ _ _ _)"] ev_rel_refl, rule run_ok_created, goal_cases)
  case (1 b0 ret a g err ev1)
  then have "g \<le> ct_Gas c" "ev_rel V ev ev1" using Create [OF assms] unfolding create_ok_def by blast+
  then show ?case by (cases err) (simp_all add: run_ok_intros)
qed

lemma mintMNT_ok: "run_ok V c ev (mintMNT_Run V input c ev)"
proof -
  let ?P = "vl_params V"
  have "run_ok V c ev0 (let (paid, c) = (if e then (True, c) else UseGas (p_CallNewAccountGas ?P) c) in
             if \<not> paid then burn ErrOutOfGas c ev1
             else if \<not> 2 < length (ev_SystemContracts ev1) then Some (Inl index_panic)
             else if sc_address (ev_SystemContracts ev1 ! 2) \<noteq> ct_CallerAddress c
             then burn (GoError ''invalid sender'') c ev1
             else
               bindF (Some (db_do (AddBalance (vl_eth V) minter val mnt) ev1)) (\<lambda>ev.
               run_done (replicate 31 0 @ [1]) None c ev))"
    if r: "ev_rel V ev0 ev1" for e ev0 ev1 minter val mnt
  proof -
    obtain paid c1 where p: "(if e then (True, c) else UseGas (p_CallNewAccountGas ?P) c) = (paid, c1)" by fastforce
    then have "ct_Gas c1 \<le> ct_Gas c" using UseGas_le [of "p_CallNewAccountGas ?P" c] by (auto split: if_splits)
    then show ?thesis unfolding p Let_def prod.case
      by (intro run_ok_intros(4) run_ok_intros(2,3) r run_ok_bind run_ok_intros(1))
        (simp_all add: db_do_trans(2) [OF r])
  qed
  note rest = this
  show ?thesis unfolding mintMNT_Run_def Let_def [of "vl_math V"] Let_def [of "vl_params V"]
      Let_def [of "vm_BytesToAddress _ _"] Let_def [of "big_SetBytes _"]
    by (intro run_ok_intros(4) run_ok_intros(1,2) ev_rel_refl order_refl run_ok_bind [of "Some (chain_token _)"]
        run_ok_bind [of "Some (getData _ _ _ _)"]
        run_ok_keeps keeps_db(4) rest)
qed

lemma balanceMNT_ok: "run_ok V c ev (balanceMNT_Run V input c ev)"
  unfolding balanceMNT_Run_def Let_def
proof (intro run_ok_bind [of "Some (getData _ _ _ _)"] run_ok_intros(4), goal_cases)
  case (2 b0 b1)
  show ?case
  proof (rule run_ok_keeps, rule keeps_db(1), rule ev_rel_refl)
    fix x ev1 assume "ev_rel V ev ev1"
    then show "run_ok V c ev (bindF (Some (BigToByte32 x)) (\<lambda>ret. run_done ret None c ev1))"
      by (intro run_ok_bind run_ok_intros(1)) simp_all
  qed
qed (simp add: run_ok_intros)

lemma precompile_ok:
  assumes "vm_laws V"
  shows "run_ok V c ev (precompile_Run V E p input c ev)"
proof -
  have "run_ok V c ev (run_pure r c ev)" for r by (auto simp: run_pure_def intro!: run_ok_bind run_ok_intros)
  then show ?thesis
    by (cases p) (simp_all add: run_ok_intros currentMntID_Run_def transferMnt_ok deploySystemContract_ok mintMNT_ok balanceMNT_ok assms)
qed

lemma RunPrecompiled_ok:
  assumes "vm_laws V"
  shows "run_ok V c ev (RunPrecompiledContract V E p input c ev)"
proof -
  have "run_ok V c ev (precompile_Run V E p input c1 ev)" if "ct_Gas c1 \<le> ct_Gas c" for c1
    using precompile_ok [OF assms, of c1 ev p input] that order_trans unfolding run_ok_def by blast
  moreover have "ct_Gas c1 \<le> ct_Gas c" if "UseGas g c = (paid, c1)" for g paid c1 using UseGas_le [of g c] that by simp
  ultimately show ?thesis unfolding RunPrecompiledContract_def Let_def
    by (intro run_ok_bind) (auto split: prod.splits intro: run_ok_intros)
qed

lemma run_result_ok:
  assumes "vm_laws V"
  shows "run_ok V c ev (run V E c input ro ev)"
  using Interpreter_Run_ok [OF assms] RunPrecompiled_ok [OF assms] by (simp add: run_def split: option.splits)

end

section \<open>Calls\<close>

subsection \<open>Results of calls\<close>

lemma call_ok_intros:
  "g \<le> gas \<Longrightarrow> ev_rel V ev0 ev \<Longrightarrow> call_ok V gas ev0 (call_done ret g err ev)"
  "(b \<Longrightarrow> call_ok V gas ev0 r) \<Longrightarrow> (\<not> b \<Longrightarrow> call_ok V gas ev0 s) \<Longrightarrow> call_ok V gas ev0 (if b then r else s)"
  by (simp_all add: call_ok_def call_done_def)

lemma call_ok_keeps:
  "keeps V ev1 r \<Longrightarrow> (\<And>x ev. r = Inr (x, ev) \<Longrightarrow> ev_rel V ev1 ev \<Longrightarrow> call_ok V gas ev0 (f x ev))
    \<Longrightarrow> call_ok V gas ev0 (bindF (Some r) (\<lambda>(x, ev). f x ev))"
  unfolding call_ok_def keeps_def bindF_Inr split_paired_Ex prod.case option.inject by blast

lemma call_ok_do: "(\<And>x. r = Inr x \<Longrightarrow> call_ok V gas ev0 (f x)) \<Longrightarrow> call_ok V gas ev0 (bindF (Some r) f)"
  unfolding call_ok_def bindF_Inr by blast

lemma call_ok_trans: "ev_rel V ev0 ev1 \<Longrightarrow> call_ok V gas ev1 r \<Longrightarrow> call_ok V gas ev0 r"
  unfolding call_ok_def using ev_rel_trans by blast

lemma call_ok_bind: "(\<And>x. r = Some (Inr x) \<Longrightarrow> call_ok V gas ev0 (f x)) \<Longrightarrow> call_ok V gas ev0 (bindF r f)"
  unfolding call_ok_def bindF_Inr by blast

lemma create_ok_intros:
  "g \<le> gas \<Longrightarrow> ev_rel V ev0 ev \<Longrightarrow> create_ok V gas ev0 (create_done ret a g err ev)"
  "(b \<Longrightarrow> create_ok V gas ev0 r) \<Longrightarrow> (\<not> b \<Longrightarrow> create_ok V gas ev0 s) \<Longrightarrow> create_ok V gas ev0 (if b then r else s)"
  by (simp_all add: create_ok_def create_done_def)

lemma create_ok_keeps:
  "keeps V ev1 r \<Longrightarrow> (\<And>x ev. r = Inr (x, ev) \<Longrightarrow> ev_rel V ev1 ev \<Longrightarrow> create_ok V gas ev0 (f x ev))
    \<Longrightarrow> create_ok V gas ev0 (bindF (Some r) (\<lambda>(x, ev). f x ev))"
  unfolding create_ok_def keeps_def bindF_Inr split_paired_Ex prod.case option.inject by blast

lemma create_ok_do: "(\<And>x. r = Inr x \<Longrightarrow> create_ok V gas ev0 (f x)) \<Longrightarrow> create_ok V gas ev0 (bindF (Some r) f)"
  unfolding create_ok_def bindF_Inr by blast

lemma create_ok_trans: "ev_rel V ev0 ev1 \<Longrightarrow> create_ok V gas ev1 r \<Longrightarrow> create_ok V gas ev0 r"
  unfolding create_ok_def using ev_rel_trans by blast

lemma create_ok_bind: "(\<And>x. r = Some (Inr x) \<Longrightarrow> create_ok V gas ev0 (f x)) \<Longrightarrow> create_ok V gas ev0 (bindF r f)"
  unfolding create_ok_def bindF_Inr by blast

text \<open>Reading and transferring balances.\<close>

lemma CanTransfer_rel:
  assumes "db_get (CanTransfer (vl_eth V) a x tk) ev = Inr (b, ev')"
  shows "ev_rel V ev ev'"
proof -
  from assms obtain y s where "GetBalance (vl_eth V) a tk (ev_StateDB ev) = Inr (y, s)" "ev' = with_db ev s"
    by (auto simp: db_get_def CanTransfer_def bind_res_Inr_iff)
  then have "db_get (GetBalance (vl_eth V) a tk) ev = Inr (y, ev')" by (simp add: db_get_def)
  then show ?thesis by (rule db_get_rel)
qed

lemma PoswCheck_rel:
  assumes "db_get (TransferFailureByPoswBalanceCheck (vl_eth V) a x) ev = Inr (b, ev')"
  shows "ev_rel V ev ev'"
proof (cases "map_of (sdb_senderDisallowMap (ev_StateDB ev)) a")
  case None
  then show ?thesis using assms by (auto simp: db_get_def TransferFailureByPoswBalanceCheck_def with_db_def)
next
  case (Some v)
  with assms obtain tk y s where "GetBalance (vl_eth V) a tk (ev_StateDB ev) = Inr (y, s)" "ev' = with_db ev s"
    by (auto simp: db_get_def TransferFailureByPoswBalanceCheck_def bind_res_Inr_iff)
  then have "db_get (GetBalance (vl_eth V) a tk) ev = Inr (y, ev')" by (simp add: db_get_def)
  then show ?thesis by (rule db_get_rel)
qed

lemma keeps_checks:
  assumes "ev_rel V ev0 ev"
  shows "keeps V ev0 (db_get (CanTransfer (vl_eth V) a x tk) ev)"
    "keeps V ev0 (db_get (TransferFailureByPoswBalanceCheck (vl_eth V) a x) ev)"
  unfolding keeps_def by (blast intro: ev_rel_trans [OF assms] CanTransfer_rel PoswCheck_rel)+

lemma Transfer_rel:
  assumes "ev_rel V ev0 ev" "db_do (Transfer (vl_eth V) a b x tk) ev = Inr ev'"
  shows "ev_rel V ev0 ev'"
proof -
  from assms(2) obtain s s' where s: "SubBalance (vl_eth V) a x tk (ev_StateDB ev) = Inr s" "AddBalance (vl_eth V) b x tk s = Inr s'"
    "ev' = with_db ev s'" by (auto simp: db_do_def Transfer_def bind_res_Inr_iff)
  have "grows (vl_eth V) (ev_StateDB ev) s'"
    by (rule grows_trans [OF grows_op [where op = "OpSubBalance a x tk" and s' = s] grows_op [where op = "OpAddBalance b x tk"]])
      (simp_all add: s)
  then show ?thesis using ev_rel_trans [OF assms(1) ev_rel_db] s(3) by simp
qed

text \<open>The contract of a call has the gas of the call and the code of the address.\<close>

lemma NewContract_fields:
  "ct_Gas (fst (NewContract caller obj v g maps)) = g" "ct_value (fst (NewContract caller obj v g maps)) = v"
  by (simp_all add: NewContract_def Let_def split: ContractRef.splits)

lemma call_contract_rel:
  assumes "ev_rel V ev0 ev" "call_contract V caller obj addr v g ev = Inr (c, ev')"
  shows "ev_rel V ev0 ev'" "ct_Gas c = g" "ct_CodeAddr c = Some addr"
proof -
  obtain c0 maps where n: "NewContract caller obj v g (ev_jumpdests ev) = (c0, maps)" by fastforce
  from assms(2) obtain h ev1 code where r: "db_get (GetCodeHash (vl_eth V) addr) (ev\<lparr>ev_jumpdests := maps\<rparr>) = Inr (h, ev1)"
    "db_get (GetCode (vl_eth V) addr) ev1 = Inr (code, ev')" "c = SetCallCode addr h (code_bytes code) c0"
    by (auto simp: call_contract_def n Let_def bind_res_Inr_iff)
  have "ev_rel V ev0 (ev\<lparr>ev_jumpdests := maps\<rparr>)" using assms(1) by simp
  from ev_rel_trans [OF ev_rel_trans [OF this db_get_rel(8) [OF r(1)]] db_get_rel(6) [OF r(2)]]
  show "ev_rel V ev0 ev'" .
  show "ct_Gas c = g" "ct_CodeAddr c = Some addr"
    using NewContract_fields(1) [of caller obj v g "ev_jumpdests ev"] by (simp_all add: r(3) SetCallCode_def n)
qed

lemma keeps_call_contract: "ev_rel V ev0 ev \<Longrightarrow> keeps V ev0 (call_contract V caller obj addr v g ev)"
  unfolding keeps_def by (blast intro: call_contract_rel(1))

subsection \<open>Snapshots\<close>

definition snapped :: "('t, 'd) EVM \<Rightarrow> ('t, 'd) EVM" where
  "snapped ev = with_db ev (snd (Snapshot (ev_StateDB ev)))"

lemma take_snapshot_eq: "take_snapshot ev = (sdb_nextRevisionId (ev_StateDB ev), snapped ev)"
  using Snapshot_simps [of "ev_StateDB ev"] by (simp add: take_snapshot_def snapped_def split_beta)

lemma snapped_rel: "ev_rel V ev (snapped ev)"
  unfolding snapped_def by (rule ev_rel_db) (rule grows_Snapshot)

lemma revert_rel:
  assumes "ev_rel V (snapped ev0) ev1" "db_do (RevertToSnapshot (vl_eth V) (sdb_nextRevisionId (ev_StateDB ev0))) ev1 = Inr ev2"
  shows "ev_rel V ev0 ev2"
proof -
  from assms(2) obtain s where s: "RevertToSnapshot (vl_eth V) (sdb_nextRevisionId (ev_StateDB ev0)) (ev_StateDB ev1) = Inr s"
    "ev2 = with_db ev1 s" by (auto simp: db_do_def bind_res_Inr_iff)
  have "grows (vl_eth V) (ev_StateDB ev0) s"
    by (rule grows_reverted [OF _ s(1)]) (use assms(1) in \<open>simp add: ev_rel_def snapped_def\<close>)
  then show ?thesis using assms(1) s(2) by (simp add: ev_rel_def snapped_def)
qed

context evm_calls
begin

lemma run_call_ok:
  assumes "vm_laws V" "ev_rel V (snapped ev0) ev" "ct_Gas c \<le> gas"
  shows "call_ok V gas ev0 (run_call V E (sdb_nextRevisionId (ev_StateDB ev0)) c input ro ev)"
  unfolding run_call_def
proof (rule call_ok_bind, goal_cases)
  case (1 x)
  obtain ret err c1 ev1 where x: "x = ((ret, err), c1, ev1)" by (metis prod.exhaust)
  with run_result_ok [OF assms(1)] 1 have r: "ct_Gas c1 \<le> ct_Gas c" "ev_rel V ev ev1" unfolding run_ok_def by blast+
  have e: "ev_rel V (snapped ev0) ev1" by (rule ev_rel_trans [OF assms(2) r(2)])
  have g: "ct_Gas c1 \<le> gas" "ct_Gas (snd (UseGas (ct_Gas c1) c1)) \<le> gas"
    using r(1) assms(3) UseGas_le [of "ct_Gas c1" c1] by (meson order_trans)+
  have "call_ok V gas ev0 (revert_on_error V (sdb_nextRevisionId (ev_StateDB ev0)) ret er c1 ev1)" for er
    unfolding revert_on_error_def Let_def
    by (intro call_ok_intros(2) call_ok_bind call_ok_intros(1) ev_rel_trans [OF snapped_rel e]) (use g revert_rel [OF e] in auto)
  then show ?case unfolding x prod.case by (intro call_ok_bind) blast
qed

lemma evm_Call_ok:
  assumes "vm_laws V"
  shows "call_ok V gas ev (evm_Call V E caller addr input gas val ev)"
  unfolding evm_Call_def Let_def take_snapshot_eq prod.case
proof (intro call_ok_intros order_refl ev_rel_refl, rule call_ok_keeps, rule keeps_checks, rule ev_rel_refl, goal_cases)
  case (1 can ev1)
  note ev1 = 1(4)
  show ?case
  proof (intro call_ok_intros order_refl ev1, rule call_ok_keeps, rule keeps_checks, rule ev1, goal_cases)
    case (1 posw ev2)
    note ev2 = 1(3)
    show ?case
    proof (rule call_ok_intros(2), goal_cases)
      case 2
      show ?case
      proof (rule call_ok_trans [OF ev2], rule call_ok_keeps, rule keeps_db(4), rule ev_rel_refl, goal_cases)
        case (1 ex ev3)
        note ev3 = 1(2)
        show ?case
        proof (intro call_ok_intros order_refl ev_rel_trans [OF snapped_rel ev3], rule call_ok_do, goal_cases)
          case (1 ev4)
          then have ev4: "ev_rel V (snapped ev2) ev4" using ev3 db_do_trans(5) [OF ev3] by (auto split: if_splits)
          show ?case
          proof (rule call_ok_do, goal_cases)
            case (1 ev5)
            note ev5 = Transfer_rel [OF ev4 1]
            show ?case
            proof (rule call_ok_keeps, rule keeps_call_contract, rule ev5, goal_cases)
              case (1 c ev6)
              then show ?case using call_contract_rel [OF ev5 1(1)] by (intro run_call_ok [OF assms]) auto
            qed
          qed
        qed
      qed
    qed (intro call_ok_intros ev2, simp)
  qed
qed

lemma evm_CallCode_ok:
  assumes "vm_laws V"
  shows "call_ok V gas ev (evm_CallCode V E caller addr input gas val ev)"
  unfolding evm_CallCode_def Let_def take_snapshot_eq prod.case
proof (intro call_ok_intros order_refl ev_rel_refl, rule call_ok_keeps, rule keeps_checks, rule ev_rel_refl, goal_cases)
  case (1 can ev1)
  note ev1 = 1(4)
  show ?case
  proof (intro call_ok_intros order_refl ev1, rule call_ok_keeps, rule keeps_checks, rule ev1, goal_cases)
    case (1 posw ev2)
    note ev2 = 1(3)
    show ?case
    proof (rule call_ok_intros(2), goal_cases)
      case 2
      show ?case
      proof (rule call_ok_trans [OF ev2], rule call_ok_keeps, rule keeps_call_contract, rule ev_rel_refl, goal_cases)
        case (1 c ev3)
        then show ?case using call_contract_rel [OF ev_rel_refl 1(1)] by (intro run_call_ok [OF assms]) auto
      qed
    qed (intro call_ok_intros ev2, simp)
  qed
qed

lemma evm_DelegateCall_ok:
  assumes "vm_laws V"
  shows "call_ok V gas ev (evm_DelegateCall V E caller addr input gas ev)"
  unfolding evm_DelegateCall_def Let_def take_snapshot_eq prod.case
proof (intro call_ok_intros order_refl ev_rel_refl, rule call_ok_do, goal_cases)
  case (1 x)
  obtain c ev1 where x: "x = (c, ev1)" by fastforce
  with 1(3) obtain c0 where c0: "call_contract V caller (ref_Address caller) addr 0 gas (snapped ev) = Inr (c0, ev1)" "ct_Gas c = ct_Gas c0"
    by (auto simp: bind_res_Inr_iff)
  note r = call_contract_rel [OF ev_rel_refl c0(1)]
  show ?case unfolding x prod.case
  proof (rule call_ok_keeps, rule keeps_checks, rule r(1), goal_cases)
    case (1 posw ev2)
    then show ?case using r c0(2)
      by (intro call_ok_intros run_call_ok [OF assms] ev_rel_trans [OF snapped_rel 1(2)]) auto
  qed
qed

lemma evm_StaticCall_ok:
  assumes "vm_laws V"
  shows "call_ok V gas ev (evm_StaticCall V E caller addr input gas ev)"
  unfolding evm_StaticCall_def Let_def take_snapshot_eq prod.case
proof (intro call_ok_intros order_refl ev_rel_refl, rule call_ok_keeps, rule keeps_call_contract, rule ev_rel_refl, goal_cases)
  case (1 c ev1)
  note r = call_contract_rel [OF ev_rel_refl 1(3)]
  show ?case
  proof (rule call_ok_keeps, rule keeps_checks, rule r(1), goal_cases)
    case (1 posw ev2)
    note ev2 = 1(2)
    show ?case
    proof (rule call_ok_intros(2), goal_cases)
      case 2
      show ?case
      proof (rule call_ok_do, rule call_ok_do, goal_cases)
        case (1 tk ev3)
        then show ?case using r by (intro run_call_ok [OF assms] db_do_trans(2) [OF ev2 1(2)]) auto
      qed
    qed (intro call_ok_intros ev_rel_trans [OF snapped_rel ev2], simp)
  qed
qed

section \<open>Contract creation\<close>

lemma store_code_ok:
  assumes "ev_rel V ev0 ev" "store_code V a ret c ev = Inr (err, c', ev')"
  shows "ct_Gas c' \<le> ct_Gas c" "ev_rel V ev0 ev'"
proof -
  let ?g = "len64 ret * p_CreateDataGas (vl_params V)"
  from assms(2) have "c' = snd (UseGas ?g c)" by (auto simp: store_code_def Let_def bind_res_Inr_iff split: prod.splits if_splits)
  then show "ct_Gas c' \<le> ct_Gas c" by (simp add: UseGas_le)
  show "ev_rel V ev0 ev'" using assms db_do_trans(4) [OF assms(1)]
    by (auto simp: store_code_def Let_def bind_res_Inr_iff split: prod.splits if_splits)
qed

lemma finish_create_ok:
  assumes "ev_rel V (snapped ev0) ev" "ct_Gas c \<le> gas"
  shows "create_ok V gas ev0 (finish_create V (sdb_nextRevisionId (ev_StateDB ev0)) a ret err c ev)"
  unfolding finish_create_def Let_def
proof (rule create_ok_do, goal_cases)
  case (1 x)
  obtain err1 c1 ev1 where x: "x = (err1, c1, ev1)" by (metis prod.exhaust)
  with 1 have r: "ct_Gas c1 \<le> ct_Gas c" "ev_rel V (snapped ev0) ev1"
    using store_code_ok [OF assms(1)] assms(1) by (auto split: if_splits)
  have g: "ct_Gas c1 \<le> gas" "ct_Gas (snd (UseGas (ct_Gas c1) c1)) \<le> gas"
    using r(1) assms(2) UseGas_le [of "ct_Gas c1" c1] by (meson order_trans)+
  show ?case unfolding x prod.case
    by (intro create_ok_intros create_ok_do ev_rel_trans [OF snapped_rel r(2)]) (use g revert_rel [OF r(2)] in auto)
qed

lemma evm_create_ok:
  assumes "vm_laws V"
  shows "create_ok V gas ev (evm_create V E caller code codehash gas val address ev)"
  unfolding evm_create_def Let_def take_snapshot_eq prod.case
proof (intro create_ok_intros order_refl ev_rel_refl, rule create_ok_keeps, rule keeps_checks, rule ev_rel_refl, goal_cases)
  case (1 can ev1)
  note ev1 = 1(3)
  show ?case
  proof (intro create_ok_intros order_refl ev1, rule create_ok_do, goal_cases)
    case (1 ev2)
    have ev2: "ev_rel V ev ev2"
      using 1(2) ev1 db_do_trans(3) [OF ev_rel_trans [OF ev1 db_get_rel(9)]]
      by (auto simp: bind_res_Inr_iff split: if_splits)
    show ?case
    proof (rule create_ok_do, intro create_ok_intros order_refl ev2, rule create_ok_keeps, rule keeps_db(8), rule ev2, goal_cases)
      case (1 tk h ev3)
      show ?case
      proof (rule create_ok_keeps, rule keeps_db(9), rule 1(4), goal_cases)
        case (1 nonce ev4)
        note ev4 = 1(2)
        show ?case
        proof (intro create_ok_intros ev4, simp, rule create_ok_keeps, rule keeps_checks, rule ev4, goal_cases)
          case (1 posw ev5)
          note ev5 = 1(3)
          show ?case
          proof (rule create_ok_intros(2), goal_cases)
            case 2
            show ?case
            proof (rule create_ok_trans [OF ev5], rule create_ok_do, rule create_ok_do, rule create_ok_do, goal_cases)
              case (1 ev6 ev7 ev8)
              have ev8: "ev_rel V (snapped ev5) ev8"
                using Transfer_rel [OF db_do_trans(3) [OF db_do_trans(5) [OF ev_rel_refl 1(1)] 1(2)] 1(3)] .
              obtain c maps where n: "NewContract caller address val gas (ev_jumpdests ev8) = (c, maps)" by fastforce
              have c: "ct_Gas (SetCodeOptionalHash address code codehash c) = gas"
                using NewContract_fields(1) [of caller address val gas "ev_jumpdests ev8"] by (simp add: n SetCodeOptionalHash_def)
              show ?case unfolding n prod.case
              proof (intro create_ok_intros order_refl, goal_cases)
                case 2
                show ?case
                proof (rule create_ok_bind, goal_cases)
                  case (1 x)
                  obtain ret err c1 ev9 where x: "x = ((ret, err), c1, ev9)" by (metis prod.exhaust)
                  with run_result_ok [OF assms] 1 c have r: "ct_Gas c1 \<le> gas" "ev_rel V (ev8\<lparr>ev_jumpdests := maps\<rparr>) ev9"
                    unfolding run_ok_def by metis+
                  have "ev_rel V (snapped ev5) ev9" by (rule ev_rel_trans [OF _ r(2)]) (simp add: ev8)
                  then show ?case unfolding x prod.case using r(1) by (intro create_ok_do finish_create_ok)
                qed
              qed (use ev_rel_trans [OF snapped_rel ev8] in simp)
            qed
          qed (intro create_ok_intros ev5, simp)
        qed
      qed
    qed
  qed
qed

lemma evm_Create_ok:
  assumes "vm_laws V"
  shows "create_ok V gas ev (evm_Create V E caller code gas val r ev)"
proof (cases r)
  case None
  show ?thesis unfolding evm_Create_def None option.case
  proof (rule create_ok_keeps, rule keeps_db(9), rule ev_rel_refl, goal_cases)
    case (1 nonce ev1)
    then show ?case by (intro create_ok_trans [OF 1(2) evm_create_ok [OF assms]])
  qed
qed (simp add: evm_Create_def evm_create_ok assms)

lemma evm_Create2_ok: "vm_laws V \<Longrightarrow> create_ok V gas ev (evm_Create2 V E caller code gas val salt ev)"
  by (simp add: evm_Create2_def Let_def evm_create_ok)

end

section \<open>Termination\<close>

lemma ret_bind: "r \<noteq> None \<Longrightarrow> (\<And>x. r = Some (Inr x) \<Longrightarrow> f x \<noteq> None) \<Longrightarrow> bindF r f \<noteq> None"
  unfolding bindF_None by blast

lemma ret_do: "(\<And>x. r = Inr x \<Longrightarrow> f x \<noteq> None) \<Longrightarrow> bindF (Some r) f \<noteq> None"
  unfolding bindF_None by blast

lemma ret_keeps:
  "keeps V ev1 r \<Longrightarrow> (\<And>x ev. r = Inr (x, ev) \<Longrightarrow> ev_rel V ev1 ev \<Longrightarrow> f x ev \<noteq> None) \<Longrightarrow> bindF (Some r) (\<lambda>(x, ev). f x ev) \<noteq> None"
  unfolding bindF_None keeps_def split_paired_Ex prod.case option.inject by blast

lemma ret_if: "(b \<Longrightarrow> r \<noteq> None) \<Longrightarrow> (\<not> b \<Longrightarrow> s \<noteq> None) \<Longrightarrow> (if b then r else s) \<noteq> None"
  by simp

lemma ret_done: "run_done ret err c ev \<noteq> None" "burn e c ev \<noteq> None" "call_done ret g err ev \<noteq> None"
  "create_done ret a g err ev \<noteq> None" "Some x \<noteq> None"
  by (simp_all add: run_done_def burn_def call_done_def create_done_def)

definition room :: "('t, 'd) vm_lib \<Rightarrow> nat \<Rightarrow> nat \<Rightarrow> ('t, 'd) EVM \<Rightarrow> bool" where
  "room V n r ev \<longleftrightarrow> fits V (Suc n) r ev \<and> ev_depth ev \<le> p_CallCreateDepth (vl_params V)"

lemma room_rel: "ev_rel V ev ev' \<Longrightarrow> room V n r ev \<Longrightarrow> room V n r ev'"
  using fits_rel [of V ev ev' "Suc n" r] by (simp add: room_def ev_rel_def)

context evm_calls
begin

lemma transferMnt_returns:
  assumes "vm_laws V" "fits V (Suc n) 3 ev"
  shows "transferMnt_Run V E input c ev \<noteq> None"
  unfolding transferMnt_Run_def Let_def
proof (intro ret_if ret_done ret_do [of "getData _ _ _ _"], rule ret_keeps [of V ev], goal_cases)
  case (1 b0 b1 b2 data)
  show ?case by (intro keeps_intros keeps_bind keeps_db ev_rel_refl; assumption)
next
  case (2 b0 b1 b2 data gasCost ev1)
  note ev1 = 2(10)
  show ?case
  proof (intro ret_if ret_done, rule ret_keeps, rule keeps_db(1), rule ev1, goal_cases)
    case (1 b ev2)
    have f: "fits V n 2 (set_transfer_token t ev2)" for t
      using assms(2) fits_rel [OF 1(3), of "Suc n" 3] by (simp add: fits_def set_transfer_token_def system_ok_def)
    have "fits V n (rank (vm_BytesToAddress (vl_math V) b0)) (set_transfer_token t ev2)" for t
      by (rule fits_mono [OF f rank_bounds(3)]) (rule 2(8))
    then show ?case by (intro ret_if ret_done ret_bind Call_returns [OF assms(1)]) (auto intro!: ret_done ret_do simp del: not_None_eq split: prod.splits)
  qed
qed

lemma deploySystemContract_returns:
  assumes "vm_laws V" "fits V (Suc n) 2 ev"
  shows "deploySystemContract_Run V E input c ev \<noteq> None"
  unfolding deploySystemContract_Run_def Let_def
proof (rule ret_do, intro ret_if ret_done ret_bind, goal_cases)
  case (1 b0)
  let ?i = "if 0 < big_Uint64 (big_SetBytes b0) then sint (big_Uint64 (big_SetBytes b0)) else 1"
  have "ev_SystemContracts ev ! nat ?i \<in> set (ev_SystemContracts ev)" using 1 by (intro nth_mem) linarith
  then have "rank (sc_address (ev_SystemContracts ev ! nat ?i)) = 1"
    using assms(2) by (auto simp: fits_def system_ok_def rank_def)
  then show ?case using assms(2) by (intro Create_returns [OF assms(1)]) (simp add: create_rank_def fits_def)
qed (auto intro!: ret_done simp del: not_None_eq split: prod.splits option.splits)

lemma run_pure_returns: "run_pure r c ev \<noteq> None"
  unfolding run_pure_def by (rule ret_do) (auto intro!: ret_done simp del: not_None_eq split: prod.splits)

lemma precompile_returns:
  assumes "vm_laws V" "fits V (Suc n) (if p = transferMnt then 3 else if p = deploySystemContract then 2 else 1) ev"
  shows "precompile_Run V E p input c ev \<noteq> None"
proof (cases p)
  case transferMnt
  then show ?thesis using assms transferMnt_returns by simp
next
  case deploySystemContract
  then show ?thesis using assms deploySystemContract_returns by simp
next
  case mintMNT
  show ?thesis unfolding mintMNT precompile_Run.simps mintMNT_Run_def Let_def
    by (intro ret_if ret_done ret_do) (auto intro!: ret_if ret_done ret_do simp del: not_None_eq split: prod.splits)
next
  case balanceMNT
  show ?thesis unfolding balanceMNT precompile_Run.simps balanceMNT_Run_def Let_def
    by (intro ret_if ret_done ret_do) (auto intro!: ret_done ret_do simp del: not_None_eq split: prod.splits)
qed (simp_all add: run_pure_returns ret_done currentMntID_Run_def del: not_None_eq)

lemma run_returns:
  assumes "vm_laws V" "room V n r ev" "1 \<le> r" "\<And>a. ct_CodeAddr c = Some a \<Longrightarrow> rank a \<le> r"
  shows "run V E c input ro ev \<noteq> None"
proof -
  have f: "fits V (Suc n) r ev" and d: "ev_depth ev \<le> p_CallCreateDepth (vl_params V)" using assms(2) by (simp_all add: room_def)
  have i: "Interpreter_Run V E c input ro ev \<noteq> None"
    using fits_mono [OF f assms(3)] d by (rule Interpreter_Run_returns [OF assms(1)])
  have "RunPrecompiledContract V E p input c ev \<noteq> None" if "ct_CodeAddr c = Some a" "map_of PrecompiledContractsByzantium a = Some p" for a p
  proof -
    have "fits V (Suc n) (if p = transferMnt then 3 else if p = deploySystemContract then 2 else 1) ev"
      using fits_mono [OF f assms(4) [OF that(1)]] that(2) by (simp add: rank_def)
    from precompile_returns [OF assms(1) this] show ?thesis
      unfolding RunPrecompiledContract_def by (intro ret_do) (simp add: ret_done split: prod.split del: not_None_eq)
  qed
  then show ?thesis using i by (auto simp: run_def simp del: not_None_eq split: option.splits)
qed

lemma run_call_returns:
  assumes "vm_laws V" "room V n r ev" "1 \<le> r" "\<And>a. ct_CodeAddr c = Some a \<Longrightarrow> rank a \<le> r"
  shows "run_call V E i c input ro ev \<noteq> None"
  unfolding run_call_def
proof (rule ret_bind, rule run_returns [OF assms], assumption, goal_cases)
  case (1 x)
  obtain ret err c1 ev1 where x: "x = ((ret, err), c1, ev1)" by (metis prod.exhaust)
  show ?case unfolding x prod.case revert_on_error_def Let_def by (intro ret_do ret_if ret_done)
qed

lemma evm_Call_returns:
  assumes "vm_laws V" "fits V (Suc n) (rank addr) ev"
  shows "evm_Call V E caller addr input gas val ev \<noteq> None"
  unfolding evm_Call_def Let_def take_snapshot_eq prod.case
proof (intro ret_if ret_done, rule ret_keeps, rule keeps_checks, rule ev_rel_refl, goal_cases)
  case (1 can ev1)
  have d: "room V n (rank addr) ev" using assms(2) 1(2) by (simp add: room_def)
  note ev1 = 1(4)
  show ?case
  proof (intro ret_if ret_done, rule ret_keeps, rule keeps_checks, rule ev1, goal_cases)
    case (1 posw ev2)
    note ev2 = ev_rel_trans [OF 1(3) snapped_rel]
    show ?case
    proof (intro ret_if ret_done, rule ret_keeps, rule keeps_db(4), rule ev2, goal_cases)
      case (1 ex ev3)
      note ev3 = 1(3)
      show ?case
      proof (intro ret_if ret_done, rule ret_do, rule ret_do, goal_cases)
        case (1 ev4 ev5)
        then have "ev_rel V ev ev4" using ev3 db_do_trans(5) [OF ev3] by (auto split: if_splits)
        note ev5 = Transfer_rel [OF this 1(3)]
        show ?case
        proof (rule ret_keeps, rule keeps_call_contract, rule ev5, goal_cases)
          case (1 c ev6)
          show ?case by (rule run_call_returns [OF assms(1) room_rel [OF 1(2) d] rank_bounds(1)])
              (use call_contract_rel(3) [OF ev5 1(1)] in auto)
        qed
      qed
    qed
  qed
qed

lemma evm_CallCode_returns:
  assumes "vm_laws V" "fits V (Suc n) (rank addr) ev"
  shows "evm_CallCode V E caller addr input gas val ev \<noteq> None"
  unfolding evm_CallCode_def Let_def take_snapshot_eq prod.case
proof (intro ret_if ret_done, rule ret_keeps, rule keeps_checks, rule ev_rel_refl, goal_cases)
  case (1 can ev1)
  have d: "room V n (rank addr) ev" using assms(2) 1(2) by (simp add: room_def)
  note ev1 = 1(4)
  show ?case
  proof (intro ret_if ret_done, rule ret_keeps, rule keeps_checks, rule ev1, goal_cases)
    case (1 posw ev2)
    note ev2 = ev_rel_trans [OF 1(3) snapped_rel]
    show ?case
    proof (intro ret_if ret_done, rule ret_keeps, rule keeps_call_contract, rule ev2, goal_cases)
      case (1 c ev3)
      show ?case by (rule run_call_returns [OF assms(1) room_rel [OF 1(3) d] rank_bounds(1)])
          (use call_contract_rel(3) [OF ev2 1(2)] in auto)
    qed
  qed
qed

lemma evm_DelegateCall_returns:
  assumes "vm_laws V" "fits V (Suc n) (rank addr) ev"
  shows "evm_DelegateCall V E caller addr input gas ev \<noteq> None"
  unfolding evm_DelegateCall_def Let_def take_snapshot_eq prod.case
proof (intro ret_if ret_done, rule ret_do, goal_cases)
  case (1 x)
  have d: "room V n (rank addr) ev" using assms(2) 1(2) by (simp add: room_def)
  obtain c ev1 where x: "x = (c, ev1)" by fastforce
  with 1(3) obtain c0 where c0: "call_contract V caller (ref_Address caller) addr 0 gas (snapped ev) = Inr (c0, ev1)"
    "ct_CodeAddr c = ct_CodeAddr c0" by (auto simp: bind_res_Inr_iff)
  note r = call_contract_rel [OF snapped_rel c0(1)]
  show ?case unfolding x prod.case
  proof (rule ret_keeps, rule keeps_checks, rule r(1), goal_cases)
    case (1 posw ev2)
    have "run_call V E i c input False ev2 \<noteq> None" for i
      by (rule run_call_returns [OF assms(1) room_rel [OF 1(2) d] rank_bounds(1)]) (use r(3) c0(2) in auto)
    then show ?case by (intro ret_if ret_done)
  qed
qed

lemma evm_StaticCall_returns:
  assumes "vm_laws V" "fits V (Suc n) (rank addr) ev"
  shows "evm_StaticCall V E caller addr input gas ev \<noteq> None"
  unfolding evm_StaticCall_def Let_def take_snapshot_eq prod.case
proof (intro ret_if ret_done, rule ret_keeps, rule keeps_call_contract, rule snapped_rel, goal_cases)
  case (1 c ev1)
  have d: "room V n (rank addr) ev" using assms(2) 1(2) by (simp add: room_def)
  note r = call_contract_rel [OF snapped_rel 1(3)]
  show ?case
  proof (rule ret_keeps, rule keeps_checks, rule r(1), intro ret_if ret_done ret_do, goal_cases)
    case (1 posw ev2 tk ev3)
    show ?case by (rule run_call_returns [OF assms(1) room_rel [OF db_do_trans(2) [OF 1(2) 1(5)] d] rank_bounds(1)]) (use r(3) in auto)
  qed
qed

lemma evm_create_returns:
  assumes "vm_laws V" "fits V (Suc n) (rank address) ev"
  shows "evm_create V E caller code codehash gas val address ev \<noteq> None"
  unfolding evm_create_def Let_def take_snapshot_eq prod.case
proof (intro ret_if ret_done, rule ret_keeps, rule keeps_checks, rule ev_rel_refl, goal_cases)
  case (1 can ev1)
  have d: "room V n (rank address) ev" using assms(2) 1(1) by (simp add: room_def)
  note ev1 = 1(3)
  show ?case
  proof (intro ret_if ret_done, rule ret_do, goal_cases)
    case (1 ev2)
    have ev2: "ev_rel V ev ev2"
      using 1(2) ev1 db_do_trans(3) [OF ev_rel_trans [OF ev1 db_get_rel(9)]]
      by (auto simp: bind_res_Inr_iff split: if_splits)
    show ?case
    proof (rule ret_do, intro ret_if ret_done, rule ret_keeps, rule keeps_db(8), rule ev2, goal_cases)
      case (1 tk h ev3)
      show ?case
      proof (rule ret_keeps, rule keeps_db(9), rule 1(4), intro ret_if ret_done, rule ret_keeps, rule keeps_checks, assumption,
          intro ret_if ret_done, goal_cases)
        case (1 nonce ev4 posw ev5)
        note ev5 = ev_rel_trans [OF 1(5) snapped_rel]
        show ?case
        proof (rule ret_do, rule ret_do, rule ret_do, goal_cases)
          case (1 ev6 ev7 ev8)
          have ev8: "ev_rel V ev ev8" using Transfer_rel [OF db_do_trans(3) [OF db_do_trans(5) [OF ev5 1(1)] 1(2)] 1(3)] .
          obtain c maps where n: "NewContract caller address val gas (ev_jumpdests ev8) = (c, maps)" by fastforce
          have m: "room V n (rank address) (ev8\<lparr>ev_jumpdests := maps\<rparr>)" by (rule room_rel [OF _ d]) (simp add: ev8)
          show ?case unfolding n prod.case
          proof (intro ret_if ret_done, rule ret_bind, rule run_returns [OF assms(1) m rank_bounds(1)], goal_cases)
            case (2 x)
            obtain ret err c1 ev9 where x: "x = ((ret, err), c1, ev9)" by (metis prod.exhaust)
            show ?case unfolding x prod.case finish_create_def Let_def
              by (intro ret_do) (auto intro!: ret_if ret_do ret_done simp del: not_None_eq split: prod.splits)
          qed (simp add: SetCodeOptionalHash_def)
        qed
      qed
    qed
  qed
qed

lemma evm_Create_returns:
  assumes "vm_laws V" "fits V (Suc n) (create_rank r) ev"
  shows "evm_Create V E caller code gas val r ev \<noteq> None"
proof (cases r)
  case None
  show ?thesis unfolding evm_Create_def None option.case
  proof (rule ret_keeps, rule keeps_db(9), rule ev_rel_refl, goal_cases)
    case (1 nonce ev1)
    have "fits V (Suc n) 3 ev1" using assms(2) None fits_rel [OF 1(2), of "Suc n" 3] by (simp add: create_rank_def)
    then show ?case by (intro evm_create_returns [OF assms(1)] fits_mono [OF _ rank_bounds(2)])
  qed
next
  case (Some a)
  then show ?thesis using assms(2) evm_create_returns [OF assms(1)] by (simp add: evm_Create_def create_rank_def del: not_None_eq)
qed

lemma evm_Create2_returns:
  assumes "vm_laws V" "fits V (Suc n) 3 ev"
  shows "evm_Create2 V E caller code gas val salt ev \<noteq> None"
  unfolding evm_Create2_def Let_def by (intro evm_create_returns [OF assms(1)] fits_mono [OF assms(2) rank_bounds(2)])

lemma over: "evm_calls V (ops_over V E) (Suc n)"
  by unfold_locales (simp_all add: ops_over_def evm_Call_ok evm_CallCode_ok evm_DelegateCall_ok evm_StaticCall_ok
      evm_Create_ok evm_Create2_ok evm_Call_returns evm_CallCode_returns evm_DelegateCall_returns evm_StaticCall_returns
      evm_Create_returns evm_Create2_returns del: not_None_eq)

end

section \<open>The operations of the machine\<close>

lemma evm_calls_at: "evm_calls V (evm_ops_at V n) n"
proof (induction n)
  case 0
  have z: "rank a \<noteq> 0" for a using rank_bounds(1) [of a] by simp
  show ?case
    by unfold_locales (simp_all add: z no_ops_def call_ok_def create_ok_def fits_def create_rank_def split: option.splits)
next
  case (Suc n)
  then show ?case using evm_calls.over by simp
qed

interpretation machine: evm_calls V "evm_ops_at V n" n for V :: "('t, 'd) vm_lib" and n
  by (rule evm_calls_at)

end
