(* ===== verification/EvmSafe.thy ===== *)
theory EvmSafe
  imports EvmRun
begin

text \<open>
  What a caller of the machine can rely on: every call returns, hands back no more gas than it was given,
  keeps the context, and leaves the state as it was when it fails.
\<close>

section \<open>Failed calls\<close>

definition restored :: "('t, 'd) vm_lib \<Rightarrow> ('t, 'd) EVM \<Rightarrow> ('t, 'd) call_result \<Rightarrow> bool" where
  "restored V ev r \<longleftrightarrow> (\<forall>ret g e ev'. r = Some (Inr ((ret, g, Some e), ev')) \<longrightarrow>
     same_state (vl_eth V) (ev_StateDB ev') (ev_StateDB ev) \<and>
     (g = 0 \<or> e = errExecutionReverted \<or> e = ErrDepth \<or> e = ErrInsufficientBalance))"

lemma restored_intros:
  "same_state (vl_eth V) (ev_StateDB ev) (ev_StateDB ev0) \<Longrightarrow>
     g = 0 \<or> e = errExecutionReverted \<or> e = ErrDepth \<or> e = ErrInsufficientBalance \<Longrightarrow> restored V ev0 (call_done ret g (Some e) ev)"
  "restored V ev0 (call_done ret g None ev)"
  "(b \<Longrightarrow> restored V ev0 r) \<Longrightarrow> (\<not> b \<Longrightarrow> restored V ev0 s) \<Longrightarrow> restored V ev0 (if b then r else s)"
  by (simp_all add: restored_def call_done_def)

lemma restored_keeps:
  "keeps V ev1 r \<Longrightarrow> (\<And>x ev. r = Inr (x, ev) \<Longrightarrow> ev_rel V ev1 ev \<Longrightarrow> restored V ev0 (f x ev))
    \<Longrightarrow> restored V ev0 (bindF (Some r) (\<lambda>(x, ev). f x ev))"
  unfolding restored_def keeps_def bindF_Inr split_paired_Ex prod.case option.inject by blast

lemma restored_bind: "(\<And>x. r = Some (Inr x) \<Longrightarrow> restored V ev0 (f x)) \<Longrightarrow> restored V ev0 (bindF r f)"
  unfolding restored_def bindF_Inr by blast

lemma restored_do: "(\<And>x. r = Inr x \<Longrightarrow> restored V ev0 (f x)) \<Longrightarrow> restored V ev0 (bindF (Some r) f)"
  by (rule restored_bind) simp

lemma restored_trans:
  "same_state (vl_eth V) (ev_StateDB ev1) (ev_StateDB ev0) \<Longrightarrow> restored V ev1 r \<Longrightarrow> restored V ev0 r"
  unfolding restored_def by (blast intro: same_state_trans)

definition db_ok :: "('t, 'd) vm_lib \<Rightarrow> ('t, 'd) EVM \<Rightarrow> bool" where
  "db_ok V ev \<longleftrightarrow> state_ok (vl_eth V) (ev_StateDB ev) \<and> revs_ok (ev_StateDB ev)"

lemma db_ok_rel: "ev_rel V ev ev' \<Longrightarrow> db_ok V ev \<Longrightarrow> db_ok V ev'"
  by (auto simp: db_ok_def ev_rel_def grows_def)

text \<open>The checks before a transfer only read.\<close>

lemma balance_read:
  assumes "db_ok V ev" "GetBalance (vl_eth V) a tk (ev_StateDB ev) = Inr (y, s)"
  shows "same_state (vl_eth V) s (ev_StateDB ev)"
  using unchanged_same_state [OF _ GetBalance_unchanged [OF _ assms(2)]] assms(1) by (simp add: db_ok_def)

lemma CanTransfer_read:
  assumes "db_ok V ev" "db_get (CanTransfer (vl_eth V) a x tk) ev = Inr (b, ev')"
  shows "same_state (vl_eth V) (ev_StateDB ev') (ev_StateDB ev)"
  using assms balance_read by (auto simp: db_get_def CanTransfer_def bind_res_Inr_iff)

lemma PoswCheck_read:
  assumes "db_ok V ev" "db_get (TransferFailureByPoswBalanceCheck (vl_eth V) a x) ev = Inr (b, ev')"
  shows "same_state (vl_eth V) (ev_StateDB ev') (ev_StateDB ev)"
proof (cases "map_of (sdb_senderDisallowMap (ev_StateDB ev)) a")
  case None
  then show ?thesis using assms same_state_refl by (auto simp: db_get_def TransferFailureByPoswBalanceCheck_def db_ok_def)
next
  case (Some v)
  then show ?thesis using assms balance_read
    by (auto simp: db_get_def TransferFailureByPoswBalanceCheck_def bind_res_Inr_iff)
qed

lemma revert_same:
  assumes "db_ok V ev0" "ev_rel V (snapped ev0) ev1"
    "db_do (RevertToSnapshot (vl_eth V) (sdb_nextRevisionId (ev_StateDB ev0))) ev1 = Inr ev2"
  shows "same_state (vl_eth V) (ev_StateDB ev2) (ev_StateDB ev0)"
proof -
  from assms(3) obtain s where s: "RevertToSnapshot (vl_eth V) (sdb_nextRevisionId (ev_StateDB ev0)) (ev_StateDB ev1) = Inr s"
    "ev2 = with_db ev1 s" by (auto simp: db_do_def bind_res_Inr_iff)
  have "grows (vl_eth V) (snd (Snapshot (ev_StateDB ev0))) (ev_StateDB ev1)" using assms(2) by (simp add: ev_rel_def snapped_def)
  from grows_revert [OF this] show ?thesis using assms(1) s by (auto simp: db_ok_def)
qed

context evm_calls
begin

lemma run_call_restored:
  assumes "vm_laws V" "db_ok V ev0" "ev_rel V (snapped ev0) ev"
  shows "restored V ev0 (run_call V E (sdb_nextRevisionId (ev_StateDB ev0)) c input ro ev)"
  unfolding run_call_def
proof (rule restored_bind, goal_cases)
  case (1 x)
  obtain ret err c1 ev1 where x: "x = ((ret, err), c1, ev1)" by (metis prod.exhaust)
  with run_result_ok [OF assms(1)] 1 have "ev_rel V ev ev1" unfolding run_ok_def by blast
  then have e: "ev_rel V (snapped ev0) ev1" by (rule ev_rel_trans [OF assms(3)])
  have "restored V ev0 (revert_on_error V (sdb_nextRevisionId (ev_StateDB ev0)) ret er c1 ev1)" for er
  proof (cases er)
    case None
    then show ?thesis by (simp add: revert_on_error_def restored_intros)
  next
    case (Some er')
    have "ct_Gas (snd (UseGas (ct_Gas c1) c1)) = 0" by (simp add: UseGas_def)
    then show ?thesis unfolding Some revert_on_error_def Let_def
      by (auto intro!: restored_do restored_intros(1) dest: revert_same [OF assms(2) e])
  qed
  then show ?case unfolding x prod.case by (intro restored_do)
qed

lemma evm_Call_restored:
  assumes "vm_laws V" "db_ok V ev"
  shows "restored V ev (evm_Call V E caller addr input gas val ev)"
  unfolding evm_Call_def Let_def take_snapshot_eq prod.case
proof (intro restored_intros same_state_refl, use assms(2) in \<open>simp add: db_ok_def\<close>, simp,
    rule restored_keeps, rule keeps_checks, rule ev_rel_refl, goal_cases)
  case (1 can ev1)
  note ev1 = 1(4) and s1 = CanTransfer_read [OF assms(2) 1(3)] and ok1 = db_ok_rel [OF 1(4) assms(2)]
  show ?case
  proof (intro restored_intros s1, simp, rule restored_keeps, rule keeps_checks, rule ev_rel_refl, goal_cases)
    case (1 posw ev2)
    note s2 = same_state_trans [OF PoswCheck_read [OF ok1 1(2)] s1] and ok2 = db_ok_rel [OF 1(3) ok1]
    show ?case
    proof (intro restored_intros s2, simp, goal_cases)
      case 1
      show ?case
      proof (rule restored_trans [OF s2], rule restored_keeps, rule keeps_db(4), rule ev_rel_refl, goal_cases)
        case (1 ex ev3)
        note ev3 = 1(2)
        show ?case
        proof (intro restored_intros, rule restored_do, rule restored_do, goal_cases)
          case (1 ev4 ev5)
          then have "ev_rel V (snapped ev2) ev4" using ev3 db_do_trans(5) [OF ev3] by (auto split: if_splits)
          note ev5 = Transfer_rel [OF this 1(3)]
          show ?case
          proof (rule restored_keeps, rule keeps_call_contract, rule ev5, goal_cases)
            case (1 c ev6)
            then show ?case by (intro run_call_restored [OF assms(1) ok2])
          qed
        qed
      qed
    qed
  qed
qed

end

section \<open>The contract of a call\<close>

lemma EVM_ops_Suc: "EVM_ops V = ops_over V (evm_ops_at V (3 * p_CallCreateDepth (vl_params V) + 5))"
proof -
  have "evm_fuel V = Suc (3 * p_CallCreateDepth (vl_params V) + 5)" by (simp add: evm_fuel_def)
  then show ?thesis by (simp only: EVM_ops_def evm_ops_at.simps)
qed

lemma fits_fuel: "system_ok ev \<Longrightarrow> r \<le> 3 \<Longrightarrow> fits V (evm_fuel V) r ev"
  by (simp add: fits_def evm_fuel_def)

text \<open>The system contracts of the source are not precompiled contracts, whatever their byte codes and times.\<close>

definition system_addresses :: "recipient list" where
  "system_addresses = [0, rootChainPoSWContractAddr, NonReservedNativeTokenContractAddr, generalNativeTokenContractAddr]"

lemma system_addresses_free: "list_all (\<lambda>a. a \<notin> set (map fst PrecompiledContractsByzantium)) system_addresses"
  by code_simp

lemma system_contracts_ok:
  assumes "map sc_address (ev_SystemContracts ev) = map sc_address (SystemContracts b1 b2 b3)"
  shows "system_ok ev"
proof -
  have "map sc_address (SystemContracts b1 b2 b3) = system_addresses" by (simp add: SystemContracts_def system_addresses_def)
  then have "set (map sc_address (ev_SystemContracts ev)) = set system_addresses" using assms by metis
  then have "sc_address c \<in> set system_addresses" if "c \<in> set (ev_SystemContracts ev)" for c using that by auto
  then show ?thesis using system_addresses_free by (auto simp: system_ok_def list_all_iff map_of_eq_None_iff)
qed

text \<open>C3: Every call and every creation of a contract returns, whatever the code and the gas. The interpreter
  loop is bounded by the gas, since every instruction that does not end the loop costs some of it; the nesting
  of contracts is bounded by the call depth limit, and at one depth at most three operations nest through the
  precompiled contracts. Assumed are the documented fees and that no system contract has the address of a
  precompiled one. A Go panic, which ends the call as well, counts as a return.\<close>

theorem calls_return:
  assumes "vm_laws V" "system_ok ev"
  shows "(\<exists>r. eo_Call (EVM_ops V) caller addr input gas val ev = Some r) \<and>
    (\<exists>r. eo_CallCode (EVM_ops V) caller addr input gas val ev = Some r) \<and>
    (\<exists>r. eo_DelegateCall (EVM_ops V) caller addr input gas ev = Some r) \<and>
    (\<exists>r. eo_StaticCall (EVM_ops V) caller addr input gas ev = Some r) \<and>
    (\<exists>r. eo_Create (EVM_ops V) caller code gas val recip ev = Some r) \<and>
    (\<exists>r. eo_Create2 (EVM_ops V) caller code gas val salt ev = Some r)"
  unfolding EVM_ops_def not_None_eq [symmetric]
  using assms fits_fuel rank_bounds
  by (intro conjI machine.Call_returns machine.CallCode_returns machine.DelegateCall_returns machine.StaticCall_returns
      machine.Create_returns machine.Create2_returns) auto

text \<open>C4: A call hands back no more gas than it was given, and returns with the context, the call depth and the
  read-only flag it found, although nested calls change all three.\<close>

theorem leftover_gas:
  assumes "vm_laws V" "eo_Call (EVM_ops V) caller addr input gas val ev = Some (Inr ((ret, left, err), ev'))"
  shows "left \<le> gas \<and> ev_Context ev' = ev_Context ev \<and> ev_depth ev' = ev_depth ev \<and> ev_readOnly ev' = ev_readOnly ev"
proof -
  have "left \<le> gas \<and> ev_rel V ev ev'"
    using machine.Call [OF assms(1)] assms(2) unfolding EVM_ops_def call_ok_def by blast
  then show ?thesis by (simp add: ev_rel_def)
qed

text \<open>C1: On a state in which no account has its balances in a token trie and the account trie holds no deleted
  account (\<open>state_ok\<close>), a call that returns an error leaves the state as it was: every account, the logs, the
  preimages, the refund counter and the dirty marks of the journal are as before, except for the dirty mark of the
  account \<open>ripemd\<close>, whatever the contract and the contracts it called did. The call keeps gas only if it was
  reverted by the contract, or not started for the depth or for lack of balance. Without the condition on the
  balances this fails, since a return to a snapshot loses balances in a token trie.\<close>

theorem failed_call_restores:
  assumes "vm_laws V" "state_ok (vl_eth V) (ev_StateDB ev)" "revs_ok (ev_StateDB ev)"
    "eo_Call (EVM_ops V) caller addr input gas val ev = Some (Inr ((ret, left, Some e), ev'))"
  shows "same_state (vl_eth V) (ev_StateDB ev') (ev_StateDB ev) \<and>
    (left = 0 \<or> e = errExecutionReverted \<or> e = ErrDepth \<or> e = ErrInsufficientBalance)"
proof -
  have "restored V ev (eo_Call (EVM_ops V) caller addr input gas val ev)"
    using machine.evm_Call_restored [OF assms(1)] assms(2,3) by (simp add: EVM_ops_Suc ops_over_def db_ok_def)
  then show ?thesis using assms(4) unfolding restored_def by blast
qed


text \<open>C32: The precompiled contract that deploys system contracts panics for every index whose low 64 bits are
  2 to the 63 or more: as a signed number the index is negative and passes the comparison with the number of
  system contracts.\<close>

theorem deploy_index_panics:
  assumes "getData (vl_math V) input 0 32 = Inr b" "2 ^ 63 \<le> unat (big_Uint64 (big_SetBytes b))"
  shows "\<exists>m. precompile_Run V E deploySystemContract input c ev = Some (Inl (GoPanic m))"
proof -
  let ?i = "big_Uint64 (big_SetBytes b)"
  have "unat ?i < 2 ^ 64" using unat_lt_exp [of ?i] by simp
  then have "unat ?i div 2 ^ 63 = 1" using assms by (intro div_nat_eqI) simp_all
  then have "uint ?i div 2 ^ 63 = 1" unfolding int_unat by (metis of_nat_1 of_nat_numeral of_nat_power zdiv_int)
  then have "bit (uint ?i) 63" by (simp add: bit_iff_odd)
  then have "sint ?i < 0" by (simp add: sint_uint signed_take_bit_negative_iff)
  moreover have "0 < ?i" using assms by (simp add: word_less_nat_alt)
  ultimately show ?thesis using assms(1) by (simp add: deploySystemContract_Run_def bindF_def Let_def SystemContractScopeMap_def)
qed

section \<open>A machine on an empty state\<close>

definition sample_evm :: "(bytes \<Rightarrow> bytes, unit) EVM" where
  "sample_evm = \<lparr>ev_Context = \<lparr>cx_GetHash = (\<lambda>n. 0), cx_Origin = 7, cx_GasPrice = 1, cx_GasPriceInGasToken = 1, cx_Coinbase = 8,
      cx_GasLimit = 1000000, cx_BlockNumber = 1, cx_Time = 1, cx_Difficulty = 1, cx_ToFullShardKey = None,
      cx_GasTokenID = 1, cx_TransferTokenID = 1, cx_IsApplyXShard = False, cx_XShardGasUsedStart = 0,
      cx_ContractAddress = None\<rparr>,
    ev_StateDB = blank_state, ev_depth = 0, ev_NoRecursion = False, ev_EnablePreimageRecording = False, ev_abort = False,
    ev_callGasTemp = 0, ev_readOnly = False, ev_returnData = [], ev_jumpdests = [], ev_enableTime = (\<lambda>a. 0),
    ev_SystemContracts = SystemContracts [] [] []\<rparr>"

abbreviation "sample_vm \<equiv> std_vm (map_lib (\<lambda>k. []))"

lemma sample_system: "system_ok sample_evm"
  by (rule system_contracts_ok) (simp add: sample_evm_def)

lemma sample_state: "ev_StateDB sample_evm = blank_state" "vl_eth sample_vm = map_lib (\<lambda>k. [])"
  by (simp_all add: sample_evm_def std_vm_def)

theorem calls_return_witness:
  "\<exists>r. eo_Call (EVM_ops sample_vm) (AccountRef 7) 9 [1, 2] 90000 5 sample_evm = Some r"
  using calls_return [OF std_vm_laws sample_system] by blast

lemma sample_calls:
  "\<exists>ev'. eo_Call (EVM_ops sample_vm) (AccountRef 7) 9 [1, 2] 900 0 sample_evm = Some (Inr (([], 900, None), ev'))"
  "\<exists>ev'. eo_Call (EVM_ops sample_vm) (AccountRef 7) 9 [1, 2] 900 5 sample_evm
     = Some (Inr (([], 900, Some ErrInsufficientBalance), ev'))"
  unfolding EVM_ops_Suc
  by (simp_all add: ops_over_def evm_Call_def sample_evm_def Let_def db_get_def CanTransfer_def GetBalance_def
      getStateObject_def blank_state_def New_def map_lib_def std_vm_def std_params_def std_rules_def with_db_def
      TransferFailureByPoswBalanceCheck_def take_snapshot_def Snapshot_def Exist_def PrecompiledContractsByzantium_def
      currentMntIDAddr_def transferMntAddr_def deploySystemContractAddr_def MintMNTAddr_def BalanceMNTAddr_def
      big_Sign_def bindF_def call_done_def setError_def err_of_def)

theorem leftover_gas_witness:
  "\<exists>ev'. eo_Call (EVM_ops sample_vm) (AccountRef 7) 9 [1, 2] 900 0 sample_evm = Some (Inr (([], 900, None), ev'))
    \<and> ev_depth ev' = 0"
  using sample_calls(1) leftover_gas [OF std_vm_laws] by (fastforce simp: sample_evm_def)

theorem failed_call_restores_witness:
  "\<exists>ev'. eo_Call (EVM_ops sample_vm) (AccountRef 7) 9 [1, 2] 900 5 sample_evm
      = Some (Inr (([], 900, Some ErrInsufficientBalance), ev'))
    \<and> same_state (map_lib (\<lambda>k. [])) (ev_StateDB ev') blank_state"
  using sample_calls(2) failed_call_restores [OF std_vm_laws, of "map_lib (\<lambda>k. [])" sample_evm] blank_state_ok
  unfolding sample_state by blast

theorem deploy_index_panics_witness:
  "\<exists>m. precompile_Run sample_vm (EVM_ops sample_vm) deploySystemContract (replicate 24 0 @ [128, 0, 0, 0, 0, 0, 0, 0])
     (fst (NewContract (AccountRef 7) 9 0 0 [])) sample_evm = Some (Inl (GoPanic m))"
proof -
  have "getData (vl_math sample_vm) (replicate 24 0 @ [128, 0, 0, 0, 0, 0, 0, 0]) 0 32 = Inr (replicate 24 0 @ [128, 0, 0, 0, 0, 0, 0, 0])"
    by (simp add: getData_def std_vm_def std_math_def Let_def)
  moreover have "2 ^ 63 \<le> unat (big_Uint64 (big_SetBytes (replicate 24 0 @ [128, 0, 0, 0, 0, 0, 0, 0])))"
    unfolding big_SetBytes_def be_value_zeros by (simp add: be_value_def big_Uint64_def)
  ultimately show ?thesis by (rule deploy_index_panics)
qed

end
