(* ===== verification/StateTransition.thy ===== *)
theory StateTransition
  imports EvmSafe
begin

text \<open>
  The application of a message to the state, \<open>core/state_transition.go\<close>, and the gas pool of a block,
  \<open>core/gaspool.go\<close>: buying gas, the intrinsic gas, the call or creation, the deposit of a cross-shard
  transaction, the refund of unused gas and the fee.

  \<^item> The field \<open>state\<close> of a \<open>StateTransition\<close> is the \<open>StateDB\<close> of its \<open>evm\<close>; the model has it once. The
    gas pool, a pointer shared with the caller, is a field whose final value the caller reads.
  \<^item> The gas prices of a transaction are constants of go-ethereum's package \<open>params\<close>; they are the parameter
    \<open>P\<close>, of which the theorems assume only that the prices of a byte are positive (\<open>tx_prices\<close>).
  \<^item> A function with several results that the code ends early gives its results and the transition it
    leaves; \<open>Inl\<close> is a panic and \<open>None\<close> an execution that does not return.
\<close>

section \<open>Gas pool\<close>

definition ErrGasLimitReached :: go_error where "ErrGasLimitReached = GoError ''gas limit reached''"

definition AddGas :: "u64 \<Rightarrow> u64 \<Rightarrow> u64 res" where
  "AddGas amount gp = (if gp > - 1 - amount then Inl (GoPanic ''gas pool pushed above uint64'') else Inr (gp + amount))"

definition SubGas :: "u64 \<Rightarrow> u64 \<Rightarrow> go_error option \<times> u64" where
  "SubGas amount gp = (if gp < amount then (Some ErrGasLimitReached, gp) else (None, gp - amount))"

section \<open>State transitions\<close>

definition errInsufficientBalanceForGas :: go_error where
  "errInsufficientBalanceForGas = GoError ''insufficient balance to pay for gas''"

definition ErrNonceTooHigh :: go_error where "ErrNonceTooHigh = GoError ''nonce too high''"
definition ErrNonceTooLow :: go_error where "ErrNonceTooLow = GoError ''nonce too low''"

definition GtxxShardCost :: int where "GtxxShardCost = 9000"

record tx_params =
  p_TxGas :: u64
  p_TxGasContractCreation :: u64
  p_TxDataNonZeroGas :: u64
  p_TxDataZeroGas :: u64

definition tx_prices :: "tx_params \<Rightarrow> bool" where
  "tx_prices P \<longleftrightarrow> 0 < p_TxDataNonZeroGas P \<and> 0 < p_TxDataZeroGas P"

record ('t, 'd) StateTransition =
  st_gp :: u64
  st_msg :: Message
  st_gas :: u64
  st_gasPrice :: int
  st_initialGas :: u64
  st_value :: int
  st_data :: bytes
  st_evm :: "('t, 'd) EVM"

abbreviation "st_state st \<equiv> ev_StateDB (st_evm st)"
abbreviation "st_ctx st \<equiv> ev_Context (st_evm st)"

definition NewStateTransition :: "('t, 'd) EVM \<Rightarrow> Message \<Rightarrow> u64 \<Rightarrow> ('t, 'd) StateTransition" where
  "NewStateTransition evm msg gp =
     \<lparr>st_gp = gp, st_msg = msg, st_gas = 0, st_gasPrice = ms_gasPrice msg, st_initialGas = 0, st_value = ms_amount msg,
      st_data = ms_data msg, st_evm = evm\<rparr>"

text \<open>The operations on the state.\<close>

definition st_get :: "(('t, 'd) StateDB \<Rightarrow> ('a \<times> ('t, 'd) StateDB) res) \<Rightarrow> ('t, 'd) StateTransition
    \<Rightarrow> ('a \<times> ('t, 'd) StateTransition) res" where
  "st_get f st = bind_res (db_get f (st_evm st)) (\<lambda>(x, ev). Inr (x, st\<lparr>st_evm := ev\<rparr>))"

definition st_do :: "(('t, 'd) StateDB \<Rightarrow> ('t, 'd) StateDB res) \<Rightarrow> ('t, 'd) StateTransition
    \<Rightarrow> ('t, 'd) StateTransition res" where
  "st_do f st = bind_res (db_do f (st_evm st)) (\<lambda>ev. Inr (st\<lparr>st_evm := ev\<rparr>))"

definition chain_config :: "('t, 'd) StateDB \<Rightarrow> QuarkChainConfig res" where
  "chain_config s = (case sdb_quarkChainConfig s of None \<Rightarrow> Inl (GoPanic ''nil pointer dereference'') | Some q \<Rightarrow> Inr q)"

subsection \<open>Intrinsic gas\<close>

definition count_nonzero :: "bytes \<Rightarrow> u64" where
  "count_nonzero data = foldl (\<lambda>nz byt. if byt \<noteq> 0 then nz + 1 else nz) 0 data"

definition data_gas :: "tx_params \<Rightarrow> bytes \<Rightarrow> u64 \<Rightarrow> u64 res" where
  "data_gas P data gas =
     (if length data > 0 then
        (let nz = count_nonzero data in
         if (- 1 - gas) div p_TxDataNonZeroGas P < nz then Inl ErrOutOfGas
         else
           let gas = gas + nz * p_TxDataNonZeroGas P; z = of_nat (length data) - nz in
           if (- 1 - gas) div p_TxDataZeroGas P < z then Inl ErrOutOfGas
           else Inr (gas + z * p_TxDataZeroGas P))
      else Inr gas)"

definition IntrinsicGas :: "tx_params \<Rightarrow> bytes \<Rightarrow> bool \<Rightarrow> bool \<Rightarrow> u64 res" where
  "IntrinsicGas P data contractCreation isCrossShard =
     bind_res (data_gas P data (if contractCreation then p_TxGasContractCreation P else p_TxGas P)) (\<lambda>gas.
       Inr (if isCrossShard then gas + big_Uint64 GtxxShardCost else gas))"

subsection \<open>Buying gas\<close>

definition st_to :: "('t, 'd) StateTransition \<Rightarrow> recipient" where
  "st_to st = (case ms_to (st_msg st) of None \<Rightarrow> 0 | Some a \<Rightarrow> a)"

definition st_useGas :: "u64 \<Rightarrow> ('t, 'd) StateTransition \<Rightarrow> go_error option \<times> ('t, 'd) StateTransition" where
  "st_useGas amount st =
     (if st_gas st < amount then (Some ErrOutOfGas, st) else (None, st\<lparr>st_gas := st_gas st - amount\<rparr>))"

definition buyGas :: "('t, 'd) vm_lib \<Rightarrow> ('t, 'd) StateTransition \<Rightarrow> (go_error option \<times> ('t, 'd) StateTransition) res" where
  "buyGas V st =
     (let mgval = uint (ms_gasLimit (st_msg st)) * cx_GasPriceInGasToken (st_ctx st);
          token = cx_GasTokenID (st_ctx st); from = ms_from (st_msg st)
      in bind_res (st_get (GetBalance (vl_eth V) from token) st) (\<lambda>(b, st).
         if b < mgval then Inr (Some errInsufficientBalanceForGas, st)
         else
           (case SubGas (ms_gasLimit (st_msg st)) (st_gp st) of
              (Some err, gp) \<Rightarrow> Inr (Some err, st)
            | (None, gp) \<Rightarrow>
                bind_res (st_do (SubBalance (vl_eth V) from mgval token)
                  (st\<lparr>st_gp := gp, st_gas := st_gas st + ms_gasLimit (st_msg st),
                      st_initialGas := ms_gasLimit (st_msg st)\<rparr>)) (\<lambda>st. Inr (None, st)))))"

definition preCheck :: "('t, 'd) vm_lib \<Rightarrow> ('t, 'd) StateTransition \<Rightarrow> (go_error option \<times> ('t, 'd) StateTransition) res" where
  "preCheck V st =
     (if ms_checkNonce (st_msg st) then
        bind_res (st_get (GetNonce (vl_eth V) (ms_from (st_msg st))) st) (\<lambda>(nonce, st).
          if nonce < ms_nonce (st_msg st) then Inr (Some ErrNonceTooHigh, st)
          else if nonce > ms_nonce (st_msg st) then Inr (Some ErrNonceTooLow, st)
          else buyGas V st)
      else buyGas V st)"

definition preFill :: "('t, 'd) StateTransition \<Rightarrow> ('t, 'd) StateTransition" where
  "preFill st =
     (let gas = st_gas st + (ms_gasLimit (st_msg st) + cx_XShardGasUsedStart (st_ctx st))
      in st\<lparr>st_gas := gas, st_initialGas := gas\<rparr>)"

subsection \<open>Refund and fee\<close>

definition st_gasUsed :: "('t, 'd) StateTransition \<Rightarrow> u64" where
  "st_gasUsed st = st_initialGas st - st_gas st"

definition refund :: "('t, 'd) vm_lib \<Rightarrow> int \<Rightarrow> ('t, 'd) StateTransition \<Rightarrow> ('t, 'd) StateTransition res" where
  "refund V whole st =
     bind_res (chain_token (st_state st)) (\<lambda>gasTokenId.
       let from = ms_from (st_msg st); rate = ms_refundRate (st_msg st) in
       if rate = 100 then st_do (AddBalance (vl_eth V) from whole gasTokenId) st
       else
         let toRefund = (whole * uint rate) div 100; toburn = whole - toRefund in
         bind_res (st_do (AddBalance (vl_eth V) from toRefund gasTokenId) st) (\<lambda>st.
         if toburn \<ge> 0 then st_do (AddBalance (vl_eth V) 0 toburn gasTokenId) st else Inr st))"

definition refundGas :: "('t, 'd) vm_lib \<Rightarrow> go_error option \<Rightarrow> ('t, 'd) StateTransition \<Rightarrow> ('t, 'd) StateTransition res" where
  "refundGas V vmerr st =
     (let st = (if vmerr = None then
                  st\<lparr>st_gas := st_gas st + (let refund = st_gasUsed st div 2 in
                       if refund > GetRefund (st_state st) then GetRefund (st_state st) else refund)\<rparr>
                else st)
      in bind_res (st_do (SubRefund (GetRefund (st_state st))) st) (\<lambda>st.
         bind_res (refund V (uint (st_gas st) * st_gasPrice st) st) (\<lambda>st.
         bind_res (AddGas (st_gas st) (st_gp st)) (\<lambda>gp. Inr (st\<lparr>st_gp := gp\<rparr>)))))"

definition local_fee :: "QuarkChainConfig \<Rightarrow> int \<Rightarrow> int" where
  "local_fee q fee =
     BigIntMulBigRat fee (fst (quotient_of (qc_LocalFeeRate q)), nat (snd (quotient_of (qc_LocalFeeRate q))))"

definition chargeFee :: "('t, 'd) vm_lib \<Rightarrow> u64 \<Rightarrow> ('t, 'd) StateTransition \<Rightarrow> ('t, 'd) StateTransition res" where
  "chargeFee V gasUsed st =
     (let fee = uint gasUsed * st_gasPrice st in
      bind_res (chain_config (st_state st)) (\<lambda>q.
      let rateFee = local_fee q fee in
      bind_res (chain_token (st_state st)) (\<lambda>gasTokenId.
      bind_res (st_do (AddBalance (vl_eth V) (cx_Coinbase (st_ctx st)) rateFee gasTokenId) st) (\<lambda>st.
      bind_res (st_do (\<lambda>s. Inr (AddBlockFee [(gasTokenId, rateFee)] s)) st) (\<lambda>st.
      if sdb_timeStamp (st_state st) \<ge> qc_EnableEvmTimeStamp q
      then st_do (\<lambda>s. Inr (AddGasUsed (uint gasUsed) s)) st
      else st_do (\<lambda>s. Inr (AddGasUsed (uint (st_gasUsed st)) s)) st)))))"

definition transferFailureByPoSWBalanceCheck :: "('t, 'd) vm_lib \<Rightarrow> ('t, 'd) StateTransition
    \<Rightarrow> (bool \<times> ('t, 'd) StateTransition) res" where
  "transferFailureByPoSWBalanceCheck V st =
     (case map_of (sdb_senderDisallowMap (st_state st)) (ms_from (st_msg st)) of
        None \<Rightarrow> Inr (False, st)
      | Some v \<Rightarrow>
          bind_res (chain_token (st_state st)) (\<lambda>tk.
          bind_res (st_get (GetBalance (vl_eth V) (ms_from (st_msg st)) tk) st) (\<lambda>(b, st).
            Inr (ms_amount (st_msg st) + v > b, st))))"

subsection \<open>Cross-shard deposits\<close>

type_synonym ('t, 'd) transition_result = "((bytes \<times> u64 \<times> bool \<times> go_error option) \<times> ('t, 'd) StateTransition) res"

text \<open>The deposit of a message, with the address, the gas and the kind that its two constructors set.\<close>

definition xshard_deposit :: "Message \<Rightarrow> u64 \<Rightarrow> recipient \<Rightarrow> u64 \<Rightarrow> bool \<Rightarrow> CrossShardTransactionDeposit res" where
  "xshard_deposit msg genesisToken to gas create =
     (case ms_toFullShardKey msg of
        None \<Rightarrow> Inl (GoPanic ''nil pointer dereference'')
      | Some key \<Rightarrow> Inr
          \<lparr>cd_TxHash = ms_txHash msg, cd_From = \<lparr>ad_Recipient = ms_from msg, ad_FullShardKey = ms_fromFullShardKey msg\<rparr>,
           cd_To = \<lparr>ad_Recipient = to, ad_FullShardKey = key\<rparr>, cd_Value = ms_amount msg, cd_GasPrice = ms_gasPrice msg,
           cd_GasTokenID = genesisToken, cd_TransferTokenID = ms_transferTokenID msg, cd_IsFromRootChain = False,
           cd_GasRemained = uint gas, cd_MessageData = ms_data msg, cd_CreateContract = create,
           cd_RefundRate = ms_refundRate msg\<rparr>)"

text \<open>The three cases of a deposit, with \<open>failed\<close> and the gas reserved for the other shard.\<close>

definition make_deposit :: "('t, 'd) vm_lib \<Rightarrow> u64 \<Rightarrow> u64 \<Rightarrow> bool \<Rightarrow> ('t, 'd) StateTransition
    \<Rightarrow> ((bool \<times> u64) \<times> ('t, 'd) StateTransition) res" where
  "make_deposit V genesisToken intrinsicGas posw st =
     (let msg = st_msg st; from = ms_from msg; L = vl_eth V in
      if posw then Inr ((True, 0), st\<lparr>st_gas := 0\<rparr>)
      else case ms_to msg of
        None \<Rightarrow>
          bind_res (st_do (SubBalance L from (st_value st) (ms_transferTokenID msg)) st) (\<lambda>st.
          let remoteGasReserved = ms_gasLimit msg - intrinsicGas in
          bind_res (st_get (GetNonce L from) st) (\<lambda>(nonce, st).
          bind_res (xshard_deposit msg genesisToken (CreateAddress V from (Some (ms_fromFullShardKey msg)) nonce)
            remoteGasReserved True) (\<lambda>d.
          bind_res (st_do (\<lambda>s. Inr (AppendXShardList d s)) st) (\<lambda>st. Inr ((False, remoteGasReserved), st)))))
      | Some to \<Rightarrow>
          bind_res (st_do (SubBalance L from (st_value st) (ms_transferTokenID msg)) st) (\<lambda>st.
          bind_res (chain_config (st_state st)) (\<lambda>q.
          let remoteGasReserved = (if sdb_timeStamp (st_state st) \<ge> qc_EnableEvmTimeStamp q
                                   then ms_gasLimit msg - intrinsicGas else 0) in
          bind_res (xshard_deposit msg genesisToken to remoteGasReserved False) (\<lambda>d.
          bind_res (st_do (\<lambda>s. Inr (AppendXShardList d s)) st) (\<lambda>st. Inr ((False, remoteGasReserved), st))))))"

text \<open>The end of a deposit: the refund of the gas that is left and the fee.\<close>

definition finish_deposit :: "('t, 'd) vm_lib \<Rightarrow> bool \<Rightarrow> u64 \<Rightarrow> ('t, 'd) StateTransition \<Rightarrow> ('t, 'd) transition_result" where
  "finish_deposit V failed remoteGasReserved st =
     (let localGasUsed = st_gasUsed st; gasRemained = ms_gasLimit (st_msg st) - localGasUsed - remoteGasReserved in
      bind_res (refund V (uint gasRemained * st_gasPrice st) st) (\<lambda>st.
      let localGasUsed = (if \<not> failed then localGasUsed - big_Uint64 GtxxShardCost else localGasUsed) in
      bind_res (chargeFee V localGasUsed st) (\<lambda>st.
        Inr (([], big_Uint64 (GetGasUsed (st_state st)), failed, None), st))))"

definition AddCrossShardTxDeposit :: "('t, 'd) vm_lib \<Rightarrow> u64 \<Rightarrow> ('t, 'd) StateTransition \<Rightarrow> ('t, 'd) transition_result" where
  "AddCrossShardTxDeposit V intrinsicGas st =
     bind_res (chain_token (st_state st)) (\<lambda>genesisToken.
     bind_res (st_get (CanTransfer (vl_eth V) (ms_from (st_msg st)) (st_value st) (ms_transferTokenID (st_msg st))) st) (\<lambda>(can, st).
     if \<not> can then Inr (([], st_gas st, False, Some ErrInsufficientBalance), st)
     else
       bind_res (transferFailureByPoSWBalanceCheck V st) (\<lambda>(posw, st).
       bind_res (make_deposit V genesisToken intrinsicGas posw st) (\<lambda>((failed, remoteGasReserved), st).
         finish_deposit V failed remoteGasReserved st))))"

subsection \<open>Applying a message\<close>

text \<open>The gas to be paid before the execution, and its payment.\<close>

definition start_gas :: "('t, 'd) vm_lib \<Rightarrow> tx_params \<Rightarrow> ('t, 'd) StateTransition
    \<Rightarrow> ((go_error option \<times> u64) \<times> ('t, 'd) StateTransition) res" where
  "start_gas V P st =
     (if cx_IsApplyXShard (st_ctx st) then Inr ((None, cx_XShardGasUsedStart (st_ctx st)), preFill st)
      else
        bind_res (preCheck V st) (\<lambda>(err, st).
          if err \<noteq> None then Inr ((err, 0), st)
          else
            (case IntrinsicGas P (st_data st) (ms_to (st_msg st) = None) (ms_isCrossShard (st_msg st)) of
               Inl err \<Rightarrow> Inr ((Some err, 0), st)
             | Inr gas \<Rightarrow> Inr ((None, gas), st))))"

definition prepay :: "('t, 'd) vm_lib \<Rightarrow> tx_params \<Rightarrow> ('t, 'd) StateTransition
    \<Rightarrow> ((go_error option \<times> u64) \<times> ('t, 'd) StateTransition) res" where
  "prepay V P st =
     bind_res (start_gas V P st) (\<lambda>((err, gas), st).
       if err \<noteq> None then Inr ((err, gas), st)
       else (let (err, st) = st_useGas gas st in Inr ((err, gas), st)))"

definition increase_nonce :: "('t, 'd) vm_lib \<Rightarrow> ('t, 'd) StateTransition \<Rightarrow> ('t, 'd) StateTransition res" where
  "increase_nonce V st =
     bind_res (st_get (GetNonce (vl_eth V) (ms_from (st_msg st))) st) (\<lambda>(nonce, st).
       st_do (SetNonce (vl_eth V) (ms_from (st_msg st)) (nonce + 1)) st)"

definition execute :: "('t, 'd) vm_lib \<Rightarrow> ('t, 'd) evm_ops \<Rightarrow> ('t, 'd) StateTransition
    \<Rightarrow> ((bytes \<times> go_error option) \<times> ('t, 'd) StateTransition) res option" where
  "execute V E st =
     (let sender = AccountRef (ms_from (st_msg st)); contractCreation = (ms_to (st_msg st) = None) in
      if contractCreation \<or> cx_ContractAddress (st_ctx st) \<noteq> None then
        bindF (eo_Create E sender (st_data st) (st_gas st) (st_value st) (cx_ContractAddress (st_ctx st)) (st_evm st))
          (\<lambda>((ret, a, gas, vmerr), ev). Some (Inr ((ret, vmerr), st\<lparr>st_gas := gas, st_evm := ev\<rparr>)))
      else
        bindF (Some (if \<not> cx_IsApplyXShard (st_ctx st) then increase_nonce V st else Inr st)) (\<lambda>st.
        bindF (Some (transferFailureByPoSWBalanceCheck V st)) (\<lambda>(posw, st).
        if posw then Some (Inr (([], Some ErrPoSWSenderNotAllowed), st\<lparr>st_gas := 0\<rparr>))
        else
          bindF (eo_Call E sender (st_to st) (st_data st) (st_gas st) (st_value st) (st_evm st))
            (\<lambda>((ret, gas, vmerr), ev). Some (Inr ((ret, vmerr), st\<lparr>st_gas := gas, st_evm := ev\<rparr>))))))"

definition settle :: "('t, 'd) vm_lib \<Rightarrow> bytes \<Rightarrow> go_error option \<Rightarrow> ('t, 'd) StateTransition \<Rightarrow> ('t, 'd) transition_result" where
  "settle V ret vmerr st =
     (if vmerr = Some ErrInsufficientBalance then Inr (([], 0, False, vmerr), st)
      else
        bind_res (refundGas V vmerr st) (\<lambda>st.
        bind_res (chargeFee V (st_gasUsed st) st) (\<lambda>st.
        if vmerr = Some ErrPoSWSenderNotAllowed then Inr (([], st_gasUsed st, True, None), st)
        else Inr ((ret, st_gasUsed st, vmerr \<noteq> None, None), st))))"

definition TransitionDb :: "('t, 'd) vm_lib \<Rightarrow> ('t, 'd) evm_ops \<Rightarrow> tx_params \<Rightarrow> ('t, 'd) StateTransition
    \<Rightarrow> ('t, 'd) transition_result option" where
  "TransitionDb V E P st =
     bindF (Some (prepay V P st)) (\<lambda>((err, gas), st).
     if err \<noteq> None then Some (Inr (([], 0, False, err), st))
     else if ms_isCrossShard (st_msg st) then
       bindF (Some (increase_nonce V st)) (\<lambda>st. Some (AddCrossShardTxDeposit V gas st))
     else
       bindF (execute V E st) (\<lambda>((ret, vmerr), st). Some (settle V ret vmerr st)))"

definition ApplyMessage :: "('t, 'd) vm_lib \<Rightarrow> tx_params \<Rightarrow> ('t, 'd) EVM \<Rightarrow> Message \<Rightarrow> u64
    \<Rightarrow> ('t, 'd) transition_result option" where
  "ApplyMessage V P evm msg gp = TransitionDb V (EVM_ops V) P (NewStateTransition evm msg gp)"


section \<open>What a development of the state leaves alone\<close>

lemma getStateObject_frame: "getStateObject L a s = Inr (x, s') \<Longrightarrow> frame s' = frame s"
  by (auto simp: getStateObject_def Let_def bind_res_Inr_iff split: option.splits if_splits)

lemma revert_entry_frame: "revert_entry L e s = Inr s' \<Longrightarrow> frame s' = frame s"
  by (cases e) (auto simp: need_obj_def bind_res_Inr_iff Let_def dest!: getStateObject_frame split: option.splits if_splits)

lemma undo_all_frame: "undo_all L es s = Inr s' \<Longrightarrow> frame s' = frame s"
proof (induction es arbitrary: s)
  case (Cons e es)
  then obtain s1 where "revert_entry L e s = Inr s1"
    "undo_all L es (s1\<lparr>sdb_journal := undirty e (sdb_journal s1)\<rparr>) = Inr s'"
    by (auto simp: undo_entry_def bind_res_Inr_iff)
  with Cons.IH revert_entry_frame show ?case by fastforce
qed simp

lemma grows_frame:
  assumes "grows L s s'" "state_ok L s" "revs_ok s"
  shows "frame s' = frame s"
proof -
  from assms have "jrn.extends L s s'" by (simp add: grows_def)
  then obtain es t where "undo_all L (rev es) s' = Inr t" "same_state L t s" unfolding jrn.extends_def by blast
  then show ?thesis using undo_all_frame by (fastforce simp: same_state_def)
qed

lemma frame_block:
  assumes "frame s = frame t"
  shows "GetXShardList s = GetXShardList t" "GetBlockFee s = GetBlockFee t" "GetGasUsed s = GetGasUsed t"
    "chain_config s = chain_config t" "chain_token s = chain_token t" "sdb_timeStamp s = sdb_timeStamp t"
    "sdb_blockFee s = sdb_blockFee t" "sdb_senderDisallowMap s = sdb_senderDisallowMap t"
proof -
  have "sdb_xShardList (frame s) = sdb_xShardList (frame t)" "sdb_blockFee (frame s) = sdb_blockFee (frame t)"
    "sdb_gasUsed (frame s) = sdb_gasUsed (frame t)" "sdb_quarkChainConfig (frame s) = sdb_quarkChainConfig (frame t)"
    "sdb_timeStamp (frame s) = sdb_timeStamp (frame t)" "sdb_senderDisallowMap (frame s) = sdb_senderDisallowMap (frame t)" using assms by simp_all
  then have f: "sdb_xShardList s = sdb_xShardList t" "sdb_blockFee s = sdb_blockFee t" "sdb_gasUsed s = sdb_gasUsed t"
    "sdb_quarkChainConfig s = sdb_quarkChainConfig t" "sdb_timeStamp s = sdb_timeStamp t"
    "sdb_senderDisallowMap s = sdb_senderDisallowMap t" by (simp_all add: frame_def)
  show "GetXShardList s = GetXShardList t" "GetBlockFee s = GetBlockFee t" "GetGasUsed s = GetGasUsed t"
    "chain_config s = chain_config t" "chain_token s = chain_token t" "sdb_timeStamp s = sdb_timeStamp t"
    "sdb_blockFee s = sdb_blockFee t" "sdb_senderDisallowMap s = sdb_senderDisallowMap t"
    by (simp_all add: GetXShardList_def GetBlockFee_def GetGasUsed_def chain_config_def chain_token_def f)
qed

text \<open>A machine whose state can be reverted, and the block's part of the state that executions keep.\<close>

lemma ev_rel_frame: "ev_rel V ev ev' \<Longrightarrow> db_ok V ev \<Longrightarrow> frame (ev_StateDB ev') = frame (ev_StateDB ev)"
  using grows_frame by (auto simp: ev_rel_def db_ok_def)

section \<open>Transitions that only develop the state\<close>

definition moves :: "('t, 'd) vm_lib \<Rightarrow> ('t, 'd) StateTransition \<Rightarrow> ('t, 'd) StateTransition \<Rightarrow> bool" where
  "moves V st st' \<longleftrightarrow> ev_rel V (st_evm st) (st_evm st') \<and> st' = st\<lparr>st_evm := st_evm st'\<rparr>"

lemma moves_refl [simp]: "moves V st st"
  by (simp add: moves_def)

lemma moves_trans: "moves V st st1 \<Longrightarrow> moves V st1 st2 \<Longrightarrow> moves V st st2"
  unfolding moves_def using ev_rel_trans by (metis StateTransition.surjective StateTransition.update_convs(8))

lemma moves_fields:
  assumes "moves V st st'"
  shows "st_gp st' = st_gp st" "st_msg st' = st_msg st" "st_gas st' = st_gas st" "st_gasPrice st' = st_gasPrice st"
    "st_initialGas st' = st_initialGas st" "st_value st' = st_value st" "st_data st' = st_data st"
    "ev_rel V (st_evm st) (st_evm st')" "ev_Context (st_evm st') = ev_Context (st_evm st)"
    "st_gasUsed st' = st_gasUsed st"
proof -
  have e: "st' = st\<lparr>st_evm := st_evm st'\<rparr>" and r: "ev_rel V (st_evm st) (st_evm st')" using assms by (simp_all add: moves_def)
  show "st_gp st' = st_gp st" "st_msg st' = st_msg st" "st_gas st' = st_gas st" "st_gasPrice st' = st_gasPrice st"
    "st_initialGas st' = st_initialGas st" "st_value st' = st_value st" "st_data st' = st_data st"
    by (subst e, simp)+
  then show "st_gasUsed st' = st_gasUsed st" by (simp add: st_gasUsed_def)
  show "ev_rel V (st_evm st) (st_evm st')" "ev_Context (st_evm st') = ev_Context (st_evm st)" using r by (simp_all add: ev_rel_def)
qed

lemma st_get_moves:
  "st_get f st = Inr (x, st') \<Longrightarrow> (\<And>ev y ev'. db_get f ev = Inr (y, ev') \<Longrightarrow> ev_rel V ev ev') \<Longrightarrow> moves V st st'"
  by (auto simp: st_get_def bind_res_Inr_iff moves_def)

lemma st_do_moves:
  "st_do f st = Inr st' \<Longrightarrow> (\<And>ev ev'. db_do f ev = Inr ev' \<Longrightarrow> ev_rel V ev ev') \<Longrightarrow> moves V st st'"
  by (auto simp: st_do_def bind_res_Inr_iff moves_def)

lemma SubBalance_rel: "db_do (SubBalance (vl_eth V) a x tk) ev = Inr ev' \<Longrightarrow> ev_rel V ev ev'"
  by (erule db_act [rotated 2, where op = "OpSubBalance a x tk"]) simp_all

lemma SubRefund_rel: "db_do (SubRefund g) ev = Inr ev' \<Longrightarrow> ev_rel V ev ev'"
  by (erule db_act [rotated 2, where op = "OpSubRefund g"]) simp_all

lemma state_moves:
  "st_get (GetBalance (vl_eth V) a tk) st = Inr (x, st') \<Longrightarrow> moves V st st'"
  "st_get (GetNonce (vl_eth V) a) st = Inr (n, st') \<Longrightarrow> moves V st st'"
  "st_get (CanTransfer (vl_eth V) a v tk) st = Inr (b, st') \<Longrightarrow> moves V st st'"
  "st_do (SubBalance (vl_eth V) a v tk) st = Inr st' \<Longrightarrow> moves V st st'"
  "st_do (AddBalance (vl_eth V) a v tk) st = Inr st' \<Longrightarrow> moves V st st'"
  "st_do (SetNonce (vl_eth V) a n) st = Inr st' \<Longrightarrow> moves V st st'"
  "st_do (SubRefund g) st = Inr st' \<Longrightarrow> moves V st st'"
  by (erule st_get_moves st_do_moves, erule db_get_rel CanTransfer_rel SubBalance_rel db_do_rel SubRefund_rel)+

lemma increase_nonce_moves: "increase_nonce V st = Inr st' \<Longrightarrow> moves V st st'"
  by (auto simp: increase_nonce_def bind_res_Inr_iff dest!: state_moves intro: moves_trans)

lemma posw_moves: "transferFailureByPoSWBalanceCheck V st = Inr (b, st') \<Longrightarrow> moves V st st'"
  by (auto simp: transferFailureByPoSWBalanceCheck_def bind_res_Inr_iff dest!: state_moves split: option.splits)

lemma refund_moves: "refund V t st = Inr st' \<Longrightarrow> moves V st st'"
  by (auto simp: refund_def bind_res_Inr_iff Let_def dest!: state_moves intro: moves_trans split: if_splits)


section \<open>Gas of a transition\<close>

subsection \<open>Intrinsic gas\<close>

lemma unat_max_minus: "unat (- 1 - g :: u64) = 2 ^ 64 - 1 - unat g"
proof -
  have "g \<le> - 1" by simp
  then have "unat (- 1 - g) = unat (- 1 :: u64) - unat g" by (rule unat_sub)
  then show ?thesis by (simp add: unsigned_minus_1_eq_mask mask_eq_exp_minus_1)
qed

text \<open>The test for an overflow of \<open>g + n * p\<close> is exact.\<close>

lemma checked_price:
  fixes g p n :: u64
  assumes "0 < p"
  shows "(- 1 - g) div p < n \<longleftrightarrow> 2 ^ 64 \<le> unat g + unat n * unat p"
proof -
  have p: "0 < unat p" using assms by (simp add: unat_gt_0)
  have g: "unat g < 2 ^ 64" using unsigned_less [of g] by simp
  have "(- 1 - g) div p < n \<longleftrightarrow> (2 ^ 64 - 1 - unat g) div unat p < unat n"
    by (simp only: word_less_nat_alt unat_div unat_max_minus)
  also have "\<dots> \<longleftrightarrow> 2 ^ 64 - 1 - unat g < unat n * unat p" using p by (rule div_less_iff_less_mult)
  also have "\<dots> \<longleftrightarrow> 2 ^ 64 \<le> unat g + unat n * unat p" using g by arith
  finally show ?thesis .
qed

lemma unat_price:
  fixes g p n :: u64
  assumes "unat g + unat n * unat p < 2 ^ 64"
  shows "unat (g + n * p) = unat g + unat n * unat p"
proof -
  have "unat (n * p) = unat n * unat p" using assms by (intro unat_mult_lem [THEN iffD1]) simp
  then show ?thesis using assms by (subst unat_add_lem [THEN iffD1]) simp_all
qed

lemma count_nonzero_eq: "count_nonzero data = of_nat (length (filter (\<lambda>b. b \<noteq> 0) data))"
proof -
  have "foldl (\<lambda>nz byt. if byt \<noteq> 0 then nz + 1 else nz) a data = a + of_nat (length (filter (\<lambda>b. b \<noteq> 0) data))" for a :: u64
    by (induction data arbitrary: a) simp_all
  then show ?thesis by (simp add: count_nonzero_def)
qed

text \<open>The gas of the data without a bound.\<close>

definition exact_gas :: "tx_params \<Rightarrow> bytes \<Rightarrow> bool \<Rightarrow> nat" where
  "exact_gas P data create =
     unat (if create then p_TxGasContractCreation P else p_TxGas P)
     + length (filter (\<lambda>b. b \<noteq> 0) data) * unat (p_TxDataNonZeroGas P)
     + length (filter (\<lambda>b. b = 0) data) * unat (p_TxDataZeroGas P)"

lemma data_gas_exact:
  fixes g :: u64
  assumes "tx_prices P" "length data < 2 ^ 64"
  defines "e \<equiv> unat g + length (filter (\<lambda>b. b \<noteq> 0) data) * unat (p_TxDataNonZeroGas P)
    + length (filter (\<lambda>b. b = 0) data) * unat (p_TxDataZeroGas P)"
  shows "data_gas P data g = (if e < 2 ^ 64 then Inr (of_nat e) else Inl ErrOutOfGas)"
proof (cases "data = []")
  case True
  then show ?thesis using unsigned_less [of g] by (simp add: data_gas_def e_def)
next
  case False
  let ?n = "length (filter (\<lambda>b. b \<noteq> 0) data)" and ?z = "length (filter (\<lambda>b. b = 0) data)"
  let ?pn = "p_TxDataNonZeroGas P" and ?pz = "p_TxDataZeroGas P" and ?nz = "of_nat ?n :: u64"
  have nz: "length data = ?n + ?z" using sum_length_filter_compl [of "\<lambda>b. b \<noteq> 0" data] by simp
  then have zw: "of_nat (length data) - ?nz = (of_nat ?z :: u64)" by simp
  have un: "unat ?nz = ?n" "unat (of_nat ?z :: u64) = ?z" using nz assms(2) by (simp_all add: unat_of_nat)
  have c: "(- 1 - x) div ?pn < ?nz \<longleftrightarrow> 2 ^ 64 \<le> unat x + ?n * unat ?pn"
    "(- 1 - x) div ?pz < of_nat ?z \<longleftrightarrow> 2 ^ 64 \<le> unat x + ?z * unat ?pz" for x
    using checked_price [of ?pn x ?nz] checked_price [of ?pz x "of_nat ?z"] assms(1) by (simp_all add: tx_prices_def un)
  have e: "e = unat g + ?n * unat ?pn + ?z * unat ?pz" by (simp add: e_def)
  show ?thesis
  proof (cases "unat g + ?n * unat ?pn < 2 ^ 64")
    case False
    then show ?thesis using \<open>data \<noteq> []\<close> by (simp add: data_gas_def count_nonzero_eq c(1) e Let_def)
  next
    case True
    then have g1: "unat (g + ?nz * ?pn) = unat g + ?n * unat ?pn" using unat_price [of g ?nz ?pn] by (simp only: un)
    have d: "data_gas P data g = (if 2 ^ 64 \<le> e then Inl ErrOutOfGas else Inr (g + ?nz * ?pn + of_nat ?z * ?pz))"
      using \<open>data \<noteq> []\<close> True by (simp only: data_gas_def count_nonzero_eq c(1) c(2) zw Let_def g1 e) simp
    have "g + ?nz * ?pn + of_nat ?z * ?pz = of_nat e" if "e < 2 ^ 64"
    proof -
      have "unat (g + ?nz * ?pn + of_nat ?z * ?pz) = e" using unat_price [of "g + ?nz * ?pn" "of_nat ?z" ?pz] that g1 un(2) e by metis
      then show ?thesis using that by (simp only: word_unat_eq_iff unat_of_nat) simp
    qed
    with d show ?thesis by auto
  qed
qed

lemma IntrinsicGas_cross:
  "IntrinsicGas P data create True = bind_res (IntrinsicGas P data create False) (\<lambda>g. Inr (g + 9000))"
  by (cases "data_gas P data (if create then p_TxGasContractCreation P else p_TxGas P)")
    (auto simp: IntrinsicGas_def GtxxShardCost_def big_Uint64_def)

subsection \<open>Buying, executing and refunding\<close>

lemma buyGas_None:
  assumes "buyGas V st = Inr (None, st')"
  defines "G \<equiv> ms_gasLimit (st_msg st)"
  shows "G \<le> st_gp st \<and> moves V (st\<lparr>st_gp := st_gp st - G, st_gas := st_gas st + G, st_initialGas := G\<rparr>) st'"
proof -
  from assms(1) obtain b st1 where b: "st_get (GetBalance (vl_eth V) (ms_from (st_msg st)) (cx_GasTokenID (st_ctx st))) st = Inr (b, st1)"
    and s: "G \<le> st_gp st1"
      "st_do (SubBalance (vl_eth V) (ms_from (st_msg st)) (uint G * cx_GasPriceInGasToken (st_ctx st)) (cx_GasTokenID (st_ctx st)))
         (st1\<lparr>st_gp := st_gp st1 - G, st_gas := st_gas st1 + G, st_initialGas := G\<rparr>) = Inr st'"
    unfolding G_def using state_moves(1) [THEN moves_fields(2)]
    by (fastforce simp: buyGas_def bind_res_Inr_iff Let_def SubGas_def split: if_splits)
  note m = state_moves(1) [OF b]
  have "moves V (st\<lparr>st_gp := st_gp st - G, st_gas := st_gas st + G, st_initialGas := G\<rparr>)
      (st1\<lparr>st_gp := st_gp st1 - G, st_gas := st_gas st1 + G, st_initialGas := G\<rparr>)"
    using m moves_fields [OF m] by (auto simp: moves_def)
  from moves_trans [OF this state_moves(4) [OF s(2)]] s(1) moves_fields(1) [OF m] show ?thesis by simp
qed


text \<open>The transition after the gas of a local message is bought and its intrinsic gas paid.\<close>

definition paid :: "('t, 'd) StateTransition \<Rightarrow> u64 \<Rightarrow> ('t, 'd) StateTransition" where
  "paid st g = (let G = ms_gasLimit (st_msg st) in st\<lparr>st_gp := st_gp st - G, st_gas := G - g, st_initialGas := G\<rparr>)"

lemma preCheck_None:
  assumes "preCheck V st = Inr (None, st')"
  defines "G \<equiv> ms_gasLimit (st_msg st)"
  shows "G \<le> st_gp st \<and> moves V (st\<lparr>st_gp := st_gp st - G, st_gas := st_gas st + G, st_initialGas := G\<rparr>) st'"
proof (cases "ms_checkNonce (st_msg st)")
  case False
  then show ?thesis using assms(1) buyGas_None unfolding G_def by (auto simp: preCheck_def)
next
  case True
  with assms(1) obtain n st1 where n: "st_get (GetNonce (vl_eth V) (ms_from (st_msg st))) st = Inr (n, st1)" "buyGas V st1 = Inr (None, st')"
    by (auto simp: preCheck_def bind_res_Inr_iff split: if_splits)
  note m = state_moves(2) [OF n(1)]
  have "moves V (st\<lparr>st_gp := st_gp st - G, st_gas := st_gas st + G, st_initialGas := G\<rparr>)
      (st1\<lparr>st_gp := st_gp st1 - G, st_gas := st_gas st1 + G, st_initialGas := G\<rparr>)"
    using m moves_fields [OF m] by (auto simp: moves_def)
  with buyGas_None [OF n(2)] moves_fields [OF m] show ?thesis unfolding G_def by (auto intro: moves_trans)
qed

lemma prepay_None:
  assumes "prepay V P st = Inr ((None, g), st')" "\<not> cx_IsApplyXShard (st_ctx st)" "st_gas st = 0"
  shows "IntrinsicGas P (st_data st) (ms_to (st_msg st) = None) (ms_isCrossShard (st_msg st)) = Inr g \<and>
    g \<le> ms_gasLimit (st_msg st) \<and> ms_gasLimit (st_msg st) \<le> st_gp st \<and> moves V (paid st g) st'"
proof -
  from assms(1,2) obtain err st1 where p0: "preCheck V st = Inr (err, st1)" by (auto simp: prepay_def start_gas_def bind_res_Inr_iff)
  then have p: "preCheck V st = Inr (None, st1)" using assms(1,2) by (cases err) (auto simp: prepay_def start_gas_def)
  obtain i: "IntrinsicGas P (st_data st1) (ms_to (st_msg st1) = None) (ms_isCrossShard (st_msg st1)) = Inr g"
    and u: "g \<le> st_gas st1" "st' = st1\<lparr>st_gas := st_gas st1 - g\<rparr>"
    using assms(1,2) p
    by (cases "IntrinsicGas P (st_data st1) (ms_to (st_msg st1) = None) (ms_isCrossShard (st_msg st1))")
      (auto simp: prepay_def start_gas_def st_useGas_def Let_def split: if_splits)
  from preCheck_None [OF p] have m: "ms_gasLimit (st_msg st) \<le> st_gp st"
    "moves V (st\<lparr>st_gp := st_gp st - ms_gasLimit (st_msg st), st_gas := ms_gasLimit (st_msg st),
       st_initialGas := ms_gasLimit (st_msg st)\<rparr>) st1" using assms(3) by simp_all
  have "moves V (paid st g) st'" using m(2) moves_fields [OF m(2)] unfolding u(2) paid_def by (auto simp: moves_def Let_def)
  then show ?thesis using i u(1) m(1) moves_fields [OF m(2)] by simp
qed

lemma execute_gas:
  assumes "vm_laws V" "execute V (EVM_ops V) st = Some (Inr ((ret, vmerr), st'))"
  shows "\<exists>g. g \<le> st_gas st \<and> moves V (st\<lparr>st_gas := g\<rparr>) st'"
proof (cases "ms_to (st_msg st) = None \<or> cx_ContractAddress (st_ctx st) \<noteq> None")
  case True
  with assms(2) obtain a gas ev where "eo_Create (EVM_ops V) (AccountRef (ms_from (st_msg st))) (st_data st) (st_gas st) (st_value st)
      (cx_ContractAddress (st_ctx st)) (st_evm st) = Some (Inr ((ret, a, gas, vmerr), ev))" "st' = st\<lparr>st_gas := gas, st_evm := ev\<rparr>"
    by (auto simp: execute_def bindF_Inr)
  with machine.Create [OF assms(1)] show ?thesis unfolding EVM_ops_def create_ok_def by (fastforce simp: moves_def)
next
  case False
  with assms(2) obtain st1 posw st2 where s: "(if \<not> cx_IsApplyXShard (st_ctx st) then increase_nonce V st else Inr st) = Inr st1"
    "transferFailureByPoSWBalanceCheck V st1 = Inr (posw, st2)"
    and r: "(if posw then Some (Inr (([], Some ErrPoSWSenderNotAllowed), st2\<lparr>st_gas := 0\<rparr>))
        else bindF (eo_Call (EVM_ops V) (AccountRef (ms_from (st_msg st))) (st_to st2) (st_data st2) (st_gas st2) (st_value st2) (st_evm st2))
            (\<lambda>((ret, gas, vmerr), ev). Some (Inr ((ret, vmerr), st2\<lparr>st_gas := gas, st_evm := ev\<rparr>)))) = Some (Inr ((ret, vmerr), st'))"
    by (auto simp: execute_def bindF_Inr)
  have "moves V st st1" using s(1) increase_nonce_moves by (auto split: if_splits)
  from moves_trans [OF this posw_moves [OF s(2)]] have m: "moves V st st2" .
  then have g: "moves V (st\<lparr>st_gas := g\<rparr>) (st2\<lparr>st_gas := g\<rparr>)" for g using moves_fields [OF m] by (auto simp: moves_def)
  show ?thesis
  proof (cases posw)
    case True
    then show ?thesis using r g [of 0] by (intro exI [of _ 0]) auto
  next
    case False
    with r obtain gas ev where c: "eo_Call (EVM_ops V) (AccountRef (ms_from (st_msg st))) (st_to st2) (st_data st2) (st_gas st2) (st_value st2)
        (st_evm st2) = Some (Inr ((ret, gas, vmerr), ev))" "st' = st2\<lparr>st_gas := gas, st_evm := ev\<rparr>" by (auto simp: bindF_Inr)
    with machine.Call [OF assms(1)] have "gas \<le> st_gas st2" "ev_rel V (st_evm st2) ev" unfolding EVM_ops_def call_ok_def by blast+
    then have "moves V (st2\<lparr>st_gas := gas\<rparr>) st'" using c(2) by (simp add: moves_def)
    then show ?thesis using moves_trans [OF g] \<open>gas \<le> st_gas st2\<close> moves_fields(3) [OF m] by auto
  qed
qed

lemma refundGas_gas:
  assumes "refundGas V vmerr st = Inr st'" "st_gas st \<le> st_initialGas st"
  shows "\<exists>g. g \<le> st_initialGas st \<and> unat (st_gasUsed st) \<le> 2 * (unat (st_initialGas st) - unat g) \<and>
    unat (st_gp st) + unat g < 2 ^ 64 \<and> moves V (st\<lparr>st_gp := st_gp st + g, st_gas := g\<rparr>) st'"
proof -
  define u where "u = unat (st_gasUsed st)"
  define r where "r = (if vmerr = None then (let refund = st_gasUsed st div 2 in
     if refund > GetRefund (st_state st) then GetRefund (st_state st) else refund) else 0)"
  define g where "g = st_gas st + r"
  have u: "u = unat (st_initialGas st) - unat (st_gas st)" "unat (st_gas st) \<le> unat (st_initialGas st)"
    using assms(2) by (simp_all add: u_def st_gasUsed_def unat_sub word_le_nat_alt)
  have "r \<le> st_gasUsed st div 2" by (auto simp: r_def Let_def)
  then have "unat r \<le> u div 2" by (simp add: u_def word_le_nat_alt unat_div)
  moreover have "unat (st_initialGas st) < 2 ^ 64" using unat_lt_exp [of "st_initialGas st"] by simp
  ultimately have g: "unat g = unat (st_gas st) + unat r" "unat g \<le> unat (st_initialGas st)"
    "u \<le> 2 * (unat (st_initialGas st) - unat g)" using u unat_add_lt [of "st_gas st" r] unfolding g_def by auto
  have e: "(if vmerr = None then st\<lparr>st_gas := st_gas st + (let refund = st_gasUsed st div 2 in
     if refund > GetRefund (st_state st) then GetRefund (st_state st) else refund)\<rparr> else st) = st\<lparr>st_gas := g\<rparr>"
    by (simp add: g_def r_def)
  from assms(1) obtain st1 st2 where s: "st_do (SubRefund (GetRefund (st_state (st\<lparr>st_gas := g\<rparr>)))) (st\<lparr>st_gas := g\<rparr>) = Inr st1"
    "refund V (uint (st_gas st1) * st_gasPrice st1) st1 = Inr st2" "AddGas (st_gas st2) (st_gp st2) = Inr (st_gp st')"
    "st' = st2\<lparr>st_gp := st_gp st'\<rparr>"
    unfolding refundGas_def Let_def e [unfolded Let_def] by (auto simp: bind_res_Inr_iff)
  have m: "moves V (st\<lparr>st_gas := g\<rparr>) st2" by (rule moves_trans [OF state_moves(7) [OF s(1)] refund_moves [OF s(2)]])
  note f = moves_fields [OF m]
  have gp: "st_gp st' = st_gp st + g" "\<not> - 1 - g < st_gp st" using s(3) f by (auto simp: AddGas_def split: if_splits)
  then have "unat (st_gp st) + unat g < 2 ^ 64" using unat_max_minus [of g] unat_lt_exp [of g] by (simp add: word_less_nat_alt)
  moreover have "moves V (st\<lparr>st_gp := st_gp st + g, st_gas := g\<rparr>) st'"
    using m f gp(1) s(4) by (auto simp: moves_def)
  ultimately show ?thesis using g u_def by (intro exI [of _ g]) (auto simp: word_le_nat_alt)
qed


subsection \<open>Fees\<close>

definition block_fee :: "('t, 'd) StateDB \<Rightarrow> u64 \<Rightarrow> int" where
  "block_fee s tk = (case map_of (GetBlockFee s) tk of None \<Rightarrow> 0 | Some f \<Rightarrow> f)"

lemma block_fee_add:
  "block_fee (AddGasUsed n (AddBlockFee [(tk, x)] s)) tk = block_fee s tk + x"
  "GetGasUsed (AddGasUsed n (AddBlockFee [(tk, x)] s)) = GetGasUsed s + n"
  "GetXShardList (AddGasUsed n (AddBlockFee [(tk, x)] s)) = GetXShardList s"
  by (auto simp: block_fee_def AddGasUsed_def AddBlockFee_def GetBlockFee_def GetGasUsed_def GetXShardList_def update_conv'
      split: option.splits)

lemma st_do_pure: "st_do (\<lambda>s. Inr (f s)) st = Inr (st\<lparr>st_evm := with_db (st_evm st) (f (st_state st))\<rparr>)"
  by (simp add: st_do_def db_do_def)

lemma with_db_twice: "with_db (with_db ev s) t = with_db ev t"
  by (simp add: with_db_def)

lemma chargeFee_eq:
  "chargeFee V g st =
     bind_res (chain_config (st_state st)) (\<lambda>q. bind_res (chain_token (st_state st)) (\<lambda>tk.
     let fee = local_fee q (uint g * st_gasPrice st) in
     bind_res (st_do (AddBalance (vl_eth V) (cx_Coinbase (st_ctx st)) fee tk) st) (\<lambda>st1.
     Inr (st1\<lparr>st_evm := with_db (st_evm st1) (AddGasUsed
       (if qc_EnableEvmTimeStamp q \<le> sdb_timeStamp (st_state st1) then uint g else uint (st_gasUsed st1))
       (AddBlockFee [(tk, fee)] (st_state st1)))\<rparr>))))"
proof -
  have t: "sdb_timeStamp (AddBlockFee f s) = sdb_timeStamp s" for f s by (simp add: AddBlockFee_def split: option.splits)
  have u: "st_gasUsed (x\<lparr>st_evm := ev\<rparr>) = st_gasUsed x" for x ev by (simp add: st_gasUsed_def)
  show ?thesis unfolding chargeFee_def Let_def st_do_pure
    by (intro arg_cong2 [of _ _ _ _ bind_res] ext refl) (simp add: t u with_db_twice)
qed

lemma chargeFee_Inr:
  assumes "chargeFee V g st = Inr st'" "db_ok V (st_evm st)"
  obtains q tk n where "chain_config (st_state st) = Inr q" "chain_token (st_state st) = Inr tk"
    "n = (if qc_EnableEvmTimeStamp q \<le> sdb_timeStamp (st_state st) then uint g else uint (st_gasUsed st))"
    "GetGasUsed (st_state st') = GetGasUsed (st_state st) + n"
    "block_fee (st_state st') tk = block_fee (st_state st) tk + local_fee q (uint g * st_gasPrice st)"
    "GetXShardList (st_state st') = GetXShardList (st_state st)"
    "st' = st\<lparr>st_evm := st_evm st'\<rparr>"
proof -
  from assms(1) obtain q tk st1 where q: "chain_config (st_state st) = Inr q" "chain_token (st_state st) = Inr tk"
    and a: "st_do (AddBalance (vl_eth V) (cx_Coinbase (st_ctx st)) (local_fee q (uint g * st_gasPrice st)) tk) st = Inr st1"
    and e: "st' = st1\<lparr>st_evm := with_db (st_evm st1) (AddGasUsed
      (if qc_EnableEvmTimeStamp q \<le> sdb_timeStamp (st_state st1) then uint g else uint (st_gasUsed st1))
      (AddBlockFee [(tk, local_fee q (uint g * st_gasPrice st))] (st_state st1)))\<rparr>"
    unfolding chargeFee_eq bind_res_Inr_iff Let_def by blast
  note m = state_moves(5) [OF a]
  note f = frame_block [OF ev_rel_frame [OF moves_fields(8) [OF m] assms(2)]]
  have "block_fee (st_state st1) tk = block_fee (st_state st) tk" by (simp add: block_fee_def f)
  then show thesis
    by (intro that [OF q refl]) (use m moves_fields [OF m] f in \<open>auto simp: e block_fee_add moves_def\<close>)
qed

lemma settle_gas:
  assumes "settle V ret vmerr st = Inr ((r, used, failed, None), st')" "st_gas st \<le> st_initialGas st" "db_ok V (st_evm st)"
  shows "used \<le> st_initialGas st" "unat (st_gasUsed st) \<le> 2 * unat used"
    "unat (st_gp st') + unat used = unat (st_gp st) + unat (st_initialGas st)"
    "GetGasUsed (st_state st') = GetGasUsed (st_state st) + uint used"
    "\<exists>q tk. chain_config (st_state st) = Inr q \<and> chain_token (st_state st) = Inr tk \<and>
       block_fee (st_state st') tk = block_fee (st_state st) tk + local_fee q (uint used * st_gasPrice st)"
proof -
  from assms(1) obtain st1 where r: "refundGas V vmerr st = Inr st1" "chargeFee V (st_gasUsed st1) st1 = Inr st'"
    "used = st_gasUsed st'" by (auto simp: settle_def bind_res_Inr_iff split: if_splits)
  from refundGas_gas [OF r(1) assms(2)] obtain g where g: "g \<le> st_initialGas st"
    "unat (st_gasUsed st) \<le> 2 * (unat (st_initialGas st) - unat g)" "unat (st_gp st) + unat g < 2 ^ 64"
    and m: "moves V (st\<lparr>st_gp := st_gp st + g, st_gas := g\<rparr>) st1" by blast
  note f = moves_fields [OF m]
  have e: "ev_rel V (st_evm st) (st_evm st1)" using f(8) by simp
  note b = frame_block [OF ev_rel_frame [OF e assms(3)]]
  from chargeFee_Inr [OF r(2) db_ok_rel [OF e assms(3)]] obtain q tk n where c: "chain_config (st_state st1) = Inr q"
    "chain_token (st_state st1) = Inr tk"
    "n = (if qc_EnableEvmTimeStamp q \<le> sdb_timeStamp (st_state st1) then uint (st_gasUsed st1) else uint (st_gasUsed st1))"
    "GetGasUsed (st_state st') = GetGasUsed (st_state st1) + n"
    "block_fee (st_state st') tk = block_fee (st_state st1) tk + local_fee q (uint (st_gasUsed st1) * st_gasPrice st1)"
    "st' = st1\<lparr>st_evm := st_evm st'\<rparr>" by metis
  have "st_gasUsed st' = st_gasUsed st1" "st_gp st' = st_gp st1" by (subst c(6), simp add: st_gasUsed_def)+
  then have u: "used = st_initialGas st - g" "st_gasUsed st1 = used" "st_gp st' = st_gp st + g"
    using f r(3) by (simp_all add: st_gasUsed_def)
  then have un: "unat used = unat (st_initialGas st) - unat g" "unat g \<le> unat (st_initialGas st)"
    "unat (st_gp st') = unat (st_gp st) + unat g"
    using g unat_sub [OF g(1)] unat_add_lt [of "st_gp st" g] by (simp_all add: word_le_nat_alt)
  then show "used \<le> st_initialGas st" "unat (st_gasUsed st) \<le> 2 * unat used"
    "unat (st_gp st') + unat used = unat (st_gp st) + unat (st_initialGas st)" using g(2) by (simp_all add: word_le_nat_alt)
  show "GetGasUsed (st_state st') = GetGasUsed (st_state st) + uint used" using c(3,4) u(2) b by simp
  show "\<exists>q tk. chain_config (st_state st) = Inr q \<and> chain_token (st_state st) = Inr tk \<and>
       block_fee (st_state st') tk = block_fee (st_state st) tk + local_fee q (uint used * st_gasPrice st)"
    using c(1,2,5) u(2) b f by (simp add: block_fee_def)
qed

section \<open>The contract of a transition\<close>

text \<open>C19: The intrinsic gas of a message is the exact price of the transaction and its data whenever that fits in
  64 bits, and otherwise the message is refused as out of gas; a cross-shard message pays 9000 more, which are added
  at 64 bits with no check, so that a price within 9000 of the bound wraps around.\<close>

theorem intrinsic_gas_exact:
  assumes "tx_prices P" "length data < 2 ^ 64"
  shows "IntrinsicGas P data create cross =
    (if exact_gas P data create < 2 ^ 64 then Inr (of_nat (exact_gas P data create + (if cross then 9000 else 0)))
     else Inl ErrOutOfGas)"
proof -
  have "IntrinsicGas P data create False =
    (if exact_gas P data create < 2 ^ 64 then Inr (of_nat (exact_gas P data create)) else Inl ErrOutOfGas)"
    using data_gas_exact [OF assms, of "if create then p_TxGasContractCreation P else p_TxGas P"]
    by (auto simp: IntrinsicGas_def exact_gas_def)
  then show ?thesis by (cases cross) (simp_all add: IntrinsicGas_cross)
qed

text \<open>C5: A message that is applied in its shard uses at most its gas limit and at least half of its intrinsic
  gas, since the refund counter gives back at most half; exactly what it used is taken from the gas pool of the
  block and added to the block's gas counter, and the local share of its price to the block's fees. The state is
  one in which no account has its balances in a token trie (\<open>state_ok\<close>).\<close>

theorem transition_gas:
  assumes "vm_laws V" "state_ok (vl_eth V) (ev_StateDB evm)" "revs_ok (ev_StateDB evm)"
    "\<not> cx_IsApplyXShard (ev_Context evm)" "\<not> ms_isCrossShard msg"
    "ApplyMessage V P evm msg gp = Some (Inr ((ret, used, failed, None), st'))"
  shows "used \<le> ms_gasLimit msg \<and> unat (st_gp st') + unat used = unat gp \<and>
    (\<exists>g. IntrinsicGas P (ms_data msg) (ms_to msg = None) False = Inr g \<and> unat g \<le> 2 * unat used) \<and>
    GetGasUsed (st_state st') = GetGasUsed (ev_StateDB evm) + uint used \<and>
    (\<exists>q tk. chain_config (ev_StateDB evm) = Inr q \<and> chain_token (ev_StateDB evm) = Inr tk \<and>
       block_fee (st_state st') tk = block_fee (ev_StateDB evm) tk + local_fee q (uint used * ms_gasPrice msg))"
proof -
  define st where "st = NewStateTransition evm msg gp"
  have n: "st_msg st = msg" "st_gas st = 0" "st_data st = ms_data msg" "st_gp st = gp" "st_evm st = evm" "st_gasPrice st = ms_gasPrice msg"
    by (simp_all add: st_def NewStateTransition_def)
  from assms(6) obtain err g st1 where p: "prepay V P st = Inr ((err, g), st1)"
    by (auto simp: ApplyMessage_def TransitionDb_def bindF_Inr st_def)
  then have "err = None" using assms(6) by (cases err) (auto simp: ApplyMessage_def TransitionDb_def bindF_Inr st_def)
  then have pn: "prepay V P st = Inr ((None, g), st1)" using p by simp
  from prepay_None [OF pn] assms(4) n have i: "IntrinsicGas P (ms_data msg) (ms_to msg = None) False = Inr g"
    "g \<le> ms_gasLimit msg" "ms_gasLimit msg \<le> gp" and m1: "moves V (paid st g) st1" using assms(5) by simp_all
  note f1 = moves_fields [OF m1]
  have "\<not> ms_isCrossShard (st_msg st1)" using f1 assms(5) n by (simp add: paid_def Let_def)
  with assms(6) pn obtain rt vmerr st2 where x: "execute V (EVM_ops V) st1 = Some (Inr ((rt, vmerr), st2))"
    "settle V rt vmerr st2 = Inr ((ret, used, failed, None), st')"
    by (auto simp: ApplyMessage_def TransitionDb_def bindF_Inr st_def)
  from execute_gas [OF assms(1) x(1)] obtain g2 where g2: "g2 \<le> st_gas st1" and m2: "moves V (st1\<lparr>st_gas := g2\<rparr>) st2" by blast
  note f2 = moves_fields [OF m2]
  have f: "st_initialGas st2 = ms_gasLimit msg" "st_gp st2 = gp - ms_gasLimit msg" "st_gas st2 = g2" "st_gas st1 = ms_gasLimit msg - g"
    "st_gasPrice st2 = ms_gasPrice msg" using f1 f2 n by (simp_all add: paid_def Let_def)
  have e: "ev_rel V evm (st_evm st2)" using f1(8) f2(8) n by (auto simp: paid_def Let_def intro: ev_rel_trans)
  have ok: "db_ok V evm" using assms(2,3) by (simp add: db_ok_def)
  note b = frame_block [OF ev_rel_frame [OF e ok]]
  have g: "g2 \<le> ms_gasLimit msg - g" "unat (ms_gasLimit msg - g) = unat (ms_gasLimit msg) - unat g" using g2 f(4) unat_sub [OF i(2)] by simp_all
  then have le: "st_gas st2 \<le> st_initialGas st2" "unat g \<le> unat (st_gasUsed st2)"
    using f i(2) by (auto simp: word_le_nat_alt st_gasUsed_def unat_sub)
  note s = settle_gas [OF x(2) le(1) db_ok_rel [OF e ok]]
  have "unat (st_gp st') + unat used = unat gp" using s(3) f i(3) unat_sub [OF i(3)] by (simp add: word_le_nat_alt)
  moreover have "unat g \<le> 2 * unat used" using s(2) le(2) by simp
  ultimately show ?thesis using s(1,4,5) f b i(1) by (auto simp: block_fee_def)
qed


section \<open>Every message is answered\<close>

lemma buyGas_rel:
  assumes "buyGas V st = Inr (err, st')"
  shows "ev_rel V (st_evm st) (st_evm st')" "st_msg st' = st_msg st"
    "err \<in> {None, Some errInsufficientBalanceForGas, Some ErrGasLimitReached}"
proof -
  from assms obtain b st1 where b: "st_get (GetBalance (vl_eth V) (ms_from (st_msg st)) (cx_GasTokenID (st_ctx st))) st = Inr (b, st1)"
    and r: "(err = Some errInsufficientBalanceForGas \<or> err = Some ErrGasLimitReached) \<and> st' = st1 \<or> err = None \<and> (\<exists>x tk f st2.
      st_evm st2 = st_evm st1 \<and> st_msg st2 = st_msg st1 \<and> st_do (SubBalance (vl_eth V) f x tk) st2 = Inr st')"
    by (fastforce simp: buyGas_def bind_res_Inr_iff Let_def SubGas_def split: if_splits)
  note m = state_moves(1) [OF b]
  show "err \<in> {None, Some errInsufficientBalanceForGas, Some ErrGasLimitReached}" using r by auto
  show "ev_rel V (st_evm st) (st_evm st')" "st_msg st' = st_msg st"
    using r moves_fields(2,8) [OF m] moves_fields(2,8) [OF state_moves(4)] by (metis ev_rel_trans)+
qed

lemma preCheck_rel:
  assumes "preCheck V st = Inr (err, st')"
  shows "ev_rel V (st_evm st) (st_evm st')" "st_msg st' = st_msg st"
    "err \<in> {None, Some errInsufficientBalanceForGas, Some ErrGasLimitReached, Some ErrNonceTooHigh, Some ErrNonceTooLow}"
proof -
  from assms obtain st1 where m: "moves V st st1" and r: "(err = Some ErrNonceTooHigh \<or> err = Some ErrNonceTooLow) \<and> st' = st1
      \<or> buyGas V st1 = Inr (err, st')"
    unfolding preCheck_def by (auto simp: bind_res_Inr_iff split: if_splits dest: state_moves) (metis moves_refl)
  note f = moves_fields [OF m]
  show "ev_rel V (st_evm st) (st_evm st')" "st_msg st' = st_msg st"
    using r f(2,8) buyGas_rel(1,2) by (metis ev_rel_trans)+
  show "err \<in> {None, Some errInsufficientBalanceForGas, Some ErrGasLimitReached, Some ErrNonceTooHigh, Some ErrNonceTooLow}"
    using r buyGas_rel(3) by fastforce
qed

definition tx_errors :: "go_error set" where
  "tx_errors = {errInsufficientBalanceForGas, ErrGasLimitReached, ErrNonceTooHigh, ErrNonceTooLow, ErrOutOfGas, ErrInsufficientBalance}"

lemma IntrinsicGas_error: "IntrinsicGas P data create cross = Inl e \<Longrightarrow> e = ErrOutOfGas"
  by (cases "data_gas P data (if create then p_TxGasContractCreation P else p_TxGas P)")
    (auto simp: IntrinsicGas_def data_gas_def Let_def split: if_splits)

lemma start_gas_rel:
  assumes "start_gas V P st = Inr ((err, g), st')"
  shows "ev_rel V (st_evm st) (st_evm st')" "st_msg st' = st_msg st" "\<And>e. err = Some e \<Longrightarrow> e \<in> tx_errors"
proof -
  have "ev_rel V (st_evm st) (st_evm st') \<and> st_msg st' = st_msg st \<and> (\<forall>e. err = Some e \<longrightarrow> e \<in> tx_errors)"
  proof (cases "cx_IsApplyXShard (st_ctx st)")
    case True
    then show ?thesis using assms by (auto simp: start_gas_def preFill_def Let_def)
  next
    case False
    with assms obtain err0 st0 where p: "preCheck V st = Inr (err0, st0)" by (auto simp: start_gas_def bind_res_Inr_iff)
    note c = preCheck_rel [OF p]
    have "st' = st0" "err = err0 \<or> err = Some ErrOutOfGas \<or> err = None"
      using assms False p IntrinsicGas_error by (auto simp: start_gas_def split: if_splits sum.splits)
    then show ?thesis using c by (auto simp: tx_errors_def)
  qed
  then show "ev_rel V (st_evm st) (st_evm st')" "st_msg st' = st_msg st" "\<And>e. err = Some e \<Longrightarrow> e \<in> tx_errors" by blast+
qed

lemma prepay_rel:
  assumes "prepay V P st = Inr ((err, g), st')"
  shows "ev_rel V (st_evm st) (st_evm st')" "st_msg st' = st_msg st" "\<And>e. err = Some e \<Longrightarrow> e \<in> tx_errors"
proof -
  from assms obtain err1 g1 st1 where p: "start_gas V P st = Inr ((err1, g1), st1)" by (auto simp: prepay_def bind_res_Inr_iff)
  note c = start_gas_rel [OF p]
  have "st_evm st' = st_evm st1" "st_msg st' = st_msg st1" "err = err1 \<or> err = None \<or> err = Some ErrOutOfGas"
    using assms p by (auto simp: prepay_def st_useGas_def split: if_splits)
  then show "ev_rel V (st_evm st) (st_evm st')" "st_msg st' = st_msg st" "\<And>e. err = Some e \<Longrightarrow> e \<in> tx_errors"
    using c by (auto simp: tx_errors_def)
qed

lemma ev_rel_system: "ev_rel V ev ev' \<Longrightarrow> system_ok ev \<Longrightarrow> system_ok ev'"
  by (simp add: system_ok_def ev_rel_def)

lemma execute_returns:
  assumes "vm_laws V" "system_ok (st_evm st)"
  shows "execute V (EVM_ops V) st \<noteq> None"
proof -
  have call: "eo_Call (EVM_ops V) c a i g v (st_evm st2) \<noteq> None" if "moves V st st2" for st2 c a i g v
    unfolding EVM_ops_def using fits_fuel [OF ev_rel_system [OF moves_fields(8) [OF that] assms(2)] rank_bounds(2)]
    by (rule machine.Call_returns [OF assms(1)])
  have create: "eo_Create (EVM_ops V) c i g v a (st_evm st) \<noteq> None" for c a i g v
    unfolding EVM_ops_def using fits_fuel [OF assms(2) rank_bounds(4)] by (rule machine.Create_returns [OF assms(1)])
  have m: "moves V st st2" if "transferFailureByPoSWBalanceCheck V st1 = Inr (posw, st2)" "st1 = st \<or> increase_nonce V st = Inr st1"
    for st1 posw st2
    using moves_trans [OF _ posw_moves [OF that(1)], of st] that(2) increase_nonce_moves by auto
  show ?thesis
  proof
    assume n: "execute V (EVM_ops V) st = None"
    then show False unfolding execute_def Let_def
      by (auto simp: bindF_None create split: if_splits) (metis call m)+
  qed
qed

text \<open>C10: Applying a message always comes to an end, whatever code it runs; and it is refused only for a wrong
  nonce, for lack of balance, for gas that does not cover the intrinsic gas, or when the block has no gas left.
  Other errors of the code it runs are never reported as errors of the message. A Go panic counts as an end.\<close>

theorem message_answered:
  assumes "vm_laws V" "system_ok evm"
  shows "\<exists>r. ApplyMessage V P evm msg gp = Some r \<and>
    (\<forall>ret used failed e st'. r = Inr ((ret, used, failed, Some e), st') \<longrightarrow>
       e \<in> {errInsufficientBalanceForGas, ErrGasLimitReached, ErrNonceTooHigh, ErrNonceTooLow, ErrOutOfGas, ErrInsufficientBalance})"
proof -
  let ?st = "NewStateTransition evm msg gp"
  have sys: "system_ok (st_evm st1)" if "prepay V P ?st = Inr (x, st1)" for x st1
    using prepay_rel(1) [of V P ?st "fst x" "snd x"] that ev_rel_system assms(2) by (auto simp: NewStateTransition_def)
  have "ApplyMessage V P evm msg gp \<noteq> None"
    using execute_returns [OF assms(1) sys] by (auto simp: ApplyMessage_def TransitionDb_def bindF_None simp del: not_None_eq)
  then obtain r where r: "ApplyMessage V P evm msg gp = Some r" by blast
  have "e \<in> tx_errors" if e: "r = Inr ((ret, used, failed, Some e), st')" for ret used failed e st'
  proof -
    from r e obtain err g st1 where p: "prepay V P ?st = Inr ((err, g), st1)"
      by (auto simp: ApplyMessage_def TransitionDb_def bindF_Inr)
    show ?thesis
    proof (cases err)
      case (Some e')
      then show ?thesis using r e p prepay_rel(3) [OF p] by (auto simp: ApplyMessage_def TransitionDb_def bindF_Inr)
    next
      case None
      with r e p show ?thesis
        by (auto simp: ApplyMessage_def TransitionDb_def bindF_Inr AddCrossShardTxDeposit_def finish_deposit_def settle_def bind_res_Inr_iff
            Let_def tx_errors_def split: if_splits)
    qed
  qed
  then show ?thesis using r by (auto simp: tx_errors_def)
qed


section \<open>Balances\<close>

text \<open>The balance of a token that is read of an address, 0 for an account that does not exist, and what the
  operations of a transition do to it.\<close>

definition balance_of :: "('t, 'd) eth_lib \<Rightarrow> ('t, 'd) StateDB \<Rightarrow> recipient \<Rightarrow> u64 \<Rightarrow> int" where
  "balance_of L s a i = (case acct_view L s a of Inr (Some v) \<Rightarrow> v_balance v i | _ \<Rightarrow> 0)"

lemma balance_of_lookup:
  "lookup L s a = Inr (Some so) \<Longrightarrow> balance_of L s a i = token_value L (acc_TokenBalances (so_data so)) i"
  "lookup L s a = Inr None \<Longrightarrow> balance_of L s a i = 0"
  by (simp_all add: balance_of_def acct_view_def obj_view_def)

lemma balance_of_unchanged: "unchanged L s s' \<Longrightarrow> balance_of L s' = balance_of L s"
  by (simp add: unchanged_def balance_of_def fun_eq_iff)

lemma balance_of_append [simp]: "balance_of L (append_entry e s) = balance_of L s"
  by (simp add: balance_of_def fun_eq_iff)

lemma balance_of_put:
  assumes "\<not> so_deleted so"
  shows "balance_of L (setStateObject so s) = (balance_of L s)(so_address so := token_value L (acc_TokenBalances (so_data so)))"
  using assms by (simp add: balance_of_def view_setStateObject fun_eq_iff obj_view_def)

lemma so_Balance_value:
  "so_Balance L i so = Inr (b, so') \<Longrightarrow> tb_tokenTrie (acc_TokenBalances (so_data so)) = None \<Longrightarrow>
     b = token_value L (acc_TokenBalances (so_data so)) i"
  by (auto simp: so_Balance_def GetTokenBalance_def bind_res_Inr_iff token_value_def trie_value_def split: option.splits)

lemma GetBalance_value:
  assumes "state_ok L s" "GetBalance L a i s = Inr (b, s')"
  shows "b = balance_of L s a i" "balance_of L s' = balance_of L s"
proof -
  show "balance_of L s' = balance_of L s" by (rule balance_of_unchanged [OF GetBalance_unchanged [OF assms]])
  from assms(2) obtain x s1 where g: "getStateObject L a s = Inr (x, s1)" by (auto simp: GetBalance_def bind_res_Inr_iff)
  note l = getStateObject_Inr [OF g]
  show "b = balance_of L s a i"
  proof (cases x)
    case None
    then show ?thesis using assms(2) g l(1) by (simp add: GetBalance_def balance_of_lookup)
  next
    case (Some so)
    with l(1) have so: "lookup L s a = Inr (Some so)" by simp
    from assms(2) g Some obtain so1 where "so_Balance L i so = Inr (b, so1)" by (auto simp: GetBalance_def bind_res_Inr_iff)
    from so_Balance_value [OF this lookup_Some_ok(3) [OF so assms(1)]] balance_of_lookup(1) [OF so] show ?thesis by simp
  qed
qed

lemma createObject_value:
  assumes "lookup L s a = Inr None" "createObject L a s = Inr (n, p, s')"
  shows "balance_of L s' = balance_of L s"
proof -
  from assms obtain s1 where g: "getStateObject L a s = Inr (None, s1)"
    using getStateObject_lookup [OF assms(1)] by blast
  note l = getStateObject_Inr [OF g]
  let ?n = "so_SetFullShardKey (sdb_fullShardKey s1) (setNonce 0 (newObject L a NewAccount))"
  have s': "s' = setStateObject ?n (append_entry (createObjectChange a) s1)"
    using assms(2) g by (auto simp: createObject_def Let_def)
  have "token_value L (acc_TokenBalances (so_data ?n)) = (\<lambda>i. 0)"
    by (simp add: so_SetFullShardKey_def setNonce_def newObject_def NewAccount_def CopyWithDB_def TokenBalances_Copy_def
        NewEmptyTokenBalances_def token_value_def trie_value_def fun_eq_iff)
  moreover have "balance_of L s1 a = (\<lambda>i. 0)" using balance_of_lookup(2) [of L s1 a] l by (simp add: fun_eq_iff)
  ultimately show ?thesis using fresh_object(1,2) [where L = L] balance_of_unchanged [OF l(2)]
    by (simp add: s' balance_of_put fun_eq_iff)
qed

lemma GetOrNew_value:
  assumes "GetOrNewStateObject L a s = Inr (so, s')"
  shows "balance_of L s' = balance_of L s"
proof -
  from assms obtain x s1 where g: "getStateObject L a s = Inr (x, s1)"
    by (auto simp: GetOrNewStateObject_def bind_res_Inr_iff)
  note l = getStateObject_Inr [OF g]
  show ?thesis
  proof (cases x)
    case None
    with assms g obtain p where c: "createObject L a s1 = Inr (so, p, s')"
      by (auto simp: GetOrNewStateObject_def bind_res_Inr_iff)
    have "lookup L s1 a = Inr None" using l None by simp
    from createObject_value [OF this c] balance_of_unchanged [OF l(2)] show ?thesis by simp
  next
    case (Some o')
    then have "lookup L s a = Inr (Some o')" using l by simp
    from lookup_SomeD(1) [OF this] assms g Some balance_of_unchanged [OF l(2)] show ?thesis
      by (auto simp: GetOrNewStateObject_def)
  qed
qed

lemma SetBalance_value:
  assumes "state_ok L s" "lookup L s a = Inr (Some so)" "so_SetBalance x i so s = Inr s'"
  shows "balance_of L s' = (balance_of L s)(a := (balance_of L s a)(i := x))"
proof -
  note ok = lookup_Some_ok [OF assms(2,1)]
  from assms(3) obtain so1 where so1: "setTokenBalance x i so = Inr so1"
    "s' = setStateObject so1 (append_entry (balanceChange a (GetBalanceMap (acc_TokenBalances (so_data so)))) s)"
    using ok(2) by (auto simp: so_SetBalance_def Let_def bind_res_Inr_iff)
  have nd: "\<not> so_deleted so" by (rule lookup_SomeD(1) [OF assms(2)])
  note v = view_setTokenBalance [OF so1(1) ok(3)]
  from v(1) [of L "sdb_db s"] have "token_value L (acc_TokenBalances (so_data so1)) = (token_value L (acc_TokenBalances (so_data so)))(i := x)"
    by (auto simp: obj_view_def)
  then show ?thesis using v(2,3) ok(2) nd balance_of_lookup(1) [OF assms(2)] by (auto simp: so1(2) balance_of_put fun_eq_iff)
qed

text \<open>Adding \<open>x\<close> to the balance of a token of an account.\<close>

definition plus_balance :: "recipient \<Rightarrow> u64 \<Rightarrow> int \<Rightarrow> (recipient \<Rightarrow> u64 \<Rightarrow> int) \<Rightarrow> recipient \<Rightarrow> u64 \<Rightarrow> int" where
  "plus_balance a i x f = (\<lambda>b j. f b j + (if b = a \<and> j = i then x else 0))"

lemma change_balance_value:
  assumes "state_ok L s" "lookup L s a = Inr (Some so)"
  shows "so_AddBalance L x i so s = Inr s' \<Longrightarrow> balance_of L s' = plus_balance a i x (balance_of L s)"
    "so_SubBalance L x i so s = Inr s' \<Longrightarrow> balance_of L s' = plus_balance a i (- x) (balance_of L s)"
proof -
  note ok = lookup_Some_ok [OF assms(2,1)]
  have *: "balance_of L s' = plus_balance a i (y - b) (balance_of L s)"
    if "so_Balance L i so = Inr (b, c)" "so_SetBalance y i c s = Inr s'" for b c y
    using SetBalance_value [OF assms, of y i s'] so_Balance_value [OF that(1) ok(3)] Balance_same [OF that(1) ok(3)] that(2)
      balance_of_lookup(1) [OF assms(2)] by (auto simp: plus_balance_def fun_eq_iff)
  have touch: "balance_of L (touch so s) = balance_of L s" by (simp add: touch_def Let_def balance_of_def fun_eq_iff)
  have z: "plus_balance a i 0 f = f" for f by (simp add: plus_balance_def fun_eq_iff)
  show "so_AddBalance L x i so s = Inr s' \<Longrightarrow> balance_of L s' = plus_balance a i x (balance_of L s)"
    using * touch z by (fastforce simp: so_AddBalance_def bind_res_Inr_iff split: if_splits)
  show "so_SubBalance L x i so s = Inr s' \<Longrightarrow> balance_of L s' = plus_balance a i (- x) (balance_of L s)"
    using * z by (fastforce simp: so_SubBalance_def bind_res_Inr_iff split: if_splits)
qed

lemma state_values:
  assumes "state_ok L s"
  shows "AddBalance L a x i s = Inr s' \<Longrightarrow> balance_of L s' = plus_balance a i x (balance_of L s)"
    "SubBalance L a x i s = Inr s' \<Longrightarrow> balance_of L s' = plus_balance a i (- x) (balance_of L s)"
    "SetNonce L a n s = Inr s' \<Longrightarrow> balance_of L s' = balance_of L s"
    "GetNonce L a s = Inr (n, s') \<Longrightarrow> balance_of L s' = balance_of L s"
proof -
  have new: "state_ok L s1" "lookup L s1 a = Inr (Some so)" "balance_of L s1 = balance_of L s"
    if "GetOrNewStateObject L a s = Inr (so, s1)" for so s1
    using GetOrNew_good [OF assms that] GetOrNew_value [OF that] by (simp_all add: good_def)
  show "AddBalance L a x i s = Inr s' \<Longrightarrow> balance_of L s' = plus_balance a i x (balance_of L s)"
    "SubBalance L a x i s = Inr s' \<Longrightarrow> balance_of L s' = plus_balance a i (- x) (balance_of L s)"
    using new change_balance_value by (fastforce simp: AddBalance_def SubBalance_def bind_res_Inr_iff)+
  show "balance_of L s' = balance_of L s" if n: "SetNonce L a n s = Inr s'"
  proof -
    from n obtain so s1 where g: "GetOrNewStateObject L a s = Inr (so, s1)" "s' = so_SetNonce n so s1"
      by (auto simp: SetNonce_def bind_res_Inr_iff)
    note w = new [OF g(1)]
    have "so_address so = a" "\<not> so_deleted so" using lookup_Some_ok(2) [OF w(2,1)] lookup_SomeD(1) [OF w(2)] by simp_all
    then show ?thesis using balance_of_lookup(1) [OF w(2)] w(3)
      by (auto simp: g(2) so_SetNonce_def balance_of_put setNonce_def fun_eq_iff)
  qed
  show "GetNonce L a s = Inr (n, s') \<Longrightarrow> balance_of L s' = balance_of L s"
    using new by (auto simp: GetNonce_def bind_res_Inr_iff)
qed

text \<open>The same for the operations of a transition.\<close>

abbreviation bals :: "('t, 'd) vm_lib \<Rightarrow> ('t, 'd) StateTransition \<Rightarrow> recipient \<Rightarrow> u64 \<Rightarrow> int" where
  "bals V st \<equiv> balance_of (vl_eth V) (st_state st)"

lemma transition_values:
  assumes "db_ok V (st_evm st)"
  shows "st_get (GetBalance (vl_eth V) a i) st = Inr (b, st') \<Longrightarrow> b = bals V st a i \<and> bals V st' = bals V st"
    "st_get (CanTransfer (vl_eth V) a x i) st = Inr (c, st') \<Longrightarrow> bals V st' = bals V st"
    "st_get (GetNonce (vl_eth V) a) st = Inr (n, st') \<Longrightarrow> bals V st' = bals V st"
    "st_do (AddBalance (vl_eth V) a x i) st = Inr st' \<Longrightarrow> bals V st' = plus_balance a i x (bals V st)"
    "st_do (SubBalance (vl_eth V) a x i) st = Inr st' \<Longrightarrow> bals V st' = plus_balance a i (- x) (bals V st)"
    "st_do (SetNonce (vl_eth V) a n) st = Inr st' \<Longrightarrow> bals V st' = bals V st"
proof -
  have ok: "state_ok (vl_eth V) (st_state st)" using assms by (simp add: db_ok_def)
  note G = GetBalance_value [OF ok] and S = state_values [OF ok]
  show "st_get (GetBalance (vl_eth V) a i) st = Inr (b, st') \<Longrightarrow> b = bals V st a i \<and> bals V st' = bals V st"
    using G by (fastforce simp: st_get_def db_get_def bind_res_Inr_iff)
  show "st_get (CanTransfer (vl_eth V) a x i) st = Inr (c, st') \<Longrightarrow> bals V st' = bals V st"
    using G by (fastforce simp: st_get_def db_get_def CanTransfer_def bind_res_Inr_iff)
  show "st_get (GetNonce (vl_eth V) a) st = Inr (n, st') \<Longrightarrow> bals V st' = bals V st"
    using S by (fastforce simp: st_get_def db_get_def bind_res_Inr_iff)
  show "st_do (AddBalance (vl_eth V) a x i) st = Inr st' \<Longrightarrow> bals V st' = plus_balance a i x (bals V st)"
    "st_do (SubBalance (vl_eth V) a x i) st = Inr st' \<Longrightarrow> bals V st' = plus_balance a i (- x) (bals V st)"
    "st_do (SetNonce (vl_eth V) a n) st = Inr st' \<Longrightarrow> bals V st' = bals V st"
    using S by (auto simp: st_do_def db_do_def bind_res_Inr_iff)
qed

lemma moves_ok: "moves V st st' \<Longrightarrow> db_ok V (st_evm st) \<Longrightarrow> db_ok V (st_evm st')"
  by (rule db_ok_rel [OF moves_fields(8)])

lemma increase_nonce_value:
  assumes "db_ok V (st_evm st)" "increase_nonce V st = Inr st'"
  shows "bals V st' = bals V st"
proof -
  from assms(2) obtain n st1 where g: "st_get (GetNonce (vl_eth V) (ms_from (st_msg st))) st = Inr (n, st1)"
    "st_do (SetNonce (vl_eth V) (ms_from (st_msg st1)) (n + 1)) st1 = Inr st'"
    by (auto simp: increase_nonce_def bind_res_Inr_iff)
  show ?thesis using transition_values(3) [OF assms(1) g(1)]
      transition_values(6) [OF moves_ok [OF state_moves(2) [OF g(1)] assms(1)] g(2)] by simp
qed

lemma buyGas_value:
  assumes "db_ok V (st_evm st)" "buyGas V st = Inr (None, st')"
  shows "bals V st' = plus_balance (ms_from (st_msg st)) (cx_GasTokenID (st_ctx st))
    (- (uint (ms_gasLimit (st_msg st)) * cx_GasPriceInGasToken (st_ctx st))) (bals V st)"
proof -
  let ?x = "uint (ms_gasLimit (st_msg st)) * cx_GasPriceInGasToken (st_ctx st)"
  from assms(2) obtain b st1 st2 where g: "st_get (GetBalance (vl_eth V) (ms_from (st_msg st)) (cx_GasTokenID (st_ctx st))) st = Inr (b, st1)"
    "st_do (SubBalance (vl_eth V) (ms_from (st_msg st)) ?x (cx_GasTokenID (st_ctx st))) st2 = Inr st'" "st_evm st2 = st_evm st1"
    by (fastforce simp: buyGas_def bind_res_Inr_iff Let_def SubGas_def split: if_splits)
  have "db_ok V (st_evm st2)" using moves_ok [OF state_moves(1) [OF g(1)] assms(1)] g(3) by simp
  from transition_values(5) [OF this g(2)] transition_values(1) [OF assms(1) g(1)] g(3) show ?thesis by simp
qed

lemma preCheck_value:
  assumes "db_ok V (st_evm st)" "preCheck V st = Inr (None, st')"
  shows "bals V st' = plus_balance (ms_from (st_msg st)) (cx_GasTokenID (st_ctx st))
    (- (uint (ms_gasLimit (st_msg st)) * cx_GasPriceInGasToken (st_ctx st))) (bals V st)"
proof (cases "ms_checkNonce (st_msg st)")
  case True
  with assms(2) obtain n st1 where n: "st_get (GetNonce (vl_eth V) (ms_from (st_msg st))) st = Inr (n, st1)" "buyGas V st1 = Inr (None, st')"
    by (auto simp: preCheck_def bind_res_Inr_iff split: if_splits)
  note m = state_moves(2) [OF n(1)]
  show ?thesis using buyGas_value [OF moves_ok [OF m assms(1)] n(2)] transition_values(3) [OF assms(1) n(1)] moves_fields [OF m] by simp
qed (use assms buyGas_value in \<open>simp add: preCheck_def\<close>)

lemma prepay_value:
  assumes "db_ok V (st_evm st)" "prepay V P st = Inr ((None, g), st')" "\<not> cx_IsApplyXShard (st_ctx st)"
  shows "bals V st' = plus_balance (ms_from (st_msg st)) (cx_GasTokenID (st_ctx st))
    (- (uint (ms_gasLimit (st_msg st)) * cx_GasPriceInGasToken (st_ctx st))) (bals V st)"
proof -
  from assms(2,3) obtain err st1 where p0: "preCheck V st = Inr (err, st1)" by (auto simp: prepay_def start_gas_def bind_res_Inr_iff)
  then have p: "preCheck V st = Inr (None, st1)" using assms(2,3) by (cases err) (auto simp: prepay_def start_gas_def)
  have "st_evm st' = st_evm st1" using assms(2,3) p
    by (cases "IntrinsicGas P (st_data st1) (ms_to (st_msg st1) = None) (ms_isCrossShard (st_msg st1))")
      (auto simp: prepay_def start_gas_def st_useGas_def Let_def split: if_splits)
  with preCheck_value [OF assms(1) p] show ?thesis by simp
qed

section \<open>Cross-shard deposits\<close>

lemma AppendXShardList_simps:
  "GetXShardList (AppendXShardList d s) = GetXShardList s @ [d]" "GetGasUsed (AppendXShardList d s) = GetGasUsed s"
  "chain_config (AppendXShardList d s) = chain_config s" "chain_token (AppendXShardList d s) = chain_token s"
  "sdb_timeStamp (AppendXShardList d s) = sdb_timeStamp s"
  by (simp_all add: AppendXShardList_def GetXShardList_def GetGasUsed_def chain_config_def chain_token_def)

text \<open>The operations on the block's part of the state keep the accounts.\<close>

lemma acct_view_cong:
  assumes "sdb_useMock s' = sdb_useMock s" "sdb_fullShardKey s' = sdb_fullShardKey s" "sdb_db s' = sdb_db s"
    "sdb_stateObjects s' = sdb_stateObjects s" "sdb_trie s' = sdb_trie s"
  shows "acct_view L s' = acct_view L s" "load L s' = load L s"
proof -
  have d: "decode_account L s' = decode_account L s" by (rule ext) (simp only: decode_account_def assms)
  show l: "load L s' = load L s" by (rule ext) (simp only: load_def d assms)
  show "acct_view L s' = acct_view L s" by (intro ext) (simp only: acct_view_def lookup_def l assms)
qed

lemma block_views:
  "acct_view L (AppendXShardList d s) = acct_view L s" "acct_view L (AddBlockFee f s) = acct_view L s"
  "acct_view L (AddGasUsed n s) = acct_view L s" "load L (AppendXShardList d s) = load L s"
  by (rule acct_view_cong; simp add: AppendXShardList_def AddBlockFee_def AddGasUsed_def split: option.splits)+

lemma block_values:
  "balance_of L (AppendXShardList d s) = balance_of L s" "balance_of L (AddBlockFee f s) = balance_of L s"
  "balance_of L (AddGasUsed n s) = balance_of L s"
  by (simp_all add: balance_of_def block_views fun_eq_iff)

lemma AppendXShardList_ok:
  fixes ev :: "('t, 'd) EVM"
  assumes "db_ok V ev"
  shows "db_ok V (with_db ev (AppendXShardList d (ev_StateDB ev)))"
proof -
  have f: "sdb_stateObjects (AppendXShardList d s) = sdb_stateObjects s" "revs_ok (AppendXShardList d s) = revs_ok s"
    for s :: "('t, 'd) StateDB" by (simp_all add: AppendXShardList_def revs_ok_def)
  have "state_ok L (AppendXShardList d s) = state_ok L s" for L and s :: "('t, 'd) StateDB"
    by (simp only: state_ok_def block_views f)
  then show ?thesis using assms f by (simp add: db_ok_def)
qed

text \<open>A sender that the proof of staked work locks: the balance of the chain's token, in \<open>f\<close>, does not cover the
  value of the message and the locked stake. The balances after the gas of the message is bought, and what a refund
  gives back to the sender.\<close>

definition posw_locked :: "('t, 'd) StateDB \<Rightarrow> Message \<Rightarrow> (recipient \<Rightarrow> u64 \<Rightarrow> int) \<Rightarrow> bool" where
  "posw_locked s msg f \<longleftrightarrow> (\<exists>v tk. map_of (sdb_senderDisallowMap s) (ms_from msg) = Some v \<and> chain_token s = Inr tk \<and>
     ms_amount msg + v > f (ms_from msg) tk)"

definition after_gas :: "Context \<Rightarrow> Message \<Rightarrow> (recipient \<Rightarrow> u64 \<Rightarrow> int) \<Rightarrow> recipient \<Rightarrow> u64 \<Rightarrow> int" where
  "after_gas ctx msg = plus_balance (ms_from msg) (cx_GasTokenID ctx) (- (uint (ms_gasLimit msg) * cx_GasPriceInGasToken ctx))"

definition sent_back :: "Message \<Rightarrow> int \<Rightarrow> int" where
  "sent_back msg x = (if ms_refundRate msg = 100 then x else x * uint (ms_refundRate msg) div 100)"

definition forwards_gas :: "QuarkChainConfig \<Rightarrow> ('t, 'd) StateDB \<Rightarrow> Message \<Rightarrow> bool" where
  "forwards_gas q s msg \<longleftrightarrow> qc_EnableEvmTimeStamp q \<le> sdb_timeStamp s \<or> ms_to msg = None"

lemma posw_value:
  assumes "db_ok V (st_evm st)" "transferFailureByPoSWBalanceCheck V st = Inr (b, st')"
  shows "b \<longleftrightarrow> posw_locked (st_state st) (st_msg st) (bals V st)" "bals V st' = bals V st"
  using assms(2) transition_values(1) [OF assms(1)]
  by (fastforce simp: transferFailureByPoSWBalanceCheck_def posw_locked_def bind_res_Inr_iff
      dest: moves_fields(2) [OF state_moves(1)] split: option.splits)+

lemma refund_value:
  assumes "db_ok V (st_evm st)" "refund V x st = Inr st'" "ms_from (st_msg st) \<noteq> 0" "chain_token (st_state st) = Inr tk"
  shows "bals V st' (ms_from (st_msg st)) = plus_balance (ms_from (st_msg st)) tk (sent_back (st_msg st) x) (bals V st) (ms_from (st_msg st))"
proof (cases "ms_refundRate (st_msg st) = 100")
  case True
  then show ?thesis using assms transition_values(4) [OF assms(1)] by (auto simp: refund_def sent_back_def Let_def bind_res_Inr_iff)
next
  case False
  let ?y = "x * uint (ms_refundRate (st_msg st)) div 100"
  from False assms obtain st1 where s: "st_do (AddBalance (vl_eth V) (ms_from (st_msg st)) ?y tk) st = Inr st1"
    "(if x - ?y \<ge> 0 then st_do (AddBalance (vl_eth V) 0 (x - ?y) tk) st1 else Inr st1) = Inr st'"
    by (auto simp: refund_def Let_def bind_res_Inr_iff)
  have "bals V st' (ms_from (st_msg st)) = bals V st1 (ms_from (st_msg st))"
    using s(2) transition_values(4) [OF moves_ok [OF state_moves(5) [OF s(1)] assms(1)]] assms(3)
    by (auto simp: plus_balance_def split: if_splits)
  then show ?thesis using transition_values(4) [OF assms(1) s(1)] False by (simp add: sent_back_def)
qed

lemma chargeFee_value:
  assumes "db_ok V (st_evm st)" "chargeFee V g st = Inr st'" "cx_Coinbase (st_ctx st) \<noteq> a"
  shows "bals V st' a = bals V st a"
proof -
  from assms(2) obtain x tk st1 where "st_do (AddBalance (vl_eth V) (cx_Coinbase (st_ctx st)) x tk) st = Inr st1"
    "bals V st' = bals V st1"
    unfolding chargeFee_eq bind_res_Inr_iff Let_def by (auto simp: block_values)
  with transition_values(4) [OF assms(1)] assms(3) show ?thesis by (fastforce simp: plus_balance_def)
qed

text \<open>The deposit a message makes when the sender is allowed to spend.\<close>

lemma make_deposit_done:
  assumes "make_deposit V tk g False st = Inr ((failed, r), st')" "db_ok V (st_evm st)"
  obtains st1 to d where "\<not> failed" "moves V st st1" "xshard_deposit (st_msg st) tk to r (ms_to (st_msg st) = None) = Inr d"
    "st' = st1\<lparr>st_evm := with_db (st_evm st1) (AppendXShardList d (st_state st1))\<rparr>"
    "\<And>a. ms_to (st_msg st) = Some a \<Longrightarrow> to = a"
    "\<And>q. chain_config (st_state st1) = Inr q \<Longrightarrow> r = (if forwards_gas q (st_state st1) (st_msg st) then ms_gasLimit (st_msg st) - g else 0)"
    "bals V st' = plus_balance (ms_from (st_msg st)) (ms_transferTokenID (st_msg st)) (- st_value st) (bals V st)"
proof -
  let ?sub = "SubBalance (vl_eth V) (ms_from (st_msg st)) (st_value st) (ms_transferTokenID (st_msg st))"
  have v: "bals V st1 = plus_balance (ms_from (st_msg st)) (ms_transferTokenID (st_msg st)) (- st_value st) (bals V st)"
    "db_ok V (st_evm st1)" if "st_do ?sub st = Inr st1" for st1
    using transition_values(5) [OF assms(2) that] moves_ok [OF state_moves(4) [OF that] assms(2)] by simp_all
  show thesis
  proof (cases "ms_to (st_msg st)")
    case None
    with assms obtain st1 nonce st2 d where s: "st_do ?sub st = Inr st1"
      "st_get (GetNonce (vl_eth V) (ms_from (st_msg st))) st1 = Inr (nonce, st2)" "r = ms_gasLimit (st_msg st) - g" "\<not> failed"
      "xshard_deposit (st_msg st) tk (CreateAddress V (ms_from (st_msg st)) (Some (ms_fromFullShardKey (st_msg st))) nonce) r (ms_to (st_msg st) = None) = Inr d"
      "st' = st2\<lparr>st_evm := with_db (st_evm st2) (AppendXShardList d (st_state st2))\<rparr>"
      by (auto simp: make_deposit_def bind_res_Inr_iff Let_def st_do_pure)
    show thesis
      by (rule that [OF s(4) moves_trans [OF state_moves(4) [OF s(1)] state_moves(2) [OF s(2)]] s(5,6)])
        (use None s(3) v [OF s(1)] transition_values(3) [OF _ s(2)] in \<open>auto simp: forwards_gas_def s(6) block_values\<close>)
  next
    case (Some a)
    with assms obtain st1 q d where s: "st_do ?sub st = Inr st1" "chain_config (st_state st1) = Inr q" "\<not> failed"
      "r = (if qc_EnableEvmTimeStamp q \<le> sdb_timeStamp (st_state st1) then ms_gasLimit (st_msg st) - g else 0)"
      "xshard_deposit (st_msg st) tk a r (ms_to (st_msg st) = None) = Inr d"
      "st' = st1\<lparr>st_evm := with_db (st_evm st1) (AppendXShardList d (st_state st1))\<rparr>"
      by (auto simp: make_deposit_def bind_res_Inr_iff Let_def st_do_pure)
    show thesis by (rule that [OF s(3) state_moves(4) [OF s(1)] s(5,6)])
        (use Some s(2,4) v(1) [OF s(1)] in \<open>auto simp: forwards_gas_def s(6) block_values\<close>)
  qed
qed

text \<open>What a deposit carries to the other shard.\<close>

definition carries :: "Message \<Rightarrow> int \<Rightarrow> CrossShardTransactionDeposit \<Rightarrow> bool" where
  "carries msg gas d \<longleftrightarrow> cd_TxHash d = ms_txHash msg \<and> ad_Recipient (cd_From d) = ms_from msg \<and>
     cd_Value d = ms_amount msg \<and> cd_TransferTokenID d = ms_transferTokenID msg \<and> cd_GasPrice d = ms_gasPrice msg \<and>
     cd_RefundRate d = ms_refundRate msg \<and> cd_MessageData d = ms_data msg \<and> cd_CreateContract d = (ms_to msg = None) \<and>
     cd_GasRemained d = gas \<and> (\<forall>a. ms_to msg = Some a \<longrightarrow> ad_Recipient (cd_To d) = a) \<and>
     Some (ad_FullShardKey (cd_To d)) = ms_toFullShardKey msg"

lemma xshard_deposit_carries:
  "xshard_deposit msg tk to r (ms_to msg = None) = Inr d \<Longrightarrow> (\<And>a. ms_to msg = Some a \<Longrightarrow> to = a) \<Longrightarrow> carries msg (uint r) d"
  by (auto simp: xshard_deposit_def carries_def split: option.splits)

lemma finish_outcome:
  assumes "finish_deposit V fl r st = Inr ((ret, used, failed, None), st')" "db_ok V (st_evm st)"
  obtains q tk where "fl = failed" "chain_config (st_state st) = Inr q" "chain_token (st_state st) = Inr tk" "st_gp st' = st_gp st"
    "GetXShardList (st_state st') = GetXShardList (st_state st)"
    "GetGasUsed (st_state st') = GetGasUsed (st_state st) + uint (if qc_EnableEvmTimeStamp q \<le> sdb_timeStamp (st_state st) \<and> \<not> failed
       then st_gasUsed st - 9000 else st_gasUsed st)"
    "ms_from (st_msg st) \<noteq> 0 \<Longrightarrow> cx_Coinbase (st_ctx st) \<noteq> ms_from (st_msg st) \<Longrightarrow>
       bals V st' (ms_from (st_msg st)) = plus_balance (ms_from (st_msg st)) tk
         (sent_back (st_msg st) (uint (ms_gasLimit (st_msg st) - st_gasUsed st - r) * st_gasPrice st)) (bals V st) (ms_from (st_msg st))"
proof -
  have c9: "big_Uint64 GtxxShardCost = 9000" by (simp add: GtxxShardCost_def big_Uint64_def)
  let ?n = "if \<not> failed then st_gasUsed st - 9000 else st_gasUsed st"
  from assms(1) obtain st1 where s: "refund V (uint (ms_gasLimit (st_msg st) - st_gasUsed st - r) * st_gasPrice st) st = Inr st1"
    "chargeFee V ?n st1 = Inr st'" "fl = failed"
    unfolding finish_deposit_def Let_def c9 bind_res_Inr_iff by auto
  note f = moves_fields [OF refund_moves [OF s(1)]]
  note b = frame_block [OF ev_rel_frame [OF f(8) assms(2)]] and ok = db_ok_rel [OF f(8) assms(2)]
  obtain q tk n where c: "chain_config (st_state st1) = Inr q" "chain_token (st_state st1) = Inr tk"
    "n = (if qc_EnableEvmTimeStamp q \<le> sdb_timeStamp (st_state st1) then uint ?n else uint (st_gasUsed st1))"
    "GetGasUsed (st_state st') = GetGasUsed (st_state st1) + n" "GetXShardList (st_state st') = GetXShardList (st_state st1)"
    "st' = st1\<lparr>st_evm := st_evm st'\<rparr>"
    by (rule chargeFee_Inr [OF s(2) ok]) (rule that)
  have "st_gp st' = st_gp st1" by (subst c(6), simp)
  then show thesis using refund_value [OF assms(2) s(1)] chargeFee_value [OF ok s(2)] c b f
    by (intro that [of q tk, OF s(3)]) auto
qed

text \<open>The whole of a deposit, from the state in which the gas is bought.\<close>

definition deposit_effect :: "('t, 'd) eth_lib \<Rightarrow> Context \<Rightarrow> Message \<Rightarrow> bool \<Rightarrow> u64 \<Rightarrow> (recipient \<Rightarrow> u64 \<Rightarrow> int)
    \<Rightarrow> ('t, 'd) StateDB \<Rightarrow> ('t, 'd) StateDB \<Rightarrow> QuarkChainConfig \<Rightarrow> u64 \<Rightarrow> bool" where
  "deposit_effect L ctx msg failed g f s s' q tk \<longleftrightarrow>
     (failed \<longleftrightarrow> posw_locked s msg f) \<and>
     (if failed then GetXShardList s' = GetXShardList s \<and> GetGasUsed s' = GetGasUsed s + uint (ms_gasLimit msg)
      else (\<exists>d. GetXShardList s' = GetXShardList s @ [d] \<and>
            carries msg (if forwards_gas q s msg then uint (ms_gasLimit msg - g) else 0) d) \<and>
        GetGasUsed s' = GetGasUsed s + uint (if qc_EnableEvmTimeStamp q \<le> sdb_timeStamp s then g - 9000 else g)) \<and>
     (ms_from msg \<noteq> 0 \<longrightarrow> cx_Coinbase ctx \<noteq> ms_from msg \<longrightarrow>
        (\<forall>j. balance_of L s' (ms_from msg) j = f (ms_from msg) j
           - (if \<not> failed \<and> j = ms_transferTokenID msg then ms_amount msg else 0)
           + (if \<not> failed \<and> \<not> forwards_gas q s msg \<and> j = tk then sent_back msg (uint (ms_gasLimit msg - g) * ms_gasPrice msg) else 0)))"

lemma deposit_outcome:
  assumes "AddCrossShardTxDeposit V g st = Inr ((ret, used, failed, None), st')" "db_ok V (st_evm st)"
    "st_gasUsed st = g" "st_initialGas st = ms_gasLimit (st_msg st)" "st_value st = ms_amount (st_msg st)" "st_gasPrice st = ms_gasPrice (st_msg st)"
  shows "st_gp st' = st_gp st \<and> (\<exists>q tk. chain_config (st_state st) = Inr q \<and> chain_token (st_state st) = Inr tk \<and>
    deposit_effect (vl_eth V) (st_ctx st) (st_msg st) failed g (bals V st) (st_state st) (st_state st') q tk)"
proof -
  from assms(1) obtain tk st1 posw st2 fl r st3 where
    s: "st_get (CanTransfer (vl_eth V) (ms_from (st_msg st)) (st_value st) (ms_transferTokenID (st_msg st))) st = Inr (True, st1)"
    "transferFailureByPoSWBalanceCheck V st1 = Inr (posw, st2)" "make_deposit V tk g posw st2 = Inr ((fl, r), st3)"
    and fd: "finish_deposit V fl r st3 = Inr ((ret, used, failed, None), st')"
    by (auto simp: AddCrossShardTxDeposit_def bind_res_Inr_iff split: if_splits)
  note m1 = state_moves(3) [OF s(1)]
  note f1 = moves_fields [OF m1] and ok1 = moves_ok [OF m1 assms(2)]
  note b1 = frame_block [OF ev_rel_frame [OF f1(8) assms(2)]]
  have m: "moves V st st2" by (rule moves_trans [OF m1 posw_moves [OF s(2)]])
  note f = moves_fields [OF m] and ok2 = moves_ok [OF m assms(2)]
  note b = frame_block [OF ev_rel_frame [OF f(8) assms(2)]]
  have p: "posw \<longleftrightarrow> posw_locked (st_state st) (st_msg st) (bals V st)" "bals V st2 = bals V st"
    using posw_value [OF ok1 s(2)] transition_values(2) [OF assms(2) s(1)] b1 f1 by (simp_all add: posw_locked_def)
  show ?thesis
  proof (cases posw)
    case True
    then have st3: "fl" "r = 0" "st3 = st2\<lparr>st_gas := 0\<rparr>" using s(3) by (simp_all add: make_deposit_def Let_def)
    have ok3: "db_ok V (st_evm st3)" using st3 ok2 by simp
    have z: "sent_back x 0 = 0" for x by (simp add: sent_back_def)
    show ?thesis
      by (rule finish_outcome [OF fd ok3])
        (use st3 f b p True assms(4) in \<open>auto simp: deposit_effect_def st_gasUsed_def plus_balance_def z\<close>)
  next
    case False
    with s(3) have md: "make_deposit V tk g False st2 = Inr ((fl, r), st3)" by simp
    obtain st5 to d where d: "\<not> fl" "moves V st2 st5" "xshard_deposit (st_msg st2) tk to r (ms_to (st_msg st2) = None) = Inr d"
      "st3 = st5\<lparr>st_evm := with_db (st_evm st5) (AppendXShardList d (st_state st5))\<rparr>"
      "\<And>a. ms_to (st_msg st2) = Some a \<Longrightarrow> to = a"
      "\<And>q. chain_config (st_state st5) = Inr q \<Longrightarrow> r = (if forwards_gas q (st_state st5) (st_msg st2) then ms_gasLimit (st_msg st2) - g else 0)"
      "bals V st3 = plus_balance (ms_from (st_msg st2)) (ms_transferTokenID (st_msg st2)) (- st_value st2) (bals V st2)"
      by (rule make_deposit_done [OF md ok2]) (rule that)
    note f5 = moves_fields [OF d(2)]
    note b5 = frame_block [OF ev_rel_frame [OF f5(8) ok2]]
    have ok3: "db_ok V (st_evm st3)" unfolding d(4) using AppendXShardList_ok [OF moves_ok [OF d(2) ok2]] by simp
    have c: "chain_config (st_state st3) = chain_config (st_state st)" "chain_token (st_state st3) = chain_token (st_state st)"
      "sdb_timeStamp (st_state st3) = sdb_timeStamp (st_state st)" "GetGasUsed (st_state st3) = GetGasUsed (st_state st)"
      "GetXShardList (st_state st3) = GetXShardList (st_state st) @ [d]" "st_gp st3 = st_gp st" "st_msg st3 = st_msg st"
      "st_gasUsed st3 = g" "st_gasPrice st3 = ms_gasPrice (st_msg st)" "st_ctx st3 = st_ctx st" "chain_config (st_state st5) = chain_config (st_state st)"
      using d(4) b5 b f5 f assms(3,6) by (simp_all add: AppendXShardList_simps st_gasUsed_def)
    have fg: "forwards_gas q (st_state st5) = forwards_gas q (st_state st)" for q using b5 b by (simp add: forwards_gas_def fun_eq_iff)
    show ?thesis
    proof (rule finish_outcome [OF fd ok3])
      fix q tk' assume h: "fl = failed" "chain_config (st_state st3) = Inr q" "chain_token (st_state st3) = Inr tk'" "st_gp st' = st_gp st3"
        "GetXShardList (st_state st') = GetXShardList (st_state st3)"
        "GetGasUsed (st_state st') = GetGasUsed (st_state st3) + uint (if qc_EnableEvmTimeStamp q \<le> sdb_timeStamp (st_state st3) \<and> \<not> failed
           then st_gasUsed st3 - 9000 else st_gasUsed st3)"
        "ms_from (st_msg st3) \<noteq> 0 \<Longrightarrow> cx_Coinbase (st_ctx st3) \<noteq> ms_from (st_msg st3) \<Longrightarrow>
           bals V st' (ms_from (st_msg st3)) = plus_balance (ms_from (st_msg st3)) tk'
             (sent_back (st_msg st3) (uint (ms_gasLimit (st_msg st3) - st_gasUsed st3 - r) * st_gasPrice st3)) (bals V st3) (ms_from (st_msg st3))"
      have r: "r = (if forwards_gas q (st_state st) (st_msg st) then ms_gasLimit (st_msg st) - g else 0)"
        using d(6) [of q] h(2) c f fg by simp
      have cd: "carries (st_msg st) (uint r) d" using xshard_deposit_carries [of "st_msg st" tk to r d] d(3,5) f by simp
      have z: "sent_back x 0 = 0" for x by (simp add: sent_back_def)
      have w: "bals V st3 = plus_balance (ms_from (st_msg st)) (ms_transferTokenID (st_msg st)) (- ms_amount (st_msg st)) (bals V st)"
        using d(7) f p(2) assms(5) by simp
      have bal: "ms_from (st_msg st) \<noteq> 0 \<longrightarrow> cx_Coinbase (st_ctx st) \<noteq> ms_from (st_msg st) \<longrightarrow>
        (\<forall>j. balance_of (vl_eth V) (st_state st') (ms_from (st_msg st)) j = bals V st (ms_from (st_msg st)) j
           - (if \<not> failed \<and> j = ms_transferTokenID (st_msg st) then ms_amount (st_msg st) else 0)
           + (if \<not> failed \<and> \<not> forwards_gas q (st_state st) (st_msg st) \<and> j = tk'
              then sent_back (st_msg st) (uint (ms_gasLimit (st_msg st) - g) * ms_gasPrice (st_msg st)) else 0))"
        using h(7) d(1) h(1) unfolding c(7-10) w r by (auto simp: plus_balance_def z)
      show ?thesis using h(1-6) bal cd d(1) p(1) False c unfolding deposit_effect_def r by (auto split: if_splits)
    qed
  qed
qed

text \<open>C8: A cross-shard message that is accepted makes no deposit exactly when the proof of staked work locks its
  sender: after the gas is bought, the sender's balance of the chain's token does not cover the value and the locked
  stake; it is then charged the whole gas limit. Otherwise it leaves exactly one deposit for the other shard, with
  its hash, sender, value, token, gas price, data, recipient and shard key. Once the EVM is enabled, or for a
  contract creation, the deposit carries the gas that is left after the intrinsic gas with the 9000 of the deposit,
  and before that none, the sender being refunded. Once the EVM is enabled this shard counts the intrinsic gas
  without the 9000, which the other shard charges, and before that with them. The sender, when it is neither the
  coinbase nor the address 0 that burnt gas goes to, pays the gas limit, and the value when a deposit is made. The
  gas pool of the block loses the gas limit in every case. The state is one in which no account has its balances in
  a token trie (\<open>state_ok\<close>) and whose revisions are in order (\<open>revs_ok\<close>).\<close>

theorem cross_shard_deposit:
  assumes "state_ok (vl_eth V) (ev_StateDB evm)" "revs_ok (ev_StateDB evm)"
    "\<not> cx_IsApplyXShard (ev_Context evm)" "ms_isCrossShard msg"
    "ApplyMessage V P evm msg gp = Some (Inr ((ret, used, failed, None), st'))"
  shows "\<exists>g q tk. IntrinsicGas P (ms_data msg) (ms_to msg = None) False = Inr g \<and> st_gp st' = gp - ms_gasLimit msg \<and>
    chain_config (ev_StateDB evm) = Inr q \<and> chain_token (ev_StateDB evm) = Inr tk \<and>
    (let bal = after_gas (ev_Context evm) msg (balance_of (vl_eth V) (ev_StateDB evm));
         enabled = (qc_EnableEvmTimeStamp q \<le> sdb_timeStamp (ev_StateDB evm)); left = ms_gasLimit msg - (g + 9000) in
     (failed \<longleftrightarrow> posw_locked (ev_StateDB evm) msg bal) \<and>
     (if failed then GetXShardList (st_state st') = GetXShardList (ev_StateDB evm) \<and>
        GetGasUsed (st_state st') = GetGasUsed (ev_StateDB evm) + uint (ms_gasLimit msg)
      else (\<exists>d. GetXShardList (st_state st') = GetXShardList (ev_StateDB evm) @ [d] \<and>
          carries msg (if enabled \<or> ms_to msg = None then uint left else 0) d) \<and>
        GetGasUsed (st_state st') = GetGasUsed (ev_StateDB evm) + uint (if enabled then g else g + 9000)) \<and>
     (ms_from msg \<noteq> 0 \<longrightarrow> cx_Coinbase (ev_Context evm) \<noteq> ms_from msg \<longrightarrow>
        (\<forall>j. balance_of (vl_eth V) (st_state st') (ms_from msg) j = bal (ms_from msg) j
           - (if \<not> failed \<and> j = ms_transferTokenID msg then ms_amount msg else 0)
           + (if \<not> failed \<and> \<not> (enabled \<or> ms_to msg = None) \<and> j = tk then sent_back msg (uint left * ms_gasPrice msg) else 0))))"
proof -
  define st where "st = NewStateTransition evm msg gp"
  have n: "st_msg st = msg" "st_gas st = 0" "st_data st = ms_data msg" "st_gp st = gp" "st_evm st = evm"
    "st_value st = ms_amount msg" "st_gasPrice st = ms_gasPrice msg"
    by (simp_all add: st_def NewStateTransition_def)
  from assms(5) obtain err g st1 where p: "prepay V P st = Inr ((err, g), st1)"
    by (auto simp: ApplyMessage_def TransitionDb_def bindF_Inr st_def)
  then have "err = None" using assms(5) by (cases err) (auto simp: ApplyMessage_def TransitionDb_def bindF_Inr st_def)
  then have pn: "prepay V P st = Inr ((None, g), st1)" using p by simp
  from prepay_None [OF pn] assms(3,4) n have i: "IntrinsicGas P (ms_data msg) (ms_to msg = None) True = Inr g" "g \<le> ms_gasLimit msg"
    and m1: "moves V (paid st g) st1" by simp_all
  note f1 = moves_fields [OF m1]
  obtain g0 where g0: "IntrinsicGas P (ms_data msg) (ms_to msg = None) False = Inr g0" "g = g0 + 9000"
    using i(1) by (auto simp: IntrinsicGas_cross bind_res_Inr_iff)
  have "ms_isCrossShard (st_msg st1)" using f1 assms(4) n by (simp add: paid_def Let_def)
  with assms(5) pn obtain st2 where x: "increase_nonce V st1 = Inr st2" "AddCrossShardTxDeposit V g st2 = Inr ((ret, used, failed, None), st')"
    by (auto simp: ApplyMessage_def TransitionDb_def bindF_Inr st_def)
  note f2 = moves_fields [OF increase_nonce_moves [OF x(1)]]
  have ok: "db_ok V evm" using assms(1,2) by (simp add: db_ok_def)
  have ok1: "db_ok V (st_evm st1)" using db_ok_rel [OF f1(8)] ok n by (simp add: paid_def Let_def)
  have e: "ev_rel V evm (st_evm st2)" using f1(8) f2(8) n by (auto simp: paid_def Let_def intro: ev_rel_trans)
  note b = frame_block [OF ev_rel_frame [OF e ok]]
  have f: "st_msg st2 = msg" "st_gp st2 = gp - ms_gasLimit msg" "st_initialGas st2 = ms_gasLimit msg" "st_gasUsed st2 = g"
    "st_value st2 = ms_amount msg" "st_gasPrice st2 = ms_gasPrice msg" "st_ctx st2 = ev_Context evm"
    using f1 f2 n by (simp_all add: paid_def Let_def st_gasUsed_def)
  have v: "bals V st2 = after_gas (ev_Context evm) msg (balance_of (vl_eth V) (ev_StateDB evm))"
    using increase_nonce_value [OF ok1 x(1)] prepay_value [OF _ pn] ok assms(3) n by (simp add: after_gas_def)
  have l: "posw_locked (st_state st2) = posw_locked (ev_StateDB evm)" "forwards_gas q (st_state st2) = forwards_gas q (ev_StateDB evm)" for q
    using b by (simp_all add: posw_locked_def forwards_gas_def fun_eq_iff)
  have "g - 9000 = g0" using g0(2) by simp
  from deposit_outcome [OF x(2) db_ok_rel [OF e ok]] f obtain q tk where h: "st_gp st' = st_gp st2"
    "chain_config (st_state st2) = Inr q" "chain_token (st_state st2) = Inr tk"
    "deposit_effect (vl_eth V) (ev_Context evm) msg failed g (bals V st2) (st_state st2) (st_state st') q tk" by auto
  from h(4) \<open>g - 9000 = g0\<close> show ?thesis
    unfolding g0(2) deposit_effect_def v l forwards_gas_def Let_def b
    by (intro exI [of _ g0] exI [of _ q] exI [of _ tk]) (use g0(1) h(1-3) f(2) b in simp)
qed

section \<open>Messages on a sample state\<close>

definition sample_config :: QuarkChainConfig where
  "sample_config =
     \<lparr>qc_ChainSize = 1, qc_MaxNeighbors = 32, qc_NetworkID = 3, qc_TransactionQueueSizeLimitPerShard = 10000,
      qc_BlockExtraDataSizeLimit = 1024, qc_GuardianPublicKey = [], qc_RootSignerPrivateKey = [], qc_P2PProtocolVersion = 0,
      qc_P2PCommandSizeLimit = DefaultP2PCmddSizeLimit, qc_SkipRootDifficultyCheck = False, qc_SkipRootCoinbaseCheck = False,
      qc_SkipMinorDifficultyCheck = False, qc_GenesisToken = DefaultToken, qc_Root = None, qc_shards = [], qc_Chains = [],
      qc_RewardTaxRate = 1 / 2, qc_LocalFeeRate = 1 / 2, qc_RewardCalculateRate = 1, qc_BlockRewardDecayFactor = 1 / 2,
      qc_chainIdToShardSize = [], qc_chainIdToShardIds = [], qc_defaultChainTokenID = 1, qc_EnableEvmTimeStamp = 0,
      qc_EnableQkcHashXHeight = 0, qc_EnableNonReservedNativeTokenTimestamp = - 1,
      qc_EnableGeneralNativeTokenTimestamp = - 1, qc_EnablePoswStakingDecayTimestamp = 0, qc_EnableEIP155SignerTimestamp = 0,
      qc_BaseEthChainID = 0, qc_DisablePowCheck = False, qc_XShardGasDDOSFixRootHeight = 90000,
      qc_MinTXPoolGasPrice = None, qc_MinMiningGasPrice = None, qc_GRPCHost = [], qc_GRPCPort = 0,
      qc_RootChainPoSWContractBytecodeHash = 0\<rparr>"

definition std_tx :: tx_params where
  "std_tx = \<lparr>p_TxGas = 21000, p_TxGasContractCreation = 53000, p_TxDataNonZeroGas = 68, p_TxDataZeroGas = 4\<rparr>"

definition tx_evm :: "(bytes \<Rightarrow> bytes, unit) EVM" where
  "tx_evm = (with_db sample_evm (blank_state\<lparr>sdb_quarkChainConfig := Some sample_config\<rparr>))
     \<lparr>ev_Context := (ev_Context sample_evm)\<lparr>cx_GasPriceInGasToken := 0\<rparr>\<rparr>"

definition sample_msg :: "bool \<Rightarrow> Message" where
  "sample_msg cross = \<lparr>ms_to = Some 9, ms_from = 7, ms_nonce = 0, ms_amount = 0, ms_gasLimit = 40000, ms_gasPrice = 0, ms_data = [],
     ms_checkNonce = True, ms_fromFullShardKey = 0, ms_toFullShardKey = Some 5, ms_txHash = 1, ms_isCrossShard = cross,
     ms_transferTokenID = 1, ms_gasTokenID = 1, ms_refundRate = 100\<rparr>"

lemma tx_state_ok: "state_ok (map_lib (\<lambda>k. [])) (ev_StateDB tx_evm)" "revs_ok (ev_StateDB tx_evm)"
proof -
  have "load (map_lib (\<lambda>k. [])) (ev_StateDB tx_evm) a = Inr None" for a
    by (simp add: tx_evm_def load_def blank_state_def New_def map_lib_def)
  then show "state_ok (map_lib (\<lambda>k. [])) (ev_StateDB tx_evm)"
    by (simp add: state_ok_def acct_view_def lookup_def) (simp add: tx_evm_def blank_state_def New_def map_lib_def)
  show "revs_ok (ev_StateDB tx_evm)" by (simp add: tx_evm_def revs_ok_def blank_state_def New_def map_lib_def)
qed

theorem intrinsic_gas_exact_witness:
  "IntrinsicGas std_tx [1, 0, 3] False False = Inr 21140 \<and> IntrinsicGas std_tx [1, 0, 3] False True = Inr 30140"
  using intrinsic_gas_exact [of std_tx "[1, 0, 3]" False False] intrinsic_gas_exact [of std_tx "[1, 0, 3]" False True]
  by (simp add: tx_prices_def std_tx_def exact_gas_def)

theorem message_answered_witness: "\<exists>r. ApplyMessage sample_vm std_tx tx_evm (sample_msg False) 100000 = Some r"
proof -
  have "system_ok tx_evm" using sample_system by (simp add: tx_evm_def system_ok_def)
  from message_answered [OF std_vm_laws this] show ?thesis by blast
qed

lemmas state_evaluation = st_get_def st_do_def db_get_def db_do_def SetNonce_def GetNonce_def GetOrNewStateObject_def
  getStateObject_def createObject_def AddBalance_def SubBalance_def so_AddBalance_def so_SubBalance_def touch_def blank_state_def
  New_def map_lib_def so_SetNonce_def setStateObject_def append_entry_def journal_append_def newObject_def NewAccount_def
  setNonce_def so_SetFullShardKey_def NewEmptyTokenBalances_def newJournal_def journal_dirty_def dirty_count_def setError_def
  err_of_def GetBalance_def so_Balance_def GetTokenBalance_def CanTransfer_def SubRefund_def GetRefund_def Exist_def
  Snapshot_def take_snapshot_def with_db_def CopyWithDB_def TokenBalances_Copy_def so_FullShardKey_def

lemmas transition_evaluation = ApplyMessage_def TransitionDb_def NewStateTransition_def prepay_def start_gas_def preCheck_def
  buyGas_def SubGas_def IntrinsicGas_def data_gas_def st_useGas_def increase_nonce_def
  transferFailureByPoSWBalanceCheck_def bindF_def std_tx_def sample_msg_def tx_evm_def sample_evm_def std_vm_def
  refund_def chargeFee_eq chain_token_def chain_config_def GetDefaultChainTokenID_def sample_config_def st_gasUsed_def
  local_fee_def BigIntMulBigRat_def AddGas_def

lemma sample_local:
  "\<exists>st'. ApplyMessage sample_vm std_tx tx_evm (sample_msg False) 100000 = Some (Inr (([], 21000, False, None), st'))"
  by (simp add: transition_evaluation state_evaluation execute_def settle_def refundGas_def EVM_ops_Suc ops_over_def evm_Call_def
      std_params_def std_rules_def TransferFailureByPoswBalanceCheck_def PrecompiledContractsByzantium_def
      currentMntIDAddr_def transferMntAddr_def deploySystemContractAddr_def MintMNTAddr_def BalanceMNTAddr_def
      big_Sign_def call_done_def st_to_def Let_def)

lemma sample_cross:
  "\<exists>st' used. ApplyMessage sample_vm std_tx tx_evm (sample_msg True) 100000 = Some (Inr (([], used, False, None), st'))"
  by (simp add: transition_evaluation state_evaluation AddCrossShardTxDeposit_def make_deposit_def finish_deposit_def
      xshard_deposit_def GtxxShardCost_def big_Uint64_def AppendXShardList_def Let_def)

lemma tx_context:
  "\<not> cx_IsApplyXShard (ev_Context tx_evm)" "chain_config (ev_StateDB tx_evm) = Inr sample_config"
  "qc_EnableEvmTimeStamp sample_config \<le> sdb_timeStamp (ev_StateDB tx_evm)" "vl_eth sample_vm = map_lib (\<lambda>k. [])"
  by (simp_all add: tx_evm_def sample_evm_def chain_config_def sample_config_def std_vm_def)

lemma tx_ok: "state_ok (vl_eth sample_vm) (ev_StateDB tx_evm)"
  by (simp only: tx_context(4) tx_state_ok)

theorem transition_gas_witness:
  "\<exists>st'. ApplyMessage sample_vm std_tx tx_evm (sample_msg False) 100000 = Some (Inr (([], 21000, False, None), st')) \<and>
    unat (st_gp st') = 79000"
proof -
  from sample_local obtain st' where s:
    "ApplyMessage sample_vm std_tx tx_evm (sample_msg False) 100000 = Some (Inr (([], 21000, False, None), st'))" by blast
  have "\<not> ms_isCrossShard (sample_msg False)" by (simp add: sample_msg_def)
  from transition_gas [OF std_vm_laws tx_ok tx_state_ok(2) tx_context(1) this s] s show ?thesis by auto
qed

theorem cross_shard_deposit_witness:
  "\<exists>st' used d. ApplyMessage sample_vm std_tx tx_evm (sample_msg True) 100000 = Some (Inr (([], used, False, None), st')) \<and>
    GetXShardList (st_state st') = GetXShardList (ev_StateDB tx_evm) @ [d] \<and> carries (sample_msg True) 10000 d"
proof -
  from sample_cross obtain st' used where s:
    "ApplyMessage sample_vm std_tx tx_evm (sample_msg True) 100000 = Some (Inr (([], used, False, None), st'))" by blast
  have m: "ms_isCrossShard (sample_msg True)" "ms_to (sample_msg True) = Some 9" "ms_gasLimit (sample_msg True) = 40000"
    "IntrinsicGas std_tx (ms_data (sample_msg True)) False False = Inr 21000"
    by (simp_all add: sample_msg_def std_tx_def IntrinsicGas_def data_gas_def)
  from cross_shard_deposit [OF tx_ok tx_state_ok(2) tx_context(1) m(1) s] s m(2-4) tx_context(2,3) show ?thesis
    by (auto simp: Let_def)
qed

end
