(* ===== verification/LogFilter.thy ===== *)
theory LogFilter
  imports Serialize Precompiles
begin

text \<open>
  Logs and how they are found again: the bloom filter of a receipt (\<open>core/types/bloom9.go\<close>), receipts
  (\<open>core/types/receipt.go\<close>) and the log filter of the RPC interface (\<open>core/filter.go\<close>).

  \<^item> A \<open>Bloom\<close> is its 256 bytes. The hash function is the one of the library \<open>L\<close>.
  \<^item> The \<open>Backend\<close> of a filter, which the chain implements, is a record of its functions; of a block the filter
    uses the hash and the bloom of the header. The loop over the blocks ends when \<open>begin\<close> has passed \<open>end\<close> or a
    block is missing; it is a partial function, since a range that ends at the largest number would not end.
\<close>

section \<open>Bloom filters\<close>

type_synonym Bloom = bytes

abbreviation "BloomByteLength \<equiv> 256 :: nat"

definition Bloom_SetBytes :: "bytes \<Rightarrow> Bloom \<Rightarrow> Bloom res" where
  "Bloom_SetBytes d b =
     (if length b < length d then Inl (GoPanic ''bloom bytes too big'')
      else Inr (take (BloomByteLength - length d) b @ d))"

definition BytesToBloom :: "bytes \<Rightarrow> Bloom res" where
  "BytesToBloom b = Bloom_SetBytes b (replicate BloomByteLength 0)"

definition Bloom_Big :: "Bloom \<Rightarrow> int" where
  "Bloom_Big b = big_SetBytes b"

definition bloom_bit :: "bytes \<Rightarrow> nat \<Rightarrow> nat" where
  "bloom_bit b i = unat ((ucast (b ! (i + 1)) + push_bit 8 (ucast (b ! i)) :: u64) AND 2047)"

definition bloom9 :: "('t, 'd) eth_lib \<Rightarrow> bytes \<Rightarrow> int" where
  "bloom9 L b =
     (let b = hash_bytes32 (lib_Keccak256 L b)
      in foldl (\<lambda>r i. r OR push_bit (bloom_bit b i) 1) 0 [0, 2, 4])"

definition Bloom_Add :: "('t, 'd) eth_lib \<Rightarrow> int \<Rightarrow> Bloom \<Rightarrow> Bloom res" where
  "Bloom_Add L d b = Bloom_SetBytes (big_bytes (Bloom_Big b OR bloom9 L (big_bytes d))) b"

definition BloomLookup :: "('t, 'd) eth_lib \<Rightarrow> Bloom \<Rightarrow> bytes \<Rightarrow> bool" where
  "BloomLookup L bin topic = (let cmp = bloom9 L topic in (Bloom_Big bin AND cmp) = cmp)"

definition Bloom_Test :: "('t, 'd) eth_lib \<Rightarrow> Bloom \<Rightarrow> int \<Rightarrow> bool" where
  "Bloom_Test L b test = BloomLookup L b (big_bytes test)"

definition LogsBloom :: "('t, 'd) eth_lib \<Rightarrow> Log list \<Rightarrow> int" where
  "LogsBloom L logs =
     foldl (\<lambda>bin lg. foldl (\<lambda>bin b. bin OR bloom9 L (hash_bytes32 b)) (bin OR bloom9 L (addr_bytes (lg_Recipient lg))) (lg_Topics lg))
       0 logs"

section \<open>Receipts\<close>

record Receipt =
  rc_PostState :: bytes
  rc_Status :: u64
  rc_CumulativeGasUsed :: u64
  rc_Bloom :: Bloom
  rc_Logs :: "Log list"
  rc_TxHash :: hash
  rc_ContractAddress :: recipient
  rc_ContractFullShardKey :: u32
  rc_GasUsed :: u64

abbreviation (input) "ReceiptStatusFailed \<equiv> 0 :: u64"
abbreviation (input) "ReceiptStatusSuccessful \<equiv> 1 :: u64"

definition receiptStatusFailedRLP :: bytes where "receiptStatusFailedRLP = []"
definition receiptStatusSuccessfulRLP :: bytes where "receiptStatusSuccessfulRLP = [1]"

definition NewReceipt :: "bytes \<Rightarrow> bool \<Rightarrow> u64 \<Rightarrow> Receipt" where
  "NewReceipt post failed cumulativeGasUsed =
     \<lparr>rc_PostState = post, rc_Status = (if failed then ReceiptStatusFailed else ReceiptStatusSuccessful),
      rc_CumulativeGasUsed = cumulativeGasUsed, rc_Bloom = replicate BloomByteLength 0, rc_Logs = [], rc_TxHash = 0,
      rc_ContractAddress = 0, rc_ContractFullShardKey = 0, rc_GasUsed = 0\<rparr>"

definition GetPrevGasUsed :: "Receipt \<Rightarrow> u64" where
  "GetPrevGasUsed r = rc_CumulativeGasUsed r - rc_GasUsed r"

definition setStatus :: "bytes \<Rightarrow> Receipt \<Rightarrow> Receipt res" where
  "setStatus b r =
     (if b = receiptStatusSuccessfulRLP then Inr (r\<lparr>rc_Status := ReceiptStatusSuccessful\<rparr>)
      else if b = receiptStatusFailedRLP then Inr (r\<lparr>rc_Status := ReceiptStatusFailed\<rparr>)
      else if length b = 32 then Inr (r\<lparr>rc_PostState := b\<rparr>)
      else Inl (GoError ''invalid receipt status''))"

definition statusEncoding :: "Receipt \<Rightarrow> bytes" where
  "statusEncoding r =
     (if length (rc_PostState r) = 0 then
        if rc_Status r = ReceiptStatusFailed then receiptStatusFailedRLP else receiptStatusSuccessfulRLP
      else rc_PostState r)"

definition CreateBloom :: "('t, 'd) eth_lib \<Rightarrow> Receipt list \<Rightarrow> Bloom res" where
  "CreateBloom L receipts = BytesToBloom (big_bytes (foldl (\<lambda>bin r. bin OR LogsBloom L (rc_Logs r)) 0 receipts))"

section \<open>Filters\<close>

record Backend =
  bk_GetBlockByNumber :: "u64 \<Rightarrow> (hash \<times> Bloom) option"
  bk_GetReceiptsByHash :: "hash \<Rightarrow> Receipt list"
  bk_GetLogs :: "hash \<Rightarrow> Log list list"

record Filter =
  ft_backend :: Backend
  ft_addresses :: "recipient list"
  ft_topics :: "hash list list"
  ft_begin :: u64
  ft_end :: u64

definition newFilter :: "Backend \<Rightarrow> recipient list \<Rightarrow> hash list list \<Rightarrow> Filter" where
  "newFilter backend addresses topics =
     \<lparr>ft_backend = backend, ft_addresses = addresses, ft_topics = topics, ft_begin = 0, ft_end = 0\<rparr>"

definition NewRangeFilter :: "Backend \<Rightarrow> u64 \<Rightarrow> u64 \<Rightarrow> recipient list \<Rightarrow> hash list list \<Rightarrow> Filter" where
  "NewRangeFilter backend first fin addresses topics =
     (newFilter backend addresses topics)\<lparr>ft_begin := first, ft_end := fin\<rparr>"

fun includes_addr :: "recipient list \<Rightarrow> recipient \<Rightarrow> bool" where
  "includes_addr [] a = False"
| "includes_addr (addr # addresses) a = (if addr = a then True else includes_addr addresses a)"

fun sub_matches :: "hash list \<Rightarrow> hash \<Rightarrow> bool" where
  "sub_matches [] t = False"
| "sub_matches (topic # sub) t = (if t = topic then True else sub_matches sub t)"

text \<open>The loop over the topics at position \<open>i\<close>; the log has at least as many topics.\<close>

fun topics_match :: "hash list list \<Rightarrow> hash list \<Rightarrow> bool" where
  "topics_match [] ts = True"
| "topics_match (sub # subs) [] = False"
| "topics_match (sub # subs) (t # ts) = ((length sub = 0 \<or> sub_matches sub t) \<and> topics_match subs ts)"

definition log_matches :: "int option \<Rightarrow> int option \<Rightarrow> recipient list \<Rightarrow> hash list list \<Rightarrow> Log \<Rightarrow> bool" where
  "log_matches fromBlock toBlock addresses topics lg =
     (\<not> (case fromBlock of None \<Rightarrow> False | Some b \<Rightarrow> big_Int64 b \<ge> 0 \<and> big_Uint64 b > lg_BlockNumber lg)
      \<and> \<not> (case toBlock of None \<Rightarrow> False | Some b \<Rightarrow> big_Int64 b \<ge> 0 \<and> big_Uint64 b < lg_BlockNumber lg)
      \<and> \<not> (length addresses > 0 \<and> \<not> includes_addr addresses (lg_Recipient lg))
      \<and> \<not> length topics > length (lg_Topics lg)
      \<and> topics_match topics (lg_Topics lg))"

fun FilterLogs :: "Log list \<Rightarrow> int option \<Rightarrow> int option \<Rightarrow> recipient list \<Rightarrow> hash list list \<Rightarrow> Log list" where
  "FilterLogs [] fromBlock toBlock addresses topics = []"
| "FilterLogs (lg # logs) fromBlock toBlock addresses topics =
     (if log_matches fromBlock toBlock addresses topics lg then lg # FilterLogs logs fromBlock toBlock addresses topics
      else FilterLogs logs fromBlock toBlock addresses topics)"

definition bloomFilter :: "('t, 'd) eth_lib \<Rightarrow> Bloom \<Rightarrow> recipient list \<Rightarrow> hash list list \<Rightarrow> bool" where
  "bloomFilter L bloom addresses topics =
     ((length addresses > 0 \<longrightarrow> list_ex (\<lambda>addr. BloomLookup L bloom (addr_bytes addr)) addresses)
      \<and> list_all (\<lambda>sub. length sub = 0 \<or> list_ex (\<lambda>topic. BloomLookup L bloom (hash_bytes32 topic)) sub) topics)"

definition checkMatches :: "Filter \<Rightarrow> hash \<Rightarrow> Log list" where
  "checkMatches f h =
     (let unfiltered = concat (bk_GetLogs (ft_backend f) h);
          logs = FilterLogs unfiltered None None (ft_addresses f) (ft_topics f)
      in if length logs > 0 then
           if lg_TxHash (hd logs) = 0 then
             FilterLogs (concat (map rc_Logs (bk_GetReceiptsByHash (ft_backend f) h))) None None (ft_addresses f) (ft_topics f)
           else logs
         else [])"

definition blockLogs :: "('t, 'd) eth_lib \<Rightarrow> Filter \<Rightarrow> hash \<times> Bloom \<Rightarrow> Log list" where
  "blockLogs L f header =
     (if bloomFilter L (snd header) (ft_addresses f) (ft_topics f) then checkMatches f (fst header) else [])"

text \<open>The result is the logs found with the error, and the filter with \<open>begin\<close> advanced.\<close>

partial_function (option) unindexedLogs_loop :: "('t, 'd) eth_lib \<Rightarrow> Filter \<Rightarrow> u64 \<Rightarrow> Log list
    \<Rightarrow> ((Log list \<times> go_error option) \<times> Filter) option" where
  "unindexedLogs_loop L f fin logs =
     (if ft_begin f \<le> fin then
        (case bk_GetBlockByNumber (ft_backend f) (ft_begin f) of
           None \<Rightarrow> Some (([], Some (GoError ''no such block'')), f)
         | Some header \<Rightarrow>
             unindexedLogs_loop L (f\<lparr>ft_begin := ft_begin f + 1\<rparr>) fin (logs @ blockLogs L f header))
      else Some ((logs, None), f))"

definition unindexedLogs :: "('t, 'd) eth_lib \<Rightarrow> u64 \<Rightarrow> Filter \<Rightarrow> ((Log list \<times> go_error option) \<times> Filter) option" where
  "unindexedLogs L fin f = unindexedLogs_loop L f fin []"

definition Filter_Logs :: "('t, 'd) eth_lib \<Rightarrow> Filter \<Rightarrow> ((Log list \<times> go_error option) \<times> Filter) option" where
  "Filter_Logs L f = unindexedLogs L (ft_end f) f"

section \<open>No log is missed\<close>

lemma bit_bloom9: "bit (bloom9 L b) n \<Longrightarrow> n < 2048"
proof -
  have "bloom_bit x i < 2048" for x i
  proof -
    have "bloom_bit x i \<le> unat (2047 :: u64)" unfolding bloom_bit_def by (rule word_le_nat_alt [THEN iffD1, OF word_and_le1])
    then show ?thesis by simp
  qed
  then show "bit (bloom9 L b) n \<Longrightarrow> n < 2048"
    by (auto simp: bloom9_def Let_def bit_or_iff bit_exp_iff)
qed

text \<open>The numbers a bloom filter can hold.\<close>

definition bloomy :: "int \<Rightarrow> bool" where
  "bloomy x \<longleftrightarrow> 0 \<le> x \<and> (\<forall>n. bit x n \<longrightarrow> n < 2048)"

lemma bloomy_simps: "bloomy 0" "bloomy (bloom9 L b)" "bloomy x \<Longrightarrow> bloomy y \<Longrightarrow> bloomy (x OR y)"
  using bit_bloom9 [of L b] by (auto simp: bloomy_def bit_or_iff bloom9_def Let_def)

lemma bloomy_less: "bloomy x \<Longrightarrow> x < 2 ^ 2048"
proof -
  assume x: "bloomy x"
  then have "take_bit 2048 x = x" by (intro bit_eqI) (auto simp: bit_take_bit_iff bloomy_def)
  then show ?thesis by (metis take_bit_int_less_exp)
qed

lemma Bloom_Big_bytes:
  assumes "bloomy x"
  shows "\<exists>b. BytesToBloom (big_bytes x) = Inr b \<and> Bloom_Big b = x"
proof -
  have "nat x < 2 ^ 2048" using bloomy_less [OF assms] assms by (simp add: bloomy_def nat_less_iff)
  then have "bit_len (nat x) \<le> 2048" by (rule bit_len_le)
  then have l: "length (big_bytes x) \<le> 256" using assms by (simp add: length_big_bytes byte_len_def bloomy_def)
  have "be_value (replicate k 0 @ big_bytes x) = be_value (big_bytes x)" for k by (rule be_value_zeros)
  then have "Bloom_Big (replicate k 0 @ big_bytes x) = x" for k
    using be_value_big_bytes [of x] assms by (simp add: Bloom_Big_def big_SetBytes_def bloomy_def)
  then show ?thesis using l by (simp add: BytesToBloom_def Bloom_SetBytes_def)
qed

text \<open>The bits of the bloom filter of logs are those of their addresses and topics.\<close>

lemma bit_foldl_or:
  "bit (foldl (\<lambda>bin x. bin OR f x) (a :: int) xs) n \<longleftrightarrow> bit a n \<or> (\<exists>x\<in>set xs. bit (f x) n)"
  by (induction xs arbitrary: a) (auto simp: bit_or_iff)

lemma bloomy_foldl: "bloomy a \<Longrightarrow> (\<And>x. x \<in> set xs \<Longrightarrow> bloomy (f x)) \<Longrightarrow> bloomy (foldl (\<lambda>bin x. bin OR f x) a xs)"
  by (induction xs arbitrary: a) (auto simp: bloomy_simps)

lemma LogsBloom_bits:
  "bloomy (LogsBloom L logs)"
  "bit (LogsBloom L logs) n \<longleftrightarrow> (\<exists>lg\<in>set logs. bit (bloom9 L (addr_bytes (lg_Recipient lg))) n
     \<or> (\<exists>t\<in>set (lg_Topics lg). bit (bloom9 L (hash_bytes32 t)) n))"
proof -
  define g where "g bin lg = foldl (\<lambda>bin b. bin OR bloom9 L (hash_bytes32 b)) (bin OR bloom9 L (addr_bytes (lg_Recipient lg))) (lg_Topics lg)"
    for bin :: int and lg :: Log
  have g: "bit (g a lg) n \<longleftrightarrow> bit a n \<or> bit (bloom9 L (addr_bytes (lg_Recipient lg))) n
      \<or> (\<exists>t\<in>set (lg_Topics lg). bit (bloom9 L (hash_bytes32 t)) n)" for a lg n
    by (auto simp: g_def bit_foldl_or bit_or_iff)
  have gb: "bloomy a \<Longrightarrow> bloomy (g a lg)" for a lg unfolding g_def by (intro bloomy_foldl) (auto simp: bloomy_simps)
  have "(bloomy a \<longrightarrow> bloomy (foldl g a logs)) \<and> (bit (foldl g a logs) n \<longleftrightarrow> bit a n \<or> (\<exists>lg\<in>set logs. bit (bloom9 L (addr_bytes (lg_Recipient lg))) n
     \<or> (\<exists>t\<in>set (lg_Topics lg). bit (bloom9 L (hash_bytes32 t)) n)))" for a
    by (induction logs arbitrary: a) (auto simp: g gb)
  then show "bloomy (LogsBloom L logs)" "bit (LogsBloom L logs) n \<longleftrightarrow> (\<exists>lg\<in>set logs. bit (bloom9 L (addr_bytes (lg_Recipient lg))) n
     \<or> (\<exists>t\<in>set (lg_Topics lg). bit (bloom9 L (hash_bytes32 t)) n))"
    unfolding LogsBloom_def g_def by (simp_all add: bloomy_simps)
qed

lemma lookup_covered:
  assumes "\<And>n. bit (bloom9 L t) n \<Longrightarrow> bit (Bloom_Big b) n"
  shows "BloomLookup L b t"
  unfolding BloomLookup_def Let_def by (rule bit_eqI) (auto simp: bit_and_iff assms)

lemma CreateBloom_covers:
  assumes "CreateBloom L receipts = Inr b" "lg \<in> set (concat (map rc_Logs receipts))"
  shows "BloomLookup L b (addr_bytes (lg_Recipient lg))" "t \<in> set (lg_Topics lg) \<Longrightarrow> BloomLookup L b (hash_bytes32 t)"
proof -
  let ?x = "foldl (\<lambda>bin r. bin OR LogsBloom L (rc_Logs r)) 0 receipts"
  have "bloomy ?x" by (intro bloomy_foldl bloomy_simps LogsBloom_bits)
  from Bloom_Big_bytes [OF this] assms(1) have b: "Bloom_Big b = ?x" by (auto simp: CreateBloom_def)
  have "bit (Bloom_Big b) n \<longleftrightarrow> (\<exists>r\<in>set receipts. bit (LogsBloom L (rc_Logs r)) n)" for n unfolding b bit_foldl_or by simp
  then show "BloomLookup L b (addr_bytes (lg_Recipient lg))" "t \<in> set (lg_Topics lg) \<Longrightarrow> BloomLookup L b (hash_bytes32 t)"
    using assms(2) by (auto intro!: lookup_covered simp: LogsBloom_bits(2))
qed

lemma includes_iff: "includes_addr addresses a \<longleftrightarrow> a \<in> set addresses"
  by (induction addresses) auto

lemma sub_matches_iff: "sub_matches sub t \<longleftrightarrow> t \<in> set sub"
  by (induction sub) auto

lemma FilterLogs_filter: "FilterLogs logs fb tb addresses topics = filter (log_matches fb tb addresses topics) logs"
  by (induction logs) auto

lemma topics_match_covered:
  "topics_match topics ts \<Longrightarrow> sub \<in> set topics \<Longrightarrow> sub = [] \<or> (\<exists>t\<in>set sub. t \<in> set ts)"
  by (induction topics ts rule: topics_match.induct) (auto simp: sub_matches_iff)

text \<open>A block with a matching log passes the test of its bloom filter.\<close>

lemma match_passes_bloom:
  assumes "CreateBloom L receipts = Inr b" "lg \<in> set (concat (map rc_Logs receipts))" "log_matches fb tb addresses topics lg"
  shows "bloomFilter L b addresses topics"
proof -
  note c = CreateBloom_covers [OF assms(1,2)]
  have "addresses \<noteq> [] \<Longrightarrow> lg_Recipient lg \<in> set addresses" "topics_match topics (lg_Topics lg)"
    using assms(3) by (auto simp: log_matches_def includes_iff)
  then show ?thesis using c topics_match_covered unfolding bloomFilter_def list_ex_iff list_all_iff by fastforce
qed

section \<open>Searching a range of blocks\<close>

definition indexed :: "('t, 'd) eth_lib \<Rightarrow> Backend \<Rightarrow> u64 \<Rightarrow> bool" where
  "indexed L B n \<longleftrightarrow> (\<exists>h b. bk_GetBlockByNumber B n = Some (h, b) \<and> CreateBloom L (bk_GetReceiptsByHash B h) = Inr b
     \<and> bk_GetLogs B h = map rc_Logs (bk_GetReceiptsByHash B h))"

definition block_logs :: "Backend \<Rightarrow> u64 \<Rightarrow> Log list" where
  "block_logs B n = (case bk_GetBlockByNumber B n of None \<Rightarrow> [] | Some (h, b) \<Rightarrow> concat (bk_GetLogs B h))"

lemma blockLogs_complete:
  assumes "indexed L (ft_backend f) n" "bk_GetBlockByNumber (ft_backend f) n = Some header"
  shows "blockLogs L f header = FilterLogs (block_logs (ft_backend f) n) None None (ft_addresses f) (ft_topics f)"
proof -
  from assms obtain h b where h: "header = (h, b)" "CreateBloom L (bk_GetReceiptsByHash (ft_backend f) h) = Inr b"
    "bk_GetLogs (ft_backend f) h = map rc_Logs (bk_GetReceiptsByHash (ft_backend f) h)" by (auto simp: indexed_def)
  let ?logs = "concat (map rc_Logs (bk_GetReceiptsByHash (ft_backend f) h))"
  have m: "checkMatches f h = FilterLogs ?logs None None (ft_addresses f) (ft_topics f)"
    by (simp add: checkMatches_def h(3) Let_def)
  have "FilterLogs ?logs None None (ft_addresses f) (ft_topics f) = []" if "\<not> bloomFilter L b (ft_addresses f) (ft_topics f)"
    using that match_passes_bloom [OF h(2)] unfolding FilterLogs_filter filter_empty_conv by blast
  then show ?thesis using m h(1,3) assms(2) by (simp add: blockLogs_def block_logs_def)
qed

lemma unindexedLogs_loop_complete:
  assumes "\<forall>n. ft_begin f \<le> n \<and> n \<le> fin \<longrightarrow> indexed L (ft_backend f) n" "fin \<noteq> - 1"
  shows "\<exists>f'. unindexedLogs_loop L f fin logs = Some ((logs @ concat (map (\<lambda>k. FilterLogs (block_logs (ft_backend f) (of_nat k)) None None
    (ft_addresses f) (ft_topics f)) [unat (ft_begin f)..<Suc (unat fin)]), None), f')"
  using assms(1)
proof (induction "Suc (unat fin) - unat (ft_begin f)" arbitrary: f logs)
  case 0
  then have "\<not> ft_begin f \<le> fin" by (simp add: word_le_nat_alt)
  then show ?case using 0 by (simp add: unindexedLogs_loop.simps)
next
  case (Suc d)
  then have le: "ft_begin f \<le> fin" by (simp add: word_le_nat_alt)
  have "unat fin \<noteq> unat (- 1 :: u64)" using assms(2) by (simp only: word_unat_eq_iff not_False_eq_True)
  then have "unat fin \<noteq> 2 ^ 64 - 1" by (simp add: unsigned_minus_1_eq_mask mask_eq_exp_minus_1)
  moreover have "unat fin < 2 ^ 64" using unat_lt_exp [of fin] by simp
  ultimately have "unat (ft_begin f) + unat (1 :: u64) < 2 ^ 64" using le by (simp add: word_le_nat_alt)
  then have s: "unat (ft_begin f + 1) = Suc (unat (ft_begin f))" using unat_add_lt [of "ft_begin f" 1] by simp
  from Suc.prems le obtain header where h: "bk_GetBlockByNumber (ft_backend f) (ft_begin f) = Some header" by (auto simp: indexed_def)
  note b = blockLogs_complete [OF Suc.prems [rule_format] h]
  let ?f = "f\<lparr>ft_begin := ft_begin f + 1\<rparr>"
  have d: "d = Suc (unat fin) - unat (ft_begin ?f)" using Suc.hyps(2) s by simp
  have "\<forall>n. ft_begin ?f \<le> n \<and> n \<le> fin \<longrightarrow> indexed L (ft_backend ?f) n" using Suc.prems s by (simp add: word_le_nat_alt)
  moreover have u: "[unat (ft_begin f)..<Suc (unat fin)] = unat (ft_begin f) # [Suc (unat (ft_begin f))..<Suc (unat fin)]"
    by (rule upt_conv_Cons) (use le in \<open>simp add: word_le_nat_alt\<close>)
  ultimately show ?case using Suc.hyps(1) [OF d, of "logs @ blockLogs L f header"] le h b [OF conjI [OF order.refl le]] s
    by (subst unindexedLogs_loop.simps) (simp del: upt_Suc)
qed

text \<open>C12: The bloom filters never hide a log. If every block of the range has the bloom filter of its receipts,
  searching the range returns exactly the logs of its blocks that match the addresses and topics, in the order
  of the chain, although blocks whose bloom filter does not match are skipped; the search ends unless the range
  reaches the largest block number.\<close>

theorem filter_finds_all:
  assumes "\<forall>n. first \<le> n \<and> n \<le> fin \<longrightarrow> indexed L B n" "fin \<noteq> - 1"
  shows "\<exists>f'. Filter_Logs L (NewRangeFilter B first fin addresses topics) =
    Some ((FilterLogs (concat (map (\<lambda>k. block_logs B (of_nat k)) [unat first..<Suc (unat fin)])) None None addresses topics, None), f')"
proof -
  let ?f = "NewRangeFilter B first fin addresses topics"
  have f: "ft_begin ?f = first" "ft_end ?f = fin" "ft_backend ?f = B" "ft_addresses ?f = addresses" "ft_topics ?f = topics"
    by (simp_all add: NewRangeFilter_def newFilter_def)
  from unindexedLogs_loop_complete [of ?f fin L "[]"] assms show ?thesis
    by (simp add: f Filter_Logs_def unindexedLogs_def FilterLogs_filter filter_concat comp_def)
qed

text \<open>C31: The status of a receipt survives its encoding: the status of a receipt without a post state, and a post
  state of the length of a hash, are read back.\<close>

theorem receipt_status_roundtrip:
  assumes "rc_PostState r = [] \<and> rc_Status r \<in> {0, 1} \<or> length (rc_PostState r) = 32"
  shows "\<exists>r'. setStatus (statusEncoding r) (NewReceipt [] True 0) = Inr r' \<and> rc_PostState r' = rc_PostState r \<and>
    (rc_PostState r = [] \<longrightarrow> rc_Status r' = rc_Status r)"
  using assms by (auto simp: setStatus_def statusEncoding_def receiptStatusFailedRLP_def receiptStatusSuccessfulRLP_def NewReceipt_def)

section \<open>A sample chain\<close>

definition sample_log :: Log where
  "sample_log = \<lparr>lg_Recipient = 9, lg_Topics = [5, 6], lg_Data = [], lg_BlockNumber = 1, lg_TxHash = 3, lg_TxIndex = 0, lg_BlockHash = 2,
     lg_Index = 0, lg_Removed = False\<rparr>"

definition sample_receipts :: "Receipt list" where
  "sample_receipts = [(NewReceipt [] False 21000)\<lparr>rc_Logs := [sample_log, sample_log\<lparr>lg_Recipient := 8\<rparr>]\<rparr>]"

definition sample_backend :: Backend where
  "sample_backend = \<lparr>bk_GetBlockByNumber = (\<lambda>n. case CreateBloom (map_lib (\<lambda>k. [])) sample_receipts of Inl e \<Rightarrow> None | Inr b \<Rightarrow> Some (2, b)),
     bk_GetReceiptsByHash = (\<lambda>h. sample_receipts), bk_GetLogs = (\<lambda>h. map rc_Logs sample_receipts)\<rparr>"

lemma CreateBloom_total: "\<exists>b. CreateBloom L receipts = Inr b"
proof -
  have "bloomy (foldl (\<lambda>bin r. bin OR LogsBloom L (rc_Logs r)) 0 receipts)" by (intro bloomy_foldl bloomy_simps LogsBloom_bits)
  from Bloom_Big_bytes [OF this] show ?thesis by (auto simp: CreateBloom_def)
qed

lemma sample_indexed: "indexed (map_lib (\<lambda>k. [])) sample_backend n"
  using CreateBloom_total [of "map_lib (\<lambda>k. [])" sample_receipts] by (auto simp: indexed_def sample_backend_def)

theorem filter_finds_all_witness:
  "\<exists>f'. Filter_Logs (map_lib (\<lambda>k. [])) (NewRangeFilter sample_backend 1 2 [9] [[5, 7]]) = Some (([sample_log, sample_log], None), f')"
proof -
  have l: "block_logs sample_backend n = [sample_log, sample_log\<lparr>lg_Recipient := 8\<rparr>]" for n
    using CreateBloom_total [of "map_lib (\<lambda>k. [])" sample_receipts] by (auto simp: block_logs_def sample_backend_def sample_receipts_def)
  have r: "[unat (1 :: u64)..<Suc (unat (2 :: u64))] = [1, 2]" by (simp add: upt_rec)
  have m: "log_matches None None [9] [[5, 7]] sample_log" "\<not> log_matches None None [9] [[5, 7]] (sample_log\<lparr>lg_Recipient := 8\<rparr>)"
    by (simp_all add: log_matches_def sample_log_def)
  show ?thesis
    using filter_finds_all [of 1 2 "map_lib (\<lambda>k. [])" sample_backend "[9]" "[[5, 7]]"] sample_indexed unfolding r
    by (simp add: l m)
qed

theorem receipt_status_roundtrip_witness:
  "\<exists>r'. setStatus (statusEncoding (NewReceipt [] False 21000)) (NewReceipt [] True 0) = Inr r' \<and> rc_Status r' = 1"
  using receipt_status_roundtrip [of "NewReceipt [] False 21000"] by (auto simp: NewReceipt_def)

end
