(* ===== verification/Spec2Isabelle.thy ===== *)
theory Spec2Isabelle
  imports TokenCodec Sharding ClusterConfig ChainTypes SerializeCanonical Snapshots StateFinal StateTransition LogFilter
begin

text \<open>
  A verification library for the QuarkChain node, a sharded multi-token blockchain written in Go. File
  names are those under \<open>src/\<close>.

  \<^bold>\<open>The program and its parts.\<close> A cluster runs one root chain and a number of shards. A 32-bit full shard key
  in every address says in which shard an account lives (\<open>account\<close>, \<open>common\<close>), and the cluster configuration
  (\<open>cluster/config\<close>) says which shards exist and which slave runs them. Messages and stored objects use the wire
  format of the package \<open>serialize\<close>. A shard applies transactions to its state: \<open>core/state_transition.go\<close> buys
  the gas of a message, runs it on the virtual machine (\<open>core/vm\<close>), settles the gas and the fee, or leaves a
  deposit for another shard. The virtual machine reads and writes the state database (\<open>core/state\<close>), a journalled
  cache of accounts over a Merkle trie in which an account has balances of several tokens (\<open>core/types/token.go\<close>).

  \<^bold>\<open>Theories.\<close> Each theory opens with what it models and how the data correspond to the code.
  \<^item> \<open>Prelude\<close>, \<open>GoLib\<close>: Go's integers, byte strings and error values, and binary search.
  \<^item> \<open>TokenCodec\<close>: \<open>common/token_codec.go\<close>; token names and ids are in bijection.
  \<^item> \<open>Sharding\<close>: \<open>account\<close> and \<open>common/utils.go\<close>; branches partition the addresses, and the encodings of branches
    and addresses round trip.
  \<^item> \<open>ClusterConfig\<close>: \<open>cluster/config\<close>; a configuration that passes validation, with entries of a chain that
    agree on the shard size and ids and sizes of 16 bits, which validation does not check, routes every key of its
    chains to one shard; exactly which sizes \<open>Update\<close> accepts and when it loses chain 0; slaves partition the shards;
    and the PoSW divider at 64 bits.
  \<^item> \<open>ChainTypes\<close>: transactions, messages, logs, deposits and the cross-shard cursor of \<open>core/types\<close>.
  \<^item> \<open>Serialize\<close>: the package \<open>serialize\<close> over a universe of types and values. The serializer knows whether a value is
    addressable, since the methods of \<open>Uint128\<close> and \<open>Uint256\<close> need that, and the deserializer reads into a target,
    whose old contents remain where nothing is read. Round trip of every well-formed type, and no read outside of
    the buffer on arbitrary bytes. Types with their own methods enter by the interface \<open>serializable\<close>.
    \<open>SerializeCanonical\<close> shows for the types with one encoding that what is read is written as the same bytes.
  \<^item> \<open>EthLib\<close>, \<open>VmLib\<close>: what the code calls of go-ethereum (tries, hashing, RLP, big integer helpers,
    cryptography, protocol constants), as parameters with their documented behaviour as named hypotheses
    (\<open>trie_laws\<close>, \<open>vm_laws\<close>) and instances that satisfy them.
  \<^item> \<open>TokenBalances\<close>, \<open>StateObject\<close>, \<open>StateDB\<close>: the balances of an account, accounts under modification, and the
    state database with journal and snapshots. \<open>StateRevert\<close> shows that every journal entry is undone, by the
    interface \<open>undo_log\<close>; \<open>Snapshots\<close> that a return to a snapshot restores all that can be observed, whatever ran in
    between; \<open>StateFinal\<close> that finalisation deletes the dead accounts, keeps what is read of the others, and writes
    their storage and the accounts into the tries.
  \<^item> \<open>VmStack\<close>, \<open>VmArith\<close>, \<open>EvmState\<close>, \<open>EvmGasTable\<close>, \<open>EvmInstr\<close>, \<open>Precompiles\<close>, \<open>Evm\<close>: the virtual machine, from
    the stack and memory to the instruction tables, the interpreter loop, the calls and creations, and the
    precompiled contracts. \<open>VmStack\<close> and \<open>VmArith\<close> show that the optimised code analysis and the arithmetic on big
    integers are what they should be.
  \<^item> \<open>EvmRel\<close>, \<open>EvmGas\<close>, \<open>EvmCalls\<close>, \<open>EvmRun\<close>, \<open>EvmSafe\<close>: the contract of the machine. \<open>EvmRel\<close> relates a machine to its
    later states; \<open>EvmGas\<close> shows for each instruction that it develops the state by journalled operations and
    pays for continuing; \<open>EvmCalls\<close> has the interface \<open>evm_calls\<close> between an instruction and the calls it makes;
    \<open>EvmRun\<close> proves it for the interpreter and the calls, and interprets it on the machine by induction on the
    nesting; \<open>EvmSafe\<close> draws the conclusions: every call returns, returns no more gas than it got, and leaves the
    state untouched when it fails.
  \<^item> \<open>StateTransition\<close>: \<open>core/state_transition.go\<close> and \<open>core/gaspool.go\<close>; exact gas accounting of a message
    against the pool, the counter and the fees of the block, the intrinsic gas, when a cross-shard
    message makes its deposit, what the deposit carries and what the sender pays, and the errors for which a message
    is refused.
  \<^item> \<open>LogFilter\<close>: \<open>core/filter.go\<close> with the bloom filters and receipts of \<open>core/types\<close>; the search of a range of
    blocks finds exactly the matching logs.

  \<^bold>\<open>Bounds.\<close> The interpreter loop of a contract has the contract's gas plus one as fuel, enough because every
  instruction after which the loop goes on costs gas. The mutual recursion of calls is unfolded \<open>evm_fuel\<close> times,
  three times the call depth limit plus two: a run of code is one level deeper than its caller, and at one depth
  at most three operations nest, through the precompiled contracts that call and create. \<open>calls_return\<close> proves that
  these bounds are never reached; a Go panic, such as that of a slice whose end lies before its start, is one of the
  ways in which a call ends. The search of a filter is a partial function that is shown to return. All
  other recursions are structural or have a termination proof. Machine
  integers wrap around at their width, big integers are \<^typ>\<open>int\<close>.

  \<^bold>\<open>Assumptions.\<close> Beyond the documented behaviour of go-ethereum, the theorems on reverting, on calls that fail
  and on messages assume a state in which no account has moved its balances into a token trie and the account trie
  holds no deleted account (\<open>state_ok\<close>): \<open>revert_loses_trie_balances\<close> shows
  that reverting loses balances otherwise. A nil slice and an empty one are the same value. Hashes are collision-free
  only where a theorem says so.

  \<^bold>\<open>Not modelled.\<close>
  \<^item> Networking, RPC, command line, database drivers and mining threads (\<open>p2p\<close>, \<open>rpc\<close>, \<open>cmd\<close>, \<open>internal\<close>, \<open>qkcdb\<close>,
    \<open>cluster/master\<close>, \<open>cluster/slave\<close>, \<open>cluster/rpc\<close>, \<open>cluster/sync\<close>, \<open>cluster/miner\<close>, \<open>cluster/service\<close>): input and output,
    goroutines and generated protocol code, whose correctness is that of the libraries they drive.
  \<^item> The hash functions of the consensus engines (\<open>consensus/ethash\<close>, \<open>consensus/qkchash\<close>): numeric kernels without a
    specification other than themselves.
  \<^item> The chains, the transaction pool, block validation and raw storage (\<open>core/minorblockchain*.go\<close>,
    \<open>core/rootblockchain.go\<close>, \<open>core/tx_pool.go\<close>, \<open>core/*_validator.go\<close>, \<open>core/rawdb\<close>): they combine the parts modelled
    here with caches, locks and a database.
  \<^item> JSON forms, logging, tracing and metrics everywhere; signing and hashing of transactions and blocks, which
    are parameters.
\<close>

end
